(* ===== verification/Prelude.thy ===== *)
theory Prelude
  imports Complex_Main "HOL-Library.List_Lexorder" "HOL-Library.Char_ord" "HOL-Library.Sublist"
begin

text \<open>
  What every component of the development shares: the Python exceptions the code raises, as
  values of one datatype with the class hierarchy written out as predicates; results that are
  either an exception or a value; database sessions with a committed and a working state; tables
  as lists of rows in insertion order, with the row updates that stand for attribute assignment
  on a loaded row; effectful code as actions; and the contract of tables whose rows move through
  statuses, which several components provide.
\<close>

named_theorems row_simps \<open>how table operations act on rows, for the component proofs\<close>
named_theorems session_simps \<open>commit, rollback and working-state updates\<close>

subsection \<open>Names of the model's types\<close>

text \<open>
  Identifiers are the strings the database stores. Time is a naive UTC timestamp in
  microseconds, the resolution of the standard library's datetimes.
\<close>

type_synonym ident = string
type_synonym time = int

definition seconds :: "int \<Rightarrow> int" where
  "seconds n = n * 1000000"

lemma seconds_mono [simp]: "seconds a \<le> seconds b \<longleftrightarrow> a \<le> b"
  by (simp add: seconds_def)

lemma seconds_less_iff [simp]: "seconds a < seconds b \<longleftrightarrow> a < b"
  by (simp add: seconds_def)

lemma seconds_nonneg_iff [simp]: "0 \<le> seconds a \<longleftrightarrow> 0 \<le> a"
  by (simp add: seconds_def)

lemma seconds_pos_iff [simp]: "0 < seconds a \<longleftrightarrow> 0 < a"
  by (simp add: seconds_def)

definition clamp :: "int \<Rightarrow> int \<Rightarrow> int \<Rightarrow> int" where
  "clamp lo hi n = max lo (min n hi)"

lemma clamp_bounds: "lo \<le> hi \<Longrightarrow> lo \<le> clamp lo hi n \<and> clamp lo hi n \<le> hi"
  by (simp add: clamp_def)

lemma clamp_lower [simp]: "lo \<le> clamp lo hi n"
  by (simp add: clamp_def)

lemma clamp_upper: "lo \<le> hi \<Longrightarrow> clamp lo hi n \<le> hi"
  by (simp add: clamp_def)

lemma clamp_id: "lo \<le> n \<Longrightarrow> n \<le> hi \<Longrightarrow> clamp lo hi n = n"
  by (simp add: clamp_def)

subsection \<open>Exceptions\<close>

text \<open>
  One constructor per exception class that the modelled code raises or catches. The predicates
  below are Python's \<open>isinstance\<close> tests for the classes named in \<open>except\<close> clauses.
\<close>

datatype exn =
    ValueError string
  | WorkflowSpecError string
  | SchemaValidationError string
  | TypeError string
  | KeyError string
  | LookupError string
  | PermissionError string
  | ExecutionContextError string
  | DelegationError string
  | ResourceBudgetExceeded string
  | RuntimeError string
  | CapabilityRegistryError string
  | ApprovalError string
  | IdempotencyConflict string
  | IdempotencyInProgress string
  | AgentRunStateError string
  | AgentLeaseLost string
  | AgentRuntimeDisabled string
  | RuntimeExecutionError string ident string int "ident option"
  | PermanentPlatformJobError string
  | EventDeliveryError string bool
  | OtherError string

fun is_value_error :: "exn \<Rightarrow> bool" where
  "is_value_error (ValueError _) = True"
| "is_value_error (WorkflowSpecError _) = True"
| "is_value_error (SchemaValidationError _) = True"
| "is_value_error _ = False"

fun is_permission_error :: "exn \<Rightarrow> bool" where
  "is_permission_error (PermissionError _) = True"
| "is_permission_error (ExecutionContextError _) = True"
| "is_permission_error (DelegationError _) = True"
| "is_permission_error (ResourceBudgetExceeded _) = True"
| "is_permission_error _ = False"

fun is_lookup_error :: "exn \<Rightarrow> bool" where
  "is_lookup_error (LookupError _) = True"
| "is_lookup_error (KeyError _) = True"
| "is_lookup_error _ = False"

fun is_runtime_error :: "exn \<Rightarrow> bool" where
  "is_runtime_error (RuntimeError _) = True"
| "is_runtime_error (CapabilityRegistryError _) = True"
| "is_runtime_error (ApprovalError _) = True"
| "is_runtime_error (IdempotencyConflict _) = True"
| "is_runtime_error (IdempotencyInProgress _) = True"
| "is_runtime_error (AgentRunStateError _) = True"
| "is_runtime_error (AgentLeaseLost _) = True"
| "is_runtime_error (AgentRuntimeDisabled _) = True"
| "is_runtime_error (RuntimeExecutionError _ _ _ _ _) = True"
| "is_runtime_error (PermanentPlatformJobError _) = True"
| "is_runtime_error (EventDeliveryError _ _) = True"
| "is_runtime_error _ = False"

fun exn_message :: "exn \<Rightarrow> string" where
  "exn_message (ValueError m) = m"
| "exn_message (WorkflowSpecError m) = m"
| "exn_message (SchemaValidationError m) = m"
| "exn_message (TypeError m) = m"
| "exn_message (KeyError m) = m"
| "exn_message (LookupError m) = m"
| "exn_message (PermissionError m) = m"
| "exn_message (ExecutionContextError m) = m"
| "exn_message (DelegationError m) = m"
| "exn_message (ResourceBudgetExceeded m) = m"
| "exn_message (RuntimeError m) = m"
| "exn_message (CapabilityRegistryError m) = m"
| "exn_message (ApprovalError m) = m"
| "exn_message (IdempotencyConflict m) = m"
| "exn_message (IdempotencyInProgress m) = m"
| "exn_message (AgentRunStateError m) = m"
| "exn_message (AgentLeaseLost m) = m"
| "exn_message (AgentRuntimeDisabled m) = m"
| "exn_message (RuntimeExecutionError m _ _ _ _) = m"
| "exn_message (PermanentPlatformJobError m) = m"
| "exn_message (EventDeliveryError m _) = m"
| "exn_message (OtherError m) = m"

type_synonym 'a result = "exn + 'a"

definition bind_result :: "'a result \<Rightarrow> ('a \<Rightarrow> 'b result) \<Rightarrow> 'b result" where
  "bind_result r f = (case r of Inl e \<Rightarrow> Inl e | Inr x \<Rightarrow> f x)"

lemma bind_result_simps [simp]:
  "bind_result (Inl e) f = Inl e"
  "bind_result (Inr x) f = f x"
  by (simp_all add: bind_result_def)

lemma bind_result_Inr_iff:
  "bind_result r f = Inr y \<longleftrightarrow> (\<exists>x. r = Inr x \<and> f x = Inr y)"
  by (cases r) simp_all

lemma bind_result_cong [fundef_cong]:
  "r = r' \<Longrightarrow> (\<And>x. r' = Inr x \<Longrightarrow> f x = g x) \<Longrightarrow> bind_result r f = bind_result r' g"
  by (cases r') simp_all

text \<open>A list of computations run in order; the first exception stops it.\<close>

fun sequence_result :: "('a \<Rightarrow> 'b result) \<Rightarrow> 'a list \<Rightarrow> 'b list result" where
  "sequence_result f [] = Inr []"
| "sequence_result f (x # xs) =
     bind_result (f x) (\<lambda>y. bind_result (sequence_result f xs) (\<lambda>ys. Inr (y # ys)))"

lemma sequence_result_cong [fundef_cong]:
  "xs = ys \<Longrightarrow> (\<And>x. x \<in> set ys \<Longrightarrow> f x = g x) \<Longrightarrow> sequence_result f xs = sequence_result g ys"
  by (induction xs arbitrary: ys) auto

lemma sequence_result_length:
  "sequence_result f xs = Inr ys \<Longrightarrow> length ys = length xs"
  by (induction xs arbitrary: ys) (auto simp: bind_result_Inr_iff)

subsection \<open>Sessions\<close>

text \<open>
  A SQLAlchemy session over one database: \<open>commit\<close> publishes the working state, \<open>rollback\<close>
  discards it. What a transaction wrote before its last commit survives every later rollback.
\<close>

record 'd session =
  committed :: 'd
  working :: 'd

definition commit :: "'d session \<Rightarrow> 'd session" where
  "commit s = s\<lparr>committed := working s\<rparr>"

definition rollback :: "'d session \<Rightarrow> 'd session" where
  "rollback s = s\<lparr>working := committed s\<rparr>"

definition on_working :: "('d \<Rightarrow> 'd) \<Rightarrow> 'd session \<Rightarrow> 'd session" where
  "on_working f s = s\<lparr>working := f (working s)\<rparr>"

lemma session_laws [session_simps]:
  "committed (commit s) = working s"
  "working (commit s) = working s"
  "committed (rollback s) = committed s"
  "working (rollback s) = committed s"
  "committed (on_working f s) = committed s"
  "working (on_working f s) = f (working s)"
  by (simp_all add: commit_def rollback_def on_working_def)

subsection \<open>Tables\<close>

definition update_where :: "('r \<Rightarrow> bool) \<Rightarrow> ('r \<Rightarrow> 'r) \<Rightarrow> 'r list \<Rightarrow> 'r list" where
  "update_where P f rows = map (\<lambda>r. if P r then f r else r) rows"

lemma update_where_simps [simp]:
  "update_where P f [] = []"
  "update_where P f (r # rs) = (if P r then f r else r) # update_where P f rs"
  by (simp_all add: update_where_def)

lemma length_update_where [simp]: "length (update_where P f rows) = length rows"
  by (simp add: update_where_def)

lemma ball_update_where [row_simps]:
  "(\<forall>r \<in> set (update_where P f rows). Q r) \<longleftrightarrow> (\<forall>r \<in> set rows. Q (if P r then f r else r))"
  by (auto simp: update_where_def)

lemma bex_update_where [row_simps]:
  "(\<exists>r \<in> set (update_where P f rows). Q r) \<longleftrightarrow> (\<exists>r \<in> set rows. Q (if P r then f r else r))"
  by (auto simp: update_where_def)

lemma set_update_where:
  "set (update_where P f rows) = {f r | r. r \<in> set rows \<and> P r} \<union> {r. r \<in> set rows \<and> \<not> P r}"
  by (auto simp: update_where_def)

lemma update_where_none: "(\<And>r. r \<in> set rows \<Longrightarrow> \<not> P r) \<Longrightarrow> update_where P f rows = rows"
  by (induction rows) auto

lemma map_update_where [row_simps]:
  "(\<And>r. k (f r) = k r) \<Longrightarrow> map k (update_where P f rows) = map k rows"
  by (induction rows) auto

lemma find_update_where:
  "(\<And>r. k (f r) = k r) \<Longrightarrow>
   find (\<lambda>r. k r = x) (update_where P f rows) =
     map_option (\<lambda>r. if P r then f r else r) (find (\<lambda>r. k r = x) rows)"
  by (induction rows) auto

lemma find_SomeD: "find P xs = Some x \<Longrightarrow> x \<in> set xs \<and> P x"
  by (induction xs) (auto split: if_splits)

lemma find_None_iff_all: "find P xs = None \<longleftrightarrow> (\<forall>x \<in> set xs. \<not> P x)"
  by (induction xs) auto

lemma find_append: "find P (xs @ ys) = (case find P xs of Some x \<Rightarrow> Some x | None \<Rightarrow> find P ys)"
  by (induction xs) auto

lemma find_distinct_key:
  "distinct (map k xs) \<Longrightarrow> x \<in> set xs \<Longrightarrow> find (\<lambda>y. k y = k x) xs = Some x"
  by (induction xs) (auto simp: image_iff)

subsection \<open>Effectful code that may raise\<close>

text \<open>
  An action takes the state, and gives an exception or a value together with the state that is
  left: an exception does not undo what was done before it.
\<close>

type_synonym ('s, 'a) act = "'s \<Rightarrow> 'a result \<times> 's"

definition ret :: "'a \<Rightarrow> ('s, 'a) act" where
  "ret x s = (Inr x, s)"

definition raise :: "exn \<Rightarrow> ('s, 'a) act" where
  "raise e s = (Inl e, s)"

definition lift :: "'a result \<Rightarrow> ('s, 'a) act" where
  "lift r s = (r, s)"

definition modify :: "('s \<Rightarrow> 's) \<Rightarrow> ('s, unit) act" where
  "modify f s = (Inr (), f s)"

definition bind_act :: "('s, 'a) act \<Rightarrow> ('a \<Rightarrow> ('s, 'b) act) \<Rightarrow> ('s, 'b) act" where
  "bind_act m f s = (case m s of (Inl e, s') \<Rightarrow> (Inl e, s') | (Inr x, s') \<Rightarrow> f x s')"

lemma act_simps [simp]:
  "ret x s = (Inr x, s)"
  "raise e s = (Inl e, s)"
  "lift r s = (r, s)"
  "modify f s = (Inr (), f s)"
  by (simp_all add: ret_def raise_def lift_def modify_def)

lemma bind_act_simps [simp]:
  "m s = (Inl e, s') \<Longrightarrow> bind_act m f s = (Inl e, s')"
  "m s = (Inr x, s') \<Longrightarrow> bind_act m f s = f x s'"
  by (simp_all add: bind_act_def)

lemma bind_act_Inr_iff:
  "bind_act m f s = (Inr y, t) \<longleftrightarrow> (\<exists>x s'. m s = (Inr x, s') \<and> f x s' = (Inr y, t))"
  by (auto simp: bind_act_def split: prod.splits sum.splits)

text \<open>A fact about the state that every outcome of an action keeps.\<close>

definition keeps :: "('s \<Rightarrow> 's \<Rightarrow> bool) \<Rightarrow> ('s, 'a) act \<Rightarrow> bool" where
  "keeps R m = (\<forall>s. R s (snd (m s)))"

lemma keeps_bind:
  assumes "keeps R m" "\<And>x. keeps R (f x)" "transp R"
  shows "keeps R (bind_act m f)"
  using assms unfolding keeps_def bind_act_def
  by (auto split: prod.splits sum.splits) (metis snd_conv transpE)+

lemma keeps_atoms:
  "reflp R \<Longrightarrow> keeps R (ret x)" "reflp R \<Longrightarrow> keeps R (raise e)" "reflp R \<Longrightarrow> keeps R (lift r)"
  by (simp_all add: keeps_def reflp_def)

subsection \<open>Rows that move through states\<close>

text \<open>
  The contract of a table whose rows have a status: every operation on the table moves the status
  of a row it finds along the permitted moves, or leaves it. Clients learn that a row stays in a
  status without moves, whatever is done afterwards; with a rank that every move raises, that a
  row never comes back to a status it has left.
\<close>

locale lifecycle =
  fixes step :: "'s \<Rightarrow> 's \<Rightarrow> bool"
    and status :: "'s \<Rightarrow> ident \<Rightarrow> 'st option"
    and moves :: "'st \<Rightarrow> 'st \<Rightarrow> bool"
  assumes step_moves:
    "step s s' \<Longrightarrow> status s i = Some a \<Longrightarrow> \<exists>b. status s' i = Some b \<and> (b = a \<or> moves a b)"
begin

lemma steps_path:
  assumes "step\<^sup>*\<^sup>* s s'" "status s i = Some a"
  shows "\<exists>b. status s' i = Some b \<and> moves\<^sup>*\<^sup>* a b"
  using assms
proof (induction rule: rtranclp_induct)
  case (step t u)
  then obtain b where b: "status t i = Some b" "moves\<^sup>*\<^sup>* a b" by blast
  with step_moves [OF step.hyps(2)] show ?case by (metis rtranclp.rtrancl_into_rtrancl)
qed auto

lemma terminal_stays:
  assumes "step\<^sup>*\<^sup>* s s'" "status s i = Some a" "\<And>b. \<not> moves a b"
  shows "status s' i = Some a"
  using steps_path [OF assms(1,2)] assms(3) by (metis converse_rtranclpE)

lemma closed_stays:
  assumes "step\<^sup>*\<^sup>* s s'" "status s i = Some a" "P a" "\<And>x y. P x \<Longrightarrow> moves x y \<Longrightarrow> P y"
  shows "\<exists>b. status s' i = Some b \<and> P b"
proof -
  obtain b where "status s' i = Some b" "moves\<^sup>*\<^sup>* a b" using steps_path assms(1,2) by blast
  moreover have "P b" using \<open>moves\<^sup>*\<^sup>* a b\<close> by induction (use assms(3,4) in auto)
  ultimately show ?thesis by blast
qed

end

locale ranked_lifecycle = lifecycle +
  fixes rank :: "'st \<Rightarrow> nat"
  assumes moves_rank: "moves a b \<Longrightarrow> rank a < rank b"
begin

lemma never_returns:
  assumes "step\<^sup>*\<^sup>* s s'" "status s i = Some a" "status s' i = Some b" "b \<noteq> a" "step\<^sup>*\<^sup>* s' s''"
  shows "status s'' i \<noteq> Some a"
proof -
  have le: "moves\<^sup>*\<^sup>* x y \<Longrightarrow> rank x \<le> rank y \<and> (x \<noteq> y \<longrightarrow> rank x < rank y)" for x y
    by (induction rule: rtranclp_induct) (auto dest: moves_rank)
  have "rank a < rank b" using steps_path [OF assms(1,2)] assms(3,4) le by auto
  moreover obtain c where "status s'' i = Some c" "moves\<^sup>*\<^sup>* b c"
    using steps_path [OF assms(5,3)] by blast
  ultimately show ?thesis using le by fastforce
qed

end

end
