(* ===== verification/Py_Json.thy ===== *)
theory Py_Json
  imports Prelude
begin

text \<open>
  The Python values that reach the modelled code: what \<open>json.loads\<close> produces, with the language's
  own operations on them (truth value, \<open>==\<close>, ordering, \<open>in\<close>, \<open>str\<close>, \<open>int\<close>, the string methods)
  and \<open>json.dumps\<close>. A string is a list of code points below 256, on which \<open>strip\<close>, \<open>lower\<close>,
  \<open>isdigit\<close> and \<open>split\<close> are exactly Python's. An object is the list of its items in insertion order.
  A float is the rational number it denotes; infinities and not-a-number are not modelled.
\<close>

datatype json =
    JNull
  | JBool bool
  | JInt int
  | JFloat rat
  | JStr string
  | JArr "json list"
  | JObj "(string \<times> json) list"

text \<open>
  What the interpreter supplies and the code cannot define: the shortest decimal text of a float,
  SHA-256, ISO 8601 parsing and printing (local time and optional offset), and the time-zone
  database, as the two conversions between UTC and a zone's wall clock.
\<close>

record host =
  float_repr :: "rat \<Rightarrow> string"
  sha256_hex :: "string \<Rightarrow> string"
  iso_parse :: "string \<Rightarrow> (int \<times> int option) option"
  iso_format :: "int \<Rightarrow> string"
  zone_known :: "string \<Rightarrow> bool"
  utc_to_wall :: "string \<Rightarrow> int \<Rightarrow> int"
  wall_to_utc :: "string \<Rightarrow> int \<Rightarrow> int"

subsection \<open>Characters and strings\<close>

definition code_point :: "char \<Rightarrow> nat" where
  "code_point c = of_char c"

definition is_space :: "char \<Rightarrow> bool" where
  "is_space c = (code_point c \<in> {9, 10, 11, 12, 13, 28, 29, 30, 31, 32, 133, 160})"

definition is_decimal :: "char \<Rightarrow> bool" where
  "is_decimal c = (48 \<le> code_point c \<and> code_point c \<le> 57)"

text \<open>\<open>str.isdigit\<close> also accepts the superscripts two, three and one.\<close>

definition is_digit_char :: "char \<Rightarrow> bool" where
  "is_digit_char c = (is_decimal c \<or> code_point c \<in> {178, 179, 185})"

definition is_letter_ascii :: "char \<Rightarrow> bool" where
  "is_letter_ascii c =
     (65 \<le> code_point c \<and> code_point c \<le> 90 \<or> 97 \<le> code_point c \<and> code_point c \<le> 122)"

definition is_lower_ascii :: "char \<Rightarrow> bool" where
  "is_lower_ascii c = (97 \<le> code_point c \<and> code_point c \<le> 122)"

definition lower_char :: "char \<Rightarrow> char" where
  "lower_char c =
     (let n = code_point c in
      if 65 \<le> n \<and> n \<le> 90 \<or> 192 \<le> n \<and> n \<le> 222 \<and> n \<noteq> 215 then char_of (n + 32) else c)"

definition py_lower :: "string \<Rightarrow> string" where
  "py_lower s = map lower_char s"

definition py_strip :: "string \<Rightarrow> string" where
  "py_strip s = rev (dropWhile is_space (rev (dropWhile is_space s)))"

definition py_isdigit :: "string \<Rightarrow> bool" where
  "py_isdigit s = (s \<noteq> [] \<and> list_all is_digit_char s)"

definition starts_with :: "string \<Rightarrow> string \<Rightarrow> bool" where
  "starts_with p s = prefix p s"

definition ends_with :: "string \<Rightarrow> string \<Rightarrow> bool" where
  "ends_with p s = suffix p s"

text \<open>\<open>s.split(sep)\<close> for a one-character separator: never empty, empty parts kept.\<close>

fun split_on :: "char \<Rightarrow> string \<Rightarrow> string list" where
  "split_on sep [] = [[]]"
| "split_on sep (c # cs) =
     (if c = sep then [] # split_on sep cs
      else (c # hd (split_on sep cs)) # tl (split_on sep cs))"

lemma split_on_nonempty [simp]: "split_on sep s \<noteq> []"
  by (induction s) auto

text \<open>\<open>s.split()\<close>: the maximal runs of characters that are not white space.\<close>

fun split_ws_aux :: "string \<Rightarrow> string \<Rightarrow> string list" where
  "split_ws_aux acc [] = (if acc = [] then [] else [rev acc])"
| "split_ws_aux acc (c # cs) =
     (if is_space c then (if acc = [] then split_ws_aux [] cs else rev acc # split_ws_aux [] cs)
      else split_ws_aux (c # acc) cs)"

definition split_ws :: "string \<Rightarrow> string list" where
  "split_ws s = split_ws_aux [] s"

fun join :: "string \<Rightarrow> string list \<Rightarrow> string" where
  "join sep [] = []"
| "join sep [s] = s"
| "join sep (s # t # ss) = s @ sep @ join sep (t # ss)"

lemma join_split_on: "join [sep] (split_on sep s) = s"
proof (induction s)
  case Nil
  then show ?case by simp
next
  case (Cons c cs)
  obtain p ps where "split_on sep cs = p # ps"
    by (cases "split_on sep cs") auto
  with Cons show ?case by (cases ps) auto
qed

lemma lower_char_idem: "lower_char (lower_char c) = lower_char c"
proof -
  have "of_char c < (256::nat)" using of_char_mod_256 [of c, where 'a = nat]
    by (metis mod_less_divisor zero_less_numeral)
  then show ?thesis
    by (auto simp: lower_char_def code_point_def Let_def of_char_of)
qed

lemma py_lower_idem [simp]: "py_lower (py_lower s) = py_lower s"
  by (simp add: py_lower_def lower_char_idem)

lemma py_strip_idem [simp]: "py_strip (py_strip s) = py_strip s"
proof -
  have 1: "dropWhile is_space (dropWhile is_space t) = dropWhile is_space t" for t
    by (induction t) auto
  let ?t = "dropWhile is_space s"
  have u: "?t = rev (dropWhile is_space (rev ?t)) @ rev (takeWhile is_space (rev ?t))"
    by (simp flip: rev_append)
  have "dropWhile is_space (rev (dropWhile is_space (rev ?t))) = rev (dropWhile is_space (rev ?t))"
  proof (cases "rev (dropWhile is_space (rev ?t))")
    case Nil
    then show ?thesis by (simp only: dropWhile.simps)
  next
    case (Cons c cs)
    with u obtain w where "?t = c # w" by (metis append_Cons)
    then have "\<not> is_space c" by (metis hd_dropWhile list.distinct(1) list.sel(1))
    with Cons show ?thesis by simp
  qed
  with 1 show ?thesis by (simp add: py_strip_def)
qed

lemma py_strip_Nil [simp]: "py_strip [] = []"
  by (simp add: py_strip_def)

subsection \<open>Numbers in text\<close>

fun nat_digits :: "nat \<Rightarrow> string" where
  "nat_digits n =
     (if n < 10 then [char_of (48 + n)] else nat_digits (n div 10) @ [char_of (48 + n mod 10)])"

declare nat_digits.simps [simp del]

definition int_str :: "int \<Rightarrow> string" where
  "int_str i = (if i < 0 then ''-'' @ nat_digits (nat (- i)) else nat_digits (nat i))"

fun digits_value :: "nat \<Rightarrow> string \<Rightarrow> nat" where
  "digits_value acc [] = acc"
| "digits_value acc (c # cs) = digits_value (10 * acc + (code_point c - 48)) cs"

text \<open>\<open>int(text)\<close>: white space, a sign, digits with single underscores between them, at most 4300.\<close>

fun underscores_ok :: "string \<Rightarrow> bool" where
  "underscores_ok [] = False"
| "underscores_ok [c] = is_decimal c"
| "underscores_ok (c # d # cs) =
     (is_decimal c \<and> (if d = CHR ''_'' then underscores_ok cs else underscores_ok (d # cs)))"

definition parse_int :: "string \<Rightarrow> int option" where
  "parse_int s =
     (let t = py_strip s;
          neg = (case t of c # _ \<Rightarrow> c = CHR ''-'' | [] \<Rightarrow> False);
          body = (case t of c # cs \<Rightarrow> if c = CHR ''-'' \<or> c = CHR ''+'' then cs else t | [] \<Rightarrow> []);
          digits = filter (\<lambda>c. c \<noteq> CHR ''_'') body
      in if underscores_ok body \<and> length digits \<le> 4300
         then Some ((if neg then - 1 else 1) * int (digits_value 0 digits))
         else None)"

definition py_int :: "json \<Rightarrow> int result" where
  "py_int v = (case v of
       JBool b \<Rightarrow> Inr (if b then 1 else 0)
     | JInt i \<Rightarrow> Inr i
     | JFloat q \<Rightarrow> Inr (if q < 0 then - \<lfloor>- q\<rfloor> else \<lfloor>q\<rfloor>)
     | JStr s \<Rightarrow> (case parse_int s of
           Some i \<Rightarrow> Inr i
         | None \<Rightarrow> Inl (ValueError ''invalid literal for int() with base 10''))
     | _ \<Rightarrow> Inl (TypeError ''int() argument must be a string or a real number''))"

subsection \<open>Truth value, equality, ordering\<close>

definition truthy :: "json \<Rightarrow> bool" where
  "truthy v = (case v of
       JNull \<Rightarrow> False | JBool b \<Rightarrow> b | JInt i \<Rightarrow> i \<noteq> 0 | JFloat q \<Rightarrow> q \<noteq> 0
     | JStr s \<Rightarrow> s \<noteq> [] | JArr xs \<Rightarrow> xs \<noteq> [] | JObj kvs \<Rightarrow> kvs \<noteq> [])"

definition obj_get :: "string \<Rightarrow> (string \<times> json) list \<Rightarrow> json option" where
  "obj_get k kvs = map_of kvs k"

text \<open>\<open>d.get(k)\<close>, and \<open>d.get(k) or default\<close>.\<close>

definition get_or_null :: "string \<Rightarrow> (string \<times> json) list \<Rightarrow> json" where
  "get_or_null k kvs = (case obj_get k kvs of Some v \<Rightarrow> v | None \<Rightarrow> JNull)"

definition get_or :: "string \<Rightarrow> json \<Rightarrow> (string \<times> json) list \<Rightarrow> json" where
  "get_or k d kvs = (let v = get_or_null k kvs in if truthy v then v else d)"

fun obj_set :: "string \<Rightarrow> json \<Rightarrow> (string \<times> json) list \<Rightarrow> (string \<times> json) list" where
  "obj_set k v [] = [(k, v)]"
| "obj_set k v ((k', v') # kvs) = (if k = k' then (k, v) # kvs else (k', v') # obj_set k v kvs)"

lemma obj_get_set: "obj_get k' (obj_set k v kvs) = (if k' = k then Some v else obj_get k' kvs)"
  by (induction kvs) (auto simp: obj_get_def)

definition number_of :: "json \<Rightarrow> rat option" where
  "number_of v = (case v of
       JBool b \<Rightarrow> Some (if b then 1 else 0) | JInt i \<Rightarrow> Some (of_int i) | JFloat q \<Rightarrow> Some q
     | _ \<Rightarrow> None)"

lemma size_in_list [termination_simp]: "x \<in> set xs \<Longrightarrow> size x < Suc (size_list size xs)"
  by (induction xs) auto

lemma size_in_items [termination_simp]:
  "(k, v) \<in> set kvs \<Longrightarrow> size v < Suc (size_list (size_prod (\<lambda>_. 0) size) kvs)"
  by (induction kvs) auto

text \<open>Python's \<open>==\<close>: numbers by value whatever their type, objects whatever their order.\<close>

function (sequential) py_eq :: "json \<Rightarrow> json \<Rightarrow> bool" where
  "py_eq (JStr a) w = (case w of JStr b \<Rightarrow> a = b | _ \<Rightarrow> False)"
| "py_eq (JArr xs) w = (case w of
       JArr ys \<Rightarrow> length xs = length ys \<and> list_all (\<lambda>(x, y). py_eq x y) (zip xs ys)
     | _ \<Rightarrow> False)"
| "py_eq (JObj kvs) w = (case w of
       JObj kws \<Rightarrow> length kvs = length kws \<and>
         list_all (\<lambda>(k, v). case obj_get k kws of None \<Rightarrow> False | Some u \<Rightarrow> py_eq v u) kvs
     | _ \<Rightarrow> False)"
| "py_eq JNull w = (w = JNull)"
| "py_eq v w = (number_of v = number_of w)"
  by pat_completeness auto
termination
  by (relation "measure (size \<circ> fst)")
    (auto dest!: set_zip_leftD simp: size_in_list size_in_items)

lemma py_eq_refl_atom: "v \<in> {JNull, JBool b, JInt i, JFloat q, JStr s} \<Longrightarrow> py_eq v v"
  by auto

datatype cmp_op = Gt | Ge | Lt | Le

definition apply_cmp :: "cmp_op \<Rightarrow> 'a::linorder \<Rightarrow> 'a \<Rightarrow> bool" where
  "apply_cmp op a b = (case op of Gt \<Rightarrow> a > b | Ge \<Rightarrow> a \<ge> b | Lt \<Rightarrow> a < b | Le \<Rightarrow> a \<le> b)"

text \<open>Ordering comparisons: \<open>None\<close> where Python raises \<open>TypeError\<close>.\<close>

fun py_cmp :: "cmp_op \<Rightarrow> json \<Rightarrow> json \<Rightarrow> bool option"
  and py_cmp_list :: "cmp_op \<Rightarrow> json list \<Rightarrow> json list \<Rightarrow> bool option" where
  "py_cmp op (JStr a) w = (case w of JStr b \<Rightarrow> Some (apply_cmp op a b) | _ \<Rightarrow> None)"
| "py_cmp op (JArr xs) w = (case w of JArr ys \<Rightarrow> py_cmp_list op xs ys | _ \<Rightarrow> None)"
| "py_cmp op v w = (case (number_of v, number_of w) of
       (Some a, Some b) \<Rightarrow> Some (apply_cmp op a b) | _ \<Rightarrow> None)"
| "py_cmp_list op (x # xs) (y # ys) =
     (if py_eq x y then py_cmp_list op xs ys else py_cmp op x y)"
| "py_cmp_list op xs ys = Some (apply_cmp op (length xs) (length ys))"

text \<open>\<open>x in container\<close>, for the list and string containers the code tests.\<close>

definition py_in_list :: "json \<Rightarrow> json list \<Rightarrow> bool" where
  "py_in_list v xs = list_ex (\<lambda>x. py_eq v x) xs"

subsection \<open>Text of a value\<close>

definition hex_digit :: "nat \<Rightarrow> char" where
  "hex_digit n = (if n < 10 then char_of (48 + n) else char_of (87 + n))"

definition hex2 :: "nat \<Rightarrow> string" where
  "hex2 n = [hex_digit (n div 16), hex_digit (n mod 16)]"

text \<open>\<open>repr\<close> of a string: single quotes unless only a single quote occurs in it.\<close>

definition repr_char :: "char \<Rightarrow> char \<Rightarrow> string" where
  "repr_char q c =
     (let n = code_point c in
      if c = q \<or> n = 92 then [CHR 92, c]
      else if n = 10 then [CHR 92, CHR ''n'']
      else if n = 13 then [CHR 92, CHR ''r'']
      else if n = 9 then [CHR 92, CHR ''t'']
      else if n < 32 \<or> 127 \<le> n \<and> n \<le> 160 \<or> n = 173 then [CHR 92, CHR ''x''] @ hex2 n
      else [c])"

definition repr_str :: "string \<Rightarrow> string" where
  "repr_str s =
     (let q = (if CHR 39 \<in> set s \<and> CHR 34 \<notin> set s then CHR 34 else CHR 39)
      in [q] @ concat (map (repr_char q) s) @ [q])"

fun py_repr :: "host \<Rightarrow> json \<Rightarrow> string" where
  "py_repr H JNull = ''None''"
| "py_repr H (JBool b) = (if b then ''True'' else ''False'')"
| "py_repr H (JInt i) = int_str i"
| "py_repr H (JFloat q) = float_repr H q"
| "py_repr H (JStr s) = repr_str s"
| "py_repr H (JArr xs) = ''['' @ join '', '' (map (py_repr H) xs) @ '']''"
| "py_repr H (JObj kvs) =
     ''{'' @ join '', '' (map (\<lambda>(k, v). repr_str k @ '': '' @ py_repr H v) kvs) @ ''}''"

definition py_str :: "host \<Rightarrow> json \<Rightarrow> string" where
  "py_str H v = (case v of JStr s \<Rightarrow> s | _ \<Rightarrow> py_repr H v)"

text \<open>\<open>str(v or default)\<close>, and \<open>str(v or default).strip()\<close> on an optional text column.\<close>

definition str_or :: "host \<Rightarrow> string \<Rightarrow> string \<Rightarrow> (string \<times> json) list \<Rightarrow> string" where
  "str_or H d k kvs = py_str H (get_or k (JStr d) kvs)"

definition text_or_empty :: "string option \<Rightarrow> string" where
  "text_or_empty s = (case s of Some t \<Rightarrow> t | None \<Rightarrow> [])"

text \<open>Falsy optional texts: a missing column and an empty string count alike.\<close>

definition present :: "string option \<Rightarrow> bool" where
  "present s = (text_or_empty s \<noteq> [])"

lemma present_simps [simp]:
  "present None = False"
  "present (Some t) = (t \<noteq> [])"
  by (simp_all add: present_def text_or_empty_def)

lemma text_or_empty_simps [simp]:
  "text_or_empty None = []"
  "text_or_empty (Some t) = t"
  by (simp_all add: text_or_empty_def)

subsection \<open>json.dumps\<close>

definition dumps_char :: "char \<Rightarrow> string" where
  "dumps_char c =
     (let n = code_point c in
      if n = 34 \<or> n = 92 then [CHR 92, c]
      else if n = 10 then [CHR 92, CHR ''n'']
      else if n = 13 then [CHR 92, CHR ''r'']
      else if n = 9 then [CHR 92, CHR ''t'']
      else if n = 12 then [CHR 92, CHR ''f'']
      else if n = 8 then [CHR 92, CHR ''b'']
      else if n < 32 \<or> 126 < n then [CHR 92, CHR ''u'', CHR ''0'', CHR ''0''] @ hex2 n
      else [c])"

definition dumps_str :: "string \<Rightarrow> string" where
  "dumps_str s = [CHR 34] @ concat (map dumps_char s) @ [CHR 34]"

fun dumps :: "host \<Rightarrow> json \<Rightarrow> string" where
  "dumps H JNull = ''null''"
| "dumps H (JBool b) = (if b then ''true'' else ''false'')"
| "dumps H (JInt i) = int_str i"
| "dumps H (JFloat q) = float_repr H q"
| "dumps H (JStr s) = dumps_str s"
| "dumps H (JArr xs) = ''['' @ join '','' (map (dumps H) xs) @ '']''"
| "dumps H (JObj kvs) =
     ''{'' @ join '','' (map (\<lambda>(k, v). dumps_str k @ '':'' @ dumps H v) kvs) @ ''}''"

text \<open>\<open>sort_keys=True\<close>: every object's items in key order, at every depth.\<close>

fun sort_keys :: "json \<Rightarrow> json" where
  "sort_keys (JArr xs) = JArr (map sort_keys xs)"
| "sort_keys (JObj kvs) = JObj (sort_key fst (map (\<lambda>(k, v). (k, sort_keys v)) kvs))"
| "sort_keys v = v"

definition dumps_sorted :: "host \<Rightarrow> json \<Rightarrow> string" where
  "dumps_sorted H v = dumps H (sort_keys v)"

subsection \<open>Facts about texts and objects\<close>

lemma is_space_lower_char [simp]: "is_space (lower_char c) = is_space c"
proof -
  have "of_char c < (256::nat)" using of_char_mod_256 [of c, where 'a = nat]
    by (metis mod_less_divisor zero_less_numeral)
  then show ?thesis
    by (auto simp: lower_char_def is_space_def code_point_def Let_def of_char_of)
qed

lemma py_strip_lower: "py_strip (py_lower s) = py_lower (py_strip s)"
  by (simp add: py_strip_def py_lower_def dropWhile_map rev_map comp_def)

lemma py_strip_lower_strip [simp]: "py_strip (py_lower (py_strip s)) = py_lower (py_strip s)"
  by (simp add: py_strip_lower)

lemma get_or_simps [simp]:
  "get_or k d ((k', v) # kvs) = (if k = k' then (if truthy v then v else d) else get_or k d kvs)"
  "get_or k d [] = d"
  by (auto simp: get_or_def get_or_null_def obj_get_def truthy_def)

lemma obj_get_simps [simp]:
  "obj_get k ((k', v) # kvs) = (if k = k' then Some v else obj_get k kvs)"
  "obj_get k [] = None"
  by (auto simp: obj_get_def)

lemma get_or_null_simps [simp]:
  "get_or_null k ((k', v) # kvs) = (if k = k' then v else get_or_null k kvs)"
  "get_or_null k [] = JNull"
  by (auto simp: get_or_null_def)

lemma truthy_simps [simp]:
  "truthy JNull = False" "truthy (JBool b) = b" "truthy (JInt i) = (i \<noteq> 0)"
  "truthy (JFloat q) = (q \<noteq> 0)" "truthy (JStr s) = (s \<noteq> [])"
  "truthy (JArr xs) = (xs \<noteq> [])" "truthy (JObj kvs) = (kvs \<noteq> [])"
  by (auto simp: truthy_def)

lemma py_str_JStr [simp]: "py_str H (JStr s) = s"
  by (simp add: py_str_def)

subsection \<open>A sample host\<close>

text \<open>A concrete interpreter for the witnesses: a clock and zone that agree, whole seconds as text.\<close>

definition sample_host :: host where
  "sample_host = \<lparr>float_repr = (\<lambda>q. int_str \<lfloor>q\<rfloor>), sha256_hex = (\<lambda>s. s),
     iso_parse = (\<lambda>s. map_option (\<lambda>i. (i, None)) (parse_int s)), iso_format = int_str,
     zone_known = (\<lambda>z. z = ''UTC''), utc_to_wall = (\<lambda>z t. t), wall_to_utc = (\<lambda>z t. t)\<rparr>"

end
