(* ===== verification/Wf_Spec.thy ===== *)
theory Wf_Spec
  imports Py_Json
begin

text \<open>
  packages/workflow/spec.py, first half: the workflow specification language. Validation turns a
  submitted document into a list of steps whose dependencies point backwards only; templates are
  rendered against the context of a run; step conditions are evaluated against it.
\<close>

definition MAX_STEPS :: nat where
  "MAX_STEPS = 100"

definition MAX_SPEC_BYTES :: int where
  "MAX_SPEC_BYTES = 512000"

definition MAX_WAIT_SECONDS :: int where
  "MAX_WAIT_SECONDS = 31 * 24 * 60 * 60"

text \<open>The validated step. The code keeps it as a dictionary; \<open>step_json\<close> is that dictionary.\<close>

datatype on_error = Stop | Continue

datatype step_body =
    Action string "(string \<times> json) list"
  | Wait_Seconds int
  | Wait_Until string

record wf_step =
  step_id :: string
  depends_on :: "string list"
  on_error :: on_error
  step_when :: "json option"
  body :: step_body

definition step_kind :: "wf_step \<Rightarrow> string" where
  "step_kind s = (case body s of Action _ _ \<Rightarrow> ''action'' | _ \<Rightarrow> ''wait'')"

definition step_json :: "wf_step \<Rightarrow> json" where
  "step_json s = JObj (
     [(''id'', JStr (step_id s)), (''kind'', JStr (step_kind s)),
      (''depends_on'', JArr (map JStr (depends_on s))),
      (''on_error'', JStr (case on_error s of Stop \<Rightarrow> ''stop'' | Continue \<Rightarrow> ''continue''))]
     @ (case step_when s of None \<Rightarrow> [] | Some c \<Rightarrow> [(''when'', c)])
     @ (case body s of
          Action cap args \<Rightarrow> [(''capability_id'', JStr cap), (''arguments'', JObj args)]
        | Wait_Seconds n \<Rightarrow> [(''seconds'', JInt n)]
        | Wait_Until u \<Rightarrow> [(''until'', JStr u)]))"

definition spec_json :: "wf_step list \<Rightarrow> json" where
  "spec_json steps = JObj [(''steps'', JArr (map step_json steps))]"

definition json_size :: "host \<Rightarrow> json \<Rightarrow> int" where
  "json_size H v = int (length (dumps H v))"

definition valid_step_id :: "string \<Rightarrow> bool" where
  "valid_step_id s = (case s of
       [] \<Rightarrow> False
     | c # cs \<Rightarrow> (is_letter_ascii c \<or> is_decimal c) \<and> length cs \<le> 79 \<and>
         list_all (\<lambda>d. is_letter_ascii d \<or> is_decimal d \<or> d \<in> {CHR ''_'', CHR ''.'', CHR ''-''}) cs)"

subsection \<open>Conditions\<close>

definition CONDITION_OPERATORS :: "string list" where
  "CONDITION_OPERATORS =
     [''truthy'', ''exists'', ''eq'', ''ne'', ''gt'', ''gte'', ''lt'', ''lte'', ''in'', ''not_in'']"

lemma size_obj_get:
  "obj_get k kvs = Some v \<Longrightarrow> size v < Suc (size_list (size_prod (\<lambda>_. 0) size) kvs)"
  by (auto simp: obj_get_def dest!: map_of_SomeD intro: size_in_items)

lemma size_obj_get_list:
  "Some (JArr xs) = obj_get k kvs \<Longrightarrow> x \<in> set xs \<Longrightarrow> size x < size (JObj kvs)"
  "obj_get k kvs = Some (JArr xs) \<Longrightarrow> x \<in> set xs \<Longrightarrow> size x < size (JObj kvs)"
  using size_obj_get [of k kvs "JArr xs"] size_in_list [of x xs] by simp_all

function (sequential) validate_condition :: "host \<Rightarrow> json \<Rightarrow> unit result" where
  "validate_condition H (JObj kvs) =
     (case (obj_get ''all'' kvs, obj_get ''any'' kvs) of
        (Some _, Some _) \<Rightarrow>
          Inl (WorkflowSpecError ''Condition cannot contain both all and any'')
      | (Some (JArr (c # cs)), None) \<Rightarrow>
          bind_result (sequence_result (validate_condition H) (c # cs)) (\<lambda>_. Inr ())
      | (Some _, None) \<Rightarrow> Inl (WorkflowSpecError ''Condition all must contain conditions'')
      | (None, Some (JArr (c # cs))) \<Rightarrow>
          bind_result (sequence_result (validate_condition H) (c # cs)) (\<lambda>_. Inr ())
      | (None, Some _) \<Rightarrow> Inl (WorkflowSpecError ''Condition any must contain conditions'')
      | (None, None) \<Rightarrow>
          let ref = py_strip (str_or H [] ''ref'' kvs);
              op = py_lower (py_strip (str_or H ''truthy'' ''op'' kvs))
          in if ref = [] then Inl (WorkflowSpecError ''Condition ref is required'')
             else if op \<notin> set CONDITION_OPERATORS then
               Inl (WorkflowSpecError (''Unsupported condition operator: '' @ op))
             else Inr ())"
| "validate_condition H v = Inl (WorkflowSpecError ''Step condition must be an object'')"
  by pat_completeness auto
termination
  by (relation "measure (size \<circ> snd)") (auto simp del: json.size intro: size_obj_get_list)

subsection \<open>Specifications\<close>

text \<open>The raw dependencies of a step, checked against the ids seen so far.\<close>

definition validate_depends :: "host \<Rightarrow> string list \<Rightarrow> string \<Rightarrow> json \<Rightarrow> string list result" where
  "validate_depends H seen sid v = (case v of
       JArr items \<Rightarrow>
         (let deps = map (py_str H) items in
          if list_ex (\<lambda>d. d \<notin> set seen) deps then
            Inl (WorkflowSpecError (''Step '' @ sid @ '' may only depend on earlier step ids''))
          else if length (remdups deps) \<noteq> length deps then
            Inl (WorkflowSpecError (''Step '' @ sid @ '' contains duplicate dependencies''))
          else Inr deps)
     | _ \<Rightarrow> Inl (WorkflowSpecError (''Step '' @ sid @ '' depends_on must be an array'')))"

definition validate_action :: "host \<Rightarrow> string \<Rightarrow> (string \<times> json) list \<Rightarrow> step_body result" where
  "validate_action H sid raw =
     (let cap = py_lower (py_strip (str_or H [] ''capability_id'' raw)) in
      if cap = [] then Inl (WorkflowSpecError (''Step '' @ sid @ '' requires capability_id''))
      else if starts_with ''workflow.'' cap then
        Inl (WorkflowSpecError ''Workflow recursion/self-modification is not enabled'')
      else case get_or ''arguments'' (JObj []) raw of
          JObj args \<Rightarrow> Inr (Action cap args)
        | _ \<Rightarrow> Inl (WorkflowSpecError (''Step '' @ sid @ '' arguments must be an object'')))"

definition validate_wait :: "string \<Rightarrow> (string \<times> json) list \<Rightarrow> step_body result" where
  "validate_wait sid raw = (case (obj_get ''seconds'' raw, obj_get ''until'' raw) of
       (Some n, None) \<Rightarrow>
         (case py_int n of
            Inl e \<Rightarrow> Inl (WorkflowSpecError (''Wait step '' @ sid @ '' seconds must be an integer''))
          | Inr i \<Rightarrow>
              if i < 1 \<or> i > MAX_WAIT_SECONDS then
                Inl (WorkflowSpecError (''Wait step '' @ sid @ '' seconds is outside policy''))
              else Inr (Wait_Seconds i))
     | (None, Some u) \<Rightarrow>
         (case u of
            JStr t \<Rightarrow> if py_strip t = [] then
                Inl (WorkflowSpecError
                  (''Wait step '' @ sid @ '' until must be an ISO time or template''))
              else Inr (Wait_Until (py_strip t))
          | _ \<Rightarrow> Inl (WorkflowSpecError
                  (''Wait step '' @ sid @ '' until must be an ISO time or template'')))
     | _ \<Rightarrow> Inl (WorkflowSpecError
           (''Wait step '' @ sid @ '' needs exactly one of seconds or until'')))"

text \<open>One turn of the loop over the submitted steps, in the order of the code's checks.\<close>

definition validate_step :: "host \<Rightarrow> string list \<Rightarrow> nat \<Rightarrow> json \<Rightarrow> wf_step result" where
  "validate_step H seen index v = (case v of
     JObj raw \<Rightarrow>
       (let sid = py_strip (str_or H (''step_'' @ nat_digits (index + 1)) ''id'' raw) in
        if \<not> valid_step_id sid then Inl (WorkflowSpecError (''Invalid step id: '' @ sid))
        else if sid \<in> set seen then Inl (WorkflowSpecError (''Duplicate step id: '' @ sid))
        else bind_result (validate_depends H seen sid (get_or ''depends_on'' (JArr []) raw)) (\<lambda>deps.
        let kind = py_lower (py_strip (str_or H ''action'' ''kind'' raw));
            oe = py_lower (py_strip (str_or H ''stop'' ''on_error'' raw))
        in
        if kind \<notin> {''action'', ''wait''} then
          Inl (WorkflowSpecError (''Unsupported step kind: '' @ kind))
        else if oe \<notin> {''stop'', ''continue''} then
          Inl (WorkflowSpecError (''Step '' @ sid @ '' on_error must be stop or continue''))
        else bind_result (case obj_get ''when'' raw of
              None \<Rightarrow> Inr None
            | Some c \<Rightarrow> bind_result (validate_condition H c) (\<lambda>_. Inr (Some c))) (\<lambda>cond.
        bind_result (if kind = ''action'' then validate_action H sid raw else validate_wait sid raw) (\<lambda>b.
        Inr \<lparr>step_id = sid, depends_on = deps,
             on_error = (if oe = ''continue'' then Continue else Stop),
             step_when = cond, body = b\<rparr>))))
   | _ \<Rightarrow> Inl (WorkflowSpecError (''Step '' @ nat_digits (index + 1) @ '' must be an object'')))"

fun validate_steps :: "host \<Rightarrow> string list \<Rightarrow> nat \<Rightarrow> json list \<Rightarrow> wf_step list result" where
  "validate_steps H seen index [] = Inr []"
| "validate_steps H seen index (raw # raws) =
     bind_result (validate_step H seen index raw) (\<lambda>s.
     bind_result (validate_steps H (seen @ [step_id s]) (Suc index) raws) (\<lambda>ss.
     Inr (s # ss)))"

definition validate_workflow_spec :: "host \<Rightarrow> json \<Rightarrow> wf_step list result" where
  "validate_workflow_spec H v = (case v of
     JObj kvs \<Rightarrow>
       if json_size H v > MAX_SPEC_BYTES then
         Inl (WorkflowSpecError ''Workflow spec is too large'')
       else (case get_or_null ''steps'' kvs of
           JArr (r # rs) \<Rightarrow>
             if length (r # rs) > MAX_STEPS then
               Inl (WorkflowSpecError ''Workflow supports at most 100 steps'')
             else validate_steps H [] 0 (r # rs)
         | _ \<Rightarrow> Inl (WorkflowSpecError ''Workflow needs at least one step''))
   | _ \<Rightarrow> Inl (WorkflowSpecError ''Workflow spec must be an object''))"

subsection \<open>Template references and rendering\<close>

fun path_walk :: "string \<Rightarrow> json \<Rightarrow> string list \<Rightarrow> json result" where
  "path_walk ref current [] = Inr current"
| "path_walk ref current (part # parts) = (case current of
       JObj kvs \<Rightarrow> (case obj_get part kvs of
           None \<Rightarrow> Inl (WorkflowSpecError (''Template reference is unavailable: '' @ ref))
         | Some v \<Rightarrow> path_walk ref v parts)
     | JArr xs \<Rightarrow>
         if py_isdigit part then (case parse_int part of
             None \<Rightarrow> Inl (ValueError ''invalid literal for int() with base 10'')
           | Some i \<Rightarrow>
               if i \<ge> int (length xs) then
                 Inl (WorkflowSpecError (''Template index is unavailable: '' @ ref))
               else path_walk ref (xs ! nat i) parts)
         else Inl (WorkflowSpecError (''Template reference is unavailable: '' @ ref))
     | _ \<Rightarrow> Inl (WorkflowSpecError (''Template reference is unavailable: '' @ ref)))"

definition path_value :: "json \<Rightarrow> string \<Rightarrow> json result" where
  "path_value context ref = path_walk ref context (split_on (CHR ''.'') ref)"

definition not_brace :: "char \<Rightarrow> bool" where
  "not_brace c = (c \<noteq> CHR ''{'' \<and> c \<noteq> CHR ''}'')"

text \<open>
  A match of the template pattern at the front of a text: two opening braces, a non-empty run
  without braces, two closing braces. The captured group is the run without the white space
  around it, or its last character when it is white space only (the pattern's white space is
  greedy and its group needs one character).
\<close>

definition template_group :: "string \<Rightarrow> string" where
  "template_group run = (if list_all is_space run then [last run] else py_strip run)"

definition template_at :: "string \<Rightarrow> (string \<times> string) option" where
  "template_at s = (case s of
       c # d # cs \<Rightarrow>
         if c = CHR ''{'' \<and> d = CHR ''{'' \<and> takeWhile not_brace cs \<noteq> [] then
           (case dropWhile not_brace cs of
              e # f # rest \<Rightarrow>
                if e = CHR ''}'' \<and> f = CHR ''}'' then
                  Some (template_group (takeWhile not_brace cs), rest)
                else None
            | _ \<Rightarrow> None)
         else None
     | _ \<Rightarrow> None)"

lemma template_at_shorter [termination_simp]:
  "template_at s = Some (g, rest) \<Longrightarrow> length rest < length s"
proof -
  assume "template_at s = Some (g, rest)"
  then obtain c d cs e f where "s = c # d # cs" and "dropWhile not_brace cs = e # f # rest"
    by (auto simp: template_at_def split: list.splits if_splits)
  then show ?thesis using length_dropWhile_le [of not_brace cs] by simp
qed

definition substitute :: "host \<Rightarrow> json \<Rightarrow> string \<Rightarrow> string result" where
  "substitute H context ref = bind_result (path_value context ref) (\<lambda>v. Inr (case v of
       JObj _ \<Rightarrow> dumps H v
     | JArr _ \<Rightarrow> dumps H v
     | JNull \<Rightarrow> []
     | _ \<Rightarrow> py_str H v))"

fun render_text :: "host \<Rightarrow> json \<Rightarrow> string \<Rightarrow> string result" where
  "render_text H context s = (case template_at s of
       Some (g, rest) \<Rightarrow>
         bind_result (substitute H context g) (\<lambda>t.
         bind_result (render_text H context rest) (\<lambda>u. Inr (t @ u)))
     | None \<Rightarrow> (case s of
           [] \<Rightarrow> Inr []
         | c # cs \<Rightarrow> bind_result (render_text H context cs) (\<lambda>u. Inr (c # u))))"

declare render_text.simps [simp del]

fun render_value :: "host \<Rightarrow> json \<Rightarrow> json \<Rightarrow> json result" where
  "render_value H context (JObj kvs) =
     bind_result (sequence_result (\<lambda>(k, v).
        bind_result (render_value H context v) (\<lambda>w. Inr (k, w))) kvs) (\<lambda>kws. Inr (JObj kws))"
| "render_value H context (JArr xs) =
     bind_result (sequence_result (render_value H context) xs) (\<lambda>ys. Inr (JArr ys))"
| "render_value H context (JStr s) = (case template_at s of
       Some (g, []) \<Rightarrow> path_value context g
     | _ \<Rightarrow> bind_result (render_text H context s) (\<lambda>t. Inr (JStr t)))"
| "render_value H context v = Inr v"

subsection \<open>Evaluating conditions\<close>

fun all_result :: "('a \<Rightarrow> bool result) \<Rightarrow> 'a list \<Rightarrow> bool result" where
  "all_result f [] = Inr True"
| "all_result f (x # xs) = bind_result (f x) (\<lambda>b. if b then all_result f xs else Inr False)"

fun any_result :: "('a \<Rightarrow> bool result) \<Rightarrow> 'a list \<Rightarrow> bool result" where
  "any_result f [] = Inr False"
| "any_result f (x # xs) = bind_result (f x) (\<lambda>b. if b then Inr True else any_result f xs)"

lemma all_result_cong [fundef_cong]:
  "xs = ys \<Longrightarrow> (\<And>x. x \<in> set ys \<Longrightarrow> f x = g x) \<Longrightarrow> all_result f xs = all_result g ys"
proof (induction xs arbitrary: ys)
  case (Cons x xs)
  then show ?case by (cases "g x") auto
qed simp

lemma any_result_cong [fundef_cong]:
  "xs = ys \<Longrightarrow> (\<And>x. x \<in> set ys \<Longrightarrow> f x = g x) \<Longrightarrow> any_result f xs = any_result g ys"
proof (induction xs arbitrary: ys)
  case (Cons x xs)
  then show ?case by (cases "g x") auto
qed simp

text \<open>The comparison of a leaf condition once both sides are known.\<close>

definition compare_values :: "string \<Rightarrow> json \<Rightarrow> json \<Rightarrow> bool result" where
  "compare_values op actual expected =
     (let ordered = (\<lambda>c. case py_cmp c actual expected of
            Some b \<Rightarrow> Inr b
          | None \<Rightarrow> Inl (WorkflowSpecError ''Condition values cannot be compared''))
      in
      if op = ''eq'' then Inr (py_eq actual expected)
      else if op = ''ne'' then Inr (\<not> py_eq actual expected)
      else if op = ''gt'' then ordered Gt
      else if op = ''gte'' then ordered Ge
      else if op = ''lt'' then ordered Lt
      else if op = ''lte'' then ordered Le
      else if op = ''in'' \<or> op = ''not_in'' then (case expected of
          JArr xs \<Rightarrow> Inr (py_in_list actual xs = (op = ''in''))
        | JStr t \<Rightarrow> (case actual of
              JStr s \<Rightarrow> Inr (sublist s t = (op = ''in''))
            | _ \<Rightarrow> Inl (WorkflowSpecError ''Condition values cannot be compared''))
        | _ \<Rightarrow> Inr (op = ''not_in''))
      else Inr False)"

definition evaluate_leaf :: "host \<Rightarrow> json \<Rightarrow> (string \<times> json) list \<Rightarrow> bool result" where
  "evaluate_leaf H context kvs =
     (let found = path_value context (str_or H [] ''ref'' kvs);
          op = py_lower (str_or H ''truthy'' ''op'' kvs)
      in case found of
           Inl (ValueError m) \<Rightarrow> Inl (ValueError m)
         | _ \<Rightarrow> bind_result (render_value H context (get_or_null ''value'' kvs)) (\<lambda>expected.
             if op = ''exists'' then Inr (case found of Inr _ \<Rightarrow> True | Inl _ \<Rightarrow> False)
             else (case found of
                 Inl _ \<Rightarrow> Inr (op = ''ne'')
               | Inr actual \<Rightarrow>
                   if op = ''truthy'' then Inr (truthy actual)
                   else compare_values op actual expected)))"

text \<open>
  Iterating a group that is not a list follows Python: the characters of a text are all true,
  the keys of an object are true unless empty, other values are not iterable.
\<close>

function (sequential) evaluate_condition :: "host \<Rightarrow> json \<Rightarrow> json \<Rightarrow> bool result" where
  "evaluate_condition H context (JObj kvs) =
     (case obj_get ''all'' kvs of
        Some (JArr xs) \<Rightarrow> all_result (evaluate_condition H context) xs
      | Some (JStr s) \<Rightarrow> Inr True
      | Some (JObj kws) \<Rightarrow> Inr (list_all (\<lambda>(k, v). k \<noteq> []) kws)
      | Some _ \<Rightarrow> Inl (TypeError ''object is not iterable'')
      | None \<Rightarrow> (case obj_get ''any'' kvs of
            Some (JArr xs) \<Rightarrow> any_result (evaluate_condition H context) xs
          | Some (JStr s) \<Rightarrow> Inr (s \<noteq> [])
          | Some (JObj kws) \<Rightarrow> Inr (list_ex (\<lambda>(k, v). k \<noteq> []) kws)
          | Some _ \<Rightarrow> Inl (TypeError ''object is not iterable'')
          | None \<Rightarrow> evaluate_leaf H context kvs))"
| "evaluate_condition H context v = Inr (truthy v)"
  by pat_completeness auto
termination
  by (relation "measure (size \<circ> snd \<circ> snd)") (auto simp del: json.size intro: size_obj_get_list)

subsection \<open>What validation establishes\<close>

definition body_ok :: "step_body \<Rightarrow> bool" where
  "body_ok b = (case b of
       Action cap args \<Rightarrow> cap \<noteq> [] \<and> py_lower (py_strip cap) = cap \<and> \<not> starts_with ''workflow.'' cap
     | Wait_Seconds n \<Rightarrow> 1 \<le> n \<and> n \<le> MAX_WAIT_SECONDS
     | Wait_Until u \<Rightarrow> u \<noteq> [] \<and> py_strip u = u)"

definition step_ok :: "host \<Rightarrow> string list \<Rightarrow> wf_step \<Rightarrow> bool" where
  "step_ok H seen s =
     (valid_step_id (step_id s) \<and> step_id s \<notin> set seen
      \<and> set (depends_on s) \<subseteq> set seen \<and> distinct (depends_on s)
      \<and> (\<forall>c. step_when s = Some c \<longrightarrow> validate_condition H c = Inr ())
      \<and> body_ok (body s))"

fun steps_ok :: "host \<Rightarrow> string list \<Rightarrow> wf_step list \<Rightarrow> bool" where
  "steps_ok H seen [] = True"
| "steps_ok H seen (s # ss) = (step_ok H seen s \<and> steps_ok H (seen @ [step_id s]) ss)"

lemma dropWhile_no_space: "list_all (\<lambda>c. \<not> is_space c) s \<Longrightarrow> dropWhile is_space s = s"
  by (cases s) auto

lemma py_strip_no_space: "list_all (\<lambda>c. \<not> is_space c) s \<Longrightarrow> py_strip s = s"
  by (simp add: py_strip_def dropWhile_no_space)

lemma valid_step_id_strip: "valid_step_id s \<Longrightarrow> py_strip s = s"
proof -
  assume v: "valid_step_id s"
  have "is_letter_ascii c \<or> is_decimal c \<or> c \<in> {CHR ''_'', CHR ''.'', CHR ''-''} \<Longrightarrow> \<not> is_space c" for c
    by (auto simp: is_letter_ascii_def is_decimal_def is_space_def code_point_def)
  with v have "list_all (\<lambda>c. \<not> is_space c) s"
    by (cases s) (auto simp: valid_step_id_def list_all_iff)
  then show ?thesis by (rule py_strip_no_space)
qed

lemma valid_step_id_nonempty: "valid_step_id s \<Longrightarrow> s \<noteq> []"
  by (auto simp: valid_step_id_def)

lemma validate_depends_ok:
  "validate_depends H seen sid v = Inr deps \<Longrightarrow> set deps \<subseteq> set seen \<and> distinct deps"
  by (auto simp: validate_depends_def Let_def list_ex_iff card_distinct length_remdups_card_conv
      split: json.splits if_splits intro: card_distinct)

lemma validate_action_ok: "validate_action H sid raw = Inr b \<Longrightarrow> body_ok b"
  by (auto simp: validate_action_def body_ok_def Let_def split: json.splits if_splits)

lemma validate_wait_ok: "validate_wait sid raw = Inr b \<Longrightarrow> body_ok b"
  by (auto simp: validate_wait_def body_ok_def split: json.splits if_splits option.splits sum.splits)

lemma validate_step_ok: "validate_step H seen i v = Inr s \<Longrightarrow> step_ok H seen s"
  by (auto simp: validate_step_def step_ok_def Let_def bind_result_Inr_iff
      dest!: validate_depends_ok validate_action_ok validate_wait_ok
      split: json.splits if_splits option.splits)

lemma validate_steps_ok: "validate_steps H seen i raws = Inr ss \<Longrightarrow> steps_ok H seen ss"
  by (induction raws arbitrary: seen i ss) (auto simp: bind_result_Inr_iff dest: validate_step_ok)

lemma validate_steps_length: "validate_steps H seen i raws = Inr ss \<Longrightarrow> length ss = length raws"
  by (induction raws arbitrary: seen i ss) (auto simp: bind_result_Inr_iff)

lemma validate_depends_reparse:
  assumes "set deps \<subseteq> set seen" and "distinct deps"
  shows "validate_depends H seen sid (JArr (map JStr deps)) = Inr deps"
  using assms by (auto simp: validate_depends_def Let_def list_ex_iff comp_def distinct_remdups_id)

lemma py_int_JInt [simp]: "py_int (JInt n) = Inr n"
  by (simp add: py_int_def)

lemma normal_keywords [simp]:
  "py_lower (py_strip ''action'') = ''action''"
  "py_lower (py_strip ''wait'') = ''wait''"
  "py_lower (py_strip ''stop'') = ''stop''"
  "py_lower (py_strip ''continue'') = ''continue''"
  by code_simp+

lemma validate_body_reparse:
  "body_ok (Action cap args) \<Longrightarrow> obj_get ''capability_id'' raw = Some (JStr cap) \<Longrightarrow>
   obj_get ''arguments'' raw = Some (JObj args) \<Longrightarrow>
   validate_action H sid raw = Inr (Action cap args)"
  "body_ok (Wait_Seconds n) \<Longrightarrow> obj_get ''seconds'' raw = Some (JInt n) \<Longrightarrow>
   obj_get ''until'' raw = None \<Longrightarrow> validate_wait sid raw = Inr (Wait_Seconds n)"
  "body_ok (Wait_Until u) \<Longrightarrow> obj_get ''seconds'' raw = None \<Longrightarrow>
   obj_get ''until'' raw = Some (JStr u) \<Longrightarrow> validate_wait sid raw = Inr (Wait_Until u)"
  by (auto simp: validate_action_def validate_wait_def body_ok_def str_or_def get_or_def
      get_or_null_def Let_def)

lemma validate_step_reparse:
  assumes "step_ok H seen s"
  shows "validate_step H seen i (step_json s) = Inr s"
proof -
  obtain sid deps oe w b where s: "s = \<lparr>step_id = sid, depends_on = deps, on_error = oe, step_when = w, body = b\<rparr>"
    by (cases s)
  note ok = assms [unfolded s step_ok_def, simplified]
  have deps: "validate_depends H seen sid (JArr (map JStr deps)) = Inr deps"
    using ok validate_depends_reparse by blast
  have none: "validate_depends H seen sid (JArr []) = Inr []"
    by (simp add: validate_depends_def)
  show ?thesis
    using ok deps none unfolding s
    by (cases b; cases oe; cases w)
      (simp_all add: validate_step_def step_json_def step_kind_def str_or_def Let_def
        valid_step_id_strip valid_step_id_nonempty validate_body_reparse)
qed

lemma validate_steps_reparse:
  "steps_ok H seen ss \<Longrightarrow> validate_steps H seen i (map step_json ss) = Inr ss"
  by (induction ss arbitrary: seen i) (simp_all add: validate_step_reparse)

lemma validate_workflow_spec_ok:
  "validate_workflow_spec H v = Inr ss \<Longrightarrow>
   steps_ok H [] ss \<and> ss \<noteq> [] \<and> length ss \<le> MAX_STEPS"
  by (auto simp: validate_workflow_spec_def simp del: validate_steps.simps
      dest: validate_steps_ok validate_steps_length split: json.splits list.splits if_splits)

lemma validate_workflow_spec_reparse:
  assumes "steps_ok H [] ss" "ss \<noteq> []" "length ss \<le> MAX_STEPS"
    and "json_size H (spec_json ss) \<le> MAX_SPEC_BYTES"
  shows "validate_workflow_spec H (spec_json ss) = Inr ss"
proof -
  obtain s rest where ss: "ss = s # rest" using assms(2) by (cases ss) auto
  show ?thesis
    using assms validate_steps_reparse [OF assms(1), of 0] unfolding ss
    by (simp add: validate_workflow_spec_def spec_json_def)
qed

lemma steps_ok_nth:
  "steps_ok H seen ss \<Longrightarrow> i < length ss \<Longrightarrow>
   step_ok H (seen @ map step_id (take i ss)) (ss ! i)"
proof (induction ss arbitrary: seen i)
  case (Cons s ss)
  then show ?case by (cases i) (auto dest: Cons.IH)
qed simp

lemma steps_ok_distinct: "steps_ok H seen ss \<Longrightarrow> distinct (map step_id ss) \<and> set (map step_id ss) \<inter> set seen = {}"
proof (induction ss arbitrary: seen)
  case (Cons s ss)
  from Cons.prems Cons.IH [of "seen @ [step_id s]"] show ?case by (auto simp: step_ok_def)
qed simp

text \<open>
  C1. An accepted specification is a non-empty list of at most 100 steps with distinct ids, in
  which every step depends only on earlier steps and has a body within policy (no recursion into
  workflow tools, waits between one second and 31 days): the steps form a graph that can be run in
  list order.
\<close>

theorem validated_spec_is_backward_dag:
  assumes "validate_workflow_spec H v = Inr ss"
  shows "ss \<noteq> [] \<and> length ss \<le> 100 \<and> distinct (map step_id ss)
    \<and> (\<forall>i < length ss. set (depends_on (ss ! i)) \<subseteq> set (map step_id (take i ss))
         \<and> body_ok (body (ss ! i)))"
proof -
  from assms have ok: "steps_ok H [] ss" and "ss \<noteq> []" and "length ss \<le> MAX_STEPS"
    by (auto dest: validate_workflow_spec_ok)
  with steps_ok_distinct [OF ok] show ?thesis
    using steps_ok_nth [OF ok] by (auto simp: MAX_STEPS_def step_ok_def)
qed

text \<open>
  C2. What validation returns is a fixed point of it: the stored document, revalidated by every
  run, gives back exactly the same steps, as long as it still fits the size limit.
\<close>

theorem validated_spec_roundtrip:
  assumes "validate_workflow_spec H v = Inr ss" and "json_size H (spec_json ss) \<le> 512000"
  shows "validate_workflow_spec H (spec_json ss) = Inr ss"
  using assms by (auto dest!: validate_workflow_spec_ok
      intro: validate_workflow_spec_reparse simp: MAX_SPEC_BYTES_def)

definition sample_spec :: json where
  "sample_spec = JObj [(''steps'', JArr [JObj [(''id'', JStr ''a''), (''capability_id'', JStr '' Mail.Send '')],
     JObj [(''kind'', JStr ''wait''), (''seconds'', JStr ''60''), (''depends_on'', JArr [JStr ''a''])]])]"

lemma sample_spec_ok: "\<exists>ss. validate_workflow_spec sample_host sample_spec = Inr ss \<and> json_size sample_host (spec_json ss) \<le> 512000 \<and> length ss = 2"
  by (rule exI[of _ "[\<lparr>step_id = ''a'', depends_on = [], on_error = Stop, step_when = None,
     body = Action ''mail.send'' []\<rparr>, \<lparr>step_id = ''step_2'', depends_on = [''a''], on_error = Stop, step_when = None,
     body = Wait_Seconds 60\<rparr>]"]) code_simp

theorem validated_spec_is_backward_dag_witness:
  "\<exists>ss. validate_workflow_spec sample_host sample_spec = Inr ss \<and> distinct (map step_id ss)
     \<and> set (depends_on (ss ! 1)) \<subseteq> set (map step_id (take 1 ss))"
proof -
  obtain ss where v: "validate_workflow_spec sample_host sample_spec = Inr ss" and "length ss = 2"
    using sample_spec_ok by blast
  then show ?thesis using validated_spec_is_backward_dag [OF v] by auto
qed

theorem validated_spec_roundtrip_witness:
  "\<exists>ss. validate_workflow_spec sample_host sample_spec = Inr ss
     \<and> validate_workflow_spec sample_host (spec_json ss) = Inr ss"
  using sample_spec_ok validated_spec_roundtrip by blast

lemma dumps_str_replicate: "length (dumps_str (replicate n (CHR ''a''))) = n + 2"
proof -
  have "dumps_char (CHR ''a'') = ''a''" by code_simp
  then have "concat (map dumps_char (replicate n (CHR ''a''))) = replicate n (CHR ''a'')"
    by (induction n) auto
  then show ?thesis by (simp add: dumps_str_def)
qed

definition big_spec :: "nat \<Rightarrow> json" where
  "big_spec n = JObj [(''steps'', JArr [JObj [(''capability_id'', JStr ''c''),
     (''arguments'', JObj [(''x'', JStr (replicate n (CHR ''a'')))])]])]"

definition big_step :: "nat \<Rightarrow> wf_step" where
  "big_step n = \<lparr>step_id = ''step_1'', depends_on = [], on_error = Stop, step_when = None,
     body = Action ''c'' [(''x'', JStr (replicate n (CHR ''a'')))]\<rparr>"

lemma key_lengths: 
 "length (dumps_str ''steps'') = 7" "length (dumps_str ''capability_id'') = 15"
 "length (dumps_str ''arguments'') = 11" "length (dumps_str ''x'') = 3" "length (dumps_str ''c'') = 3"
 "length (dumps_str ''id'') = 4" "length (dumps_str ''kind'') = 6"
 "length (dumps_str ''depends_on'') = 12" "length (dumps_str ''on_error'') = 10"
 "length (dumps_str ''step_1'') = 8" "length (dumps_str ''action'') = 8" "length (dumps_str ''stop'') = 6"
  by code_simp+

lemma big_spec_size: "json_size H (big_spec n) = int n + 54"
  by (simp add: json_size_def big_spec_def dumps_str_replicate key_lengths)

lemma big_step_size: "json_size H (spec_json [big_step n]) = int n + 118"
  by (simp add: json_size_def spec_json_def step_json_def step_kind_def big_step_def dumps_str_replicate key_lengths)

lemma nat_digits_1: "nat_digits (Suc 0) = ''1''" by code_simp
lemma strip_consts: "py_strip ''step_1'' = ''step_1''" "valid_step_id ''step_1''" "py_lower (py_strip ''c'') = ''c''"
  "starts_with ''workflow.'' ''c'' = False"
  by code_simp+

lemma big_validates: "int n + 54 \<le> 512000 \<Longrightarrow> validate_workflow_spec H (big_spec n) = Inr [big_step n]"
  using big_spec_size [of H n]
  by (simp add: validate_workflow_spec_def MAX_SPEC_BYTES_def big_spec_def MAX_STEPS_def validate_step_def str_or_def nat_digits_1 strip_consts
        validate_depends_def validate_action_def big_step_def Let_def)


text \<open>
  The size limit is checked on the submitted document only, and normalising adds text: some
  accepted document is stored in a form that validation refuses, so every run of it fails.
\<close>

lemma accepted_spec_may_outgrow_limit:
  "\<exists>v ss. validate_workflow_spec H v = Inr ss \<and>
     validate_workflow_spec H (spec_json ss) = Inl (WorkflowSpecError ''Workflow spec is too large'')"
proof -
  have "validate_workflow_spec H (big_spec 511900) = Inr [big_step 511900]"
    by (rule big_validates) simp
  moreover have "json_size H (spec_json [big_step 511900]) > MAX_SPEC_BYTES"
    by (simp only: big_step_size MAX_SPEC_BYTES_def)
  then have "validate_workflow_spec H (spec_json [big_step 511900]) =
      Inl (WorkflowSpecError ''Workflow spec is too large'')"
    by (simp add: validate_workflow_spec_def spec_json_def)
  ultimately show ?thesis by blast
qed

text \<open>
  White space around a condition's operator is stripped when the condition is validated and
  not when it is evaluated: the padded operator is accepted and its step is then always skipped.
\<close>

lemma condition_operator_padding_disables_step:
  "validate_condition H (JObj [(''ref'', JStr ''trigger.n''), (''op'', JStr '' eq ''), (''value'', JInt 1)]) = Inr ()
   \<and> evaluate_condition H (JObj [(''trigger'', JObj [(''n'', JInt 1)])])
       (JObj [(''ref'', JStr ''trigger.n''), (''op'', JStr ''eq''), (''value'', JInt 1)]) = Inr True
   \<and> evaluate_condition H (JObj [(''trigger'', JObj [(''n'', JInt 1)])])
       (JObj [(''ref'', JStr ''trigger.n''), (''op'', JStr '' eq ''), (''value'', JInt 1)]) = Inr False"
  by (intro conjI; code_simp)

end
