(* ===== verification/Wf_Schedule.thy ===== *)
theory Wf_Schedule
  imports Wf_Spec
begin

text \<open>
  packages/workflow/spec.py, second half: schedules. A submitted schedule is validated into one of
  five kinds, and \<open>next_schedule_time\<close> gives the next instant it is due. Wall-clock times are
  microseconds since 1970-01-01 00:00 on the zone's own clock: Python compares and adds aware
  datetimes of one zone on that clock, so the comparisons below do too, and converts the chosen
  wall time to UTC with \<open>fold=0\<close>. The range limits of \<open>datetime\<close> (years 1 to 9999) are not
  modelled, and the seconds of a time difference are exact, which the float that the code computes
  is for differences below five hundred years.
\<close>

text \<open>The validated schedule; the code keeps the dictionary \<open>schedule_json\<close>.\<close>

datatype schedule =
    Once string string
  | Interval string int "string option"
  | Daily string string
  | Weekly string "int list" string
  | Cron string string

definition schedule_json :: "schedule \<Rightarrow> json" where
  "schedule_json s = (case s of
       Once z t \<Rightarrow> JObj [(''type'', JStr ''once''), (''timezone'', JStr z), (''at'', JStr t)]
     | Interval z n start \<Rightarrow> JObj ([(''type'', JStr ''interval''), (''timezone'', JStr z),
         (''every_seconds'', JInt n)]
         @ (case start of None \<Rightarrow> [] | Some t \<Rightarrow> [(''start_at'', JStr t)]))
     | Daily z t \<Rightarrow> JObj [(''type'', JStr ''daily''), (''timezone'', JStr z), (''time'', JStr t)]
     | Weekly z ds t \<Rightarrow> JObj [(''type'', JStr ''weekly''), (''timezone'', JStr z),
         (''days'', JArr (map JInt ds)), (''time'', JStr t)]
     | Cron z e \<Rightarrow> JObj [(''type'', JStr ''cron''), (''timezone'', JStr z), (''expression'', JStr e)])"

subsection \<open>Instants and clock times in text\<close>

fun replace_Z :: "string \<Rightarrow> string" where
  "replace_Z [] = []"
| "replace_Z (c # cs) = (if c = CHR ''Z'' then ''+00:00'' else [c]) @ replace_Z cs"

definition str_or_empty :: "host \<Rightarrow> json \<Rightarrow> string" where
  "str_or_empty H v = (if truthy v then py_str H v else [])"

definition iso_datetime :: "host \<Rightarrow> json \<Rightarrow> time result" where
  "iso_datetime H v =
     (let raw = py_strip (str_or_empty H v) in
      if raw = [] then Inl (WorkflowSpecError ''Schedule date/time is required'')
      else case iso_parse H (replace_Z raw) of
          None \<Rightarrow> Inl (WorkflowSpecError ''Schedule date/time must be ISO 8601'')
        | Some (local, None) \<Rightarrow> Inr local
        | Some (local, Some offset) \<Rightarrow> Inr (local - offset))"

definition clock_shape :: "string \<Rightarrow> bool" where
  "clock_shape s = (case s of
       [a, b, c, d, e] \<Rightarrow>
         c = CHR '':'' \<and> is_decimal b \<and> is_decimal e
         \<and> code_point d \<in> {48, 49, 50, 51, 52, 53}
         \<and> (code_point a \<in> {48, 49} \<or> code_point a = 50 \<and> code_point b \<in> {48, 49, 50, 51})
     | _ \<Rightarrow> False)"

definition clock :: "host \<Rightarrow> json \<Rightarrow> string result" where
  "clock H v =
     (let raw = py_strip (str_or_empty H v) in
      if clock_shape raw then Inr raw
      else Inl (WorkflowSpecError ''Schedule time must be HH:MM''))"

text \<open>\<open>[int(part) for part in time.split(":")]\<close>, unpacked into hour and minute.\<close>

definition clock_fields :: "string \<Rightarrow> (int \<times> int) result" where
  "clock_fields s = (case map parse_int (split_on (CHR '':'') s) of
       [Some h, Some m] \<Rightarrow> Inr (h, m)
     | _ \<Rightarrow> Inl (ValueError ''not enough values to unpack''))"

subsection \<open>The calendar\<close>

definition day_length :: int where
  "day_length = 86400000000"

definition minute_length :: int where
  "minute_length = 60000000"

definition wall_day :: "int \<Rightarrow> int" where
  "wall_day w = w div day_length"

definition wall_hour :: "int \<Rightarrow> int" where
  "wall_hour w = (w mod day_length) div (60 * minute_length)"

definition wall_minute :: "int \<Rightarrow> int" where
  "wall_minute w = (w mod (60 * minute_length)) div minute_length"

text \<open>Monday is 0; day number 0 is a Thursday.\<close>

definition weekday :: "int \<Rightarrow> int" where
  "weekday day = (day + 3) mod 7"

text \<open>Month and day of the month of a day number, in the proleptic Gregorian calendar.\<close>

definition month_day :: "int \<Rightarrow> int \<times> int" where
  "month_day day =
     (let z = day + 719468;
          doe = z mod 146097;
          yoe = (doe - doe div 1460 + doe div 36524 - doe div 146096) div 365;
          doy = doe - (365 * yoe + yoe div 4 - yoe div 100);
          mp = (5 * doy + 2) div 153
      in (if mp < 10 then mp + 3 else mp - 9, doy - (153 * mp + 2) div 5 + 1))"

definition wall_at :: "int \<Rightarrow> int \<Rightarrow> int \<Rightarrow> int" where
  "wall_at day hour minute = day * day_length + (60 * hour + minute) * minute_length"

subsection \<open>Cron expressions\<close>

record cron_fields =
  cron_minute :: "int list"
  cron_hour :: "int list"
  cron_day :: "int list"
  cron_month :: "int list"
  cron_weekday :: "int list"
  cron_day_any :: bool
  cron_weekday_any :: bool

text \<open>\<open>text.split(sep, 1)\<close>, where the separator occurs.\<close>

definition split_once :: "char \<Rightarrow> string \<Rightarrow> string \<times> string" where
  "split_once sep s = (takeWhile (\<lambda>c. c \<noteq> sep) s, tl (dropWhile (\<lambda>c. c \<noteq> sep) s))"

definition int_text :: "string \<Rightarrow> int result" where
  "int_text s = py_int (JStr s)"

definition cron_segment :: "string \<Rightarrow> int \<Rightarrow> int \<Rightarrow> int list result" where
  "cron_segment seg lo hi =
     bind_result
       (if CHR ''/'' \<in> set seg then
          bind_result (int_text (snd (split_once (CHR ''/'') seg))) (\<lambda>step.
            if step < 1 then Inl (WorkflowSpecError ''Cron step must be positive'')
            else Inr (fst (split_once (CHR ''/'') seg), step))
        else Inr (seg, 1)) (\<lambda>(base, step).
     bind_result
       (if base = ''*'' then Inr (lo, hi)
        else if CHR ''-'' \<in> set base then
          bind_result (int_text (fst (split_once (CHR ''-'') base))) (\<lambda>a.
          bind_result (int_text (snd (split_once (CHR ''-'') base))) (\<lambda>b. Inr (a, b)))
        else bind_result (int_text base) (\<lambda>a. Inr (a, a))) (\<lambda>(a, b).
     if a < lo \<or> b > hi \<or> a > b then
       Inl (WorkflowSpecError ''Cron field is outside its allowed range'')
     else Inr (filter (\<lambda>x. (x - a) mod step = 0) [a..b])))"

definition cron_values :: "string \<Rightarrow> int \<Rightarrow> int \<Rightarrow> int list result" where
  "cron_values token lo hi =
     (case sequence_result (\<lambda>seg. cron_segment seg lo hi) (split_on (CHR '','') token) of
        Inr vss \<Rightarrow> Inr (concat vss)
      | Inl e \<Rightarrow> if is_value_error e then
            Inl (WorkflowSpecError ''Cron field must contain integers, ranges, *, or steps'')
          else Inl e)"

definition parse_cron :: "string \<Rightarrow> cron_fields result" where
  "parse_cron expression = (case split_ws expression of
       [p0, p1, p2, p3, p4] \<Rightarrow>
         bind_result (cron_values p0 0 59) (\<lambda>minute.
         bind_result (cron_values p1 0 23) (\<lambda>hour.
         bind_result (cron_values p2 1 31) (\<lambda>day.
         bind_result (cron_values p3 1 12) (\<lambda>month.
         bind_result (cron_values p4 0 7) (\<lambda>weekday_raw.
         Inr \<lparr>cron_minute = minute, cron_hour = hour, cron_day = day, cron_month = month,
              cron_weekday = map (\<lambda>d. if d = 7 then 0 else d) weekday_raw,
              cron_day_any = (p2 = ''*''), cron_weekday_any = (p4 = ''*'')\<rparr>)))))
     | _ \<Rightarrow> Inl (WorkflowSpecError
         ''Cron expression must have 5 fields: minute hour day month weekday''))"

definition cron_matches :: "int \<Rightarrow> cron_fields \<Rightarrow> bool" where
  "cron_matches w f =
     (let wd = (weekday (wall_day w) + 1) mod 7;
          md = month_day (wall_day w);
          day_match = (snd md \<in> set (cron_day f));
          weekday_match = (wd \<in> set (cron_weekday f))
      in if wall_minute w \<notin> set (cron_minute f) \<or> wall_hour w \<notin> set (cron_hour f)
            \<or> fst md \<notin> set (cron_month f) then False
         else if \<not> cron_day_any f \<and> \<not> cron_weekday_any f then day_match \<or> weekday_match
         else day_match \<and> weekday_match)"

subsection \<open>Validation\<close>

definition map_error :: "exn \<Rightarrow> (exn \<Rightarrow> bool) \<Rightarrow> 'a result \<Rightarrow> 'a result" where
  "map_error e' P r = (case r of Inl e \<Rightarrow> if P e then Inl e' else Inl e | Inr x \<Rightarrow> Inr x)"

fun type_or_value_error :: "exn \<Rightarrow> bool" where
  "type_or_value_error (TypeError _) = True"
| "type_or_value_error e = is_value_error e"

definition validate_interval :: "host \<Rightarrow> string \<Rightarrow> (string \<times> json) list \<Rightarrow> schedule result" where
  "validate_interval H zone kvs =
     bind_result (map_error (WorkflowSpecError ''Interval seconds must be an integer'')
         type_or_value_error (py_int (get_or ''every_seconds'' (JInt 0) kvs))) (\<lambda>every.
     if every < 60 \<or> every > 365 * 24 * 60 * 60 then
       Inl (WorkflowSpecError ''Interval must be between 60 seconds and one year'')
     else if truthy (get_or_null ''start_at'' kvs) then
       bind_result (iso_datetime H (get_or_null ''start_at'' kvs)) (\<lambda>t.
       Inr (Interval zone every (Some (iso_format H t))))
     else Inr (Interval zone every None))"

definition validate_weekly :: "host \<Rightarrow> string \<Rightarrow> (string \<times> json) list \<Rightarrow> schedule result" where
  "validate_weekly H zone kvs = (case get_or_null ''days'' kvs of
       JArr (d # ds) \<Rightarrow>
         bind_result (map_error (WorkflowSpecError ''Weekly days must be integers'')
             type_or_value_error (sequence_result py_int (d # ds))) (\<lambda>ns.
         if list_ex (\<lambda>n. n < 0 \<or> n > 6) ns then
           Inl (WorkflowSpecError ''Weekly days use 0=Monday through 6=Sunday'')
         else bind_result (clock H (get_or_null ''time'' kvs)) (\<lambda>t.
           Inr (Weekly zone (sort (remdups ns)) t)))
     | _ \<Rightarrow> Inl (WorkflowSpecError ''Weekly schedule needs days''))"

definition validate_schedule :: "host \<Rightarrow> json \<Rightarrow> schedule option result" where
  "validate_schedule H v = (case v of
       JNull \<Rightarrow> Inr None
     | JStr [] \<Rightarrow> Inr None
     | JObj [] \<Rightarrow> Inr None
     | JObj kvs \<Rightarrow>
         (let kind = py_lower (py_strip (str_or H ''manual'' ''type'' kvs));
              zone = py_strip (str_or H ''UTC'' ''timezone'' kvs)
          in if kind = ''manual'' then Inr None
             else if \<not> zone_known H zone then Inl (WorkflowSpecError ''Unknown schedule timezone'')
             else if kind = ''once'' then
               bind_result (iso_datetime H (get_or_null ''at'' kvs)) (\<lambda>t.
               Inr (Some (Once zone (iso_format H t))))
             else if kind = ''interval'' then
               bind_result (validate_interval H zone kvs) (\<lambda>s. Inr (Some s))
             else if kind = ''daily'' then
               bind_result (clock H (get_or_null ''time'' kvs)) (\<lambda>t. Inr (Some (Daily zone t)))
             else if kind = ''weekly'' then
               bind_result (validate_weekly H zone kvs) (\<lambda>s. Inr (Some s))
             else if kind = ''cron'' then
               (let expression = py_strip (str_or H [] ''expression'' kvs) in
                bind_result (parse_cron expression) (\<lambda>_. Inr (Some (Cron zone expression))))
             else Inl (WorkflowSpecError
               ''Schedule type must be once, interval, daily, weekly, cron, or manual''))
     | _ \<Rightarrow> Inl (WorkflowSpecError ''Schedule must be an object''))"

subsection \<open>The next due time\<close>

definition next_interval :: "int \<Rightarrow> time \<Rightarrow> time \<Rightarrow> time" where
  "next_interval every start after =
     (if start > after then start
      else let elapsed = max 0 ((after - start) div 1000000)
           in start + seconds ((elapsed div every + 1) * every))"

text \<open>Nine days are tried, today first, on the zone's clock.\<close>

fun next_on_days :: "int list \<Rightarrow> int \<Rightarrow> int \<Rightarrow> int \<Rightarrow> int list \<Rightarrow> int option" where
  "next_on_days days hour minute wall [] = None"
| "next_on_days days hour minute wall (off # offs) =
     (let day = wall_day (wall + off * day_length) in
      if weekday day \<notin> set days then next_on_days days hour minute wall offs
      else if wall_at day hour minute > wall then Some (wall_at day hour minute)
      else next_on_days days hour minute wall offs)"

function cron_search :: "cron_fields \<Rightarrow> int \<Rightarrow> int \<Rightarrow> int option" where
  "cron_search f tries w =
     (if tries \<le> 0 then None
      else if cron_matches w f then Some w
      else cron_search f (tries - 1) (w + minute_length))"
  by pat_completeness auto
termination by (relation "measure (\<lambda>(f, tries, w). nat tries)") auto

declare cron_search.simps [simp del]

definition CRON_MINUTES :: int where
  "CRON_MINUTES = 527040"

definition next_cron_wall :: "cron_fields \<Rightarrow> int \<Rightarrow> int option" where
  "next_cron_wall f wall =
     cron_search f CRON_MINUTES ((wall div minute_length) * minute_length + minute_length)"

definition next_daily :: "host \<Rightarrow> string \<Rightarrow> int list \<Rightarrow> string \<Rightarrow> time \<Rightarrow> time option result" where
  "next_daily H zone days clk after =
     bind_result (clock_fields clk) (\<lambda>(h, m).
     Inr (map_option (wall_to_utc H zone)
       (next_on_days days h m (utc_to_wall H zone after) [0..8])))"

definition next_of :: "host \<Rightarrow> schedule \<Rightarrow> time \<Rightarrow> time option result" where
  "next_of H s after = (case s of
       Once z t0 \<Rightarrow> bind_result (iso_datetime H (JStr t0)) (\<lambda>t.
         Inr (if t > after then Some t else None))
     | Interval z every start \<Rightarrow>
         bind_result (case start of
             Some t \<Rightarrow> if t \<noteq> [] then iso_datetime H (JStr t) else Inr after
           | None \<Rightarrow> Inr after) (\<lambda>st.
         Inr (Some (next_interval every st after)))
     | Daily z clk \<Rightarrow> next_daily H z [0..6] clk after
     | Weekly z days clk \<Rightarrow>
         next_daily H z (if days = [] then [0..6] else days) clk after
     | Cron z e \<Rightarrow> bind_result (parse_cron e) (\<lambda>f.
         case next_cron_wall f (utc_to_wall H z after) of
           Some w \<Rightarrow> Inr (Some (wall_to_utc H z w))
         | None \<Rightarrow> Inl (WorkflowSpecError ''Cron schedule did not produce a time within one year'')))"

definition next_schedule_time :: "host \<Rightarrow> json \<Rightarrow> time \<Rightarrow> time option result" where
  "next_schedule_time H v after =
     bind_result (validate_schedule H v) (\<lambda>s.
     case s of None \<Rightarrow> Inr None | Some s \<Rightarrow> next_of H s after)"

subsection \<open>Facts about the calendar and the searches\<close>

lemma div_bounds:
  assumes "0 < (c::int)"
  shows "x div c * c \<le> x" "x < (x div c + 1) * c"
proof -
  have "x = x div c * c + x mod c" by simp
  moreover have "0 \<le> x mod c" "x mod c < c" using assms by simp_all
  ultimately show "x div c * c \<le> x" "x < (x div c + 1) * c" by (simp_all only: distrib_right)
qed

lemma next_interval_props:
  assumes "1 \<le> every"
  shows "after < next_interval every start after"
    and "\<exists>k\<ge>0. next_interval every start after = start + seconds (k * every)"
    and "0 \<le> k \<Longrightarrow> after < start + seconds (k * every) \<Longrightarrow>
         next_interval every start after \<le> start + seconds (k * every)"
proof -
  define q where "q = (after - start) div 1000000 div every"
  have b: "after - start < 1000000 * ((after - start) div 1000000 + 1)"
    using div_bounds [of 1000000 "after - start"] by (simp add: algebra_simps)
  have le: "(after - start) div 1000000 + 1 \<le> (q + 1) * every"
  proof -
    let ?e = "(after - start) div 1000000"
    have "?e = every * q + ?e mod every" by (simp add: q_def)
    moreover have "?e mod every < every" using assms by (simp add: pos_mod_bound)
    ultimately show ?thesis by (simp add: algebra_simps)
  qed
  have lt: "after < start + seconds ((q + 1) * every)"
    using b le by (simp add: seconds_def)
  have le2: "q * every \<le> (after - start) div 1000000"
    using assms div_bounds [of every] unfolding q_def by simp
  have n: "start \<le> after \<Longrightarrow> next_interval every start after = start + seconds ((q + 1) * every)"
    by (simp add: next_interval_def q_def pos_imp_zdiv_nonneg_iff)
  have q0: "start \<le> after \<Longrightarrow> 0 \<le> q"
    using assms by (simp add: q_def pos_imp_zdiv_nonneg_iff)
  show "after < next_interval every start after"
    using lt n by (cases "start \<le> after") (auto simp: next_interval_def)
  show "\<exists>k\<ge>0. next_interval every start after = start + seconds (k * every)"
    using n q0 by (cases "start \<le> after")
      (auto simp: next_interval_def intro: exI [of _ "q + 1"] exI [of _ 0] simp: seconds_def)
  assume k: "0 \<le> k" "after < start + seconds (k * every)"
  show "next_interval every start after \<le> start + seconds (k * every)"
  proof (cases "start \<le> after")
    case True
    have "q + 1 \<le> k"
    proof (rule ccontr)
      assume "\<not> q + 1 \<le> k"
      then have "k * every \<le> q * every" using assms by (intro mult_right_mono) auto
      with le2 have "k * every \<le> (after - start) div 1000000" by linarith
      then have "1000000 * (k * every) \<le> after - start"
        using div_bounds [of 1000000 "after - start"] by linarith
      with k show False by (simp add: seconds_def)
    qed
    then have "(q + 1) * every \<le> k * every" using assms by (intro mult_right_mono) auto
    with n [OF True] show ?thesis by simp
  next
    case False
    then show ?thesis using k assms by (simp add: next_interval_def seconds_def)
  qed
qed

lemma wall_at_fields:
  assumes "0 \<le> h" "h < 24" "0 \<le> m" "m < 60"
  shows "wall_day (wall_at d h m) = d" "wall_hour (wall_at d h m) = h"
    "wall_minute (wall_at d h m) = m" "wall_at d h m mod minute_length = 0"
proof -
  let ?r = "(60 * h + m) * minute_length"
  have r: "0 \<le> ?r" "?r < day_length"
    using assms by (auto simp: minute_length_def day_length_def)
  have w: "wall_at d h m = ?r + d * day_length" by (simp add: wall_at_def)
  show "wall_day (wall_at d h m) = d"
    unfolding wall_day_def w using r by simp
  have md: "wall_at d h m mod day_length = ?r"
    unfolding w using r by simp
  show "wall_hour (wall_at d h m) = h"
    unfolding wall_hour_def md using assms by (simp add: minute_length_def)
  have "wall_at d h m = m * minute_length + (24 * d + h) * (60 * minute_length)"
    by (simp add: wall_at_def day_length_def minute_length_def)
  moreover have "0 \<le> m * minute_length" "m * minute_length < 60 * minute_length"
    using assms by (auto simp: minute_length_def)
  ultimately have "wall_at d h m mod (60 * minute_length) = m * minute_length"
    by (simp only: mod_mult_self1 mod_pos_pos_trivial)
  then show "wall_minute (wall_at d h m) = m"
    by (simp add: wall_minute_def minute_length_def)
  have "wall_at d h m = (1440 * d + 60 * h + m) * minute_length"
    by (simp add: wall_at_def day_length_def minute_length_def)
  then show "wall_at d h m mod minute_length = 0" by simp
qed

lemma wall_at_mono: "0 \<le> h \<Longrightarrow> wall_at d h m \<le> wall_at d' h m \<longleftrightarrow> d \<le> d'"
  by (simp add: wall_at_def day_length_def)

lemma wall_day_shift: "wall_day (w + k * day_length) = wall_day w + k"
  by (simp add: wall_day_def day_length_def)

lemma next_on_days_None:
  "next_on_days days h m wall offs = None \<longleftrightarrow>
   (\<forall>k \<in> set offs. weekday (wall_day wall + k) \<in> set days \<longrightarrow>
      wall_at (wall_day wall + k) h m \<le> wall)"
  by (induction offs) (auto simp: Let_def wall_day_shift)

lemma next_on_days_Some:
  "next_on_days days h m wall offs = Some w \<Longrightarrow>
   \<exists>i < length offs. w = wall_at (wall_day wall + offs ! i) h m
     \<and> weekday (wall_day wall + offs ! i) \<in> set days \<and> wall < w
     \<and> (\<forall>j < i. weekday (wall_day wall + offs ! j) \<in> set days \<longrightarrow>
          wall_at (wall_day wall + offs ! j) h m \<le> wall)"
proof (induction offs)
  case (Cons k offs)
  show ?case
  proof (cases "weekday (wall_day wall + k) \<in> set days \<and> wall < wall_at (wall_day wall + k) h m")
    case True
    with Cons.prems show ?thesis by (intro exI [of _ 0]) (auto simp: Let_def wall_day_shift)
  next
    case False
    with Cons.prems have "next_on_days days h m wall offs = Some w"
      by (auto simp: Let_def wall_day_shift split: if_splits)
    from Cons.IH [OF this] obtain i where i: "i < length offs"
      "w = wall_at (wall_day wall + offs ! i) h m" "weekday (wall_day wall + offs ! i) \<in> set days"
      "wall < w" "\<forall>j < i. weekday (wall_day wall + offs ! j) \<in> set days \<longrightarrow>
          wall_at (wall_day wall + offs ! j) h m \<le> wall" by blast
    with False show ?thesis
      by (intro exI [of _ "Suc i"]) (auto simp: less_Suc_eq_0_disj)
  qed
qed simp

lemma upto_0_8: "[0..8] = [0, 1, 2, 3, 4, 5, 6, 7, 8::int]"
  by code_simp

lemma weekday_hit: "0 \<le> n \<Longrightarrow> n \<le> 6 \<Longrightarrow> \<exists>k::int. 1 \<le> k \<and> k \<le> 7 \<and> weekday (day + k) = n"
proof (rule exI [of _ "(n - day - 4) mod 7 + 1"], intro conjI)
  assume n: "0 \<le> n" "n \<le> 6"
  show "1 \<le> (n - day - 4) mod 7 + 1" by simp
  show "(n - day - 4) mod 7 + 1 \<le> 7" by (simp add: add1_zle_eq)
  have "(day + ((n - day - 4) mod 7 + 1) + 3) mod 7 = (day + 4 + (n - day - 4) mod 7) mod 7"
    by (simp add: algebra_simps)
  also have "\<dots> = (day + 4 + (n - day - 4)) mod 7" by (simp only: mod_add_right_eq)
  also have "\<dots> = n" using n by simp
  finally show "weekday (day + ((n - day - 4) mod 7 + 1)) = n" by (simp add: weekday_def)
qed

lemma wall_next_day: "0 \<le> h \<Longrightarrow> 0 \<le> m \<Longrightarrow> 1 \<le> k \<Longrightarrow> wall < wall_at (wall_day wall + k) h m"
proof -
  assume "0 \<le> h" "0 \<le> m" "1 \<le> k"
  have "wall < (wall div day_length + 1) * day_length"
    by (simp add: day_length_def)
  also have "\<dots> \<le> (wall_day wall + k) * day_length"
    using \<open>1 \<le> k\<close> by (simp add: wall_day_def day_length_def)
  also have "\<dots> \<le> wall_at (wall_day wall + k) h m"
    using \<open>0 \<le> h\<close> \<open>0 \<le> m\<close> by (simp add: wall_at_def minute_length_def)
  finally show ?thesis .
qed

lemma wall_past_day: "0 \<le> h \<Longrightarrow> h < 24 \<Longrightarrow> 0 \<le> m \<Longrightarrow> m < 60 \<Longrightarrow> wall < wall_at d h m \<Longrightarrow> wall_day wall \<le> d"
  by (metis wall_at_fields(1) wall_day_def zdiv_mono1 less_imp_le day_length_def zero_less_numeral)

lemma next_on_days_total:
  assumes "days \<noteq> []" "set days \<subseteq> {0..6}" "0 \<le> h" "0 \<le> m"
  obtains w where "next_on_days days h m wall [0..8] = Some w"
proof (cases "next_on_days days h m wall [0..8]")
  case None
  obtain n where n: "n \<in> set days" "0 \<le> n" "n \<le> 6"
    using assms by (cases days) auto
  then obtain k where k: "1 \<le> k" "k \<le> 7" "weekday (wall_day wall + k) = n"
    using weekday_hit by blast
  then have "k \<in> set [0..8]" by simp
  with None n k have "wall_at (wall_day wall + k) h m \<le> wall"
    unfolding next_on_days_None by blast
  with wall_next_day [OF assms(3,4) k(1), of wall] show ?thesis by simp
qed

lemma next_on_days_least:
  assumes "next_on_days days h m wall [0..8] = Some w" "0 \<le> h" "h < 24" "0 \<le> m" "m < 60"
  shows "wall < w \<and> weekday (wall_day w) \<in> set days \<and> w = wall_at (wall_day w) h m
    \<and> (\<forall>d. weekday d \<in> set days \<and> wall < wall_at d h m \<longrightarrow> w \<le> wall_at d h m)"
proof -
  have nth: "i < length [0..8::int] \<Longrightarrow> [0..8] ! i = int i" for i
    by (simp add: nth_upto)
  obtain i where i: "i < length [0..8::int]" "w = wall_at (wall_day wall + int i) h m"
      "weekday (wall_day wall + int i) \<in> set days" "wall < w"
      "\<forall>j < i. weekday (wall_day wall + int j) \<in> set days \<longrightarrow>
          wall_at (wall_day wall + int j) h m \<le> wall"
    using next_on_days_Some [OF assms(1)] nth by (metis (lifting) less_trans)
  have d: "wall_day w = wall_day wall + int i"
    using wall_at_fields(1) [OF assms(2-5)] i(2) by simp
  have least: "w \<le> wall_at d' h m" if d': "weekday d' \<in> set days" "wall < wall_at d' h m" for d'
  proof (rule ccontr)
    assume "\<not> w \<le> wall_at d' h m"
    then have "d' < wall_day wall + int i"
      using wall_at_mono [OF assms(2)] i(2) by fastforce
    moreover have "wall_day wall \<le> d'" using wall_past_day assms d'(2) by blast
    ultimately have "nat (d' - wall_day wall) < i" "wall_day wall + int (nat (d' - wall_day wall)) = d'"
      by auto
    with i(5) d' show False by (metis not_less)
  qed
  with i d show ?thesis by simp
qed

lemma cron_search_Some:
  "cron_search f n w = Some v \<Longrightarrow>
   \<exists>k. 0 \<le> k \<and> k < n \<and> v = w + k * minute_length \<and> cron_matches v f
     \<and> (\<forall>j. 0 \<le> j \<and> j < k \<longrightarrow> \<not> cron_matches (w + j * minute_length) f)"
proof (induction f n w rule: cron_search.induct)
  case (1 f n w)
  show ?case
  proof (cases "n \<le> 0 \<or> cron_matches w f")
    case True
    with 1(2) show ?thesis
      by (intro exI [of _ 0]) (auto simp: cron_search.simps [of f n w] split: if_splits)
  next
    case False
    with 1(2) have "cron_search f (n - 1) (w + minute_length) = Some v"
      by (simp add: cron_search.simps [of f n w])
    with False 1(1) obtain k where k: "0 \<le> k" "k < n - 1" "v = w + minute_length + k * minute_length"
      "cron_matches v f" "\<forall>j. 0 \<le> j \<and> j < k \<longrightarrow> \<not> cron_matches (w + minute_length + j * minute_length) f"
      by (metis (no_types))
    have "\<not> cron_matches (w + j * minute_length) f" if "0 \<le> j" "j < k + 1" for j
    proof (cases "j = 0")
      case True
      then show ?thesis using False by simp
    next
      case False
      with that have "0 \<le> j - 1" "j - 1 < k" by auto
      then have "\<not> cron_matches (w + minute_length + (j - 1) * minute_length) f" using k(5) by blast
      then show ?thesis by (simp add: algebra_simps)
    qed
    with k show ?thesis by (intro exI [of _ "k + 1"]) (auto simp: algebra_simps)
  qed
qed

lemma cron_search_None:
  "cron_search f n w = None \<longleftrightarrow> (\<forall>k. 0 \<le> k \<and> k < n \<longrightarrow> \<not> cron_matches (w + k * minute_length) f)"
proof (induction f n w rule: cron_search.induct)
  case (1 f n w)
  show ?case
  proof (cases "n \<le> 0")
    case True
    then show ?thesis by (auto simp: cron_search.simps [of f n w])
  next
    case n: False
    have shift: "(\<forall>k. 0 \<le> k \<and> k < n \<longrightarrow> P (w + k * minute_length)) \<longleftrightarrow>
      P w \<and> (\<forall>k. 0 \<le> k \<and> k < n - 1 \<longrightarrow> P (w + minute_length + k * minute_length))" for P
    proof safe
      fix k assume *: "P w" "\<forall>k. 0 \<le> k \<and> k < n - 1 \<longrightarrow> P (w + minute_length + k * minute_length)"
        "(0::int) \<le> k" "k < n"
      show "P (w + k * minute_length)"
      proof (cases "k = 0")
        case False
        with * have "P (w + minute_length + (k - 1) * minute_length)" by (intro *(2) [rule_format]) auto
        then show ?thesis by (simp add: algebra_simps)
      qed (use * in simp)
    next
      assume *: "\<forall>k. 0 \<le> k \<and> k < n \<longrightarrow> P (w + k * minute_length)"
      show "P w" using * [rule_format, of 0] n by simp
      fix k :: int assume "0 \<le> k" "k < n - 1"
      then have "P (w + (k + 1) * minute_length)" by (intro * [rule_format]) auto
      then show "P (w + minute_length + k * minute_length)" by (simp add: algebra_simps)
    qed
    show ?thesis
      using 1 n unfolding shift [of "\<lambda>v. \<not> cron_matches v f"]
      by (auto simp: cron_search.simps [of f n w])
  qed
qed

text \<open>\<open>HH:MM\<close> texts give an hour and a minute in range.\<close>

lemma parse_two_digits:
  assumes "is_decimal a" "is_decimal b"
  shows "parse_int [a, b] = Some (10 * (int (code_point a) - 48) + (int (code_point b) - 48))"
proof -
  have ns: "\<not> is_space a" "\<not> is_space b" "a \<noteq> CHR ''_''" "b \<noteq> CHR ''_''" "a \<noteq> CHR ''-''" "a \<noteq> CHR ''+''"
    using assms by (auto simp: is_decimal_def is_space_def code_point_def)
  then have "py_strip [a, b] = [a, b]" by (simp add: py_strip_def)
  with ns assms show ?thesis
    by (auto simp: parse_int_def Let_def is_decimal_def)
qed

lemma clock_shape_fields:
  assumes "clock_shape s"
  shows "\<exists>h m. clock_fields s = Inr (h, m) \<and> 0 \<le> h \<and> h < 24 \<and> 0 \<le> m \<and> m < 60"
proof -
  obtain a b c d e where s: "s = [a, b, c, d, e]" "c = CHR '':''" "is_decimal b" "is_decimal e"
    "code_point d \<in> {48, 49, 50, 51, 52, 53}"
    "code_point a \<in> {48, 49} \<or> code_point a = 50 \<and> code_point b \<in> {48, 49, 50, 51}"
    using assms by (auto simp: clock_shape_def split: list.splits)
  then have da: "is_decimal a" and dd: "is_decimal d" by (auto simp: is_decimal_def)
  have ne: "is_decimal x \<Longrightarrow> x \<noteq> CHR '':''" for x by (auto simp: is_decimal_def code_point_def)
  have "split_on (CHR '':'') s = [[a, b], [d, e]]"
    using s ne [OF da] ne [OF dd] ne [OF s(3)] ne [OF s(4)] by simp
  with s da dd show ?thesis
    by (auto simp: clock_fields_def parse_two_digits is_decimal_def)
qed

lemma clock_Inr: "clock H v = Inr c \<Longrightarrow> clock_shape c"
  by (auto simp: clock_def Let_def split: if_splits)

lemma validate_interval_bounds:
  "validate_interval H z kvs = Inr (Interval z' n st) \<Longrightarrow> 60 \<le> n \<and> n \<le> 365 * 24 * 60 * 60"
  by (auto simp: validate_interval_def bind_result_Inr_iff split: if_splits)

lemma validate_interval_kind:
  "validate_interval H z kvs = Inr s \<Longrightarrow> \<exists>n st. s = Interval z n st"
  by (auto simp: validate_interval_def bind_result_Inr_iff split: if_splits)

lemma validate_weekly_props:
  "validate_weekly H z kvs = Inr s \<Longrightarrow>
   \<exists>ds t. s = Weekly z ds t \<and> ds \<noteq> [] \<and> set ds \<subseteq> {0..6} \<and> sorted ds \<and> distinct ds \<and> clock_shape t"
proof -
  assume a: "validate_weekly H z kvs = Inr s"
  then obtain d ds ns t where "sequence_result py_int (d # ds) = Inr ns" and
    "\<not> list_ex (\<lambda>n. n < 0 \<or> n > 6) ns" and "clock H (get_or_null ''time'' kvs) = Inr t" and
    "s = Weekly z (sort (remdups ns)) t"
    by (auto simp: validate_weekly_def bind_result_Inr_iff map_error_def
        simp del: sequence_result.simps split: json.splits list.splits if_splits sum.splits)
  moreover from this have "ns \<noteq> []" using sequence_result_length by fastforce
  ultimately show ?thesis
    by (auto simp: list_ex_iff not_less intro!: clock_Inr)
      (metis empty_set set_empty set_remdups set_sort)
qed

text \<open>What each kind of validated schedule satisfies.\<close>

definition schedule_ok :: "host \<Rightarrow> schedule \<Rightarrow> bool" where
  "schedule_ok H s = (case s of
       Once z t \<Rightarrow> zone_known H z \<and> (\<exists>u. t = iso_format H u)
     | Interval z n st \<Rightarrow> zone_known H z \<and> 60 \<le> n \<and> n \<le> 365 * 24 * 60 * 60
     | Daily z t \<Rightarrow> zone_known H z \<and> clock_shape t
     | Weekly z ds t \<Rightarrow> zone_known H z \<and> ds \<noteq> [] \<and> set ds \<subseteq> {0..6} \<and> sorted ds \<and> distinct ds
         \<and> clock_shape t
     | Cron z e \<Rightarrow> zone_known H z \<and> (\<exists>f. parse_cron e = Inr f))"

lemma validate_schedule_ok: "validate_schedule H v = Inr (Some s) \<Longrightarrow> schedule_ok H s"
  by (cases v) (auto simp: validate_schedule_def schedule_ok_def Let_def bind_result_Inr_iff
      dest: validate_interval_bounds clock_Inr dest!: validate_weekly_props
      dest: validate_interval_kind split: list.splits if_splits schedule.splits)

lemma next_schedule_time_valid:
  "validate_schedule H v = Inr (Some s) \<Longrightarrow> next_schedule_time H v after = next_of H s after"
  by (simp add: next_schedule_time_def)

lemma next_daily_spec:
  assumes "clock_shape clk" "days \<noteq> []" "set days \<subseteq> {0..6}"
  shows "\<exists>h m w. clock_fields clk = Inr (h, m) \<and> next_daily H z days clk after = Inr (Some (wall_to_utc H z w))
     \<and> utc_to_wall H z after < w \<and> weekday (wall_day w) \<in> set days \<and> w = wall_at (wall_day w) h m
     \<and> (\<forall>d. weekday d \<in> set days \<and> utc_to_wall H z after < wall_at d h m \<longrightarrow> w \<le> wall_at d h m)"
proof -
  obtain h m where hm: "clock_fields clk = Inr (h, m)" "0 \<le> h" "h < 24" "0 \<le> m" "m < 60"
    using clock_shape_fields [OF assms(1)] by blast
  obtain w where w: "next_on_days days h m (utc_to_wall H z after) [0..8] = Some w"
    using next_on_days_total assms(2,3) hm by blast
  with hm next_on_days_least [OF w hm(2-5)] show ?thesis
    by (auto simp: next_daily_def)
qed

lemma next_cron_wall_spec:
  "case next_cron_wall f wall of
      Some w \<Rightarrow> (\<exists>k. 1 \<le> k \<and> k \<le> 527040 \<and> w = wall div minute_length * minute_length + k * minute_length
        \<and> cron_matches w f
        \<and> (\<forall>j. 1 \<le> j \<and> j < k \<longrightarrow> \<not> cron_matches (wall div minute_length * minute_length + j * minute_length) f))
    | None \<Rightarrow> \<forall>k. 1 \<le> k \<and> k \<le> 527040 \<longrightarrow>
        \<not> cron_matches (wall div minute_length * minute_length + k * minute_length) f"
proof -
  let ?b = "wall div minute_length * minute_length"
  have sh: "?b + k * minute_length = ?b + minute_length + (k - 1) * minute_length" for k
    by (simp add: algebra_simps)
  show ?thesis
  proof (cases "next_cron_wall f wall")
    case None
    then have "\<forall>k. 0 \<le> k \<and> k < CRON_MINUTES \<longrightarrow> \<not> cron_matches (?b + minute_length + k * minute_length) f"
      by (simp add: next_cron_wall_def cron_search_None)
    then have "\<not> cron_matches (?b + k * minute_length) f" if "1 \<le> k" "k \<le> 527040" for k
      using that unfolding sh [of k] by (simp add: CRON_MINUTES_def)
    with None show ?thesis by simp
  next
    case (Some w)
    then obtain k where k: "0 \<le> k" "k < CRON_MINUTES" "w = ?b + minute_length + k * minute_length"
        "cron_matches w f" "\<forall>j. 0 \<le> j \<and> j < k \<longrightarrow> \<not> cron_matches (?b + minute_length + j * minute_length) f"
      unfolding next_cron_wall_def using cron_search_Some by blast
    have "\<not> cron_matches (?b + j * minute_length) f" if "1 \<le> j" "j < k + 1" for j
      using that k(5) unfolding sh [of j] by simp
    with Some k show ?thesis
      by (auto intro!: exI [of _ "k + 1"] simp: CRON_MINUTES_def algebra_simps)
  qed
qed

subsection \<open>When a workflow is due\<close>

text \<open>
  An interval schedule is due at the first multiple of the interval after \<open>after\<close>, counted from
  its start (or from \<open>after\<close> itself): the result is later than \<open>after\<close>, is the start plus a whole
  number of intervals, and no earlier such instant is later than \<open>after\<close>.
\<close>

lemma next_interval_is_least:
  assumes "validate_schedule H v = Inr (Some (Interval z every st))"
    and "next_schedule_time H v after = Inr (Some t)"
  shows "\<exists>start. (case st of None \<Rightarrow> start = after
                 | Some u \<Rightarrow> u \<noteq> [] \<longrightarrow> iso_datetime H (JStr u) = Inr start)
     \<and> after < t \<and> (\<exists>k\<ge>0. t = start + seconds (k * every))
     \<and> (\<forall>k\<ge>0. after < start + seconds (k * every) \<longrightarrow> t \<le> start + seconds (k * every))"
proof -
  have every: "1 \<le> every"
    using validate_schedule_ok [OF assms(1)] by (simp add: schedule_ok_def)
  obtain start where "(case st of None \<Rightarrow> Inr after
        | Some u \<Rightarrow> if u \<noteq> [] then iso_datetime H (JStr u) else Inr after) = Inr start"
      and t: "t = next_interval every start after"
    using assms(2) unfolding next_schedule_time_valid [OF assms(1)]
    by (auto simp: next_of_def bind_result_Inr_iff split: option.splits)
  then have "case st of None \<Rightarrow> start = after
      | Some u \<Rightarrow> u \<noteq> [] \<longrightarrow> iso_datetime H (JStr u) = Inr start"
    by (auto split: option.splits if_splits)
  with next_interval_props [OF every] show ?thesis unfolding t by blast
qed

definition every_minute :: json where
  "every_minute = JObj [(''type'', JStr ''interval''), (''every_seconds'', JInt 60)]"

lemma every_minute_next:
  "validate_schedule sample_host every_minute = Inr (Some (Interval ''UTC'' 60 None))"
  "next_schedule_time sample_host every_minute 5 = Inr (Some 60000005)"
  by code_simp+

lemma next_interval_is_least_witness:
  "\<exists>start. start = 5 \<and> (\<forall>k\<ge>0. 5 < start + seconds (k * 60) \<longrightarrow> 60000005 \<le> start + seconds (k * 60))"
  using next_interval_is_least [OF every_minute_next] by auto

text \<open>
  C3. A daily or weekly schedule always has a next time, whatever the zone: the first wall time
  after now that falls on one of the chosen weekdays at the given hour and minute.
\<close>

theorem next_weekly_exists_and_is_least:
  assumes "validate_schedule H v = Inr (Some s)"
    and "s = Daily z clk \<and> days = [0..6] \<or> s = Weekly z days clk"
  shows "\<exists>h m w. clock_fields clk = Inr (h, m)
     \<and> next_schedule_time H v after = Inr (Some (wall_to_utc H z w))
     \<and> utc_to_wall H z after < w \<and> weekday (wall_day w) \<in> set days \<and> w = wall_at (wall_day w) h m
     \<and> (\<forall>d. weekday d \<in> set days \<and> utc_to_wall H z after < wall_at d h m \<longrightarrow> w \<le> wall_at d h m)"
proof -
  have ok: "clock_shape clk" "days \<noteq> []" "set days \<subseteq> {0..6}"
    and nx: "next_of H s after = next_daily H z days clk after"
    using validate_schedule_ok [OF assms(1)] assms(2) by (auto simp: schedule_ok_def next_of_def subset_iff)
  show ?thesis
    unfolding next_schedule_time_valid [OF assms(1)] nx by (rule next_daily_spec [OF ok])
qed

definition mondays :: json where
  "mondays = JObj [(''type'', JStr ''weekly''), (''days'', JArr [JInt 0, JStr ''0'']), (''time'', JStr '' 09:30'')]"

lemma mondays_valid:
  "validate_schedule sample_host mondays = Inr (Some (Weekly ''UTC'' [0] ''09:30''))"
  by code_simp

theorem next_weekly_exists_and_is_least_witness:
  "\<exists>w. next_schedule_time sample_host mondays 5 = Inr (Some w) \<and> 5 < w \<and> weekday (wall_day w) = 0"
  using next_weekly_exists_and_is_least [OF mondays_valid, of "''UTC''" "''09:30''" "[0]" 5]
  by (auto simp: sample_host_def)

text \<open>
  C4. A cron schedule is due at the first whole minute on the zone's clock, after the current one,
  that its five fields match; it is refused exactly when none of the next 527040 minutes match.
\<close>

theorem next_cron_is_least_match:
  assumes "validate_schedule H v = Inr (Some (Cron z e))"
  shows "\<exists>f base. parse_cron e = Inr f \<and> base mod minute_length = 0
     \<and> base \<le> utc_to_wall H z after \<and> utc_to_wall H z after < base + minute_length
     \<and> (case next_schedule_time H v after of
          Inr t \<Rightarrow> (\<exists>k. 1 \<le> k \<and> k \<le> 527040
             \<and> t = Some (wall_to_utc H z (base + k * minute_length))
             \<and> cron_matches (base + k * minute_length) f
             \<and> (\<forall>j. 1 \<le> j \<and> j < k \<longrightarrow> \<not> cron_matches (base + j * minute_length) f))
        | Inl x \<Rightarrow> \<forall>k. 1 \<le> k \<and> k \<le> 527040 \<longrightarrow> \<not> cron_matches (base + k * minute_length) f)"
proof -
  let ?wall = "utc_to_wall H z after"
  let ?base = "?wall div minute_length * minute_length"
  obtain f where f: "parse_cron e = Inr f"
    using validate_schedule_ok [OF assms] by (auto simp: schedule_ok_def)
  have nx: "next_schedule_time H v after =
      (case next_cron_wall f ?wall of Some w \<Rightarrow> Inr (Some (wall_to_utc H z w))
       | None \<Rightarrow> Inl (WorkflowSpecError ''Cron schedule did not produce a time within one year''))"
    by (simp add: next_schedule_time_valid [OF assms] next_of_def f)
  have b: "?base \<le> ?wall" "?wall < ?base + minute_length"
    using div_bounds [of minute_length ?wall] by (simp_all add: minute_length_def)
  have "case next_cron_wall f ?wall of
      Some w \<Rightarrow> (\<exists>k. 1 \<le> k \<and> k \<le> 527040 \<and> w = ?base + k * minute_length \<and> cron_matches w f
        \<and> (\<forall>j. 1 \<le> j \<and> j < k \<longrightarrow> \<not> cron_matches (?base + j * minute_length) f))
    | None \<Rightarrow> \<forall>k. 1 \<le> k \<and> k \<le> 527040 \<longrightarrow> \<not> cron_matches (?base + k * minute_length) f"
    by (rule next_cron_wall_spec)
  with f b nx show ?thesis
    by (intro exI [of _ f] exI [of _ ?base]) (auto split: option.splits)
qed

definition quarterly :: json where
  "quarterly = JObj [(''type'', JStr ''cron''), (''expression'', JStr ''*/15 * * * *'')]"

lemma quarterly_valid:
  "validate_schedule sample_host quarterly = Inr (Some (Cron ''UTC'' ''*/15 * * * *''))"
  by code_simp

theorem next_cron_is_least_match_witness:
  "\<exists>f. parse_cron ''*/15 * * * *'' = Inr f \<and>
     (case next_schedule_time sample_host quarterly 0 of Inr t \<Rightarrow> t \<noteq> None | Inl x \<Rightarrow> True)"
  using next_cron_is_least_match [OF quarterly_valid, of 0] by (auto split: sum.splits)

text \<open>A zone whose clock is put back from four to five hours behind UTC at instant zero.\<close>

definition fall_back_host :: host where
  "fall_back_host = sample_host \<lparr>
     utc_to_wall := (\<lambda>z t. if t < 0 then t - 14400000000 else t - 18000000000),
     wall_to_utc := (\<lambda>z w. if w < - 14400000000 then w + 14400000000 else w + 18000000000)\<rparr>"

text \<open>
  The next time is later on the wall clock but may be past in UTC: in the hour that a zone's
  clock repeats, a cron schedule evaluated during the second pass is converted as the first pass,
  so the run it is due for lies before the instant it was computed at.
\<close>

lemma cron_next_time_can_be_past:
  "(\<forall>z w. utc_to_wall fall_back_host z (wall_to_utc fall_back_host z w) = w)
   \<and> next_schedule_time fall_back_host quarterly 1800000000 = Inr (Some (- 900000000))"
  by (rule conjI, simp add: fall_back_host_def, code_simp)

end
