(* ===== verification/Authority.thy ===== *)
theory Authority
  imports Py_Json
begin

text \<open>
  packages/security: which surface a request came from and what that surface may see
  (surfaces.py), the permissions of a role (permissions.py) and of a guest of an external platform
  (guest\_workspace.py), the execution context resolved from trusted state (execution\_context.py)
  and its narrowing to a delegated principal (delegation.py). A \<open>DelegatedExecutionContext\<close> is a
  context whose \<open>delegation\<close> field is filled; its \<open>principal_id\<close> overrides the inherited one.
\<close>

subsection \<open>Surfaces\<close>

datatype surface =
    SurfUnknown | PersonalPrivate | WorkspaceShared | WorkspacePrivate | DiscordDm | DiscordGuild
  | SystemTask | McpClient | PluginRuntime | SolutionRuntime

fun surface_value :: "surface \<Rightarrow> string" where
  "surface_value SurfUnknown = ''unknown''"
| "surface_value PersonalPrivate = ''personal_private''"
| "surface_value WorkspaceShared = ''workspace_shared''"
| "surface_value WorkspacePrivate = ''workspace_private''"
| "surface_value DiscordDm = ''discord_dm''"
| "surface_value DiscordGuild = ''discord_guild''"
| "surface_value SystemTask = ''system_task''"
| "surface_value McpClient = ''mcp_client''"
| "surface_value PluginRuntime = ''plugin_runtime''"
| "surface_value SolutionRuntime = ''solution_runtime''"

definition all_surfaces :: "surface list" where
  "all_surfaces = [SurfUnknown, PersonalPrivate, WorkspaceShared, WorkspacePrivate, DiscordDm,
     DiscordGuild, SystemTask, McpClient, PluginRuntime, SolutionRuntime]"

definition coerce_surface :: "string \<Rightarrow> surface" where
  "coerce_surface t =
     (case find (\<lambda>k. surface_value k = py_lower (py_strip t)) all_surfaces of
        Some k \<Rightarrow> k | None \<Rightarrow> SurfUnknown)"

definition allows_personal_global :: "surface \<Rightarrow> bool" where
  "allows_personal_global k = (k \<in> {PersonalPrivate, DiscordDm})"

definition allows_personal_workspace :: "surface \<Rightarrow> bool" where
  "allows_personal_workspace k = (k \<in> {PersonalPrivate, DiscordDm, WorkspacePrivate})"

definition allows_private_conversation :: "surface \<Rightarrow> bool" where
  "allows_private_conversation k = (k \<in> {PersonalPrivate, DiscordDm, WorkspacePrivate})"

definition is_shared :: "surface \<Rightarrow> bool" where
  "is_shared k = (k \<in> {WorkspaceShared, DiscordGuild})"

definition str_field :: "host \<Rightarrow> string \<Rightarrow> (string \<times> json) list \<Rightarrow> string" where
  "str_field H k kvs = py_strip (str_or H [] k kvs)"

definition surface_from_legacy_metadata :: "host \<Rightarrow> string \<Rightarrow> (string \<times> json) list \<Rightarrow> surface" where
  "surface_from_legacy_metadata H channel data =
     (let explicit = coerce_surface (str_or H [] ''_surface_kind'' data) in
      if explicit \<noteq> SurfUnknown then explicit
      else if py_lower (py_strip channel) = ''discord'' then
        (if get_or_null ''is_direct'' data = JBool True then DiscordDm else DiscordGuild)
      else if get_or_null ''shared_surface'' data = JBool True then WorkspaceShared
      else if get_or_null ''shared_surface'' data = JBool False
           \<and> get_or_null ''is_direct'' data = JBool True then PersonalPrivate
      else SurfUnknown)"

definition capability_surface_allowed :: "string \<Rightarrow> surface \<Rightarrow> bool" where
  "capability_surface_allowed capability_id kind =
     (let capability = py_lower (py_strip capability_id) in
      if starts_with ''account.'' capability \<or> starts_with ''context.human.'' capability then
        allows_personal_global kind
      else if starts_with ''context.private_workspace_'' capability then
        allows_personal_workspace kind
      else if capability = ''context.conversation.remember_private'' then
        allows_private_conversation kind
      else True)"

subsection \<open>Role permissions\<close>

definition BUSINESS_READ_PERMISSIONS :: "string list" where
  "BUSINESS_READ_PERMISSIONS = [
    ''crm:read'', ''catalog:read'', ''inventory:read'', ''orders:read'', ''quotes:read'',
    ''finance:read'', ''suppliers:read'', ''fulfillment:read'', ''support:read'',
    ''appointments:read'', ''team:read'', ''documents:read'', ''marketing:read'',
    ''projects:read'', ''operations:read'', ''compliance:read'', ''research:read'',
    ''grants:read'', ''integrations:read'']"

definition BUSINESS_WRITE_PERMISSIONS :: "string list" where
  "BUSINESS_WRITE_PERMISSIONS = [
    ''crm:write'', ''catalog:write'', ''inventory:write'', ''orders:write'', ''quotes:write'',
    ''finance:write'', ''suppliers:write'', ''fulfillment:write'', ''support:write'',
    ''appointments:write'', ''team:write'', ''documents:write'', ''marketing:write'',
    ''projects:write'', ''operations:write'', ''compliance:write'', ''research:write'',
    ''grants:write'']"

definition owner_authority :: "string list" where
  "owner_authority = [
    ''company:read'', ''analytics:read'', ''website:read'', ''website:write'',
    ''messaging:draft'', ''messaging:curate'', ''messaging:read'', ''messaging:write'',
    ''messaging:send'', ''gmail:read'', ''gmail:write'', ''gmail:draft'', ''calendar:read'',
    ''calendar:write'', ''solution:read'', ''solution:generate'', ''solution:write'',
    ''tasks:read'', ''tasks:write'', ''memory:read'', ''memory:write'', ''messages:read'',
    ''actions:read'', ''actions:approve'', ''model:invoke'', ''files:process'',
    ''computer:execute'', ''reminders:write'', ''discord:read'', ''discord:write'',
    ''workflows:read'', ''workflows:write'', ''workflows:run'', ''context:human:read'',
    ''context:human:write'', ''context:tenant:read'', ''context:tenant:write'',
    ''context:conversation:read'', ''context:conversation:write'', ''workspace:read'',
    ''workspace:settings:manage'', ''workspace:members:manage'', ''workspace:roles:manage'',
    ''workspace:channels:manage'', ''workspace:clients:manage'', ''workspace:tools:expose'',
    ''workspace:modules:manage'', ''integrations:manage'']
    @ BUSINESS_READ_PERMISSIONS @ BUSINESS_WRITE_PERMISSIONS"

definition manager_authority :: "string list" where
  "manager_authority = [
    ''company:read'', ''analytics:read'', ''website:read'', ''website:write'',
    ''messaging:draft'', ''messaging:curate'', ''messaging:read'', ''messaging:write'',
    ''messaging:send'', ''gmail:read'', ''gmail:write'', ''gmail:draft'', ''calendar:read'',
    ''calendar:write'', ''solution:read'', ''tasks:read'', ''tasks:write'', ''memory:read'',
    ''memory:write'', ''messages:read'', ''actions:read'', ''actions:approve'', ''model:invoke'',
    ''files:process'', ''computer:execute'', ''reminders:write'', ''discord:read'',
    ''discord:write'', ''context:human:read'', ''context:human:write'', ''context:tenant:read'',
    ''context:tenant:write'', ''context:conversation:read'', ''context:conversation:write'',
    ''workspace:read'']
    @ BUSINESS_READ_PERMISSIONS @ BUSINESS_WRITE_PERMISSIONS"

definition agent_authority :: "string list" where
  "agent_authority = [
    ''company:read'', ''analytics:read'', ''website:read'', ''messaging:draft'',
    ''messaging:curate'', ''messaging:read'', ''gmail:read'', ''gmail:draft'', ''calendar:read'',
    ''solution:read'', ''tasks:read'', ''tasks:write'', ''memory:read'', ''memory:write'',
    ''messages:read'', ''actions:read'', ''reminders:write'', ''discord:read'',
    ''discord:write'', ''model:invoke'', ''files:process'', ''computer:execute'',
    ''context:human:read'', ''context:human:write'', ''context:tenant:read'',
    ''context:tenant:write'', ''context:conversation:read'', ''context:conversation:write'',
    ''workspace:read'']
    @ BUSINESS_READ_PERMISSIONS"

definition employee_authority :: "string list" where
  "employee_authority = [
    ''company:read'', ''analytics:read'', ''website:read'', ''solution:read'', ''tasks:read'',
    ''messages:read'', ''actions:read'', ''memory:read'', ''messaging:read'', ''discord:read'',
    ''model:invoke'', ''files:process'', ''context:human:read'', ''context:human:write'',
    ''context:tenant:read'', ''context:conversation:read'', ''context:conversation:write'',
    ''workspace:read'']
    @ BUSINESS_READ_PERMISSIONS"

definition default_role_authority :: "string \<Rightarrow> string list option" where
  "default_role_authority = map_of
     [(''owner'', owner_authority), (''manager'', manager_authority),
      (''agent'', agent_authority), (''employee'', employee_authority)]"

definition KNOWN_PERMISSIONS :: "string set" where
  "KNOWN_PERMISSIONS =
     set (owner_authority @ manager_authority @ agent_authority @ employee_authority)"

definition default_permissions :: "string \<Rightarrow> string set" where
  "default_permissions role =
     (case default_role_authority (py_lower (py_strip role)) of Some ps \<Rightarrow> set ps | None \<Rightarrow> {})"

record workspace_role =
  wr_id :: ident
  wr_tenant :: ident
  wr_key :: string
  wr_is_system :: bool

record app_user =
  u_id :: ident
  u_active :: bool

record tenant =
  t_id :: ident
  t_name :: string
  t_slug :: "string option"

record tenant_member =
  m_id :: ident
  m_tenant :: ident
  m_user :: ident
  m_role :: string

text \<open>A connected external space; \<open>ci_metadata\<close> is \<open>None\<close> where the stored text is not JSON.\<close>

record channel_installation =
  ci_id :: ident
  ci_tenant :: ident
  ci_provider :: string
  ci_space :: string
  ci_status :: string
  ci_provisional :: bool
  ci_metadata :: "json option"

record authority_db =
  users :: "app_user list"
  tenants :: "tenant list"
  members :: "tenant_member list"
  roles :: "workspace_role list"
  role_permissions :: "(ident \<times> string) list"
  installations :: "channel_installation list"

definition resolve_workspace_permissions :: "authority_db \<Rightarrow> ident \<Rightarrow> string \<Rightarrow> string set" where
  "resolve_workspace_permissions db tenant role =
     (let key = py_lower (py_strip role) in
      if key = [] then {}
      else case find (\<lambda>r. wr_tenant r = tenant \<and> wr_key r = key) (roles db) of
          None \<Rightarrow> default_permissions key
        | Some r \<Rightarrow>
            (let explicit = set (map snd (filter (\<lambda>(rid, p). rid = wr_id r \<and> p \<in> KNOWN_PERMISSIONS)
                    (role_permissions db)))
             in if wr_is_system r \<and> default_role_authority key \<noteq> None
                then explicit \<union> default_permissions key else explicit))"

text \<open>\<open>str.isalnum\<close> on the modelled range: letters, decimal digits, superscripts and fractions.\<close>

definition is_alnum :: "char \<Rightarrow> bool" where
  "is_alnum c = (is_letter_ascii c \<or> is_digit_char c
     \<or> code_point c \<in> {170, 181, 186, 188, 189, 190}
     \<or> 192 \<le> code_point c \<and> code_point c \<noteq> 215 \<and> code_point c \<noteq> 247)"

definition normalize_role_key :: "string \<Rightarrow> string result" where
  "normalize_role_key v =
     (let raw = join ''-'' (split_ws (py_lower (py_strip v)));
          cleaned = filter (\<lambda>c. is_alnum c \<or> c = CHR ''-'' \<or> c = CHR ''_'') raw
      in if cleaned = [] then Inl (ValueError ''Role key is required'') else Inr (take 30 cleaned))"

definition validate_permissions :: "string list \<Rightarrow> string set result" where
  "validate_permissions values =
     (let permissions = set (filter (\<lambda>s. s \<noteq> []) (map py_strip values));
          unknown = sorted_list_of_set (permissions - KNOWN_PERMISSIONS)
      in if unknown \<noteq> [] then Inl (ValueError (''Unknown permissions: '' @ join '', '' unknown))
         else Inr permissions)"

subsection \<open>Guest workspaces\<close>

definition GUEST_OPERLY_BASELINE :: "string set" where
  "GUEST_OPERLY_BASELINE = {''model:invoke'', ''workspace:read'', ''tasks:read'', ''tasks:write'',
     ''context:conversation:read'', ''context:conversation:write''}"

definition provider_fallback :: "string \<Rightarrow> string set" where
  "provider_fallback provider = {}"

definition GUEST_COMMON_CEILING :: "string set" where
  "GUEST_COMMON_CEILING = {''model:invoke'', ''workspace:read'', ''workspace:settings:manage'',
     ''workspace:channels:manage'', ''actions:read'', ''tasks:read'', ''tasks:write'',
     ''reminders:write'', ''context:tenant:read'', ''context:tenant:write'',
     ''context:conversation:read'', ''context:conversation:write'', ''files:process''}"

definition provider_ceiling :: "string \<Rightarrow> string set" where
  "provider_ceiling provider = (
     if provider = ''discord'' then GUEST_COMMON_CEILING \<union> {''discord:read'', ''discord:write''}
     else if provider = ''slack'' \<or> provider = ''whatsapp'' then
       GUEST_COMMON_CEILING \<union> {''messaging:read'', ''messaging:write''}
     else GUEST_COMMON_CEILING)"

definition ADMIN_ADDITIONS :: "string set" where
  "ADMIN_ADDITIONS = {''workspace:settings:manage'', ''workspace:channels:manage'',
     ''actions:read'', ''context:tenant:read'', ''context:tenant:write''}"

definition clean_permissions :: "host \<Rightarrow> json list \<Rightarrow> string set" where
  "clean_permissions H values =
     set (filter (\<lambda>s. s \<in> KNOWN_PERMISSIONS) (map (\<lambda>v. py_strip (py_str H v)) values))"

record guest_authority =
  ga_workspace :: ident
  ga_installation :: ident
  ga_provider :: string
  ga_space :: string
  ga_principal :: string
  ga_role :: string
  ga_platform :: "string set"
  ga_policy :: "string set"
  ga_effective :: "string set"
  ga_admin :: bool

definition loads_object :: "json option \<Rightarrow> (string \<times> json) list" where
  "loads_object v = (case v of Some (JObj kvs) \<Rightarrow> kvs | _ \<Rightarrow> [])"

definition list_or :: "'a \<Rightarrow> (json list \<Rightarrow> 'a) \<Rightarrow> json \<Rightarrow> 'a" where
  "list_or d f v = (case v of JArr xs \<Rightarrow> f xs | _ \<Rightarrow> d)"

definition guest_platform :: "host \<Rightarrow> string \<Rightarrow> (string \<times> json) list \<Rightarrow> string set" where
  "guest_platform H provider metadata =
     (let source = list_or (provider_fallback provider) (clean_permissions H)
            (get_or_null ''_operly_platform_permissions'' metadata);
          admin = (get_or_null ''_operly_platform_admin'' metadata = JBool True)
      in (GUEST_OPERLY_BASELINE \<union> source \<union> (if admin then ADMIN_ADDITIONS else {}))
           \<inter> provider_ceiling provider)"

definition resolve_guest_workspace_authority ::
  "host \<Rightarrow> authority_db \<Rightarrow> ident \<Rightarrow> string \<Rightarrow> string \<Rightarrow> string \<Rightarrow> (string \<times> json) list \<Rightarrow>
   guest_authority option" where
  "resolve_guest_workspace_authority H db workspace provider space princ metadata =
     (let provider_key = py_lower (py_strip provider);
          space_id = py_strip space;
          principal_key = py_strip princ
      in if provider_key = [] \<or> space_id = [] \<or> principal_key = [] then None
         else case find (\<lambda>i. ci_tenant i = workspace \<and> ci_provider i = provider_key
                \<and> ci_space i = space_id \<and> ci_status i = ''connected'' \<and> ci_provisional i)
              (installations db) of
             None \<Rightarrow> None
           | Some i \<Rightarrow>
               (let admin = (get_or_null ''_operly_platform_admin'' metadata = JBool True);
                    platform = guest_platform H provider_key metadata;
                    ceiling = provider_ceiling provider_key;
                    policy = (case get_or_null ''guest_policy'' (loads_object (ci_metadata i)) of
                        JObj kvs \<Rightarrow> kvs | _ \<Rightarrow> []);
                    deny = list_or {} (clean_permissions H) (get_or_null ''deny'' policy);
                    allowed = list_or ceiling (\<lambda>xs. clean_permissions H xs \<inter> ceiling)
                      (get_or_null ''allow'' policy)
                in Some \<lparr>ga_workspace = workspace, ga_installation = ci_id i,
                     ga_provider = provider_key, ga_space = space_id, ga_principal = principal_key,
                     ga_role = (if admin then ''guest_admin'' else ''guest''),
                     ga_platform = platform, ga_policy = allowed - deny,
                     ga_effective = (platform \<inter> allowed) - deny, ga_admin = admin\<rparr>))"

subsection \<open>Execution contexts\<close>

datatype scope_kind = Personal | Workspace

fun scope_value :: "scope_kind \<Rightarrow> string" where
  "scope_value Personal = ''personal''"
| "scope_value Workspace = ''workspace''"

definition PERSONAL_EXECUTION_PERMISSIONS :: "string set" where
  "PERSONAL_EXECUTION_PERMISSIONS = {
    ''workspace:read'', ''tasks:read'', ''tasks:write'', ''model:invoke'',
    ''context:human:read'', ''context:human:write'', ''workflows:read'', ''workflows:write'',
    ''workflows:run'', ''files:process'', ''computer:execute'', ''messaging:read'',
    ''messaging:send'', ''messaging:write'', ''messaging:draft'', ''gmail:draft'',
    ''calendar:read'', ''calendar:write''}"

record delegation =
  del_kind :: string
  del_id :: string
  del_capabilities :: "string set"
  del_parent :: string

record exec_context =
  workspace_id :: "ident option"
  user_id :: "ident option"
  membership_id :: "ident option"
  role :: string
  permissions :: "string set"
  channel :: string
  ctx_surface :: surface
  conversation_id :: "ident option"
  metadata :: "(string \<times> json) list"
  ctx_scope :: scope_kind
  focus_workspace_id :: "ident option"
  principal_id :: "string option"
  workspace_mode :: string
  ctx_delegation :: "delegation option"

definition is_guest_workspace :: "exec_context \<Rightarrow> bool" where
  "is_guest_workspace c = (ctx_scope c = Workspace \<and> workspace_mode c = ''guest'')"

definition scope_id :: "exec_context \<Rightarrow> string option" where
  "scope_id c = (case ctx_scope c of
       Personal \<Rightarrow> if present (user_id c) then Some (''personal:'' @ the (user_id c)) else None
     | Workspace \<Rightarrow> workspace_id c)"

definition can :: "exec_context \<Rightarrow> string \<Rightarrow> bool" where
  "can c p = (ctx_scope c = Workspace \<and> \<not> is_guest_workspace c \<and> role c = ''owner''
     \<or> p \<in> permissions c)"

definition surface_kind :: "host \<Rightarrow> string \<Rightarrow> string option \<Rightarrow> (string \<times> json) list \<Rightarrow> surface" where
  "surface_kind H ch surf data =
     (let v = coerce_surface (text_or_empty surf)
      in if v = SurfUnknown then surface_from_legacy_metadata H ch data else v)"

definition external_space_id :: "host \<Rightarrow> string \<Rightarrow> (string \<times> json) list \<Rightarrow> string option" where
  "external_space_id H ch data =
     (let v = str_field H ''external_space_id'' data;
          key = map_of [(''discord'', ''discord_guild_id''), (''slack'', ''slack_team_id''),
                        (''whatsapp'', ''whatsapp_group_id'')] (py_lower (py_strip ch))
      in if v \<noteq> [] then Some v
         else case key of
             None \<Rightarrow> None
           | Some k \<Rightarrow> (let w = str_field H k data in if w = [] then None else Some w))"

definition find_user :: "authority_db \<Rightarrow> ident \<Rightarrow> app_user option" where
  "find_user db uid = find (\<lambda>u. u_id u = uid) (users db)"

definition find_tenant :: "authority_db \<Rightarrow> ident \<Rightarrow> tenant option" where
  "find_tenant db tid = find (\<lambda>t. t_id t = tid) (tenants db)"

definition find_member :: "authority_db \<Rightarrow> ident \<Rightarrow> ident \<Rightarrow> tenant_member option" where
  "find_member db tid uid = find (\<lambda>m. m_tenant m = tid \<and> m_user m = uid) (members db)"

definition channel_or_unknown :: "string \<Rightarrow> string" where
  "channel_or_unknown ch = (if ch = [] then ''unknown'' else ch)"

definition resolve_personal_execution_context ::
  "host \<Rightarrow> authority_db \<Rightarrow> ident \<Rightarrow> string \<Rightarrow> string option \<Rightarrow> ident option \<Rightarrow>
   (string \<times> json) list \<Rightarrow> ident option \<Rightarrow> string set option \<Rightarrow> exec_context result" where
  "resolve_personal_execution_context H db uid ch surf conv data focus perms =
     (case find_user db uid of
        None \<Rightarrow> Inl (ExecutionContextError ''Operly user is unavailable'')
      | Some u \<Rightarrow>
          if \<not> u_active u then Inl (ExecutionContextError ''Operly user is unavailable'')
          else bind_result
            (if present focus then
               (if find_tenant db (the focus) = None \<or> find_member db (the focus) uid = None
                then Inl (ExecutionContextError ''Workspace focus is unavailable'')
                else Inr focus)
             else Inr None) (\<lambda>resolved.
          Inr \<lparr>workspace_id = None, user_id = Some (u_id u), membership_id = None,
               role = ''personal_owner'',
               permissions = (case perms of None \<Rightarrow> PERSONAL_EXECUTION_PERMISSIONS | Some p \<Rightarrow> p),
               channel = channel_or_unknown ch, ctx_surface = surface_kind H ch surf data,
               conversation_id = conv, metadata = data, ctx_scope = Personal,
               focus_workspace_id = resolved, principal_id = Some (''user:'' @ u_id u),
               workspace_mode = ''personal'', ctx_delegation = None\<rparr>))"

text \<open>What a resolved guest adds to the request's metadata.\<close>

definition guest_metadata :: "guest_authority \<Rightarrow> (string \<times> json) list \<Rightarrow> (string \<times> json) list" where
  "guest_metadata g data =
     obj_set ''guest_effective_permissions''
       (JArr (map JStr (sorted_list_of_set (ga_effective g))))
     (obj_set ''guest_platform_permissions''
       (JArr (map JStr (sorted_list_of_set (ga_platform g))))
     (obj_set ''guest_installation_id'' (JStr (ga_installation g))
     (obj_set ''guest_workspace'' (JBool True) data)))"

definition guest_principal :: "host \<Rightarrow> string option \<Rightarrow> (string \<times> json) list \<Rightarrow> string" where
  "guest_principal H princ data =
     py_strip (py_str H (get_or ''_guest_principal_id''
       (get_or ''principal_id'' (JStr (text_or_empty princ)) data) data))"

definition resolve_execution_context ::
  "host \<Rightarrow> authority_db \<Rightarrow> ident \<Rightarrow> ident option \<Rightarrow> string \<Rightarrow> string option \<Rightarrow> ident option \<Rightarrow>
   (string \<times> json) list \<Rightarrow> bool \<Rightarrow> exec_context result" where
  "resolve_execution_context H db wid uid ch surf conv data require_membership =
     (if find_tenant db wid = None then Inl (ExecutionContextError ''Workspace is unavailable'')
      else if present uid \<and> (case find_user db (the uid) of None \<Rightarrow> True | Some u \<Rightarrow> \<not> u_active u)
      then Inl (ExecutionContextError ''Operly user is unavailable'')
      else
        (let princ = (if present uid then Some (''user:'' @ the uid) else None);
             member = (if present uid then find_member db wid (the uid) else None);
             ctx = (\<lambda>r ps pr mode md. \<lparr>workspace_id = Some wid, user_id = uid,
                 membership_id = map_option m_id member, role = r, permissions = ps,
                 channel = channel_or_unknown ch, ctx_surface = surface_kind H ch surf md,
                 conversation_id = conv, metadata = md, ctx_scope = Workspace,
                 focus_workspace_id = Some wid, principal_id = pr, workspace_mode = mode,
                 ctx_delegation = None\<rparr>)
         in case member of
              Some m \<Rightarrow>
                Inr (ctx (m_role m) (resolve_workspace_permissions db wid (m_role m)) princ
                  ''full'' data)
            | None \<Rightarrow>
                (let space = external_space_id H ch data;
                     gp = guest_principal H princ data;
                     guest = (if present space \<and> gp \<noteq> [] then
                         resolve_guest_workspace_authority H db wid ch (the space) gp data else None)
                 in case guest of
                      Some g \<Rightarrow> Inr (ctx (ga_role g) (ga_effective g) (Some (ga_principal g)) ''guest''
                        (guest_metadata g data))
                    | None \<Rightarrow>
                        if require_membership then
                          Inl (ExecutionContextError ''User is not a member of this workspace'')
                        else Inr (ctx ''guest'' {} princ ''full'' data))))"

subsection \<open>Delegation\<close>

definition ALLOWED_PRINCIPAL_KINDS :: "string list" where
  "ALLOWED_PRINCIPAL_KINDS =
     [''workflow'', ''software_project'', ''production'', ''agent_run'', ''app_user'', ''public_session'']"

definition capability_id_shape :: "string \<Rightarrow> bool" where
  "capability_id_shape s = (case s of
       [] \<Rightarrow> False
     | c # cs \<Rightarrow> is_lower_ascii c \<and> 1 \<le> length cs \<and> length cs \<le> 159 \<and>
         list_all (\<lambda>d. is_lower_ascii d \<or> is_decimal d
           \<or> d \<in> {CHR ''_'', CHR ''.'', CHR '':'', CHR ''-''}) cs)"

definition principal_shape :: "nat \<Rightarrow> string \<Rightarrow> bool" where
  "principal_shape n s = (case s of
       [] \<Rightarrow> False
     | c # cs \<Rightarrow> (is_letter_ascii c \<or> is_decimal c) \<and> length cs \<le> n \<and>
         list_all (\<lambda>d. is_letter_ascii d \<or> is_decimal d
           \<or> d \<in> {CHR ''_'', CHR ''.'', CHR '':'', CHR ''@'', CHR ''/'', CHR ''-''}) cs)"

definition MAX_CAPABILITIES :: nat where
  "MAX_CAPABILITIES = 128"

definition principal_key :: "exec_context \<Rightarrow> delegation \<Rightarrow> string" where
  "principal_key c d = del_kind d @ '':'' @ text_or_empty (principal_id c)"

definition effective_principal_key :: "exec_context \<Rightarrow> string option" where
  "effective_principal_key c = (case ctx_delegation c of
       Some d \<Rightarrow> Some (principal_key c d)
     | None \<Rightarrow>
         if present (principal_id c) then principal_id c
         else if present (user_id c) then Some (''user:'' @ the (user_id c)) else None)"

definition delegation_id :: "exec_context \<Rightarrow> string option" where
  "delegation_id c = map_option del_id (ctx_delegation c)"

definition delegation_allows :: "exec_context \<Rightarrow> string \<Rightarrow> bool" where
  "delegation_allows c cap =
     (case ctx_delegation c of None \<Rightarrow> True | Some d \<Rightarrow> cap \<in> del_capabilities d)"

definition opt_json :: "string option \<Rightarrow> json" where
  "opt_json s = (case s of None \<Rightarrow> JNull | Some t \<Rightarrow> JStr t)"

definition delegation_authority :: "exec_context \<Rightarrow> (string \<times> json) list" where
  "delegation_authority c = (case ctx_delegation c of
       Some d \<Rightarrow>
         [(''principal_kind'', JStr (del_kind d)), (''principal_id'', JStr (principal_key c d)),
          (''delegation_id'', JStr (del_id d)), (''delegator_user_id'', opt_json (user_id c)),
          (''parent_principal_id'', JStr (del_parent d)),
          (''delegated_capability_ids'', JArr (map JStr (sorted_list_of_set (del_capabilities d))))]
     | None \<Rightarrow>
         (let key = effective_principal_key c;
              kind = (if present (user_id c) then ''user''
                else if present key \<and> starts_with ''guest:'' (the key) then ''guest''
                else if present key then ''principal'' else ''anonymous'')
          in [(''principal_kind'', JStr kind), (''principal_id'', opt_json key),
              (''delegation_id'', JNull), (''delegator_user_id'', JNull),
              (''parent_principal_id'', JNull), (''delegated_capability_ids'', JNull)]))"

definition delegate_execution_context ::
  "exec_context \<Rightarrow> string \<Rightarrow> string \<Rightarrow> string set \<Rightarrow> string \<Rightarrow> exec_context result" where
  "delegate_execution_context base kind_text principal_text capability_ids delegation_text =
     (if ctx_scope base \<noteq> Workspace \<or> \<not> present (workspace_id base) then
        Inl (PermissionError ''Delegated principals currently require workspace authority'')
      else if \<not> present (user_id base) \<or> \<not> present (membership_id base) then
        Inl (PermissionError ''Delegation requires a currently authenticated workspace member'')
      else
        (let kind = py_lower (py_strip kind_text);
             princ = py_strip principal_text;
             del = py_strip delegation_text;
             requested = py_strip ` capability_ids
         in if kind \<notin> set ALLOWED_PRINCIPAL_KINDS then
              Inl (ValueError ''Unsupported delegated principal kind'')
            else if \<not> principal_shape 95 princ then
              Inl (ValueError ''Delegated principal id is invalid'')
            else if \<not> principal_shape 119 del then Inl (ValueError ''Delegation id is invalid'')
            else if requested = {} \<or> card requested > MAX_CAPABILITIES then
              Inl (ValueError ''Delegation requires a bounded non-empty capability allowlist'')
            else if \<not> (\<forall>c \<in> requested. capability_id_shape c) then
              Inl (ValueError ''Delegation contains an invalid capability id'')
            else bind_result (case ctx_delegation base of
                  Some d \<Rightarrow>
                    if requested \<subseteq> del_capabilities d then Inr (principal_key base d)
                    else Inl (PermissionError
                      ''Child delegation cannot widen parent capability authority'')
                | None \<Rightarrow>
                    (let k = effective_principal_key base
                     in Inr (if present k then the k else ''user:'' @ the (user_id base))))
              (\<lambda>parent.
               Inr (base\<lparr>principal_id := Some princ,
                 ctx_delegation := Some \<lparr>del_kind = kind, del_id = del,
                   del_capabilities = requested, del_parent = parent\<rparr>\<rparr>))))"

subsection \<open>What a context can do\<close>

lemma guest_effective_bounds:
  assumes "resolve_guest_workspace_authority H db w prov sp pr md = Some g"
  shows "ga_effective g \<subseteq> provider_ceiling (py_lower (py_strip prov))"
    and "ga_effective g \<subseteq> guest_platform H (py_lower (py_strip prov)) md"
    and "ga_role g = ''guest'' \<or> ga_role g = ''guest_admin''"
    and "\<exists>i \<in> set (installations db). ci_tenant i = w \<and> ci_status i = ''connected'' \<and> ci_provisional i"
  using assms
  by (auto simp: resolve_guest_workspace_authority_def guest_platform_def Let_def
      split: if_splits option.splits dest: find_SomeD)

text \<open>
  Whoever acts in a workspace without being a member has guest authority at most: a permission
  that a resolved context grants either comes from a membership of an active user in that very
  workspace, or from a connected provisional installation, and then it lies within the ceiling of
  the platform and within what the baseline, the platform's adapter and its administrators give.
\<close>

lemma non_member_authority_is_bounded:
  assumes "resolve_execution_context H db wid uid ch surf conv data req = Inr c" and "can c p"
  shows "(\<exists>m u. uid = Some (u_id u) \<and> u \<in> set (users db) \<and> u_active u \<and> m \<in> set (members db)
            \<and> m_tenant m = wid \<and> m_user m = u_id u \<and> membership_id c = Some (m_id m)
            \<and> (role c = ''owner'' \<or> p \<in> resolve_workspace_permissions db wid (m_role m)))
    \<or> (is_guest_workspace c \<and> membership_id c = None
         \<and> p \<in> provider_ceiling (py_lower (py_strip ch))
         \<and> p \<in> guest_platform H (py_lower (py_strip ch)) data
         \<and> (\<exists>i \<in> set (installations db). ci_tenant i = wid \<and> ci_status i = ''connected''
              \<and> ci_provisional i))"
proof (cases "if present uid then find_member db wid (the uid) else None")
  case (Some m)
  then have uid: "present uid" and m: "m \<in> set (members db)" "m_tenant m = wid" "m_user m = the uid"
    by (auto simp: find_member_def dest: find_SomeD split: if_splits)
  with assms(1) obtain u where "u \<in> set (users db)" "u_id u = the uid" "u_active u"
    by (auto simp: resolve_execution_context_def find_user_def split: if_splits option.splits
        dest: find_SomeD)
  moreover have "uid = Some (the uid)" using uid by (cases uid) auto
  moreover have "membership_id c = Some (m_id m) \<and> role c = m_role m
      \<and> permissions c = resolve_workspace_permissions db wid (m_role m)"
    using assms(1) Some by (auto simp: resolve_execution_context_def Let_def split: if_splits)
  ultimately show ?thesis using assms(2) m
    by (intro disjI1 exI [of _ m] exI [of _ u]) (auto simp: can_def)
next
  case no_member: None
  define sp where "sp = external_space_id H ch data"
  define gp where "gp = guest_principal H (if present uid then Some (''user:'' @ the uid) else None) data"
  define g where "g = (if present sp \<and> gp \<noteq> [] then
      resolve_guest_workspace_authority H db wid ch (the sp) gp data else None)"
  note unf = resolve_execution_context_def Let_def sp_def gp_def g_def
  show ?thesis
  proof (cases g)
    case None
    with assms(1) no_member have "role c = ''guest'' \<and> permissions c = {}"
      unfolding unf by (auto split: if_splits option.splits)
    with assms(2) show ?thesis by (simp add: can_def)
  next
    case (Some a)
    then have a: "resolve_guest_workspace_authority H db wid ch (the sp) gp data = Some a"
      by (simp add: g_def split: if_splits)
    from Some assms(1) no_member have c: "ctx_scope c = Workspace" "workspace_mode c = ''guest''"
        "permissions c = ga_effective a" "membership_id c = None"
      unfolding unf by (auto split: if_splits option.splits)
    with assms(2) have "p \<in> ga_effective a" by (simp add: can_def is_guest_workspace_def)
    with guest_effective_bounds [OF a] c show ?thesis
      by (auto simp: is_guest_workspace_def)
  qed
qed

definition sample_guest_db :: authority_db where
  "sample_guest_db = \<lparr>users = [], tenants = [\<lparr>t_id = ''w'', t_name = ''W'', t_slug = None\<rparr>], members = [],
     roles = [], role_permissions = [],
     installations = [\<lparr>ci_id = ''i'', ci_tenant = ''w'', ci_provider = ''discord'', ci_space = ''g'',
       ci_status = ''connected'', ci_provisional = True, ci_metadata = None\<rparr>]\<rparr>"

definition sample_guest_request :: "(string \<times> json) list" where
  "sample_guest_request = [(''discord_guild_id'', JStr ''g''), (''principal_id'', JStr ''guest:1''),
     (''_operly_platform_permissions'', JArr [JStr ''discord:read'', JStr ''crm:read''])]"

lemma sample_guest_resolves:
  "case resolve_execution_context sample_host sample_guest_db ''w'' None ''discord'' None None
     sample_guest_request True of Inr c \<Rightarrow> can c ''discord:read'' \<and> \<not> can c ''crm:read'' | Inl _ \<Rightarrow> False"
  by code_simp

lemma non_member_authority_is_bounded_witness:
  "''discord:read'' \<in> provider_ceiling ''discord''"
proof -
  obtain c where c: "resolve_execution_context sample_host sample_guest_db ''w'' None ''discord'' None None
     sample_guest_request True = Inr c" "can c ''discord:read''"
    using sample_guest_resolves by (auto split: sum.splits)
  have "py_lower (py_strip ''discord'') = ''discord''" by code_simp
  with non_member_authority_is_bounded [OF c] show ?thesis by auto
qed

subsection \<open>Delegation narrows\<close>

text \<open>One delegation, with the arguments a caller may choose.\<close>

inductive delegates :: "exec_context \<Rightarrow> exec_context \<Rightarrow> bool" where
  step: "delegate_execution_context base kind princ caps del = Inr c \<Longrightarrow> delegates base c"

inductive_cases delegatesE [elim]: "delegates base c"

lemma delegate_execution_context_narrows:
  assumes "delegate_execution_context base kind princ caps del = Inr c"
  shows "ctx_scope base = Workspace" "present (membership_id base)"
    and "delegation_allows c cap \<Longrightarrow> delegation_allows base cap \<and> cap \<in> py_strip ` caps"
    and "workspace_id c = workspace_id base \<and> user_id c = user_id base
      \<and> membership_id c = membership_id base \<and> role c = role base
      \<and> permissions c = permissions base \<and> ctx_surface c = ctx_surface base
      \<and> ctx_scope c = ctx_scope base \<and> workspace_mode c = workspace_mode base"
    and "ctx_delegation c \<noteq> None"
  using assms
  by (auto simp: delegate_execution_context_def delegation_allows_def Let_def bind_result_Inr_iff
      image_subset_iff split: if_splits option.splits)

text \<open>
  C5. Delegation never widens authority, along any chain of delegations: a capability the last
  context allows is allowed by every context before it, its permissions, membership, surface and
  workspace are those of the first one, and only a workspace member's context can be delegated.
\<close>

theorem delegation_chain_narrows:
  assumes "delegates\<^sup>*\<^sup>* base c"
  shows "(\<forall>cap. delegation_allows c cap \<longrightarrow> delegation_allows base cap)
     \<and> (\<forall>p. can c p = can base p) \<and> ctx_surface c = ctx_surface base
     \<and> workspace_id c = workspace_id base \<and> user_id c = user_id base
     \<and> (c \<noteq> base \<longrightarrow> ctx_delegation c \<noteq> None \<and> ctx_scope base = Workspace \<and> present (membership_id base))"
  using assms
proof (induction rule: rtranclp_induct)
  case base
  show ?case by simp
next
  case (step c d)
  from step.hyps(2) obtain kind princ caps del
    where d: "delegate_execution_context c kind princ caps del = Inr d" by blast
  note n = delegate_execution_context_narrows [OF d]
  have same: "can d p = can c p" for p using n(4) by (simp add: can_def is_guest_workspace_def)
  have first: "ctx_scope base = Workspace \<and> present (membership_id base)"
    using step.IH n(1,2) by (cases "c = base") auto
  show ?case using n(3-5) step.IH same first by auto
qed

definition sample_member :: exec_context where
  "sample_member = \<lparr>workspace_id = Some ''w'', user_id = Some ''u'', membership_id = Some ''m'',
     role = ''manager'', permissions = {''tasks:read''}, channel = ''web'', ctx_surface = WorkspaceShared,
     conversation_id = None, metadata = [], ctx_scope = Workspace, focus_workspace_id = Some ''w'',
     principal_id = Some ''user:u'', workspace_mode = ''full'', ctx_delegation = None\<rparr>"

lemma sample_delegates:
  "case delegate_execution_context sample_member ''workflow'' ''wf1'' {''tasks.read'', ''tasks.list''} ''d1'' of
     Inl _ \<Rightarrow> False
   | Inr c \<Rightarrow> (case delegate_execution_context c ''agent_run'' ''a1'' {''tasks.read''} ''d2'' of
       Inl _ \<Rightarrow> False | Inr d \<Rightarrow> \<not> delegation_allows d ''tasks.list'' \<and> can d ''tasks:read'')"
  by code_simp

theorem delegation_chain_narrows_witness:
  "\<exists>d. delegates\<^sup>*\<^sup>* sample_member d \<and> d \<noteq> sample_member \<and> ctx_delegation d \<noteq> None
     \<and> can d ''tasks:read''"
proof -
  obtain c d where cd: "delegate_execution_context sample_member ''workflow'' ''wf1''
      {''tasks.read'', ''tasks.list''} ''d1'' = Inr c"
    "delegate_execution_context c ''agent_run'' ''a1'' {''tasks.read''} ''d2'' = Inr d"
    "can d ''tasks:read''" "\<not> delegation_allows d ''tasks.list''"
    using sample_delegates by (auto split: sum.splits)
  have r: "delegates\<^sup>*\<^sup>* sample_member d" using delegates.step [OF cd(1)] delegates.step [OF cd(2)]
    by (simp add: rtranclp.rtrancl_into_rtrancl)
  have "d \<noteq> sample_member" using cd(4) by (auto simp: delegation_allows_def sample_member_def)
  with delegation_chain_narrows [OF r] r cd(3) show ?thesis by blast
qed

end
