(* ===== verification/Personal_Authority.thy ===== *)
theory Personal_Authority
  imports Authority
begin

text \<open>
  packages/security/personal\_delegation.py: a person lends one capability (and optionally one
  connected account) to a workspace, for good or for one use. And scope\_resolver.py: a name the
  person typed is resolved within the scopes that person is authorised for. The primary keys that
  the database assigns and the time are arguments of the operations. Audit evidence is kept as a
  value; the code stores the first 16000 characters of its text.
\<close>

record account_connector =
  ac_id :: ident
  ac_user :: ident
  ac_provider :: string
  ac_enabled :: bool
  ac_status :: string

datatype grant_type = Persistent | One_Time

datatype grant_status = Grant_Active | Grant_Revoked | Grant_Expired | Grant_Consumed

record grant_row =
  pd_id :: ident
  pd_principal :: ident
  pd_user :: ident
  pd_tenant :: ident
  pd_capability :: string
  pd_connector :: "ident option"
  pd_scope :: json
  pd_type :: grant_type
  pd_action :: "ident option"
  pd_status :: grant_status
  pd_expires :: "time option"
  pd_created :: time
  pd_revoked :: "time option"
  pd_last_used :: "time option"

record grant_audit =
  ga_grant :: ident
  ga_capability :: string
  ga_action :: "ident option"
  ga_outcome :: string
  ga_evidence :: json

record grant_db =
  g_members :: "tenant_member list"
  g_connectors :: "account_connector list"
  g_principals :: "(ident \<times> ident) list"
  g_rows :: "grant_row list"
  g_audits :: "grant_audit list"

subsection \<open>Operations\<close>

definition is_grant_member :: "grant_db \<Rightarrow> ident \<Rightarrow> ident \<Rightarrow> bool" where
  "is_grant_member db user ten = list_ex (\<lambda>m. m_user m = user \<and> m_tenant m = ten) (g_members db)"

text \<open>The human principal of a user, created at its first use.\<close>

definition principal_of :: "ident \<Rightarrow> grant_db \<Rightarrow> ident \<Rightarrow> ident \<times> grant_db" where
  "principal_of new_id db user =
     (case find (\<lambda>(p, u). u = user) (g_principals db) of
        Some (p, u) \<Rightarrow> (p, db)
      | None \<Rightarrow> (new_id, db\<lparr>g_principals := g_principals db @ [(new_id, user)]\<rparr>))"

definition grant_text :: "grant_type \<Rightarrow> string" where
  "grant_text k = (case k of Persistent \<Rightarrow> ''persistent'' | One_Time \<Rightarrow> ''one_time'')"

definition grant_kind :: "string \<Rightarrow> grant_type option" where
  "grant_kind s =
     (let k = py_lower (py_strip (if s = [] then ''persistent'' else s)) in
      if k = ''persistent'' then Some Persistent
      else if k = ''one_time'' then Some One_Time else None)"

definition add_audit :: "grant_row \<Rightarrow> ident option \<Rightarrow> string \<Rightarrow> json \<Rightarrow> grant_db \<Rightarrow> grant_db" where
  "add_audit r act outcome evidence db = db\<lparr>g_audits := g_audits db @
     [\<lparr>ga_grant = pd_id r, ga_capability = pd_capability r, ga_action = act, ga_outcome = outcome,
       ga_evidence = evidence\<rparr>]\<rparr>"

definition grant_delegation ::
  "ident \<Rightarrow> ident \<Rightarrow> time \<Rightarrow> grant_db \<Rightarrow> ident \<Rightarrow> ident \<Rightarrow> string \<Rightarrow> ident option \<Rightarrow> json \<Rightarrow> string \<Rightarrow>
   ident option \<Rightarrow> time option \<Rightarrow> grant_row result \<times> grant_db" where
  "grant_delegation new_id new_princ now db user ten capability_text connector scope gtype act expires =
     (if \<not> is_grant_member db user ten then
        (Inl (DelegationError ''You are not a member of that workspace''), db)
      else case grant_kind gtype of
        None \<Rightarrow> (Inl (ValueError ''grant_type must be persistent or one_time''), db)
      | Some kind \<Rightarrow>
          (let capability = py_strip capability_text in
           if capability = [] \<or> length capability > 160 then
             (Inl (ValueError ''capability_id is required''), db)
           else if present connector \<and> \<not> list_ex (\<lambda>c. ac_id c = the connector \<and> ac_user c = user
                \<and> ac_enabled c) (g_connectors db) then
             (Inl (DelegationError ''Personal connector not found''), db)
           else
             (let (princ, db') = principal_of new_princ db user in
              if kind = One_Time \<and> \<not> present act \<and> expires = None then
                (Inl (ValueError ''one_time delegation requires action_id or expires_at''), db')
              else
                (let used = (if present connector then connector else None);
                     row = \<lparr>pd_id = new_id, pd_principal = princ, pd_user = user, pd_tenant = ten,
                       pd_capability = capability, pd_connector = used,
                       pd_scope = (if truthy scope then scope else JObj []),
                       pd_type = kind, pd_action = act, pd_status = Grant_Active,
                       pd_expires = expires, pd_created = now, pd_revoked = None,
                       pd_last_used = None\<rparr>
                 in (Inr row, add_audit row act ''granted''
                       (JObj [(''grant_type'', JStr (grant_text kind)),
                              (''connector_reference'', opt_json used)])
                       (db'\<lparr>g_rows := g_rows db' @ [row]\<rparr>))))))"

definition set_grant :: "ident \<Rightarrow> (grant_row \<Rightarrow> grant_row) \<Rightarrow> grant_db \<Rightarrow> grant_db" where
  "set_grant gid f db = db\<lparr>g_rows := update_where (\<lambda>r. pd_id r = gid) f (g_rows db)\<rparr>"

definition revoke_delegation :: "time \<Rightarrow> grant_db \<Rightarrow> ident \<Rightarrow> ident \<Rightarrow> grant_row result \<times> grant_db" where
  "revoke_delegation now db user gid =
     (case find (\<lambda>r. pd_id r = gid \<and> pd_user r = user) (g_rows db) of
        None \<Rightarrow> (Inl (LookupError ''Delegation not found''), db)
      | Some r \<Rightarrow>
          if pd_status r = Grant_Active then
            (let r' = r\<lparr>pd_status := Grant_Revoked, pd_revoked := Some now\<rparr>
             in (Inr r', add_audit r' (pd_action r) ''revoked'' (JObj [])
                  (set_grant gid (\<lambda>x. x\<lparr>pd_status := Grant_Revoked, pd_revoked := Some now\<rparr>) db)))
          else (Inr r, db))"

definition grant_connector :: "grant_db \<Rightarrow> ident \<Rightarrow> ident \<Rightarrow> account_connector option" where
  "grant_connector db user cid = find (\<lambda>c. ac_id c = cid \<and> ac_user c = user \<and> ac_enabled c
     \<and> ac_status c = ''connected'') (g_connectors db)"

text \<open>The scan over the active grants, newest first; expired ones are marked on the way.\<close>

fun scan_grants ::
  "time \<Rightarrow> ident \<Rightarrow> ident option \<Rightarrow> string option \<Rightarrow> grant_row list \<Rightarrow> grant_db \<Rightarrow>
   (grant_row \<times> account_connector option) option \<times> grant_db" where
  "scan_grants now user act provider [] db = (None, db)"
| "scan_grants now user act provider (r # rs) db =
     (if (case pd_expires r of Some e \<Rightarrow> e \<le> now | None \<Rightarrow> False) then
        scan_grants now user act provider rs
          (set_grant (pd_id r) (\<lambda>x. x\<lparr>pd_status := Grant_Expired\<rparr>) db)
      else if pd_type r = One_Time \<and> present (pd_action r) \<and> pd_action r \<noteq> act then
        scan_grants now user act provider rs db
      else if present (pd_connector r) then
        (case grant_connector db user (the (pd_connector r)) of
           None \<Rightarrow> scan_grants now user act provider rs db
         | Some c \<Rightarrow>
             if present provider \<and> ac_provider c \<noteq> the provider then
               scan_grants now user act provider rs db
             else (Some (r, Some c), db))
      else (Some (r, None), db))"

definition active_delegation ::
  "time \<Rightarrow> grant_db \<Rightarrow> ident \<Rightarrow> ident \<Rightarrow> string \<Rightarrow> ident option \<Rightarrow> string option \<Rightarrow>
   (grant_row \<times> account_connector option) option \<times> grant_db" where
  "active_delegation now db user ten capability act provider =
     (if \<not> is_grant_member db user ten then (None, db)
      else scan_grants now user act provider
        (sort_key (\<lambda>r. - pd_created r)
          (filter (\<lambda>r. pd_user r = user \<and> pd_tenant r = ten \<and> pd_capability r = capability
             \<and> pd_status r = Grant_Active) (g_rows db))) db)"

definition use_grant :: "time \<Rightarrow> grant_type \<Rightarrow> grant_row \<Rightarrow> grant_row" where
  "use_grant now kind r = r\<lparr>pd_last_used := Some now,
     pd_status := (if kind = One_Time then Grant_Consumed else pd_status r)\<rparr>"

definition authorize_delegated_use ::
  "time \<Rightarrow> grant_db \<Rightarrow> ident \<Rightarrow> ident \<Rightarrow> string \<Rightarrow> ident option \<Rightarrow> string option \<Rightarrow>
   (grant_row \<times> account_connector option) option \<times> grant_db" where
  "authorize_delegated_use now db user ten capability act provider =
     (case active_delegation now db user ten capability act provider of
        (None, db') \<Rightarrow> (None, db')
      | (Some (r, c), db') \<Rightarrow>
          (Some (use_grant now (pd_type r) r, c),
           add_audit r act ''authorized_use''
             (JObj [(''connector_reference'', opt_json (pd_connector r)),
                    (''grant_type'', JStr (grant_text (pd_type r)))])
             (set_grant (pd_id r) (use_grant now (pd_type r)) db')))"

definition audit_delegated_result ::
  "grant_db \<Rightarrow> grant_row \<Rightarrow> ident option \<Rightarrow> string \<Rightarrow> json \<Rightarrow> grant_db" where
  "audit_delegated_result db r act outcome evidence =
     add_audit r act (take 40 outcome) (if truthy evidence then evidence else JObj []) db"

definition list_delegations :: "grant_db \<Rightarrow> ident \<Rightarrow> grant_row list" where
  "list_delegations db user =
     sort_key (\<lambda>r. - pd_created r) (filter (\<lambda>r. pd_user r = user) (g_rows db))"

subsection \<open>Resolving a scope\<close>

record authorized_scope =
  sc_kind :: scope_kind
  sc_id :: ident
  sc_name :: string
  sc_role :: "string option"
  sc_slug :: "string option"

datatype resolution_status = Resolved | Ambiguous | Missing

record scope_resolution =
  rs_status :: resolution_status
  rs_reference :: string
  rs_matches :: "authorized_scope list"

definition resolved_scope :: "scope_resolution \<Rightarrow> authorized_scope option" where
  "resolved_scope r = (case rs_matches r of
       [m] \<Rightarrow> if rs_status r = Resolved then Some m else None | _ \<Rightarrow> None)"

definition PERSONAL_ALIASES :: "string list" where
  "PERSONAL_ALIASES = [''personal'', ''my personal'', ''my account'', ''account'',
     ''personal account'', ''my personal space'', ''personal space'']"

definition normalize_reference :: "string \<Rightarrow> string" where
  "normalize_reference s = join '' '' (split_ws (py_lower (py_strip s)))"

text \<open>The memberships joined with their tenants, ordered by the tenant's name and id.\<close>

definition workspace_scopes :: "authority_db \<Rightarrow> ident \<Rightarrow> authorized_scope list" where
  "workspace_scopes db uid =
     map (\<lambda>(m, t). \<lparr>sc_kind = Workspace, sc_id = t_id t, sc_name = t_name t,
            sc_role = Some (m_role m), sc_slug = t_slug t\<rparr>)
       (sort_key (\<lambda>(m, t). t_name t) (sort_key (\<lambda>(m, t). t_id t)
         (concat (map (\<lambda>m. map (\<lambda>t. (m, t)) (filter (\<lambda>t. t_id t = m_tenant m) (tenants db)))
           (filter (\<lambda>m. m_user m = uid) (members db))))))"

definition authorized_scopes :: "authority_db \<Rightarrow> ident \<Rightarrow> authorized_scope list" where
  "authorized_scopes db uid = (case find_user db uid of
       None \<Rightarrow> []
     | Some u \<Rightarrow> if \<not> u_active u then [] else
         \<lparr>sc_kind = Personal, sc_id = ''personal:'' @ u_id u, sc_name = ''Personal'',
          sc_role = Some ''personal_owner'', sc_slug = None\<rparr> # workspace_scopes db uid)"

definition resolve_authorized_scope ::
  "authority_db \<Rightarrow> ident \<Rightarrow> string \<Rightarrow> ident option \<Rightarrow> scope_resolution" where
  "resolve_authorized_scope db uid reference focus =
     (let scopes = authorized_scopes db uid;
          needle = normalize_reference reference;
          personal = filter (\<lambda>s. sc_kind s = Personal) scopes;
          workspaces = filter (\<lambda>s. sc_kind s = Workspace) scopes;
          out = (\<lambda>st ms. \<lparr>rs_status = st, rs_reference = needle, rs_matches = ms\<rparr>);
          personal_id = (case personal of p # _ \<Rightarrow> normalize_reference (sc_id p) | [] \<Rightarrow> []);
          exact = filter (\<lambda>s. needle \<noteq> [] \<and> (needle = normalize_reference (sc_id s)
            \<or> needle = normalize_reference (text_or_empty (sc_slug s))
            \<or> needle = normalize_reference (sc_name s))) workspaces;
          focused = filter (\<lambda>s. Some (sc_id s) = focus) workspaces;
          contains = filter (\<lambda>s. needle \<noteq> [] \<and> sublist needle (normalize_reference (sc_name s)))
            workspaces
      in if scopes = [] then out Missing []
         else if needle \<in> set PERSONAL_ALIASES \<or> personal_id \<noteq> [] \<and> needle = personal_id then
           out Resolved personal
         else if length exact = 1 then out Resolved exact
         else if length exact > 1 then out Ambiguous exact
         else if needle \<in> {''workspace'', ''my workspace'', ''current workspace'', ''focused workspace''}
         then if length focused = 1 then out Resolved focused
              else out (if length workspaces > 1 then Ambiguous
                        else if length workspaces = 1 then Resolved else Missing) workspaces
         else if length contains = 1 then out Resolved contains
         else if length contains > 1 then out Ambiguous contains
         else out Missing [])"

subsection \<open>A grant covers every use made of it\<close>

lemma g_rows_set_grant [row_simps]: "g_rows (set_grant i f db) = update_where (\<lambda>r. pd_id r = i) f (g_rows db)"
  by (simp add: set_grant_def)

lemma g_fields [simp]:
  "g_rows (add_audit r a k e db) = g_rows db"
  "g_members (set_grant i f db) = g_members db"
  "g_connectors (set_grant i f db) = g_connectors db"
  by (simp_all add: add_audit_def set_grant_def)

text \<open>A grant is closed once some row has its id and none of those rows is active.\<close>

definition grant_closed :: "ident \<Rightarrow> grant_db \<Rightarrow> bool" where
  "grant_closed gid db =
     ((\<exists>r \<in> set (g_rows db). pd_id r = gid)
      \<and> (\<forall>r \<in> set (g_rows db). pd_id r = gid \<longrightarrow> pd_status r \<noteq> Grant_Active))"

lemma grant_closed_set_grant:
  assumes "grant_closed gid db" "\<And>r. pd_id (f r) = pd_id r"
    and "\<And>r. pd_status r \<noteq> Grant_Active \<Longrightarrow> pd_status (f r) \<noteq> Grant_Active"
  shows "grant_closed gid (set_grant i f db)"
proof -
  have "\<exists>r \<in> set (g_rows db). pd_id r = gid"
    and "\<And>r. r \<in> set (g_rows db) \<Longrightarrow> pd_id r = gid \<Longrightarrow> pd_status r \<noteq> Grant_Active"
    using assms(1) by (auto simp: grant_closed_def)
  then show ?thesis
    unfolding grant_closed_def g_rows_set_grant ball_update_where bex_update_where
    by (auto simp: assms(2,3)) (metis assms(2))
qed

lemma grant_closed_audit [simp]: "grant_closed gid (add_audit r a k e db) = grant_closed gid db"
  by (simp add: grant_closed_def)

lemma scan_grants_closed:
  "grant_closed gid db \<Longrightarrow> grant_closed gid (snd (scan_grants now user act prov rs db))"
  by (induction now user act prov rs db rule: scan_grants.induct)
    (auto simp: grant_closed_set_grant split: option.splits)

lemma scan_grants_result:
  "scan_grants now user act prov rs db = (Some (r, c), db') \<Longrightarrow>
   r \<in> set rs \<and> (\<forall>e. pd_expires r = Some e \<longrightarrow> now < e)
   \<and> (pd_type r = One_Time \<and> present (pd_action r) \<longrightarrow> pd_action r = act)
   \<and> (present (pd_connector r) \<longrightarrow> (\<exists>x. c = Some x \<and> x \<in> set (g_connectors db)
        \<and> Some (ac_id x) = pd_connector r \<and> ac_user x = user \<and> ac_enabled x \<and> ac_status x = ''connected''))"
proof (induction now user act prov rs db rule: scan_grants.induct)
  case (2 now user act prov r0 rs db)
  have conn: "Some x = grant_connector db user i \<Longrightarrow> x \<in> set (g_connectors db) \<and> ac_id x = i
      \<and> ac_user x = user \<and> ac_enabled x \<and> ac_status x = ''connected''" for i x
  proof -
    assume "Some x = grant_connector db user i"
    then have "find (\<lambda>c. ac_id c = i \<and> ac_user c = user \<and> ac_enabled c
        \<and> ac_status c = ''connected'') (g_connectors db) = Some x" by (simp add: grant_connector_def)
    from find_SomeD [OF this] show ?thesis by simp
  qed
  have pres: "present s \<Longrightarrow> Some (the s) = s" for s :: "string option" by (cases s) auto
  show ?case
  proof (cases "grant_connector db user (the (pd_connector r0))")
    case None
    with 2 show ?thesis by (auto split: if_splits option.splits)
  next
    case (Some x)
    have x: "present (pd_connector r0) \<Longrightarrow> Some (ac_id x) = pd_connector r0 \<and> x \<in> set (g_connectors db)
        \<and> ac_user x = user \<and> ac_enabled x \<and> ac_status x = ''connected''"
      using conn [OF Some [symmetric]] pres by simp
    from 2 x show ?thesis
      unfolding scan_grants.simps(2) Some option.case prod.inject
      by (cases "pd_expires r0") (auto split: if_splits)
  qed
qed simp

lemma scan_grants_ids: "map pd_id (g_rows (snd (scan_grants now user act prov rs db))) = map pd_id (g_rows db)"
  by (induction now user act prov rs db rule: scan_grants.induct)
    (auto simp: row_simps split: option.splits)

lemma active_delegation_sound:
  assumes "active_delegation now db user ten cap act prov = (Some (r, c), db')"
  shows "is_grant_member db user ten \<and> r \<in> set (g_rows db) \<and> pd_user r = user \<and> pd_tenant r = ten
    \<and> pd_capability r = cap \<and> pd_status r = Grant_Active \<and> (\<forall>e. pd_expires r = Some e \<longrightarrow> now < e)
    \<and> (pd_type r = One_Time \<and> present (pd_action r) \<longrightarrow> pd_action r = act)
    \<and> (present (pd_connector r) \<longrightarrow> (\<exists>x. c = Some x \<and> x \<in> set (g_connectors db)
        \<and> Some (ac_id x) = pd_connector r \<and> ac_user x = user \<and> ac_enabled x \<and> ac_status x = ''connected''))"
proof -
  from assms have m: "is_grant_member db user ten"
    by (auto simp: active_delegation_def split: if_splits)
  with assms have "scan_grants now user act prov
      (sort_key (\<lambda>r. - pd_created r)
          (filter (\<lambda>r. pd_user r = user \<and> pd_tenant r = ten \<and> pd_capability r = cap
             \<and> pd_status r = Grant_Active) (g_rows db))) db = (Some (r, c), db')"
    by (simp add: active_delegation_def)
  from scan_grants_result [OF this] m show ?thesis by simp
qed

lemma active_delegation_closed:
  "grant_closed gid db \<Longrightarrow> grant_closed gid (snd (active_delegation now db user ten cap act prov))"
  by (simp add: active_delegation_def scan_grants_closed)

lemma active_delegation_ids:
  "map pd_id (g_rows (snd (active_delegation now db user ten cap act prov))) = map pd_id (g_rows db)"
  by (simp add: active_delegation_def scan_grants_ids)

lemma authorize_closed:
  "grant_closed gid db \<Longrightarrow> grant_closed gid (snd (authorize_delegated_use now db user ten cap act prov))"
proof -
  assume "grant_closed gid db"
  from active_delegation_closed [OF this, of now user ten cap act prov] show ?thesis
    by (auto simp: authorize_delegated_use_def use_grant_def intro!: grant_closed_set_grant
        split: prod.splits option.splits if_splits)
qed

text \<open>
  One operation on the grants, by anybody and at any time, or a change of memberships and
  connectors made elsewhere. A new grant's key is new.
\<close>

inductive grant_step :: "grant_db \<Rightarrow> grant_db \<Rightarrow> bool" where
  grant: "i \<notin> pd_id ` set (g_rows db) \<Longrightarrow>
    grant_step db (snd (grant_delegation i p now db user ten cap conn scope gtype act expires))"
| revoke: "grant_step db (snd (revoke_delegation now db user gid))"
| look: "grant_step db (snd (active_delegation now db user ten cap act prov))"
| authorize: "grant_step db (snd (authorize_delegated_use now db user ten cap act prov))"
| audit: "grant_step db (audit_delegated_result db r act outcome evidence)"
| elsewhere: "grant_step db (db\<lparr>g_members := ms, g_connectors := cs\<rparr>)"

lemma principal_of_rows: "principal_of n db u = (p, db') \<Longrightarrow> g_rows db' = g_rows db"
  by (auto simp: principal_of_def split: option.splits prod.splits)

lemma grant_rows:
  "g_rows (snd (grant_delegation i p now db user ten cap conn scope gtype act expires)) = g_rows db
   \<or> (\<exists>row. pd_id row = i \<and>
        g_rows (snd (grant_delegation i p now db user ten cap conn scope gtype act expires)) = g_rows db @ [row])"
proof -
  obtain q db' where q: "principal_of p db user = (q, db')" by fastforce
  show ?thesis
    by (cases "grant_kind gtype") (auto simp: grant_delegation_def Let_def q principal_of_rows [OF q])
qed

lemma grant_closed_step:
  assumes "grant_step db db'" "grant_closed gid db" shows "grant_closed gid db'"
  using assms
proof cases
  case (grant i p now user ten cap conn scope gtype act expires)
  with assms(2) show ?thesis
    using grant_rows [of i p now db user ten cap conn scope gtype act expires]
    by (auto simp: grant_closed_def)
next
  case (revoke now user g)
  with assms(2) show ?thesis
    by (auto simp: revoke_delegation_def Let_def intro: grant_closed_set_grant split: option.splits)
qed (use assms(2) active_delegation_closed authorize_closed in
      \<open>auto simp: grant_closed_def audit_delegated_result_def\<close>)

lemma grant_closed_steps: "grant_step\<^sup>*\<^sup>* db db' \<Longrightarrow> grant_closed gid db \<Longrightarrow> grant_closed gid db'"
  by (induction rule: rtranclp_induct) (auto intro: grant_closed_step)

lemma authorize_result:
  assumes "authorize_delegated_use now db user ten cap act prov = (Some (r, c), db')"
  obtains r0 d where "active_delegation now db user ten cap act prov = (Some (r0, c), d)"
    "r = use_grant now (pd_type r0) r0" "g_rows db' = update_where (\<lambda>x. pd_id x = pd_id r0) (use_grant now (pd_type r0)) (g_rows d)"
  using assms by (auto simp: authorize_delegated_use_def row_simps split: prod.splits option.splits)

text \<open>
  C6. A use of personal authority in a workspace is authorised only under a grant that covers it
  then: the person still belongs to the workspace, the grant is theirs, for that workspace and
  capability, active and not expired, bound to no other action, and the account it lends is still
  enabled and connected.
\<close>

theorem authorized_use_is_covered:
  assumes "authorize_delegated_use now db user ten cap act prov = (Some (r, c), db')"
  shows "is_grant_member db user ten
    \<and> (\<exists>g \<in> set (g_rows db). pd_id g = pd_id r \<and> pd_user g = user \<and> pd_tenant g = ten
        \<and> pd_capability g = cap \<and> pd_status g = Grant_Active
        \<and> (\<forall>e. pd_expires g = Some e \<longrightarrow> now < e)
        \<and> (pd_type g = One_Time \<and> present (pd_action g) \<longrightarrow> pd_action g = act)
        \<and> (present (pd_connector g) \<longrightarrow> (\<exists>x. c = Some x \<and> x \<in> set (g_connectors db)
             \<and> Some (ac_id x) = pd_connector g \<and> ac_user x = user \<and> ac_enabled x
             \<and> ac_status x = ''connected'')))"
proof -
  obtain r0 d where a: "active_delegation now db user ten cap act prov = (Some (r0, c), d)"
    and r: "r = use_grant now (pd_type r0) r0"
    using assms by (rule authorize_result)
  have "pd_id r0 = pd_id r" using r by (simp add: use_grant_def)
  with active_delegation_sound [OF a] show ?thesis by blast
qed

definition sample_grants :: grant_db where
  "sample_grants = \<lparr>g_members = [\<lparr>m_id = ''m'', m_tenant = ''w'', m_user = ''u'', m_role = ''agent''\<rparr>],
     g_connectors = [], g_principals = [],
     g_rows = [\<lparr>pd_id = ''g1'', pd_principal = ''p'', pd_user = ''u'', pd_tenant = ''w'',
       pd_capability = ''mail.send'', pd_connector = None, pd_scope = JObj [], pd_type = One_Time,
       pd_action = None, pd_status = Grant_Active, pd_expires = Some 100, pd_created = 1,
       pd_revoked = None, pd_last_used = None\<rparr>],
     g_audits = []\<rparr>"

lemma sample_grants_use:
  "case authorize_delegated_use 50 sample_grants ''u'' ''w'' ''mail.send'' None None of
     (Some (r, c), db) \<Rightarrow> pd_id r = ''g1'' \<and> pd_type r = One_Time
       \<and> ''g2'' \<notin> pd_id ` set (g_rows db)
       \<and> (case grant_delegation ''g2'' ''p2'' 60 db ''u'' ''w'' ''mail.send'' None JNull ''persistent'' None None of
            (Inr g, db2) \<Rightarrow> (case authorize_delegated_use 70 db2 ''u'' ''w'' ''mail.send'' None None of
              (Some (r2, c2), db3) \<Rightarrow> True | _ \<Rightarrow> False)
          | _ \<Rightarrow> False)
   | _ \<Rightarrow> False"
  by code_simp

theorem authorized_use_is_covered_witness:
  "\<exists>g \<in> set (g_rows sample_grants). pd_status g = Grant_Active \<and> pd_capability g = ''mail.send''"
proof -
  obtain r c db where
    "authorize_delegated_use 50 sample_grants ''u'' ''w'' ''mail.send'' None None = (Some (r, c), db)"
    using sample_grants_use by (auto split: prod.splits option.splits)
  from authorized_use_is_covered [OF this] show ?thesis by blast
qed



text \<open>
  A reference the person typed resolves, if at all, to a scope they are authorised for: their
  account must be active, and a workspace is one they are a member of.
\<close>

lemma resolved_scope_is_authorised:
  assumes "resolved_scope (resolve_authorized_scope db uid reference focus) = Some s"
  shows "s \<in> set (authorized_scopes db uid)
    \<and> (\<exists>u \<in> set (users db). u_id u = uid \<and> u_active u)
    \<and> (sc_kind s = Workspace \<longrightarrow> (\<exists>m \<in> set (members db). m_user m = uid \<and> m_tenant m = sc_id s))"
proof -
  have "s \<in> set (rs_matches (resolve_authorized_scope db uid reference focus))"
    using assms by (auto simp: resolved_scope_def split: list.splits if_splits)
  then have s: "s \<in> set (authorized_scopes db uid)"
    by (auto simp: resolve_authorized_scope_def Let_def split: if_splits)
  then obtain u where u: "find_user db uid = Some u" "u_active u"
    by (cases "find_user db uid") (auto simp: authorized_scopes_def split: if_splits)
  then have "\<exists>u \<in> set (users db). u_id u = uid \<and> u_active u"
    unfolding find_user_def by (auto dest: find_SomeD)
  moreover have "sc_kind s = Workspace \<longrightarrow> (\<exists>m \<in> set (members db). m_user m = uid \<and> m_tenant m = sc_id s)"
    using s u by (auto simp: authorized_scopes_def workspace_scopes_def)
  ultimately show ?thesis using s by blast
qed

definition sample_scopes_db :: authority_db where
  "sample_scopes_db = \<lparr>users = [\<lparr>u_id = ''u'', u_active = True\<rparr>],
     tenants = [\<lparr>t_id = ''w'', t_name = ''Acme  Tools'', t_slug = Some ''acme''\<rparr>],
     members = [\<lparr>m_id = ''m'', m_tenant = ''w'', m_user = ''u'', m_role = ''agent''\<rparr>],
     roles = [], role_permissions = [], installations = []\<rparr>"

lemma resolved_scope_is_authorised_witness:
  "\<exists>s. s \<in> set (authorized_scopes sample_scopes_db ''u'') \<and> sc_id s = ''w''"
proof -
  have "resolved_scope (resolve_authorized_scope sample_scopes_db ''u'' '' ACME tools '' None)
      = Some \<lparr>sc_kind = Workspace, sc_id = ''w'', sc_name = ''Acme  Tools'', sc_role = Some ''agent'',
          sc_slug = Some ''acme''\<rparr>"
    by code_simp
  from resolved_scope_is_authorised [OF this] show ?thesis by fastforce
qed

end
