(* ===== verification/Schema_Validation.thy ===== *)
theory Schema_Validation
  imports Py_Json
begin

text \<open>
  packages/kernel/schema\_validation.py: the subset of JSON Schema that capability contracts use.
  The keys of an object are the keys of a dictionary, so each occurs once.
\<close>

definition matches_type :: "json \<Rightarrow> string \<Rightarrow> bool" where
  "matches_type v expected =
     (if expected = ''object'' then (case v of JObj _ \<Rightarrow> True | _ \<Rightarrow> False)
      else if expected = ''array'' then (case v of JArr _ \<Rightarrow> True | _ \<Rightarrow> False)
      else if expected = ''string'' then (case v of JStr _ \<Rightarrow> True | _ \<Rightarrow> False)
      else if expected = ''integer'' then (case v of JInt _ \<Rightarrow> True | _ \<Rightarrow> False)
      else if expected = ''number'' then (case v of JInt _ \<Rightarrow> True | JFloat _ \<Rightarrow> True | _ \<Rightarrow> False)
      else if expected = ''boolean'' then (case v of JBool _ \<Rightarrow> True | _ \<Rightarrow> False)
      else if expected = ''null'' then v = JNull
      else True)"

text \<open>\<open>isinstance(v, int)\<close>, which booleans are, and the number of such a bound.\<close>

definition int_bound :: "json \<Rightarrow> int option" where
  "int_bound v = (case v of JInt i \<Rightarrow> Some i | JBool b \<Rightarrow> Some (if b then 1 else 0) | _ \<Rightarrow> None)"

definition schema_error :: "string \<Rightarrow> 'a result" where
  "schema_error m = Inl (SchemaValidationError m)"

definition unhashable :: "json \<Rightarrow> bool" where
  "unhashable v = (case v of JArr _ \<Rightarrow> True | JObj _ \<Rightarrow> True | _ \<Rightarrow> False)"

text \<open>\<open>v in container\<close> for any container, \<open>None\<close> where Python raises \<open>TypeError\<close>.\<close>

definition py_in :: "json \<Rightarrow> json \<Rightarrow> bool option" where
  "py_in v container = (case container of
       JArr xs \<Rightarrow> Some (py_in_list v xs)
     | JStr t \<Rightarrow> (case v of JStr s \<Rightarrow> Some (sublist s t) | _ \<Rightarrow> None)
     | JObj kvs \<Rightarrow> (if unhashable v then None else case v of
           JStr s \<Rightarrow> Some (obj_get s kvs \<noteq> None) | _ \<Rightarrow> Some False)
     | _ \<Rightarrow> None)"

definition check_type :: "host \<Rightarrow> json \<Rightarrow> (string \<times> json) list \<Rightarrow> string \<Rightarrow> unit result" where
  "check_type H v schema path = (case get_or_null ''type'' schema of
       JArr items \<Rightarrow>
         if list_ex (\<lambda>t. matches_type v (py_str H t)) items then Inr ()
         else schema_error (path @ '' has an invalid type'')
     | JStr expected \<Rightarrow>
         if matches_type v expected then Inr () else schema_error (path @ '' must be '' @ expected)
     | _ \<Rightarrow> Inr ())"

definition check_enum :: "json \<Rightarrow> (string \<times> json) list \<Rightarrow> string \<Rightarrow> unit result" where
  "check_enum v schema path = (case obj_get ''enum'' schema of
       None \<Rightarrow> Inr ()
     | Some allowed \<Rightarrow> (case py_in v allowed of
           None \<Rightarrow> Inl (TypeError ''argument of this type is not iterable'')
         | Some True \<Rightarrow> Inr ()
         | Some False \<Rightarrow> schema_error (path @ '' is not an allowed value'')))"

definition check_required :: "host \<Rightarrow> (string \<times> json) list \<Rightarrow> string \<Rightarrow> json \<Rightarrow> unit result" where
  "check_required H kvs path key = (case py_in key (JObj kvs) of
       None \<Rightarrow> Inl (TypeError ''unhashable type'')
     | Some True \<Rightarrow> Inr ()
     | Some False \<Rightarrow> schema_error (path @ ''.'' @ py_str H key @ '' is required''))"

definition schema_properties :: "(string \<times> json) list \<Rightarrow> (string \<times> json) list" where
  "schema_properties schema = (case get_or_null ''properties'' schema of JObj ps \<Rightarrow> ps | _ \<Rightarrow> [])"

definition check_known :: "(string \<times> json) list \<Rightarrow> (string \<times> json) list \<Rightarrow> string \<Rightarrow> unit result" where
  "check_known kvs schema path =
     (if get_or_null ''additionalProperties'' schema = JBool False then
        (let unknown = sort (filter (\<lambda>k. k \<notin> set (map fst (schema_properties schema)))
               (remdups (map fst kvs)))
         in if unknown = [] then Inr ()
            else schema_error (path @ '' contains unsupported fields: '' @ join '', '' unknown))
      else Inr ())"

definition check_length ::
  "string \<Rightarrow> string \<Rightarrow> string \<Rightarrow> string \<Rightarrow> nat \<Rightarrow> (string \<times> json) list \<Rightarrow> unit result" where
  "check_length min_key max_key min_text max_text n schema =
     (case int_bound (get_or_null min_key schema) of
        Some m \<Rightarrow> if int n < m then schema_error min_text
          else (case int_bound (get_or_null max_key schema) of
              Some k \<Rightarrow> if int n > k then schema_error max_text else Inr ()
            | None \<Rightarrow> Inr ())
      | None \<Rightarrow> (case int_bound (get_or_null max_key schema) of
              Some k \<Rightarrow> if int n > k then schema_error max_text else Inr ()
            | None \<Rightarrow> Inr ()))"

definition bound_text :: "string \<Rightarrow> (string \<times> json) list \<Rightarrow> string" where
  "bound_text key schema =
     (case get_or_null key schema of
        JBool b \<Rightarrow> if b then ''True'' else ''False'' | JInt i \<Rightarrow> int_str i | _ \<Rightarrow> [])"

definition check_items :: "nat \<Rightarrow> (string \<times> json) list \<Rightarrow> string \<Rightarrow> unit result" where
  "check_items n schema path = check_length ''minItems'' ''maxItems''
     (path @ '' must contain at least '' @ bound_text ''minItems'' schema @ '' items'')
     (path @ '' must contain at most '' @ bound_text ''maxItems'' schema @ '' items'') n schema"

definition check_text :: "nat \<Rightarrow> (string \<times> json) list \<Rightarrow> string \<Rightarrow> unit result" where
  "check_text n schema path = check_length ''minLength'' ''maxLength''
     (path @ '' is too short'') (path @ '' is too long'') n schema"

definition check_number :: "rat \<Rightarrow> (string \<times> json) list \<Rightarrow> string \<Rightarrow> unit result" where
  "check_number q schema path =
     (let low = number_of (get_or_null ''minimum'' schema);
          high = number_of (get_or_null ''maximum'' schema)
      in if (case low of Some m \<Rightarrow> q < m | None \<Rightarrow> False) then
           schema_error (path @ '' is below the minimum'')
         else if (case high of Some m \<Rightarrow> q > m | None \<Rightarrow> False) then
           schema_error (path @ '' is above the maximum'')
         else Inr ())"

definition then_check :: "unit result \<Rightarrow> unit result \<Rightarrow> unit result" where
  "then_check a b = bind_result a (\<lambda>_. b)"

lemma then_check_cong [fundef_cong]:
  "a = a' \<Longrightarrow> (a' = Inr () \<Longrightarrow> b = b') \<Longrightarrow> then_check a b = then_check a' b'"
  by (cases a') (auto simp: then_check_def)

lemma then_check_ok [simp]: "then_check a b = Inr () \<longleftrightarrow> a = Inr () \<and> b = Inr ()"
  by (cases a) (auto simp: then_check_def)

text \<open>Every element of a list checked, in order.\<close>

fun check_all :: "('a \<Rightarrow> unit result) \<Rightarrow> 'a list \<Rightarrow> unit result" where
  "check_all f [] = Inr ()"
| "check_all f (x # xs) = then_check (f x) (check_all f xs)"

lemma check_all_cong [fundef_cong]:
  "xs = ys \<Longrightarrow> (\<And>x. x \<in> set ys \<Longrightarrow> f x = g x) \<Longrightarrow> check_all f xs = check_all g ys"
  by (induction xs arbitrary: ys) auto

lemma check_all_ok [simp]: "check_all f xs = Inr () \<longleftrightarrow> (\<forall>x \<in> set xs. f x = Inr ())"
  by (induction xs) auto

function (sequential) validate_schema ::
  "host \<Rightarrow> json \<Rightarrow> (string \<times> json) list \<Rightarrow> string \<Rightarrow> unit result" where
  "validate_schema H (JObj kvs) schema path =
     then_check (check_type H (JObj kvs) schema path)
     (then_check (check_enum (JObj kvs) schema path)
     (then_check (case get_or_null ''required'' schema of
         JArr keys \<Rightarrow> check_all (check_required H kvs path) keys | _ \<Rightarrow> Inr ())
     (then_check (check_known kvs schema path)
     (check_all (\<lambda>(key, child). case obj_get key kvs of
         Some v \<Rightarrow> (case child of
             JObj sub \<Rightarrow> validate_schema H v sub (path @ ''.'' @ key) | _ \<Rightarrow> Inr ())
       | None \<Rightarrow> Inr ()) (schema_properties schema)))))"
| "validate_schema H (JArr xs) schema path =
     then_check (check_type H (JArr xs) schema path)
     (then_check (check_enum (JArr xs) schema path)
     (then_check (check_items (length xs) schema path)
     (case get_or_null ''items'' schema of
        JObj sub \<Rightarrow> check_all (\<lambda>(i, x).
          validate_schema H x sub (path @ ''['' @ nat_digits i @ '']'')) (enumerate 0 xs)
      | _ \<Rightarrow> Inr ())))"
| "validate_schema H v schema path =
     then_check (check_type H v schema path)
     (then_check (check_enum v schema path)
     (case v of
        JStr s \<Rightarrow> check_text (length s) schema path
      | JInt i \<Rightarrow> check_number (of_int i) schema path
      | JFloat q \<Rightarrow> check_number q schema path
      | _ \<Rightarrow> Inr ()))"
  by pat_completeness auto

lemma enumerate_in: "(i, x) \<in> set (enumerate n xs) \<Longrightarrow> x \<in> set xs"
  by (metis in_set_zip snd_conv enumerate_eq_zip nth_mem)

lemma obj_get_smaller: "obj_get k kvs = Some v \<Longrightarrow> size v < size (JObj kvs)"
  by (auto simp: obj_get_def dest!: map_of_SomeD intro: size_in_items)

termination validate_schema
  by (relation "measure (\<lambda>(H, v, schema, path). size v)")
    (auto dest: enumerate_in obj_get_smaller simp del: json.size(7) intro: size_in_list)

subsection \<open>The reference: what it means to conform\<close>

text \<open>
  A value conforms to a schema independently of where it stands in a document and of the order in
  which the validator looks: its type is one of the admitted ones, it is one of the enumerated
  values, and its parts, its size or its magnitude are as the schema asks.
\<close>

definition type_conforms :: "host \<Rightarrow> json \<Rightarrow> json \<Rightarrow> bool" where
  "type_conforms H v t = (case t of
       JStr e \<Rightarrow> matches_type v e | JArr ts \<Rightarrow> (\<exists>e \<in> set ts. matches_type v (py_str H e)) | _ \<Rightarrow> True)"

definition in_range :: "rat \<Rightarrow> rat option \<Rightarrow> rat option \<Rightarrow> bool" where
  "in_range q lo hi = ((\<forall>m. lo = Some m \<longrightarrow> m \<le> q) \<and> (\<forall>m. hi = Some m \<longrightarrow> q \<le> m))"

definition size_within :: "nat \<Rightarrow> json \<Rightarrow> json \<Rightarrow> bool" where
  "size_within n lo hi =
     in_range (of_nat n) (map_option of_int (int_bound lo)) (map_option of_int (int_bound hi))"

function (sequential) conforms :: "host \<Rightarrow> json \<Rightarrow> (string \<times> json) list \<Rightarrow> bool" where
  "conforms H (JObj kvs) schema =
     (type_conforms H (JObj kvs) (get_or_null ''type'' schema)
      \<and> (\<forall>es. obj_get ''enum'' schema = Some es \<longrightarrow> py_in (JObj kvs) es = Some True)
      \<and> (\<forall>ks k. get_or_null ''required'' schema = JArr ks \<and> k \<in> set ks \<longrightarrow> py_in k (JObj kvs) = Some True)
      \<and> (get_or_null ''additionalProperties'' schema = JBool False \<longrightarrow>
           fst ` set kvs \<subseteq> fst ` set (schema_properties schema))
      \<and> (\<forall>k sub v. (k, JObj sub) \<in> set (schema_properties schema) \<longrightarrow> obj_get k kvs = Some v \<longrightarrow>
           conforms H v sub))"
| "conforms H (JArr xs) schema =
     (type_conforms H (JArr xs) (get_or_null ''type'' schema)
      \<and> (\<forall>es. obj_get ''enum'' schema = Some es \<longrightarrow> py_in (JArr xs) es = Some True)
      \<and> size_within (length xs) (get_or_null ''minItems'' schema) (get_or_null ''maxItems'' schema)
      \<and> (\<forall>sub x. get_or_null ''items'' schema = JObj sub \<longrightarrow> x \<in> set xs \<longrightarrow> conforms H x sub))"
| "conforms H v schema =
     (type_conforms H v (get_or_null ''type'' schema)
      \<and> (\<forall>es. obj_get ''enum'' schema = Some es \<longrightarrow> py_in v es = Some True)
      \<and> (case v of
           JStr s \<Rightarrow> size_within (length s) (get_or_null ''minLength'' schema) (get_or_null ''maxLength'' schema)
         | JInt i \<Rightarrow> in_range (of_int i) (number_of (get_or_null ''minimum'' schema)) (number_of (get_or_null ''maximum'' schema))
         | JFloat q \<Rightarrow> in_range q (number_of (get_or_null ''minimum'' schema)) (number_of (get_or_null ''maximum'' schema))
         | _ \<Rightarrow> True))"
  by pat_completeness auto

termination conforms
  by (relation "measure (\<lambda>(H, v, schema). size v)")
    (auto dest: obj_get_smaller simp del: json.size(7) intro: size_in_list)

lemma check_type_ok: "check_type H v schema path = Inr () \<longleftrightarrow> type_conforms H v (get_or_null ''type'' schema)"
  by (auto simp: check_type_def type_conforms_def schema_error_def list_ex_iff split: json.splits)

lemma check_enum_ok: "check_enum v schema path = Inr () \<longleftrightarrow>
    (\<forall>es. obj_get ''enum'' schema = Some es \<longrightarrow> py_in v es = Some True)"
  by (auto simp: check_enum_def schema_error_def split: option.splits bool.splits)

lemma check_required_ok: "check_required H kvs path k = Inr () \<longleftrightarrow> py_in k (JObj kvs) = Some True"
  by (auto simp: check_required_def schema_error_def split: option.splits bool.splits)

lemma check_known_ok: "check_known kvs schema path = Inr () \<longleftrightarrow>
    (get_or_null ''additionalProperties'' schema = JBool False \<longrightarrow>
       fst ` set kvs \<subseteq> fst ` set (schema_properties schema))"
proof -
  have "sort xs = [] \<longleftrightarrow> xs = []" for xs :: "string list"
    by (metis length_0_conv length_sort)
  then show ?thesis
    by (auto simp: check_known_def schema_error_def Let_def filter_empty_conv subset_iff)
qed

lemma check_length_ok: "check_length mn mx a b n schema = Inr () \<longleftrightarrow>
    size_within n (get_or_null mn schema) (get_or_null mx schema)"
proof -
  have i: "of_int m \<le> (of_nat n :: rat) \<longleftrightarrow> m \<le> int n" "(of_nat n :: rat) \<le> of_int m \<longleftrightarrow> int n \<le> m" for m
    using of_int_le_iff [of m "int n", where 'a = rat] of_int_le_iff [of "int n" m, where 'a = rat]
    by simp_all
  show ?thesis
    by (auto simp: check_length_def size_within_def in_range_def schema_error_def i not_less
        split: option.splits)
qed

lemma check_number_ok: "check_number q schema path = Inr () \<longleftrightarrow>
    in_range q (number_of (get_or_null ''minimum'' schema)) (number_of (get_or_null ''maximum'' schema))"
  by (auto simp: check_number_def in_range_def schema_error_def Let_def not_less split: option.splits)

lemmas check_oks = check_type_ok check_enum_ok check_required_ok check_known_ok check_number_ok
  check_items_def check_text_def check_length_ok

lemma enumerate_all: "(\<forall>p \<in> set (enumerate n xs). P (snd p)) \<longleftrightarrow> (\<forall>x \<in> set xs. P x)"
  by (induction xs arbitrary: n) auto

lemma validate_schema_verdict:
  "validate_schema H v schema path = Inr () \<longleftrightarrow> conforms H v schema"
proof (induction H v schema path rule: validate_schema.induct)
  case (1 H kvs schema path)
  let ?req = "(case get_or_null ''required'' schema of
      JArr keys \<Rightarrow> check_all (check_required H kvs path) keys | _ \<Rightarrow> Inr ())"
  have req: "?req = Inr () \<longleftrightarrow> (\<forall>ks k. get_or_null ''required'' schema = JArr ks \<and> k \<in> set ks \<longrightarrow>
      py_in k (JObj kvs) = Some True)"
    by (auto simp: check_required_ok split: json.splits)
  show ?case
  proof (cases "check_type H (JObj kvs) schema path = Inr () \<and> check_enum (JObj kvs) schema path = Inr ()
      \<and> ?req = Inr () \<and> check_known kvs schema path = Inr ()")
    case True
    note IH = 1 [OF conjunct1 [OF True] conjunct1 [OF conjunct2 [OF True]]
        conjunct1 [OF conjunct2 [OF conjunct2 [OF True]]] conjunct2 [OF conjunct2 [OF conjunct2 [OF True]]]]
    have child: "(case obj_get k kvs of
         Some v \<Rightarrow> (case child of JObj sub \<Rightarrow> validate_schema H v sub (path @ ''.'' @ k) | _ \<Rightarrow> Inr ())
       | None \<Rightarrow> Inr ()) = Inr () \<longleftrightarrow> (\<forall>sub v. child = JObj sub \<longrightarrow> obj_get k kvs = Some v \<longrightarrow> conforms H v sub)"
      if "(k, child) \<in> set (schema_properties schema)" for k child
      using IH [OF that refl] by (auto split: option.splits json.splits)
    have "check_all (\<lambda>(k, child). case obj_get k kvs of
         Some v \<Rightarrow> (case child of JObj sub \<Rightarrow> validate_schema H v sub (path @ ''.'' @ k) | _ \<Rightarrow> Inr ())
       | None \<Rightarrow> Inr ()) (schema_properties schema) = Inr () \<longleftrightarrow>
      (\<forall>k sub v. (k, JObj sub) \<in> set (schema_properties schema) \<longrightarrow> obj_get k kvs = Some v \<longrightarrow>
           conforms H v sub)"
      unfolding check_all_ok using child by (auto simp: split_beta)
    with True show ?thesis
      by (simp only: validate_schema.simps conforms.simps then_check_ok req check_oks)
  next
    case False
    then show ?thesis
      by (simp only: validate_schema.simps conforms.simps then_check_ok req check_oks) blast
  qed
next
  case (2 H xs schema path)
  show ?case
  proof (cases "check_type H (JArr xs) schema path = Inr () \<and> check_enum (JArr xs) schema path = Inr ()
      \<and> check_items (length xs) schema path = Inr ()")
    case True
    note IH = 2 [OF conjunct1 [OF True] conjunct1 [OF conjunct2 [OF True]] conjunct2 [OF conjunct2 [OF True]]]
    have "(case get_or_null ''items'' schema of
        JObj sub \<Rightarrow> check_all (\<lambda>(i, x).
          validate_schema H x sub (path @ ''['' @ nat_digits i @ '']'')) (enumerate 0 xs)
      | _ \<Rightarrow> Inr ()) = Inr () \<longleftrightarrow>
     (\<forall>sub x. get_or_null ''items'' schema = JObj sub \<longrightarrow> x \<in> set xs \<longrightarrow> conforms H x sub)"
    proof (cases "get_or_null ''items'' schema")
      case (JObj sub)
      have "validate_schema H x sub (path @ ''['' @ nat_digits i @ '']'') = Inr () \<longleftrightarrow> conforms H x sub"
        if "(i, x) \<in> set (enumerate 0 xs)" for i x
        using IH [OF JObj that refl] by simp
      then have "check_all (\<lambda>(i, x). validate_schema H x sub (path @ ''['' @ nat_digits i @ '']''))
          (enumerate 0 xs) = Inr () \<longleftrightarrow> (\<forall>p \<in> set (enumerate 0 xs). conforms H (snd p) sub)"
        unfolding check_all_ok by (auto simp: split_beta)
      then show ?thesis
        unfolding JObj using enumerate_all [of 0 xs "\<lambda>x. conforms H x sub"] by auto
    qed auto
    with True show ?thesis
      by (simp only: validate_schema.simps conforms.simps then_check_ok check_oks)
  next
    case False
    then show ?thesis
      by (simp only: validate_schema.simps conforms.simps then_check_ok check_oks) blast
  qed
qed (simp_all add: check_oks)


text \<open>
  C9. The validator accepts exactly the values that conform: its order of checks and the path it
  reports make no difference to the verdict.
\<close>

theorem validate_schema_iff_conforms:
  "validate_schema H v schema path = Inr () \<longleftrightarrow> conforms H v schema"
  by (rule validate_schema_verdict)

declare validate_schema.simps [simp del] conforms.simps [simp del]

end
