(* ===== verification/Kernel_Policy.thy ===== *)
theory Kernel_Policy
  imports Authority Schema_Validation
begin

text \<open>
  packages/kernel: the contracts of capabilities (contracts.py), the registry with its search
  (registry.py) and the policy that decides an invocation (policy.py). The lexical search index and
  the optional semantic one are a parameter of the search: whatever candidates they propose and
  however they score them, the registry filters.
\<close>

subsection \<open>Contracts\<close>

datatype risk = Read_Only | Low_Risk | Medium_Risk | High_Risk

fun risk_value :: "risk \<Rightarrow> string" where
  "risk_value Read_Only = ''read_only''"
| "risk_value Low_Risk = ''low''"
| "risk_value Medium_Risk = ''medium''"
| "risk_value High_Risk = ''high''"

datatype decision = Deny | Ask | Allow

fun decision_value :: "decision \<Rightarrow> string" where
  "decision_value Deny = ''deny''"
| "decision_value Ask = ''ask''"
| "decision_value Allow = ''allow''"

text \<open>Decisions in the order of what they permit.\<close>

instantiation decision :: linorder
begin

fun less_eq_decision :: "decision \<Rightarrow> decision \<Rightarrow> bool" where
  "less_eq_decision Deny _ = True"
| "less_eq_decision Ask d = (d \<noteq> Deny)"
| "less_eq_decision Allow d = (d = Allow)"

definition less_decision :: "decision \<Rightarrow> decision \<Rightarrow> bool" where
  "less_decision a b = (a \<le> b \<and> a \<noteq> b)"

instance
proof
  fix a b c :: decision
  show "(a < b) = (a \<le> b \<and> \<not> b \<le> a)" by (cases a; cases b) (auto simp: less_decision_def)
  show "a \<le> a" by (cases a) auto
  show "a \<le> b \<Longrightarrow> b \<le> c \<Longrightarrow> a \<le> c" by (cases a; cases b; cases c) auto
  show "a \<le> b \<Longrightarrow> b \<le> a \<Longrightarrow> a = b" by (cases a; cases b) auto
  show "a \<le> b \<or> b \<le> a" by (cases a; cases b) auto
qed

end

record capability_spec =
  cs_id :: string
  cs_version :: string
  cs_name :: string
  cs_description :: string
  cs_provider :: string
  cs_scopes :: "string set"
  cs_input :: "(string \<times> json) list"
  cs_output :: "(string \<times> json) list"
  cs_permissions :: "string list"
  cs_risk :: risk
  cs_approval :: bool
  cs_resource_scope :: string
  cs_reversible :: bool
  cs_aliases :: "string list"
  cs_emits :: "string list"
  cs_tags :: "string set"

definition strings_json :: "string list \<Rightarrow> json" where
  "strings_json ss = JArr (map JStr ss)"

definition public_dict :: "capability_spec \<Rightarrow> (string \<times> json) list" where
  "public_dict s =
     [(''id'', JStr (cs_id s)), (''version'', JStr (cs_version s)),
      (''display_name'', JStr (cs_name s)), (''description'', JStr (cs_description s)),
      (''provider_id'', JStr (cs_provider s)),
      (''scopes'', strings_json (sorted_list_of_set (cs_scopes s))),
      (''input_schema'', JObj (cs_input s)), (''output_schema'', JObj (cs_output s)),
      (''permissions'', strings_json (cs_permissions s)), (''risk'', JStr (risk_value (cs_risk s))),
      (''approval_required'', JBool (cs_approval s)),
      (''resource_scope'', JStr (cs_resource_scope s)), (''reversible'', JBool (cs_reversible s)),
      (''aliases'', strings_json (cs_aliases s)), (''emits'', strings_json (cs_emits s)),
      (''tags'', strings_json (sorted_list_of_set (cs_tags s)))]"

record runtime_request =
  rq_goal :: string
  rq_capability :: "string option"
  rq_arguments :: "(string \<times> json) list"
  rq_conversation :: "ident option"
  rq_request_id :: "string option"
  rq_approval_id :: "ident option"

record execution_result =
  xr_value :: "(string \<times> json) list"
  xr_resource_type :: "string option"
  xr_resource_id :: "string option"
  xr_event :: "(string \<times> json) list"

record runtime_response =
  rr_run_id :: ident
  rr_status :: string
  rr_capability :: "string option"
  rr_decision :: decision
  rr_result :: "(string \<times> json) list option"
  rr_done :: bool
  rr_trace :: "json list"

subsection \<open>The registry\<close>

text \<open>The registered specifications, in order of registration.\<close>

type_synonym registry = "capability_spec list"

definition lookup_spec :: "registry \<Rightarrow> string \<Rightarrow> capability_spec option" where
  "lookup_spec reg key = find (\<lambda>s. cs_id s = key) reg"

definition register :: "registry \<Rightarrow> capability_spec \<Rightarrow> registry result" where
  "register reg spec =
     (let key = py_lower (py_strip (cs_id spec)) in
      if key = [] \<or> key \<noteq> cs_id spec then
        Inl (CapabilityRegistryError ''Capability IDs must be normalized lowercase names'')
      else if lookup_spec reg key \<noteq> None then
        Inl (CapabilityRegistryError (''Duplicate capability: '' @ key))
      else Inr (reg @ [spec]))"

definition get_spec :: "registry \<Rightarrow> string \<Rightarrow> capability_spec result" where
  "get_spec reg cap =
     (let key = py_lower (py_strip cap) in case lookup_spec reg key of
        Some s \<Rightarrow> Inr s
      | None \<Rightarrow> Inl (CapabilityRegistryError
          (''Unknown capability: '' @ (if key = [] then ''<empty>'' else key))))"

definition all_specs :: "registry \<Rightarrow> capability_spec list" where
  "all_specs reg = sort_key cs_id reg"

definition surface_allowed :: "capability_spec \<Rightarrow> exec_context \<Rightarrow> bool" where
  "surface_allowed s c = (scope_value (ctx_scope c) \<in> cs_scopes s
     \<and> capability_surface_allowed (cs_id s) (ctx_surface c))"

definition permitted :: "capability_spec \<Rightarrow> exec_context \<Rightarrow> bool" where
  "permitted s c = list_all (can c) (cs_permissions s)"

definition visible :: "registry \<Rightarrow> exec_context \<Rightarrow> capability_spec list" where
  "visible reg c = filter (\<lambda>s. surface_allowed s c) (all_specs reg)"

definition effective :: "registry \<Rightarrow> exec_context \<Rightarrow> capability_spec list" where
  "effective reg c = filter (\<lambda>s. permitted s c) (visible reg c)"

definition allowed_spec :: "bool \<Rightarrow> capability_spec \<Rightarrow> exec_context \<Rightarrow> bool" where
  "allowed_spec effective_only s c =
     (if effective_only then surface_allowed s c \<and> permitted s c else surface_allowed s c)"

text \<open>What the search takes from the indexes, for a query already lower-cased.\<close>

record search_index =
  ix_candidates :: "string \<Rightarrow> nat \<Rightarrow> string list"
  ix_related :: "string list \<Rightarrow> nat \<Rightarrow> string list"
  ix_semantic :: "string \<Rightarrow> nat \<Rightarrow> string list"
  ix_score :: "string \<Rightarrow> capability_spec \<Rightarrow> rat"
  ix_retrieval :: "string \<Rightarrow> bool"

definition add_new :: "string list \<Rightarrow> string list \<Rightarrow> string list" where
  "add_new xs ys = fold (\<lambda>y acc. if y \<in> set acc then acc else acc @ [y]) ys xs"

definition search_candidates :: "search_index \<Rightarrow> string \<Rightarrow> nat \<Rightarrow> string list \<times> string list" where
  "search_candidates ix q limit =
     (let sparse = ix_candidates ix q limit;
          family = max 32 (min 512 (limit * 16));
          expanded = add_new sparse (ix_related ix sparse family);
          semantic = filter (\<lambda>s. s \<noteq> [])
            (map (\<lambda>s. py_lower (py_strip s)) (ix_semantic ix q (max 64 (min 2048 (limit * 32)))))
      in (add_new expanded semantic, semantic))"

definition search_rank ::
  "registry \<Rightarrow> search_index \<Rightarrow> exec_context \<Rightarrow> bool \<Rightarrow> string \<Rightarrow> string list \<Rightarrow> string \<Rightarrow>
   (rat \<times> capability_spec) option" where
  "search_rank reg ix c effective_only q semantic cap =
     (case lookup_spec reg cap of
        None \<Rightarrow> None
      | Some s \<Rightarrow>
          if \<not> allowed_spec effective_only s c then None
          else if ix_retrieval ix q \<and> cs_risk s \<noteq> Read_Only then None
          else (let base = ix_score ix q s;
                    score = (if cap \<in> set semantic \<and> base \<le> 0 then 1 else base)
                in if score > 0 then Some (score, s) else None))"

definition search ::
  "registry \<Rightarrow> search_index \<Rightarrow> exec_context \<Rightarrow> bool \<Rightarrow> int \<Rightarrow> string \<Rightarrow> capability_spec list" where
  "search reg ix c effective_only limit query =
     (let n = nat (max 1 (min limit 50));
          q = py_lower (py_strip query)
      in if q = [] then take n (if effective_only then effective reg c else visible reg c)
         else case lookup_spec reg q of
             Some s \<Rightarrow>
               if allowed_spec effective_only s c then [s]
               else (let (cands, semantic) = search_candidates ix q n in
                 take n (map snd (sort_key (\<lambda>(r, s). - r) (sort_key (\<lambda>(r, s). cs_id s)
                   (List.map_filter (search_rank reg ix c effective_only q semantic) (remdups cands))))))
           | None \<Rightarrow> (let (cands, semantic) = search_candidates ix q n in
                 take n (map snd (sort_key (\<lambda>(r, s). - r) (sort_key (\<lambda>(r, s). cs_id s)
                   (List.map_filter (search_rank reg ix c effective_only q semantic) (remdups cands)))))))"

subsection \<open>The policy\<close>

definition evaluate_policy :: "exec_context \<Rightarrow> capability_spec \<Rightarrow> decision \<times> string" where
  "evaluate_policy c s =
     (if scope_value (ctx_scope c) \<notin> cs_scopes s then (Deny, ''capability scope mismatch'')
      else if \<not> capability_surface_allowed (cs_id s) (ctx_surface c) then
        (Deny, ''capability is hidden on this surface'')
      else
        (let missing = filter (\<lambda>p. \<not> can c p) (cs_permissions s) in
         if missing \<noteq> [] then (Deny, ''missing permissions: '' @ join '', '' (sort missing))
         else if cs_approval s then (Ask, ''capability requires explicit approval'')
         else (Allow, ''authorized'')))"

subsection \<open>What the policy and the search let through\<close>

lemma policy_deny_iff:
  "fst (evaluate_policy c s) \<noteq> Deny \<longleftrightarrow> surface_allowed s c \<and> permitted s c"
  by (auto simp: evaluate_policy_def surface_allowed_def permitted_def Let_def list_all_iff filter_empty_conv)


text \<open>
  Authority is monotone: a context with at least the permissions of another, in the same
  scope, role, mode and surface, is never decided lower.
\<close>

lemma policy_is_monotone:
  assumes "permissions c \<subseteq> permissions d"
    and "ctx_scope d = ctx_scope c" "role d = role c" "workspace_mode d = workspace_mode c"
      "ctx_surface d = ctx_surface c"
  shows "fst (evaluate_policy c s) \<le> fst (evaluate_policy d s)"
proof -
  have "can c p \<Longrightarrow> can d p" for p
    using assms by (auto simp: can_def is_guest_workspace_def)
  with assms(2,5) show ?thesis
    by (auto simp: evaluate_policy_def Let_def filter_empty_conv)
qed

definition sample_spec_read :: capability_spec where
  "sample_spec_read = \<lparr>cs_id = ''tasks.list'', cs_version = ''1'', cs_name = ''List'', cs_description = [],
     cs_provider = ''tasks'', cs_scopes = {''workspace''}, cs_input = [], cs_output = [],
     cs_permissions = [''tasks:read''], cs_risk = Read_Only, cs_approval = False,
     cs_resource_scope = ''scope'', cs_reversible = False, cs_aliases = [], cs_emits = [], cs_tags = {}\<rparr>"

lemma policy_is_monotone_witness:
  "fst (evaluate_policy (sample_member\<lparr>permissions := {}\<rparr>) sample_spec_read)
     \<le> fst (evaluate_policy sample_member sample_spec_read)
   \<and> fst (evaluate_policy sample_member sample_spec_read) = Allow"
proof -
  have "fst (evaluate_policy (sample_member\<lparr>permissions := {}\<rparr>) sample_spec_read)
      \<le> fst (evaluate_policy sample_member sample_spec_read)"
    by (rule policy_is_monotone) simp_all
  moreover have "fst (evaluate_policy sample_member sample_spec_read) = Allow" by code_simp
  ultimately show ?thesis by blast
qed

lemma set_map_filter_iff: "y \<in> set (List.map_filter f xs) \<longleftrightarrow> (\<exists>x \<in> set xs. f x = Some y)"
  by (force simp: List.map_filter_def)

lemma search_rank_allowed:
  "search_rank reg ix c eff q sem cap = Some (r, s) \<Longrightarrow>
   s \<in> set reg \<and> allowed_spec eff s c \<and> (ix_retrieval ix q \<longrightarrow> cs_risk s = Read_Only)"
  by (auto simp: search_rank_def lookup_spec_def Let_def split: option.splits if_splits
      dest: find_SomeD)

text \<open>
  Whatever candidates the indexes propose, the search returns registered capabilities that
  the context may see, with every permission granted when only effective ones are asked for, and
  never more than the bounded limit of fifty.
\<close>

lemma search_returns_allowed_only:
  "set (search reg ix c eff limit q) \<subseteq> {s \<in> set reg. allowed_spec eff s c}
   \<and> int (length (search reg ix c eff limit q)) \<le> max 1 (min limit 50)"
proof -
  define n where "n = nat (max 1 (min limit 50))"
  have n: "1 \<le> n" "int n = max 1 (min limit 50)" by (auto simp: n_def)
  define ranked where "ranked = (let (cands, semantic) = search_candidates ix (py_lower (py_strip q)) n in
      take n (map snd (sort_key (\<lambda>(r, s). - r) (sort_key (\<lambda>(r, s). cs_id s)
        (List.map_filter (search_rank reg ix c eff (py_lower (py_strip q)) semantic) (remdups cands))))))"
  have r: "set ranked \<subseteq> {s \<in> set reg. allowed_spec eff s c}" "length ranked \<le> n"
    by (auto simp: ranked_def set_map_filter_iff split: prod.splits dest!: in_set_takeD search_rank_allowed)
  have "set (search reg ix c eff limit q) \<subseteq> {s \<in> set reg. allowed_spec eff s c}
      \<and> length (search reg ix c eff limit q) \<le> n"
  proof (cases "py_lower (py_strip q) = []")
    case True
    then show ?thesis
      by (auto simp: search_def Let_def n_def [symmetric] visible_def effective_def all_specs_def
          allowed_spec_def dest: in_set_takeD)
  next
    case False
    then have "search reg ix c eff limit q =
        (case lookup_spec reg (py_lower (py_strip q)) of
           Some s \<Rightarrow> if allowed_spec eff s c then [s] else ranked | None \<Rightarrow> ranked)"
      by (simp add: search_def Let_def n_def [symmetric] ranked_def split: option.splits)
    with r n(1) show ?thesis
      by (auto simp: lookup_spec_def split: option.splits if_splits dest: find_SomeD)
  qed
  with n show ?thesis by auto
qed

text \<open>
  The policy does not consult a delegation's allowlist: a context narrowed to one capability
  is still allowed another one that its permissions cover.
\<close>

lemma policy_ignores_delegation:
  "\<exists>c. delegates sample_member c \<and> \<not> delegation_allows c (cs_id sample_spec_read)
     \<and> fst (evaluate_policy c sample_spec_read) = Allow"
proof -
  have "case delegate_execution_context sample_member ''workflow'' ''wf1'' {''mail.send''} ''d1'' of
      Inl _ \<Rightarrow> False
    | Inr c \<Rightarrow> \<not> delegation_allows c (cs_id sample_spec_read)
        \<and> fst (evaluate_policy c sample_spec_read) = Allow"
    by code_simp
  then show ?thesis by (auto split: sum.splits intro: delegates.step)
qed

end
