(* ===== verification/Approvals.thy ===== *)
theory Approvals
  imports Kernel_Policy
begin

text \<open>
  packages/kernel/approvals.py over the table \<open>kernel_approvals\<close> (database/kernel\_models.py): a
  request for a human decision bound to one exact invocation, its decision, its claim immediately
  before execution and its consumption. A loaded row is its primary key; \<open>created_at\<close> orders rows.
\<close>

datatype approval_status = Pending | Approved | Denied | Executing | Consumed

fun approval_text :: "approval_status \<Rightarrow> string" where
  "approval_text Pending = ''pending''"
| "approval_text Approved = ''approved''"
| "approval_text Denied = ''denied''"
| "approval_text Executing = ''executing''"
| "approval_text Consumed = ''consumed''"

record approval =
  ap_id :: ident
  ap_scope :: scope_kind
  ap_workspace :: "ident option"
  ap_owner :: "ident option"
  ap_principal :: "string option"
  ap_user :: "ident option"
  ap_capability :: string
  ap_hash :: string
  ap_arguments :: json
  ap_request :: "string option"
  ap_conversation :: "ident option"
  ap_run :: "ident option"
  ap_status :: approval_status
  ap_decided_by :: "ident option"
  ap_decided_at :: "time option"
  ap_consumed_run :: "ident option"
  ap_consumed_at :: "time option"
  ap_created :: time

definition arguments_hash :: "host \<Rightarrow> string \<Rightarrow> (string \<times> json) list \<Rightarrow> string" where
  "arguments_hash H cap args =
     sha256_hex H (dumps_sorted H
       (JObj [(''capability_id'', JStr cap), (''arguments'', JObj args)]))"

definition approval_scope :: "exec_context \<Rightarrow> (approval \<Rightarrow> bool) result" where
  "approval_scope c = (case ctx_scope c of
       Personal \<Rightarrow>
         if \<not> present (user_id c) then Inl (ApprovalError ''Personal approval requires an owner'')
         else Inr (\<lambda>r. ap_scope r = Personal \<and> ap_owner r = user_id c \<and> ap_workspace r = None)
     | Workspace \<Rightarrow>
         if \<not> present (workspace_id c) then
           Inl (ApprovalError ''Workspace approval requires workspace authority'')
         else Inr (\<lambda>r. ap_scope r = Workspace \<and> ap_workspace r = workspace_id c))"

definition clean_text :: "string option \<Rightarrow> string option" where
  "clean_text s = (let t = py_strip (text_or_empty s) in if t = [] then None else Some t)"

definition newest :: "('r \<Rightarrow> time) \<Rightarrow> 'r list \<Rightarrow> 'r option" where
  "newest created rows = (case sort_key (\<lambda>r. - created r) rows of r # _ \<Rightarrow> Some r | [] \<Rightarrow> None)"

definition create_pending_approval ::
  "host \<Rightarrow> ident \<Rightarrow> time \<Rightarrow> exec_context \<Rightarrow> string \<Rightarrow> (string \<times> json) list \<Rightarrow> string option \<Rightarrow>
   ident option \<Rightarrow> ident \<Rightarrow> (approval list, approval) act" where
  "create_pending_approval H new_id now c cap args request conv run rows =
     (case approval_scope c of
        Inl e \<Rightarrow> (Inl e, rows)
      | Inr in_scope \<Rightarrow>
          (let digest = arguments_hash H cap args;
               req = clean_text request;
               existing = newest ap_created (filter (\<lambda>r. in_scope r \<and> ap_principal r = principal_id c
                   \<and> ap_capability r = cap \<and> ap_hash r = digest \<and> ap_status r = Pending
                   \<and> (req = None \<or> ap_request r = req)) rows)
           in case existing of
                Some r \<Rightarrow> (Inr r, rows)
              | None \<Rightarrow>
                  (let row = \<lparr>ap_id = new_id, ap_scope = ctx_scope c, ap_workspace = workspace_id c,
                       ap_owner = (if ctx_scope c = Personal then user_id c else None),
                       ap_principal = principal_id c, ap_user = user_id c, ap_capability = cap,
                       ap_hash = digest, ap_arguments = sort_keys (JObj args), ap_request = req,
                       ap_conversation = conv, ap_run = Some run, ap_status = Pending,
                       ap_decided_by = None, ap_decided_at = None, ap_consumed_run = None,
                       ap_consumed_at = None, ap_created = now\<rparr>
                   in (Inr row, rows @ [row]))))"

definition approval_for_context :: "approval list \<Rightarrow> exec_context \<Rightarrow> ident \<Rightarrow> approval result" where
  "approval_for_context rows c aid =
     bind_result (approval_scope c) (\<lambda>in_scope.
     case find (\<lambda>r. ap_id r = aid \<and> in_scope r) rows of
       Some r \<Rightarrow> Inr r
     | None \<Rightarrow> Inl (ApprovalError ''Approval is unavailable in this scope''))"

definition validate_binding ::
  "host \<Rightarrow> approval \<Rightarrow> exec_context \<Rightarrow> string \<Rightarrow> (string \<times> json) list \<Rightarrow> unit result" where
  "validate_binding H r c cap args =
     (if present (ap_principal r) \<and> ap_principal r \<noteq> principal_id c then
        Inl (ApprovalError ''Approval belongs to a different initiating principal'')
      else if ap_capability r \<noteq> cap then
        Inl (ApprovalError ''Approval is bound to a different capability'')
      else if ap_hash r \<noteq> arguments_hash H cap args then
        Inl (ApprovalError ''Approval arguments do not match the authorized invocation'')
      else Inr ())"

definition set_approval :: "ident \<Rightarrow> (approval \<Rightarrow> approval) \<Rightarrow> approval list \<Rightarrow> approval list" where
  "set_approval aid f rows = update_where (\<lambda>r. ap_id r = aid) f rows"

definition decide_approval ::
  "time \<Rightarrow> exec_context \<Rightarrow> ident \<Rightarrow> bool \<Rightarrow> ident \<Rightarrow> (approval list, approval) act" where
  "decide_approval now c aid approved decider rows =
     (case approval_for_context rows c aid of
        Inl e \<Rightarrow> (Inl e, rows)
      | Inr r \<Rightarrow>
          if ap_status r \<noteq> Pending then
            (Inl (ApprovalError (''Approval is already '' @ approval_text (ap_status r))), rows)
          else
            (let f = (\<lambda>x. x\<lparr>ap_status := (if approved then Approved else Denied),
                  ap_decided_by := Some decider, ap_decided_at := Some now\<rparr>)
             in (Inr (f r), set_approval aid f rows)))"

definition check_executable ::
  "host \<Rightarrow> approval \<Rightarrow> exec_context \<Rightarrow> string \<Rightarrow> (string \<times> json) list \<Rightarrow> unit result" where
  "check_executable H r c cap args =
     (if ap_status r \<noteq> Approved then
        Inl (ApprovalError (''Approval is not executable: '' @ approval_text (ap_status r)))
      else validate_binding H r c cap args)"

definition validate_approved_invocation ::
  "host \<Rightarrow> approval list \<Rightarrow> exec_context \<Rightarrow> ident \<Rightarrow> string \<Rightarrow> (string \<times> json) list \<Rightarrow> approval result" where
  "validate_approved_invocation H rows c aid cap args =
     bind_result (approval_for_context rows c aid) (\<lambda>r.
     bind_result (check_executable H r c cap args) (\<lambda>_. Inr r))"

definition claim_approved_invocation ::
  "host \<Rightarrow> exec_context \<Rightarrow> ident \<Rightarrow> string \<Rightarrow> string \<Rightarrow> (string \<times> json) list \<Rightarrow>
   (approval list, approval) act" where
  "claim_approved_invocation H c aid request cap args rows =
     (case bind_result (approval_for_context rows c aid) (\<lambda>r.
           bind_result (check_executable H r c cap args) (\<lambda>_.
           let original = py_strip (text_or_empty (ap_request r));
               current = py_strip request
           in if original = [] then
                Inl (ApprovalError ''Approval is missing its original stable request_id'')
              else if current = [] \<or> current \<noteq> original then
                Inl (ApprovalError ''Approval is bound to a different request_id'')
              else Inr r)) of
        Inl e \<Rightarrow> (Inl e, rows)
      | Inr r \<Rightarrow> (Inr (r\<lparr>ap_status := Executing\<rparr>), set_approval aid (\<lambda>x. x\<lparr>ap_status := Executing\<rparr>) rows))"

text \<open>The approval that is consumed is the row loaded earlier, in its present state.\<close>

definition consume_approval :: "time \<Rightarrow> ident option \<Rightarrow> ident \<Rightarrow> (approval list, unit) act" where
  "consume_approval now aid run rows = (case aid of
       None \<Rightarrow> (Inr (), rows)
     | Some i \<Rightarrow> (case find (\<lambda>r. ap_id r = i) rows of
           None \<Rightarrow> (Inl (ApprovalError ''Only an approved or executing invocation can be consumed''), rows)
         | Some r \<Rightarrow>
             if ap_status r \<noteq> Approved \<and> ap_status r \<noteq> Executing then
               (Inl (ApprovalError ''Only an approved or executing invocation can be consumed''), rows)
             else (Inr (), set_approval i (\<lambda>x. x\<lparr>ap_status := Consumed, ap_consumed_run := Some run,
                 ap_consumed_at := Some now\<rparr>) rows)))"

definition time_json :: "host \<Rightarrow> time option \<Rightarrow> json" where
  "time_json H t = (case t of None \<Rightarrow> JNull | Some u \<Rightarrow> JStr (iso_format H u))"

definition approval_json :: "host \<Rightarrow> approval \<Rightarrow> bool \<Rightarrow> (string \<times> json) list" where
  "approval_json H r include_arguments =
     [(''id'', JStr (ap_id r)), (''scope_kind'', JStr (scope_value (ap_scope r))),
      (''workspace_id'', opt_json (ap_workspace r)), (''owner_user_id'', opt_json (ap_owner r)),
      (''requested_by_principal_id'', opt_json (ap_principal r)),
      (''requested_by_user_id'', opt_json (ap_user r)), (''capability_id'', JStr (ap_capability r)),
      (''request_id'', opt_json (ap_request r)), (''conversation_id'', opt_json (ap_conversation r)),
      (''source_run_id'', opt_json (ap_run r)), (''status'', JStr (approval_text (ap_status r))),
      (''decided_by_user_id'', opt_json (ap_decided_by r)), (''decided_at'', time_json H (ap_decided_at r)),
      (''consumed_run_id'', opt_json (ap_consumed_run r)),
      (''consumed_at'', time_json H (ap_consumed_at r)), (''created_at'', JStr (iso_format H (ap_created r)))]
     @ (if include_arguments then [(''arguments'', ap_arguments r)] else [])"

subsection \<open>The life of an approval\<close>

text \<open>One operation on the table, whose primary keys are distinct; a new row's key is new.\<close>

definition approval_keys :: "approval list \<Rightarrow> bool" where
  "approval_keys rows = distinct (map ap_id rows)"

inductive approval_step :: "host \<Rightarrow> approval list \<Rightarrow> approval list \<Rightarrow> bool" for H where
  create: "approval_keys rows \<Longrightarrow> i \<notin> ap_id ` set rows \<Longrightarrow>
    approval_step H rows (snd (create_pending_approval H i now c cap args req conv run rows))"
| decide: "approval_keys rows \<Longrightarrow>
    approval_step H rows (snd (decide_approval now c aid ok decider rows))"
| claim: "approval_keys rows \<Longrightarrow>
    approval_step H rows (snd (claim_approved_invocation H c aid request cap args rows))"
| consume: "approval_keys rows \<Longrightarrow>
    approval_step H rows (snd (consume_approval now aid run rows))"

definition approval_status_of :: "approval list \<Rightarrow> ident \<Rightarrow> approval_status option" where
  "approval_status_of rows i = map_option ap_status (find (\<lambda>r. ap_id r = i) rows)"

fun approval_moves :: "approval_status \<Rightarrow> approval_status \<Rightarrow> bool" where
  "approval_moves Pending b = (b = Approved \<or> b = Denied)"
| "approval_moves Approved b = (b = Executing \<or> b = Consumed)"
| "approval_moves Executing b = (b = Consumed)"
| "approval_moves Denied b = False"
| "approval_moves Consumed b = False"

fun approval_rank :: "approval_status \<Rightarrow> nat" where
  "approval_rank Pending = 0"
| "approval_rank Approved = 1"
| "approval_rank Denied = 1"
| "approval_rank Executing = 2"
| "approval_rank Consumed = 3"

lemma status_set_approval:
  "(\<And>r. ap_id (f r) = ap_id r) \<Longrightarrow> approval_status_of (set_approval aid f rows) i =
   map_option (\<lambda>r. ap_status (if i = aid then f r else r)) (find (\<lambda>r. ap_id r = i) rows)"
  unfolding approval_status_of_def set_approval_def
  by (subst find_update_where) (auto simp: option.map_comp comp_def dest: find_SomeD intro!: map_option_cong)

lemma loaded_approval:
  assumes "approval_keys rows" "approval_for_context rows c aid = Inr r"
  shows "find (\<lambda>x. ap_id x = aid) rows = Some r" "ap_id r = aid"
proof -
  obtain P where "find (\<lambda>r. ap_id r = aid \<and> P r) rows = Some r"
    using assms(2) by (auto simp: approval_for_context_def bind_result_Inr_iff split: option.splits)
  from find_SomeD [OF this] have r: "r \<in> set rows" "ap_id r = aid" by auto
  with find_distinct_key [of ap_id rows r] assms(1)
  show "find (\<lambda>x. ap_id x = aid) rows = Some r" "ap_id r = aid"
    by (simp_all add: approval_keys_def)
qed

text \<open>An operation that moves one loaded row moves the status of that row only.\<close>

lemma set_loaded_moves:
  assumes "find (\<lambda>x. ap_id x = aid) rows = Some r" "\<And>x. ap_id (f x) = ap_id x"
    and "\<And>x. ap_status (f x) = b" "approval_moves (ap_status r) b"
    and "approval_status_of rows i = Some a"
  shows "\<exists>b'. approval_status_of (set_approval aid f rows) i = Some b' \<and> (b' = a \<or> approval_moves a b')"
  using assms(1,3-5) by (cases "i = aid") (auto simp: status_set_approval assms(2), auto simp: approval_status_of_def)

lemma approval_step_moves:
  assumes "approval_step H rows rows'" "approval_status_of rows i = Some a"
  shows "\<exists>b. approval_status_of rows' i = Some b \<and> (b = a \<or> approval_moves a b)"
  using assms(1)
proof cases
  case (create k now c cap args req conv run)
  have "rows' = rows \<or> (\<exists>r. ap_id r = k \<and> rows' = rows @ [r])"
    unfolding create by (auto simp: create_pending_approval_def Let_def split: sum.splits option.splits)
  then show ?thesis
    using assms(2) by (auto simp: approval_status_of_def find_append)
next
  case (decide now c aid ok decider)
  show ?thesis
  proof (cases "approval_for_context rows c aid")
    case (Inr r)
    from loaded_approval [OF decide(2) Inr] show ?thesis
      using assms(2) unfolding decide
      by (auto simp: decide_approval_def Inr Let_def intro: set_loaded_moves)
  qed (use assms(2) in \<open>auto simp: decide decide_approval_def\<close>)
next
  case (claim c aid request cap args)
  let ?f = "\<lambda>x. x\<lparr>ap_status := Executing\<rparr>"
  have "rows' = rows \<or> (\<exists>r. approval_for_context rows c aid = Inr r \<and> ap_status r = Approved
      \<and> rows' = set_approval aid ?f rows)"
    unfolding claim by (auto simp: claim_approved_invocation_def check_executable_def
        bind_result_Inr_iff Let_def split: sum.splits if_splits)
  then show ?thesis
    using assms(2) loaded_approval [OF claim(2)] by (auto intro: set_loaded_moves)
next
  case (consume now aid run)
  then show ?thesis
    using assms(2) by (auto simp: consume_approval_def split: option.splits intro: set_loaded_moves)
qed

lemma approval_moves_rank: "approval_moves a b \<Longrightarrow> approval_rank a < approval_rank b"
  by (cases a) auto

interpretation ap: ranked_lifecycle "approval_step H" approval_status_of approval_moves approval_rank
  by unfold_locales (auto intro: approval_step_moves approval_moves_rank)

text \<open>
  C10. An approval is used at most once. Whatever operations are made on the table by anybody, an
  approval that was denied or consumed stays so, and one that has left \<open>approved\<close> (because an
  execution claimed or consumed it) is never approved again.
\<close>

theorem approval_is_used_once:
  assumes "(approval_step H)\<^sup>*\<^sup>* rows rows'" "approval_status_of rows i = Some a"
  shows "(a = Denied \<or> a = Consumed \<longrightarrow> approval_status_of rows' i = Some a)
    \<and> (\<forall>b rows''. approval_status_of rows' i = Some b \<and> b \<noteq> a \<and> (approval_step H)\<^sup>*\<^sup>* rows' rows''
         \<longrightarrow> approval_status_of rows'' i \<noteq> Some a)"
  using ap.terminal_stays [OF assms] ap.never_returns [OF assms] by auto

text \<open>
  C11. Claiming an approval needs a human decision on this very invocation: the row was approved,
  belongs to the caller's scope and principal, names the capability, carries the hash of exactly
  these arguments and the request id it was asked for with; and it is executing afterwards.
\<close>

theorem claim_needs_exact_approval:
  assumes "claim_approved_invocation H c aid request cap args rows = (Inr r, rows')"
    and "approval_keys rows"
  shows "\<exists>x. find (\<lambda>r. ap_id r = aid) rows = Some x \<and> ap_status x = Approved
    \<and> ap_capability x = cap \<and> ap_hash x = arguments_hash H cap args
    \<and> (present (ap_principal x) \<longrightarrow> ap_principal x = principal_id c)
    \<and> (if ctx_scope c = Personal then ap_owner x = user_id c else ap_workspace x = workspace_id c)
    \<and> py_strip (text_or_empty (ap_request x)) = py_strip request \<and> py_strip request \<noteq> []
    \<and> approval_status_of rows' aid = Some Executing"
proof -
  obtain x where x: "approval_for_context rows c aid = Inr x" "check_executable H x c cap args = Inr ()"
      "py_strip (text_or_empty (ap_request x)) = py_strip request" "py_strip request \<noteq> []"
      "rows' = set_approval aid (\<lambda>x. x\<lparr>ap_status := Executing\<rparr>) rows"
    using assms(1) by (auto simp: claim_approved_invocation_def bind_result_Inr_iff Let_def
        split: sum.splits if_splits)
  note f = loaded_approval [OF assms(2) x(1)]
  have "if ctx_scope c = Personal then ap_owner x = user_id c else ap_workspace x = workspace_id c"
    using x(1) by (cases "ctx_scope c") (auto simp: approval_for_context_def approval_scope_def bind_result_Inr_iff
        split: if_splits option.splits dest: find_SomeD)
  with x f show ?thesis
    by (auto simp: check_executable_def validate_binding_def status_set_approval split: if_splits)
qed

definition sample_approval :: approval where
  "sample_approval = \<lparr>ap_id = ''a'', ap_scope = Workspace, ap_workspace = Some ''w'', ap_owner = None,
     ap_principal = Some ''user:u'', ap_user = Some ''u'', ap_capability = ''mail.send'',
     ap_hash = arguments_hash sample_host ''mail.send'' [], ap_arguments = JObj [], ap_request = Some ''r1'',
     ap_conversation = None, ap_run = Some ''run'', ap_status = Approved, ap_decided_by = Some ''o'',
     ap_decided_at = Some 1, ap_consumed_run = None, ap_consumed_at = None, ap_created = 0\<rparr>"

lemma sample_claim:
  "case claim_approved_invocation sample_host sample_member ''a'' '' r1'' ''mail.send'' [] [sample_approval] of
     (Inr r, rows) \<Rightarrow> rows = [sample_approval\<lparr>ap_status := Executing\<rparr>] | _ \<Rightarrow> False"
  "approval_keys [sample_approval]"
  by code_simp+

theorem claim_needs_exact_approval_witness:
  "\<exists>rows'. approval_status_of rows' ''a'' = Some Executing"
proof -
  obtain r rows' where c: "claim_approved_invocation sample_host sample_member ''a'' '' r1'' ''mail.send'' []
      [sample_approval] = (Inr r, rows')"
    using sample_claim(1) by (auto split: prod.splits sum.splits)
  from claim_needs_exact_approval [OF c sample_claim(2)] show ?thesis by blast
qed

theorem approval_is_used_once_witness:
  "\<exists>rows'. approval_step sample_host [sample_approval] rows' \<and> approval_status_of rows' ''a'' = Some Executing
     \<and> (\<forall>rows''. (approval_step sample_host)\<^sup>*\<^sup>* rows' rows'' \<longrightarrow> approval_status_of rows'' ''a'' \<noteq> Some Approved)"
proof -
  define rows' where "rows' = snd (claim_approved_invocation sample_host sample_member ''a'' '' r1'' ''mail.send'' []
      [sample_approval])"
  have r: "rows' = [sample_approval\<lparr>ap_status := Executing\<rparr>]"
    using sample_claim(1) by (auto simp: rows'_def split: prod.splits sum.splits)
  have s: "approval_step sample_host [sample_approval] rows'"
    unfolding rows'_def by (rule approval_step.claim) (rule sample_claim(2))
  have e: "approval_status_of rows' ''a'' = Some Executing"
    "approval_status_of [sample_approval] ''a'' = Some Approved"
    by (simp_all add: r approval_status_of_def sample_approval_def)
  have "(approval_step sample_host)\<^sup>*\<^sup>* [sample_approval] rows'" using s by simp
  from approval_is_used_once [OF this e(2)] e(1) s show ?thesis by auto
qed

end
