(* ===== verification/Idempotency.thy ===== *)
theory Idempotency
  imports Approvals
begin

text \<open>
  packages/kernel/idempotency.py and audit.py over their tables: the durable claim that is taken
  before a mutation reaches its provider, its replay, and the audit rows of a run. The tables of the
  kernel stand beside \<open>kt_data\<close>, which stands for every other table of the database and belongs to
  the providers. A stored response is the value its text denotes.

  Transactions of other processes are visible where they matter: \<open>arrive\<close> makes the claims they
  have committed in the meantime appear, and the flush of a claim fails when its unique key is
  among them.
\<close>

datatype claim_status = Claim_Running | Claim_Completed | Claim_Other string

record request_claim =
  cl_key :: string
  cl_request :: string
  cl_scope :: scope_kind
  cl_workspace :: "ident option"
  cl_owner :: "ident option"
  cl_principal :: "string option"
  cl_capability :: "string option"
  cl_hash :: string
  cl_status :: claim_status
  cl_run :: "ident option"
  cl_response :: json

record workspace_row =
  ws_id :: ident
  ws_name :: string
  ws_timezone :: string

record kernel_run =
  kr_id :: ident
  kr_scope :: scope_kind
  kr_workspace :: "ident option"
  kr_owner :: "ident option"
  kr_principal :: "string option"
  kr_channel :: string
  kr_surface :: surface
  kr_conversation :: "ident option"
  kr_goal :: string
  kr_capability :: "string option"
  kr_status :: string
  kr_result :: json
  kr_error :: "string option"
  kr_started :: time
  kr_finished :: time

record kernel_step =
  ks_run :: ident
  ks_number :: int
  ks_name :: string
  ks_status :: string
  ks_payload :: json

record kernel_event =
  ke_id :: ident
  ke_created :: time
  ke_type :: string
  ke_scope :: scope_kind
  ke_workspace :: "ident option"
  ke_owner :: "ident option"
  ke_principal :: "string option"
  ke_actor_type :: string
  ke_actor :: "string option"
  ke_initiator :: "string option"
  ke_executor :: string
  ke_capability :: "string option"
  ke_resource_type :: "string option"
  ke_resource :: "string option"
  ke_payload :: json

record 'd kernel_tables =
  kt_workspaces :: "workspace_row list"
  kt_claims :: "request_claim list"
  kt_approvals :: "approval list"
  kt_runs :: "kernel_run list"
  kt_steps :: "kernel_step list"
  kt_events :: "kernel_event list"
  kt_data :: 'd

type_synonym 'd ksession = "'d kernel_tables session"

subsection \<open>Keys and hashes\<close>

definition scope_identity :: "exec_context \<Rightarrow> string result" where
  "scope_identity c = (case ctx_scope c of
       Personal \<Rightarrow>
         if \<not> present (user_id c) then Inl (IdempotencyConflict ''Personal request is missing its owner'')
         else Inr (''personal:'' @ the (user_id c))
     | Workspace \<Rightarrow>
         if \<not> present (workspace_id c) then
           Inl (IdempotencyConflict ''Workspace request is missing its workspace'')
         else Inr (''workspace:'' @ the (workspace_id c)))"

definition ingress_namespace :: "host \<Rightarrow> exec_context \<Rightarrow> string result" where
  "ingress_namespace H c =
     (let md = metadata c in
      if py_lower (str_field H ''ingress'' md) \<noteq> ''operly_mcp'' then Inr []
      else
        (let client = str_field H ''mcp_client_id'' md;
             gr = str_field H ''mcp_grant_id'' md
         in if client = [] \<or> gr = [] then Inl (IdempotencyConflict
              ''MCP request is missing its authenticated client/grant identity'')
            else Inr ('':mcp:'' @ take 24 (sha256_hex H (client @ [char_of (0::nat)] @ gr)))))"

definition idempotency_key :: "host \<Rightarrow> exec_context \<Rightarrow> string \<Rightarrow> string result" where
  "idempotency_key H c request_id =
     (let princ = (if present (principal_id c) then the (principal_id c)
            else if present (user_id c) then the (user_id c) else ''anonymous'')
      in bind_result (scope_identity c) (\<lambda>sc.
         bind_result (ingress_namespace H c) (\<lambda>ns.
         Inr (sc @ '':'' @ princ @ ns @ '':'' @ request_id))))"

definition request_hash :: "host \<Rightarrow> runtime_request \<Rightarrow> string" where
  "request_hash H r =
     sha256_hex H (dumps_sorted H (JObj [(''goal'', JStr (rq_goal r)),
       (''capability_id'', opt_json (rq_capability r)), (''arguments'', JObj (rq_arguments r))]))"

subsection \<open>Stored responses\<close>

definition response_dict :: "runtime_response \<Rightarrow> json" where
  "response_dict r = JObj
     [(''run_id'', JStr (rr_run_id r)), (''status'', JStr (rr_status r)),
      (''capability_id'', opt_json (rr_capability r)),
      (''decision'', JStr (decision_value (rr_decision r))),
      (''result'', (case rr_result r of None \<Rightarrow> JNull | Some kvs \<Rightarrow> JObj kvs)),
      (''done'', JBool (rr_done r)), (''trace'', JArr (rr_trace r))]"

definition decision_of_text :: "string \<Rightarrow> decision result" where
  "decision_of_text t = (if t = ''allow'' then Inr Allow else if t = ''ask'' then Inr Ask
     else if t = ''deny'' then Inr Deny
     else Inl (ValueError ''not a valid AuthorizationDecision''))"

definition need_key :: "string \<Rightarrow> (string \<times> json) list \<Rightarrow> json result" where
  "need_key k kvs = (case obj_get k kvs of None \<Rightarrow> Inl (KeyError k) | Some v \<Rightarrow> Inr v)"

definition need_dict :: "json \<Rightarrow> (string \<times> json) list result" where
  "need_dict v = (case v of JObj kvs \<Rightarrow> Inr kvs | _ \<Rightarrow> Inl (TypeError ''object is not a mapping''))"

definition response_from_json :: "host \<Rightarrow> json \<Rightarrow> runtime_response result" where
  "response_from_json H v =
     bind_result (need_dict v) (\<lambda>p.
     bind_result (need_key ''run_id'' p) (\<lambda>run.
     bind_result (need_key ''status'' p) (\<lambda>st.
     bind_result (need_key ''decision'' p) (\<lambda>d.
     bind_result (decision_of_text (py_str H d)) (\<lambda>dec.
     bind_result (case get_or_null ''result'' p of JNull \<Rightarrow> Inr None
         | w \<Rightarrow> bind_result (need_dict w) (\<lambda>kvs. Inr (Some kvs))) (\<lambda>res.
     bind_result (case obj_get ''trace'' p of None \<Rightarrow> Inr []
         | Some (JArr xs) \<Rightarrow> sequence_result (\<lambda>x. bind_result (need_dict x) (\<lambda>kvs. Inr (JObj kvs))) xs
         | Some _ \<Rightarrow> Inl (TypeError ''object is not iterable'')) (\<lambda>tr.
     Inr \<lparr>rr_run_id = py_str H run, rr_status = py_str H st,
          rr_capability = (case get_or_null ''capability_id'' p of JStr s \<Rightarrow> Some s | _ \<Rightarrow> None),
          rr_decision = dec, rr_result = res, rr_done = truthy (get_or_null ''done'' p),
          rr_trace = tr\<rparr>)))))))"

definition validate_existing ::
  "host \<Rightarrow> request_claim \<Rightarrow> string \<Rightarrow> runtime_response option result" where
  "validate_existing H cl digest =
     (if cl_hash cl \<noteq> digest then Inl (IdempotencyConflict
        ''request_id was already used with a different goal, capability, or argument payload'')
      else case cl_status cl of
          Claim_Completed \<Rightarrow> bind_result (response_from_json H (cl_response cl)) (\<lambda>r. Inr (Some r))
        | Claim_Running \<Rightarrow> Inl (IdempotencyInProgress ''An identical request is already executing'')
        | Claim_Other _ \<Rightarrow> Inr None)"

definition find_claim :: "'d kernel_tables \<Rightarrow> string \<Rightarrow> request_claim option" where
  "find_claim t key = find (\<lambda>cl. cl_key cl = key) (kt_claims t)"

definition find_completed_request ::
  "host \<Rightarrow> 'd kernel_tables \<Rightarrow> exec_context \<Rightarrow> runtime_request \<Rightarrow> runtime_response option result" where
  "find_completed_request H t c r =
     (let request_id = py_strip (text_or_empty (rq_request_id r)) in
      if request_id = [] then Inr None
      else bind_result (idempotency_key H c request_id) (\<lambda>key.
        case find_claim t key of
          None \<Rightarrow> Inr None
        | Some cl \<Rightarrow> validate_existing H cl (request_hash H r)))"

subsection \<open>Reserving\<close>

datatype reservation = Reserved string | Replayed runtime_response

definition set_claim :: "string \<Rightarrow> (request_claim \<Rightarrow> request_claim) \<Rightarrow> 'd kernel_tables \<Rightarrow> 'd kernel_tables" where
  "set_claim key f t = t\<lparr>kt_claims := update_where (\<lambda>cl. cl_key cl = key) f (kt_claims t)\<rparr>"

definition add_missing :: "request_claim list \<Rightarrow> 'd kernel_tables \<Rightarrow> 'd kernel_tables" where
  "add_missing race t = t\<lparr>kt_claims :=
     kt_claims t @ filter (\<lambda>cl. cl_key cl \<notin> cl_key ` set (kt_claims t)) race\<rparr>"

definition arrive :: "request_claim list \<Rightarrow> 'd ksession \<Rightarrow> 'd ksession" where
  "arrive race s = s\<lparr>committed := add_missing race (committed s),
     working := add_missing race (working s)\<rparr>"

definition new_claim ::
  "host \<Rightarrow> exec_context \<Rightarrow> runtime_request \<Rightarrow> string \<Rightarrow> string \<Rightarrow> ident \<Rightarrow> request_claim" where
  "new_claim H c r key request_id run =
     \<lparr>cl_key = key, cl_request = request_id, cl_scope = ctx_scope c, cl_workspace = workspace_id c,
      cl_owner = (if ctx_scope c = Personal then user_id c else None), cl_principal = principal_id c,
      cl_capability = rq_capability r, cl_hash = request_hash H r, cl_status = Claim_Running,
      cl_run = Some run, cl_response = JObj []\<rparr>"

definition claim_request_approval ::
  "host \<Rightarrow> exec_context \<Rightarrow> runtime_request \<Rightarrow> string \<Rightarrow> ('d ksession, unit) act" where
  "claim_request_approval H c r request_id s =
     (if \<not> present (rq_approval_id r) then (Inr (), s)
      else case approval_for_context (kt_approvals (working s)) c (the (rq_approval_id r)) of
          Inl e \<Rightarrow> (Inl e, s)
        | Inr ap \<Rightarrow>
            (case claim_approved_invocation H c (the (rq_approval_id r)) request_id (ap_capability ap)
                (rq_arguments r) (kt_approvals (working s)) of
               (Inl e, _) \<Rightarrow> (Inl e, s)
             | (Inr _, rows) \<Rightarrow> (Inr (), on_working (\<lambda>t. t\<lparr>kt_approvals := rows\<rparr>) s)))"

definition insert_claim ::
  "host \<Rightarrow> exec_context \<Rightarrow> runtime_request \<Rightarrow> string \<Rightarrow> string \<Rightarrow> ident \<Rightarrow> request_claim list \<Rightarrow>
   ('d ksession, reservation) act" where
  "insert_claim H c r key request_id run race s =
     (let s1 = arrive race s in
      if key \<in> cl_key ` set (kt_claims (working s1)) then
        (let s2 = rollback s1 in
         case find_claim (working s2) key of
           None \<Rightarrow> (Inl (IdempotencyInProgress ''An identical request is being claimed''), s2)
         | Some cl \<Rightarrow>
             (case validate_existing H cl (request_hash H r) of
                Inl e \<Rightarrow> (Inl e, s2)
              | Inr (Some resp) \<Rightarrow> (Inr (Replayed resp), s2)
              | Inr None \<Rightarrow>
                  (Inl (IdempotencyInProgress ''An identical request is already executing''), s2)))
      else (Inr (Reserved key),
        commit (on_working (\<lambda>t. t\<lparr>kt_claims := kt_claims t @ [new_claim H c r key request_id run]\<rparr>) s1)))"

definition reserve_request ::
  "host \<Rightarrow> exec_context \<Rightarrow> runtime_request \<Rightarrow> ident \<Rightarrow> request_claim list \<Rightarrow>
   ('d ksession, reservation) act" where
  "reserve_request H c r run race s =
     (let request_id = py_strip (text_or_empty (rq_request_id r)) in
      if request_id = [] then
        (Inl (IdempotencyConflict ''Mutating capability execution requires a stable request_id''), s)
      else case idempotency_key H c request_id of
          Inl e \<Rightarrow> (Inl e, s)
        | Inr key \<Rightarrow>
            (case find_claim (working s) key of
               Some cl \<Rightarrow>
                 (case validate_existing H cl (request_hash H r) of
                    Inl e \<Rightarrow> (Inl e, s)
                  | Inr (Some resp) \<Rightarrow> (Inr (Replayed resp), s)
                  | Inr None \<Rightarrow> (Inr (Reserved key), commit (on_working (set_claim key
                      (\<lambda>cl. cl\<lparr>cl_status := Claim_Running, cl_run := Some run, cl_response := JObj []\<rparr>)) s)))
             | None \<Rightarrow> bind_act (claim_request_approval H c r request_id)
                 (\<lambda>_. insert_claim H c r key request_id run race) s))"

definition complete_request ::
  "string option \<Rightarrow> runtime_response \<Rightarrow> 'd kernel_tables \<Rightarrow> 'd kernel_tables" where
  "complete_request claim resp t = (case claim of
       None \<Rightarrow> t
     | Some key \<Rightarrow> set_claim key (\<lambda>cl. cl\<lparr>cl_status := Claim_Completed, cl_run := Some (rr_run_id resp),
         cl_capability := rr_capability resp, cl_response := sort_keys (response_dict resp)\<rparr>) t)"

subsection \<open>Audit\<close>

record audit_step =
  au_number :: int
  au_name :: string
  au_status :: string
  au_payload :: "(string \<times> json) list"

record audit_buffer =
  ab_run :: ident
  ab_started :: time
  ab_steps :: "audit_step list"
  ab_events :: "(string \<times> (string \<times> json) list) list"

definition new_audit :: "ident \<Rightarrow> time \<Rightarrow> audit_buffer" where
  "new_audit run now = \<lparr>ab_run = run, ab_started = now, ab_steps = [], ab_events = []\<rparr>"

definition audit_add :: "int \<Rightarrow> string \<Rightarrow> string \<Rightarrow> (string \<times> json) list \<Rightarrow> audit_buffer \<Rightarrow> audit_buffer" where
  "audit_add n name st payload a = a\<lparr>ab_steps := ab_steps a @
     [\<lparr>au_number = n, au_name = name, au_status = st, au_payload = payload\<rparr>]\<rparr>"

definition audit_emit :: "string \<Rightarrow> (string \<times> json) list \<Rightarrow> audit_buffer \<Rightarrow> audit_buffer" where
  "audit_emit kind payload a = a\<lparr>ab_events := ab_events a @ [(kind, payload)]\<rparr>"

definition public_trace :: "audit_buffer \<Rightarrow> json list" where
  "public_trace a = map (\<lambda>s. JObj [(''step'', JInt (au_number s)), (''name'', JStr (au_name s)),
     (''status'', JStr (au_status s))]) (ab_steps a)"

definition result_summary :: "(string \<times> json) list option \<Rightarrow> json" where
  "result_summary r = (case r of
       Some (kv # kvs) \<Rightarrow> JObj [(''result_keys'', JArr (map JStr (sort (map fst (kv # kvs)))))]
     | _ \<Rightarrow> JObj [])"

definition LINEAGE_KEYS :: "string list" where
  "LINEAGE_KEYS = [''workflow_trigger_event_id'', ''workflow_correlation_id'', ''workflow_causation_id'',
     ''workflow_depth'', ''workflow_id'', ''workflow_run_id'', ''workflow_step_key'',
     ''workflow_step_run_id'', ''workflow_step_attempt_id'', ''workflow_attempt'']"

definition workflow_lineage :: "exec_context \<Rightarrow> (string \<times> json) list" where
  "workflow_lineage c = map (\<lambda>k. (k, get_or_null k (metadata c)))
     (filter (\<lambda>k. get_or_null k (metadata c) \<noteq> JNull) LINEAGE_KEYS)"

definition obj_merge :: "(string \<times> json) list \<Rightarrow> (string \<times> json) list \<Rightarrow> (string \<times> json) list" where
  "obj_merge a b = fold (\<lambda>(k, v). obj_set k v) b a"

definition persist_audit ::
  "(nat \<Rightarrow> ident) \<Rightarrow> time \<Rightarrow> audit_buffer \<Rightarrow> exec_context \<Rightarrow> string \<Rightarrow> string option \<Rightarrow> string \<Rightarrow>
   (string \<times> json) list option \<Rightarrow> bool \<Rightarrow> string option \<Rightarrow> string option \<Rightarrow>
   'd kernel_tables \<Rightarrow> 'd kernel_tables" where
  "persist_audit ids now a c goal cap st res failed rtype rid t =
     (let owner = (if ctx_scope c = Personal then user_id c else None) in
      t\<lparr>kt_runs := kt_runs t @ [\<lparr>kr_id = ab_run a, kr_scope = ctx_scope c, kr_workspace = workspace_id c,
            kr_owner = owner, kr_principal = principal_id c, kr_channel = channel c,
            kr_surface = ctx_surface c, kr_conversation = conversation_id c,
            kr_goal = (if py_strip goal \<noteq> [] then ''provided'' else []), kr_capability = cap,
            kr_status = st, kr_result = result_summary res,
            kr_error = (if failed then Some ''runtime_error'' else None),
            kr_started = ab_started a, kr_finished = now\<rparr>],
        kt_steps := kt_steps t @ map (\<lambda>s. \<lparr>ks_run = ab_run a, ks_number = au_number s,
            ks_name = au_name s, ks_status = au_status s, ks_payload = JObj (au_payload s)\<rparr>) (ab_steps a),
        kt_events := kt_events t @ map (\<lambda>(n, kind, payload). \<lparr>ke_id = ids n, ke_created = now,
            ke_type = kind, ke_scope = ctx_scope c,
            ke_workspace = workspace_id c, ke_owner = owner, ke_principal = principal_id c,
            ke_actor_type = (if present (user_id c) then ''human'' else ''system''),
            ke_actor = (if present (user_id c) then user_id c else principal_id c),
            ke_initiator = principal_id c, ke_executor = ''operly:kernel'', ke_capability = cap,
            ke_resource_type = rtype, ke_resource = rid,
            ke_payload = JObj (obj_merge payload (workflow_lineage c))\<rparr>) (List.enumerate 0 (ab_events a))\<rparr>)"

end
