(* ===== verification/Kernel_Runtime.thy ===== *)
theory Kernel_Runtime
  imports Idempotency
begin

text \<open>
  packages/kernel/runtime.py: one governed execution of a capability. The body runs in the order of
  the code's stages and may raise anywhere; the handlers roll back, record the failure and raise a
  \<open>RuntimeExecutionError\<close>. Providers are a parameter: a provider sees the context, the capability,
  the arguments and the minimum context, and works on its own part of the database, where it may
  also commit. \<open>w_calls\<close> is a ghost: the calls made to providers, in order, with the idempotency
  key that was reserved for each.
\<close>

record call =
  ca_key :: "string option"
  ca_capability :: capability_spec
  ca_arguments :: "(string \<times> json) list"

record 'd world =
  w_session :: "'d ksession"
  w_calls :: "call list"

type_synonym 'd provider =
  "exec_context \<Rightarrow> capability_spec \<Rightarrow> (string \<times> json) list \<Rightarrow> (string \<times> json) list \<Rightarrow>
   ('d session, execution_result) act"

record 'd kernel_env =
  en_registry :: registry
  en_index :: search_index
  en_providers :: "string \<Rightarrow> 'd provider option"

text \<open>What one execution draws from outside: new ids, the time, claims committed meanwhile.\<close>

record fresh =
  fr_run :: ident
  fr_approval :: ident
  fr_now :: time
  fr_race :: "request_claim list"
  fr_event :: "nat \<Rightarrow> ident"

record 'd exec_state =
  xs_world :: "'d world"
  xs_audit :: audit_buffer
  xs_spec :: "capability_spec option"
  xs_args :: "(string \<times> json) list option"
  xs_request :: "runtime_request option"
  xs_approval :: "ident option"
  xs_claim :: "string option"
  xs_decision :: decision

subsection \<open>Stages\<close>

definition log_step :: "int \<Rightarrow> string \<Rightarrow> string \<Rightarrow> (string \<times> json) list \<Rightarrow> ('d exec_state, unit) act" where
  "log_step n name st payload = modify (\<lambda>s. s\<lparr>xs_audit := audit_add n name st payload (xs_audit s)\<rparr>)"

definition load_context :: "workspace_row list \<Rightarrow> exec_context \<Rightarrow> (string \<times> json) list result" where
  "load_context rows c =
     (let base = [(''scope_kind'', JStr (scope_value (ctx_scope c))), (''role'', JStr (role c)),
            (''channel'', JStr (channel c)), (''surface'', JStr (surface_value (ctx_surface c))),
            (''workspace_mode'', JStr (workspace_mode c))]
      in if present (workspace_id c) then
           (case find (\<lambda>w. ws_id w = the (workspace_id c)) rows of
              None \<Rightarrow> Inl (LookupError ''Workspace is unavailable'')
            | Some w \<Rightarrow> Inr (base @ [(''workspace'', JObj [(''id'', JStr (ws_id w)),
                (''name'', JStr (ws_name w)), (''timezone'', JStr (ws_timezone w))])]))
         else if present (user_id c) then
           Inr (base @ [(''personal'', JObj [(''user_id'', JStr (the (user_id c)))])])
         else Inr base)"

definition resolve_capability ::
  "'d kernel_env \<Rightarrow> exec_context \<Rightarrow> runtime_request \<Rightarrow> capability_spec result" where
  "resolve_capability E c r =
     (if present (rq_capability r) then get_spec (en_registry E) (the (rq_capability r))
      else case search (en_registry E) (en_index E) c False 2 (rq_goal r) of
          [] \<Rightarrow> Inl (CapabilityRegistryError ''No capability matches this goal'')
        | [s] \<Rightarrow> Inr s
        | _ \<Rightarrow> Inl (CapabilityRegistryError ''Goal is ambiguous; provide capability_id explicitly''))"

definition tables_of :: "'d exec_state \<Rightarrow> 'd kernel_tables" where
  "tables_of s = working (w_session (xs_world s))"

definition execution_request :: "runtime_request \<Rightarrow> capability_spec \<Rightarrow> runtime_request" where
  "execution_request r spec = r\<lparr>rq_capability := Some (cs_id spec)\<rparr>"

text \<open>Up to the policy's decision; nothing is written.\<close>

definition stage_plan ::
  "host \<Rightarrow> 'd kernel_env \<Rightarrow> exec_context \<Rightarrow> runtime_request \<Rightarrow>
   ('d exec_state, capability_spec \<times> (string \<times> json) list) act" where
  "stage_plan H E c r =
     (let goal = py_strip (rq_goal r) in
      bind_act (lift (if goal = [] \<and> \<not> present (rq_capability r) then
          Inl (ValueError ''A goal or capability_id is required'') else Inr ())) (\<lambda>_.
      bind_act (log_step 1 ''understand'' ''ok'' [(''has_goal'', JBool (goal \<noteq> []))]) (\<lambda>_.
      bind_act (lift (resolve_capability E c r)) (\<lambda>spec.
      bind_act (modify (\<lambda>s. s\<lparr>xs_spec := Some spec\<rparr>)) (\<lambda>_.
      bind_act (log_step 2 ''classify'' ''ok'' [(''capability_id'', JStr (cs_id spec)),
          (''risk'', JStr (risk_value (cs_risk spec)))]) (\<lambda>_.
      bind_act (lift (if scope_value (ctx_scope c) \<notin> cs_scopes spec then
          Inl (PermissionError ''Capability does not support this scope'') else Inr ())) (\<lambda>_.
      bind_act (log_step 3 ''resolve_scope'' ''ok'' [(''scope_kind'', JStr (scope_value (ctx_scope c))),
          (''scope_id'', opt_json (scope_id c))]) (\<lambda>_.
      let eff = sort (remdups (map cs_id (effective (en_registry E) c))) in
      bind_act (log_step 4 ''resolve_authorized_capabilities'' ''ok''
          [(''requested'', JStr (cs_id spec)), (''effective'', JBool (cs_id spec \<in> set eff)),
           (''effective_count'', JInt (int (length eff)))]) (\<lambda>_.
      bind_act (\<lambda>s. (load_context (kt_workspaces (tables_of s)) c, s)) (\<lambda>minimum.
      bind_act (log_step 5 ''load_minimum_context'' ''ok''
          [(''context_keys'', JArr (map JStr (sort (map fst minimum))))]) (\<lambda>_.
      bind_act (log_step 6 ''expose_allowed_tools'' ''ok'' [(''exposed_count'', JInt (int (length eff))),
          (''requested_exposed'', JBool (cs_id spec \<in> set eff))]) (\<lambda>_.
      bind_act (modify (\<lambda>s. s\<lparr>xs_args := Some (rq_arguments r)\<rparr>)) (\<lambda>_.
      bind_act (lift (validate_schema H (JObj (rq_arguments r)) (cs_input spec) ''$'')) (\<lambda>_.
      bind_act (modify (\<lambda>s. s\<lparr>xs_request := Some (execution_request r spec)\<rparr>)) (\<lambda>_.
      bind_act (log_step 7 ''reason_and_plan'' ''ok'' [(''capability_id'', JStr (cs_id spec)),
          (''planner'', JStr ''deterministic'')]) (\<lambda>_.
      bind_act (lift (if cs_risk spec \<noteq> Read_Only \<and> py_strip (text_or_empty (rq_request_id r)) = [] then
          Inl (ValueError ''Mutating capability execution requires a stable request_id'')
        else Inr ())) (\<lambda>_.
      let (dec, reason) = evaluate_policy c spec in
      bind_act (modify (\<lambda>s. s\<lparr>xs_decision := dec\<rparr>)) (\<lambda>_.
      if dec = Deny then
        bind_act (log_step 8 ''authorize'' ''deny'' [(''reason'', JStr reason)])
          (\<lambda>_. raise (PermissionError reason))
      else ret (spec, minimum)))))))))))))))))))"

definition stage_replay ::
  "host \<Rightarrow> exec_context \<Rightarrow> capability_spec \<Rightarrow> runtime_request \<Rightarrow>
   ('d exec_state, runtime_response option) act" where
  "stage_replay H c spec r s =
     (if cs_risk spec \<noteq> Read_Only then (find_completed_request H (tables_of s) c r, s) else (Inr None, s))"

definition stage_authorize ::
  "host \<Rightarrow> exec_context \<Rightarrow> capability_spec \<Rightarrow> runtime_request \<Rightarrow> ('d exec_state, unit) act" where
  "stage_authorize H c spec r =
     bind_act (\<lambda>s.
       if xs_decision s = Ask \<and> present (rq_approval_id r) then
         (case validate_approved_invocation H (kt_approvals (tables_of s)) c (the (rq_approval_id r))
             (cs_id spec) (rq_arguments r) of
            Inl e \<Rightarrow> (Inl e, s)
          | Inr ap \<Rightarrow> (Inr ''approved exact invocation'',
              s\<lparr>xs_approval := Some (ap_id ap), xs_decision := Allow\<rparr>))
       else (Inr (snd (evaluate_policy c spec)), s)) (\<lambda>reason.
     bind_act (\<lambda>s. log_step 8 ''authorize'' (decision_value (xs_decision s)) [(''reason'', JStr reason),
         (''approval_id'', if xs_approval s \<noteq> None then opt_json (rq_approval_id r) else JNull)] s) (\<lambda>_ s.
     if xs_decision s = Ask then
       (Inl (RuntimeExecutionError ''Approval is required before this capability can run''
          (ab_run (xs_audit s)) ''approval_required'' 409 None), s)
     else if xs_decision s \<noteq> Allow then (Inl (PermissionError reason), s)
     else (Inr (), s)))"

definition stage_reserve ::
  "host \<Rightarrow> fresh \<Rightarrow> exec_context \<Rightarrow> capability_spec \<Rightarrow> runtime_request \<Rightarrow>
   ('d exec_state, runtime_response option) act" where
  "stage_reserve H F c spec r s =
     (if cs_risk spec = Read_Only then (Inr None, s)
      else case reserve_request H c r (fr_run F) (fr_race F) (w_session (xs_world s)) of
          (res, sess) \<Rightarrow>
            (let s' = s\<lparr>xs_world := (xs_world s)\<lparr>w_session := sess\<rparr>\<rparr> in
             case res of
               Inl e \<Rightarrow> (Inl e, s')
             | Inr (Replayed resp) \<Rightarrow> (Inr (Some resp), s')
             | Inr (Reserved key) \<Rightarrow> (Inr None, s'\<lparr>xs_claim := Some key\<rparr>)))"

text \<open>The provider's part of a session.\<close>

definition data_session :: "'d ksession \<Rightarrow> 'd session" where
  "data_session s = \<lparr>committed = kt_data (committed s), working = kt_data (working s)\<rparr>"

definition put_data :: "'d session \<Rightarrow> 'd ksession \<Rightarrow> 'd ksession" where
  "put_data d s = \<lparr>committed = (committed s)\<lparr>kt_data := committed d\<rparr>,
     working = (working s)\<lparr>kt_data := working d\<rparr>\<rparr>"

definition find_provider :: "'d kernel_env \<Rightarrow> string \<Rightarrow> 'd provider result" where
  "find_provider E pid =
     (let key = py_lower (py_strip pid) in case en_providers E key of
        Some p \<Rightarrow> Inr p
      | None \<Rightarrow> Inl (LookupError (''Capability provider is unavailable: '' @ key)))"

definition stage_provider ::
  "'d kernel_env \<Rightarrow> exec_context \<Rightarrow> capability_spec \<Rightarrow> (string \<times> json) list \<Rightarrow> (string \<times> json) list \<Rightarrow>
   ('d exec_state, execution_result) act" where
  "stage_provider E c spec minimum args s =
     (case find_provider E (cs_provider spec) of
        Inl e \<Rightarrow> (Inl e, s)
      | Inr p \<Rightarrow>
          (let w = xs_world s;
               (res, d) = p c spec args minimum (data_session (w_session w));
               w' = w\<lparr>w_session := put_data d (w_session w),
                 w_calls := w_calls w @ [\<lparr>ca_key = xs_claim s, ca_capability = spec, ca_arguments = args\<rparr>]\<rparr>
           in (res, s\<lparr>xs_world := w'\<rparr>)))"

definition event_types :: "capability_spec \<Rightarrow> string list" where
  "event_types spec = (if cs_emits spec = [] then [''capability.executed''] else cs_emits spec)"

definition emit_all :: "capability_spec \<Rightarrow> execution_result \<Rightarrow> audit_buffer \<Rightarrow> audit_buffer" where
  "emit_all spec x a = fold (\<lambda>t b. audit_emit t (obj_merge
       [(''run_id'', JStr (ab_run a)), (''capability_id'', JStr (cs_id spec))] (xr_event x)) b)
     (event_types spec) a"

definition finish_tables ::
  "fresh \<Rightarrow> exec_context \<Rightarrow> capability_spec \<Rightarrow> runtime_request \<Rightarrow> execution_result \<Rightarrow>
   runtime_response \<Rightarrow> 'd exec_state \<Rightarrow> unit result \<times> 'd kernel_tables" where
  "finish_tables F c spec r x resp s =
     (let t = persist_audit (fr_event F) (fr_now F) (xs_audit s) c (py_strip (rq_goal r)) (Some (cs_id spec))
            ''completed'' (Some (xr_value x)) False (xr_resource_type x) (xr_resource_id x) (tables_of s);
          (res, rows) = consume_approval (fr_now F) (xs_approval s) (ab_run (xs_audit s)) (kt_approvals t)
      in case res of
           Inl e \<Rightarrow> (Inl e, t)
         | Inr _ \<Rightarrow> (Inr (), complete_request (xs_claim s) resp (t\<lparr>kt_approvals := rows\<rparr>)))"

definition put_tables :: "'d kernel_tables \<Rightarrow> 'd exec_state \<Rightarrow> 'd exec_state" where
  "put_tables t s = s\<lparr>xs_world := (xs_world s)\<lparr>w_session := on_working (\<lambda>_. t) (w_session (xs_world s))\<rparr>\<rparr>"

definition commit_world :: "'d exec_state \<Rightarrow> 'd exec_state" where
  "commit_world s = s\<lparr>xs_world := (xs_world s)\<lparr>w_session := commit (w_session (xs_world s))\<rparr>\<rparr>"

definition rollback_world :: "'d exec_state \<Rightarrow> 'd exec_state" where
  "rollback_world s = s\<lparr>xs_world := (xs_world s)\<lparr>w_session := rollback (w_session (xs_world s))\<rparr>\<rparr>"

text \<open>The response, its audit, the consumption of the approval and of the claim, and the commit.\<close>

definition stage_store ::
  "fresh \<Rightarrow> exec_context \<Rightarrow> capability_spec \<Rightarrow> runtime_request \<Rightarrow> execution_result \<Rightarrow>
   ('d exec_state, runtime_response) act" where
  "stage_store F c spec r x s =
     (let resp = \<lparr>rr_run_id = ab_run (xs_audit s), rr_status = ''completed'',
            rr_capability = Some (cs_id spec), rr_decision = xs_decision s,
            rr_result = Some (xr_value x), rr_done = True, rr_trace = public_trace (xs_audit s)\<rparr>;
          (res, t) = finish_tables F c spec r x resp s
      in case res of
           Inl e \<Rightarrow> (Inl e, put_tables t s)
         | Inr _ \<Rightarrow> (Inr resp, commit_world (put_tables t s)))"

definition stage_finish ::
  "host \<Rightarrow> fresh \<Rightarrow> exec_context \<Rightarrow> capability_spec \<Rightarrow> runtime_request \<Rightarrow> execution_result \<Rightarrow>
   ('d exec_state, runtime_response) act" where
  "stage_finish H F c spec r x =
     bind_act (log_step 9 ''execute'' ''ok'' [(''provider_id'', JStr (cs_provider spec))]) (\<lambda>_.
     bind_act (lift (validate_schema H (JObj (xr_value x)) (cs_output spec) ''$'')) (\<lambda>_.
     bind_act (log_step 10 ''validate_result'' ''ok'' [(''schema'', JStr ''valid'')]) (\<lambda>_.
     bind_act (\<lambda>s. log_step 11 ''record_and_trace'' ''ok''
         [(''run_id'', JStr (ab_run (xs_audit s)))] s) (\<lambda>_.
     bind_act (modify (\<lambda>s. s\<lparr>xs_audit := emit_all spec x (xs_audit s)\<rparr>)) (\<lambda>_.
     bind_act (log_step 12 ''emit_events'' ''ok'' [(''events'', strings_json (event_types spec))]) (\<lambda>_.
     bind_act (log_step 13 ''respond_or_continue'' ''done'' [(''done'', JBool True)]) (\<lambda>_. stage_store F c spec r x)))))))"

definition kernel_body ::
  "host \<Rightarrow> 'd kernel_env \<Rightarrow> fresh \<Rightarrow> exec_context \<Rightarrow> runtime_request \<Rightarrow>
   ('d exec_state, runtime_response) act" where
  "kernel_body H E F c r =
     bind_act (stage_plan H E c r) (\<lambda>(spec, minimum).
     let xr = execution_request r spec in
     bind_act (stage_replay H c spec xr) (\<lambda>replay. case replay of
       Some resp \<Rightarrow> ret resp
     | None \<Rightarrow>
         bind_act (stage_authorize H c spec xr) (\<lambda>_.
         bind_act (stage_reserve H F c spec xr) (\<lambda>replay. case replay of
           Some resp \<Rightarrow> ret resp
         | None \<Rightarrow>
             bind_act (stage_provider E c spec minimum (rq_arguments r)) (\<lambda>x.
             stage_finish H F c spec r x)))))"

subsection \<open>Handlers\<close>

definition persist_failure ::
  "fresh \<Rightarrow> exec_context \<Rightarrow> runtime_request \<Rightarrow> string \<Rightarrow> string \<Rightarrow> 'd exec_state \<Rightarrow> 'd exec_state" where
  "persist_failure F c r code message s =
     (let a = audit_emit ''runtime.failed'' [(''run_id'', JStr (ab_run (xs_audit s))),
            (''code'', JStr code), (''capability_id'', opt_json (map_option cs_id (xs_spec s)))] (xs_audit s);
          cap = (case xs_spec s of Some spec \<Rightarrow> Some (cs_id spec) | None \<Rightarrow> rq_capability r);
          t = persist_audit (fr_event F) (fr_now F) a c (rq_goal r) cap ''failed'' None (take 2000 message \<noteq> []) None None
            (tables_of s)
      in commit_world (put_tables t (s\<lparr>xs_audit := a\<rparr>)))"

definition last_step_name :: "audit_buffer \<Rightarrow> string option" where
  "last_step_name a = (if ab_steps a = [] then None else Some (au_name (last (ab_steps a))))"

definition log_blocked :: "string \<Rightarrow> (string \<times> json) list \<Rightarrow> 'd exec_state \<Rightarrow> 'd exec_state" where
  "log_blocked st payload s =
     s\<lparr>xs_audit := audit_add 13 ''respond_or_continue'' st payload (xs_audit s)\<rparr>"

definition handle_runtime_error ::
  "host \<Rightarrow> fresh \<Rightarrow> exec_context \<Rightarrow> runtime_request \<Rightarrow> string \<Rightarrow> ident \<Rightarrow> string \<Rightarrow> int \<Rightarrow>
   ident option \<Rightarrow> 'd exec_state \<Rightarrow> exn \<times> 'd exec_state" where
  "handle_runtime_error H F c r message run code status_code aid s0 =
     (let s = rollback_world s0;
          t = tables_of s;
          (res, rows) = (case (xs_spec s, xs_args s) of
              (Some spec, Some args) \<Rightarrow>
                if code = ''approval_required'' then
                  (case create_pending_approval H (fr_approval F) (fr_now F) c (cs_id spec) args
                      (case xs_request s of Some x \<Rightarrow> rq_request_id x | None \<Rightarrow> rq_request_id r)
                      (rq_conversation r) (ab_run (xs_audit s)) (kt_approvals t) of
                     (Inl e, rows) \<Rightarrow> (Inl e, rows)
                   | (Inr ap, rows) \<Rightarrow> (Inr (Some (ap_id ap)), rows))
                else (Inr aid, kt_approvals t)
            | _ \<Rightarrow> (Inr aid, kt_approvals t))
      in case res of
           Inl e \<Rightarrow> (e, s)
         | Inr aid' \<Rightarrow>
             (let s1 = put_tables (t\<lparr>kt_approvals := rows\<rparr>) s;
                  s2 = (if last_step_name (xs_audit s1) = Some ''respond_or_continue'' then s1
                    else log_blocked ''blocked'' [(''code'', JStr code), (''approval_id'', opt_json aid')] s1)
              in (RuntimeExecutionError message run code status_code aid', persist_failure F c r code message s2)))"

definition handle_with ::
  "fresh \<Rightarrow> exec_context \<Rightarrow> runtime_request \<Rightarrow> string \<Rightarrow> string \<Rightarrow> string \<Rightarrow> string \<Rightarrow> int \<Rightarrow>
   'd exec_state \<Rightarrow> exn \<times> 'd exec_state" where
  "handle_with F c r st code recorded message status_code s0 =
     (let s = rollback_world s0;
          s1 = (if st = ''denied'' \<and> last_step_name (xs_audit s) = Some ''respond_or_continue'' then s
            else log_blocked st [(''code'', JStr code)] s)
      in (RuntimeExecutionError message (ab_run (xs_audit s)) code status_code None,
          persist_failure F c r code recorded s1))"

text \<open>The except clauses, in their order; other exceptions pass through without a rollback.\<close>

definition handle_exn ::
  "host \<Rightarrow> fresh \<Rightarrow> exec_context \<Rightarrow> runtime_request \<Rightarrow> exn \<Rightarrow> 'd exec_state \<Rightarrow> exn \<times> 'd exec_state" where
  "handle_exn H F c r e s = (case e of
       RuntimeExecutionError m run code sc aid \<Rightarrow> handle_runtime_error H F c r m run code sc aid s
     | ApprovalError m \<Rightarrow> handle_with F c r ''blocked'' ''approval_invalid'' m m 409 s
     | IdempotencyConflict m \<Rightarrow> handle_with F c r ''blocked'' ''idempotency_conflict'' m m 409 s
     | IdempotencyInProgress m \<Rightarrow> handle_with F c r ''blocked'' ''request_in_progress'' m m 409 s
     | CapabilityRegistryError m \<Rightarrow> handle_with F c r ''failed'' ''invalid_request'' m m 422 s
     | _ \<Rightarrow>
         if is_value_error e then
           handle_with F c r ''failed'' ''invalid_request'' (exn_message e) (exn_message e) 422 s
         else if is_permission_error e then
           handle_with F c r ''denied'' ''forbidden'' (exn_message e) (exn_message e) 403 s
         else if is_lookup_error e \<or> is_runtime_error e then
           handle_with F c r ''failed'' ''runtime_unavailable'' (exn_message e)
             ''Runtime dependency is unavailable'' 503 s
         else (e, s))"

definition start_state :: "fresh \<Rightarrow> 'd world \<Rightarrow> 'd exec_state" where
  "start_state F w = \<lparr>xs_world = w, xs_audit = new_audit (fr_run F) (fr_now F), xs_spec = None,
     xs_args = None, xs_request = None, xs_approval = None, xs_claim = None, xs_decision = Deny\<rparr>"

definition kernel_execute ::
  "host \<Rightarrow> 'd kernel_env \<Rightarrow> fresh \<Rightarrow> exec_context \<Rightarrow> runtime_request \<Rightarrow> ('d world, runtime_response) act" where
  "kernel_execute H E F c r w =
     (case kernel_body H E F c r (start_state F w) of
        (Inr resp, s) \<Rightarrow> (Inr resp, xs_world s)
      | (Inl e, s) \<Rightarrow> (case handle_exn H F c r e s of (e', s') \<Rightarrow> (Inl e', xs_world s')))"

definition sample_spec_write :: capability_spec where
  "sample_spec_write = \<lparr>cs_id = ''tasks.add'', cs_version = ''1'', cs_name = ''Add'', cs_description = [],
     cs_provider = ''tasks'', cs_scopes = {''workspace''}, cs_input = [], cs_output = [],
     cs_permissions = [''tasks:read''], cs_risk = Low_Risk, cs_approval = False,
     cs_resource_scope = ''scope'', cs_reversible = False, cs_aliases = [], cs_emits = [], cs_tags = {}\<rparr>"

definition sample_index :: search_index where
  "sample_index = \<lparr>ix_candidates = (\<lambda>q n. []), ix_related = (\<lambda>c n. []), ix_semantic = (\<lambda>q n. []),
     ix_score = (\<lambda>q s. 0), ix_retrieval = (\<lambda>q. False)\<rparr>"

definition count_provider :: "nat provider" where
  "count_provider c spec args minimum d =
     (Inr \<lparr>xr_value = [(''n'', JInt 1)], xr_resource_type = None, xr_resource_id = None, xr_event = []\<rparr>,
      d\<lparr>working := Suc (working d)\<rparr>)"

definition sample_env :: "nat kernel_env" where
  "sample_env = \<lparr>en_registry = [sample_spec_read, sample_spec_write], en_index = sample_index,
     en_providers = (\<lambda>k. if k = ''tasks'' then Some count_provider else None)\<rparr>"

definition empty_tables :: "nat kernel_tables" where
  "empty_tables = \<lparr>kt_workspaces = [\<lparr>ws_id = ''w'', ws_name = ''W'', ws_timezone = ''UTC''\<rparr>],
     kt_claims = [], kt_approvals = [], kt_runs = [], kt_steps = [], kt_events = [], kt_data = 0\<rparr>"

definition sample_world :: "nat world" where
  "sample_world = \<lparr>w_session = \<lparr>committed = empty_tables, working = empty_tables\<rparr>, w_calls = []\<rparr>"

definition sample_fresh :: fresh where
  "sample_fresh = \<lparr>fr_run = ''run1'', fr_approval = ''ap1'', fr_now = 7, fr_race = [],
     fr_event = (\<lambda>n. [CHR ''e''])\<rparr>"

definition sample_request :: runtime_request where
  "sample_request = \<lparr>rq_goal = [], rq_capability = Some ''tasks.add'', rq_arguments = [],
     rq_conversation = None, rq_request_id = Some ''r1'', rq_approval_id = None\<rparr>"

subsection \<open>What each stage leaves alone\<close>

text \<open>The world, the claim and the approval in hand.\<close>

definition same_world :: "'d exec_state \<Rightarrow> 'd exec_state \<Rightarrow> bool" where
  "same_world s t = (xs_world t = xs_world s \<and> xs_claim t = xs_claim s)"

lemma same_world_refl [simp]: "same_world s s" "reflp same_world"
  by (auto simp: same_world_def reflp_def)

lemma same_world_trans: "transp same_world"
  by (auto simp: same_world_def transp_def)

lemma keeps_same_atoms [intro!]:
  "keeps same_world (ret x)" "keeps same_world (raise e)" "keeps same_world (lift r)"
  "keeps same_world (log_step n nm st p)"
  "keeps same_world (modify (\<lambda>s. s\<lparr>xs_spec := a\<rparr>))"
  "keeps same_world (modify (\<lambda>s. s\<lparr>xs_args := b\<rparr>))"
  "keeps same_world (modify (\<lambda>s. s\<lparr>xs_request := d\<rparr>))"
  "keeps same_world (modify (\<lambda>s. s\<lparr>xs_decision := g\<rparr>))"
  "keeps same_world (modify (\<lambda>s. s\<lparr>xs_audit := h (xs_audit s)\<rparr>))"
  "keeps same_world (\<lambda>s. (f s, s))"
  by (simp_all add: keeps_def same_world_def log_step_def)

lemmas keeps_same_bind [intro!] = keeps_bind [OF _ _ same_world_trans]

lemma keeps_same_case: "(\<And>a b. keeps same_world (f a b)) \<Longrightarrow> keeps same_world (case p of (a, b) \<Rightarrow> f a b)"
  by (cases p) simp

lemma keeps_same_if: "keeps same_world f \<Longrightarrow> keeps same_world g \<Longrightarrow> keeps same_world (if b then f else g)"
  by simp

lemma stage_plan_keeps: "keeps same_world (stage_plan H E c r)"
  unfolding stage_plan_def Let_def
  by (intro keeps_same_bind keeps_same_atoms keeps_same_case keeps_same_if)

lemma keeps_sameD: "keeps same_world m \<Longrightarrow> m s = (r, t) \<Longrightarrow> xs_world t = xs_world s \<and> xs_claim t = xs_claim s"
  unfolding keeps_def same_world_def by (metis snd_conv)

lemma stage_replay_keeps: "keeps same_world (stage_replay H c spec r)"
  by (auto simp: keeps_def stage_replay_def same_world_def)

lemma stage_authorize_keeps: "keeps same_world (stage_authorize H c spec r)"
  unfolding stage_authorize_def
proof (intro keeps_same_bind)
  show "keeps same_world (\<lambda>s.
       if xs_decision s = Ask \<and> present (rq_approval_id r) then
         (case validate_approved_invocation H (kt_approvals (tables_of s)) c (the (rq_approval_id r))
             (cs_id spec) (rq_arguments r) of
            Inl e \<Rightarrow> (Inl e, s)
          | Inr ap \<Rightarrow> (Inr ''approved exact invocation'',
              s\<lparr>xs_approval := Some (ap_id ap), xs_decision := Allow\<rparr>))
       else (Inr (snd (evaluate_policy c spec)), s))"
    by (auto simp: keeps_def same_world_def split: sum.splits)
qed (auto simp: keeps_def same_world_def log_step_def)

lemma stage_finish_calls: "w_calls (xs_world (snd (stage_finish H F c spec r x s))) = w_calls (xs_world s)"
  by (auto simp: stage_finish_def stage_store_def bind_act_def log_step_def Let_def put_tables_def commit_world_def
      split: prod.splits sum.splits)

subsection \<open>At most once\<close>

definition call_keys :: "call list \<Rightarrow> string list" where
  "call_keys cs = List.map_filter ca_key cs"

definition written :: "request_claim \<Rightarrow> bool" where
  "written cl = (cl_status cl = Claim_Running \<or> cl_status cl = Claim_Completed)"

text \<open>A key is taken when a claim holds it and every claim that holds it is running or completed.\<close>

definition taken :: "'d kernel_tables \<Rightarrow> string \<Rightarrow> bool" where
  "taken t k = ((\<exists>cl \<in> set (kt_claims t). cl_key cl = k)
     \<and> (\<forall>cl \<in> set (kt_claims t). cl_key cl = k \<longrightarrow> written cl))"

definition all_taken :: "'d ksession \<Rightarrow> string set \<Rightarrow> bool" where
  "all_taken s ks = (\<forall>k \<in> ks. taken (committed s) k \<and> taken (working s) k)"

lemma taken_claims: "kt_claims t' = kt_claims t \<Longrightarrow> taken t' k = taken t k"
  by (simp add: taken_def)

lemma taken_add_missing: "taken t k \<Longrightarrow> taken (add_missing race t) k"
  by (auto simp: taken_def add_missing_def)

lemma taken_set_claim:
  "taken t k \<Longrightarrow> (\<And>cl. cl_key (f cl) = cl_key cl) \<Longrightarrow> (\<And>cl. written (f cl)) \<Longrightarrow> taken (set_claim key f t) k"
  unfolding taken_def set_claim_def
  by (simp add: row_simps) metis

lemma all_taken_simps:
  "all_taken (commit s) ks = (\<forall>k \<in> ks. taken (working s) k)"
  "all_taken (rollback s) ks = (\<forall>k \<in> ks. taken (committed s) k)"
  by (auto simp: all_taken_def session_simps)

lemma all_taken_on_working:
  "all_taken s ks \<Longrightarrow> (\<And>t k. k \<in> ks \<Longrightarrow> taken t k \<Longrightarrow> taken (f t) k) \<Longrightarrow> all_taken (on_working f s) ks"
  by (auto simp: all_taken_def session_simps)

lemma all_taken_arrive: "all_taken s ks \<Longrightarrow> all_taken (arrive race s) ks"
  by (auto simp: all_taken_def arrive_def taken_add_missing)

lemma claim_request_approval_taken:
  "all_taken s ks \<Longrightarrow> claim_request_approval H c r rid s = (res, s') \<Longrightarrow> all_taken s' ks"
proof -
  assume ks: "all_taken s ks" and c: "claim_request_approval H c r rid s = (res, s')"
  from c have "s' = s \<or> (\<exists>rows. s' = on_working (\<lambda>t. t\<lparr>kt_approvals := rows\<rparr>) s)"
    by (auto simp: claim_request_approval_def split: if_splits sum.splits prod.splits)
  with ks show ?thesis by (auto intro!: all_taken_on_working simp: taken_def)
qed

lemma written_new [simp]: "written (new_claim H c r key rid run)"
  by (simp add: written_def new_claim_def)

lemma insert_claim_taken:
  assumes "all_taken s ks" "insert_claim H c r key rid run race s = (res, s')"
  shows "all_taken s' ks \<and> (\<forall>k. res = Inr (Reserved k) \<longrightarrow>
    k = key \<and> key \<notin> ks \<and> all_taken s' {key})"
proof -
  have a: "all_taken (arrive race s) ks" using assms(1) by (rule all_taken_arrive)
  show ?thesis
  proof (cases "key \<in> cl_key ` set (kt_claims (working (arrive race s)))")
    case True
    with assms(2) have "s' = rollback (arrive race s) \<and> (\<forall>k. res \<noteq> Inr (Reserved k))"
      by (auto simp: insert_claim_def Let_def split: option.splits sum.splits)
    with a show ?thesis by (auto simp: all_taken_simps) (auto simp: all_taken_def)
  next
    case False
    then have "s' = commit (on_working (\<lambda>t. t\<lparr>kt_claims := kt_claims t @ [new_claim H c r key rid run]\<rparr>) (arrive race s))"
      and res: "res = Inr (Reserved key)"
      using assms(2) by (auto simp: insert_claim_def Let_def)
    moreover have "key \<notin> ks"
      using a False unfolding all_taken_def taken_def by force
    ultimately show ?thesis
      using a False by (auto simp: all_taken_simps session_simps taken_def all_taken_def image_iff new_claim_def written_def)
  qed
qed

lemma validate_existing_other:
  "validate_existing H cl d = Inr None \<Longrightarrow> \<not> written cl"
  by (auto simp: validate_existing_def written_def bind_result_Inr_iff split: if_splits claim_status.splits)

lemma reserve_request_taken:
  assumes "all_taken s ks" "reserve_request H c r run race s = (res, s')"
  shows "all_taken s' ks \<and> (\<forall>k. res = Inr (Reserved k) \<longrightarrow> k \<notin> ks \<and> all_taken s' {k}
    \<and> idempotency_key H c (py_strip (text_or_empty (rq_request_id r))) = Inr k)"
proof (cases "py_strip (text_or_empty (rq_request_id r)) = []")
  case True
  with assms show ?thesis by (auto simp: reserve_request_def)
next
  case rid: False
  show ?thesis
  proof (cases "idempotency_key H c (py_strip (text_or_empty (rq_request_id r)))")
    case (Inl e)
    with assms rid show ?thesis by (auto simp: reserve_request_def)
  next
    case key: (Inr key)
    show ?thesis
    proof (cases "find_claim (working s) key")
      case None
      with assms(2) rid key have "bind_act (claim_request_approval H c r (py_strip (text_or_empty (rq_request_id r))))
          (\<lambda>_. insert_claim H c r key (py_strip (text_or_empty (rq_request_id r))) run race) s = (res, s')"
        by (simp add: reserve_request_def Let_def)
      moreover obtain res1 s1 where c1: "claim_request_approval H c r
          (py_strip (text_or_empty (rq_request_id r))) s = (res1, s1)" by fastforce
      moreover note t1 = claim_request_approval_taken [OF assms(1) c1]
      ultimately have c2: "(case res1 of Inl e \<Rightarrow> (Inl e, s1) | Inr _ \<Rightarrow> insert_claim H c r key
          (py_strip (text_or_empty (rq_request_id r))) run race s1) = (res, s')"
        by (simp add: bind_act_def)
      show ?thesis
      proof (cases res1)
        case (Inl e)
        with c2 t1 show ?thesis by auto
      next
        case (Inr u)
        with c2 have "insert_claim H c r key (py_strip (text_or_empty (rq_request_id r))) run race s1 = (res, s')"
          by simp
        from insert_claim_taken [OF t1 this] key show ?thesis by auto
      qed
    next
      case (Some cl)
      then have cl: "cl \<in> set (kt_claims (working s))" "cl_key cl = key"
        by (auto simp: find_claim_def dest: find_SomeD)
      show ?thesis
      proof (cases "validate_existing H cl (request_hash H r) = Inr None")
        case True
        then have "\<not> written cl" by (rule validate_existing_other)
        with cl assms(1) have nk: "key \<notin> ks" by (auto simp: all_taken_def taken_def)
        let ?f = "\<lambda>cl. cl\<lparr>cl_status := Claim_Running, cl_run := Some run, cl_response := JObj []\<rparr>"
        have "res = Inr (Reserved key) \<and> s' = commit (on_working (set_claim key ?f) s)"
          using True assms(2) rid key Some by (auto simp: reserve_request_def)
        moreover have "taken (set_claim key ?f (working s)) key"
          using cl by (auto simp: taken_def set_claim_def row_simps written_def)
        moreover have "\<forall>k \<in> ks. taken (set_claim key ?f (working s)) k"
          using assms(1) by (auto simp: all_taken_def written_def intro!: taken_set_claim)
        ultimately show ?thesis using nk key by (auto simp: all_taken_simps session_simps)
      next
        case False
        with assms(2) rid key Some have "s' = s \<and> (\<forall>k. res \<noteq> Inr (Reserved k))"
          by (auto simp: reserve_request_def split: sum.splits option.splits)
        with assms(1) show ?thesis by simp
      qed
    qed
  qed
qed

text \<open>
  The invariant of a world: the keys of the calls made so far are distinct and taken, in what is
  committed and in what the session sees, and no mutation was called without a key.
\<close>

definition once_ok :: "'d world \<Rightarrow> bool" where
  "once_ok w = (distinct (call_keys (w_calls w)) \<and> all_taken (w_session w) (set (call_keys (w_calls w)))
     \<and> (\<forall>x \<in> set (w_calls w). cs_risk (ca_capability x) \<noteq> Read_Only \<longrightarrow> ca_key x \<noteq> None))"

lemma once_ok_session:
  "once_ok w \<Longrightarrow> w_calls w' = w_calls w \<Longrightarrow>
   all_taken (w_session w') (set (call_keys (w_calls w))) \<Longrightarrow> once_ok w'"
  by (simp add: once_ok_def)

lemma stage_reserve_once:
  assumes "once_ok (xs_world s)" "xs_claim s = None" "stage_reserve H F c spec r s = (res, s')"
  shows "once_ok (xs_world s') \<and> w_calls (xs_world s') = w_calls (xs_world s)
    \<and> (res = Inr None \<longrightarrow> (case xs_claim s' of
          None \<Rightarrow> cs_risk spec = Read_Only
        | Some k \<Rightarrow> k \<notin> set (call_keys (w_calls (xs_world s'))) \<and> all_taken (w_session (xs_world s')) {k}))"
proof (cases "cs_risk spec = Read_Only")
  case True
  with assms show ?thesis by (auto simp: stage_reserve_def)
next
  case False
  obtain rr sess where rr: "reserve_request H c r (fr_run F) (fr_race F) (w_session (xs_world s)) = (rr, sess)"
    by fastforce
  have ok: "all_taken (w_session (xs_world s)) (set (call_keys (w_calls (xs_world s))))"
    using assms(1) by (simp add: once_ok_def)
  note t = reserve_request_taken [OF ok rr]
  from False rr assms(3) have "xs_world s' = (xs_world s)\<lparr>w_session := sess\<rparr>"
    and "res = Inr None \<Longrightarrow> \<exists>k. rr = Inr (Reserved k) \<and> xs_claim s' = Some k"
    by (auto simp: stage_reserve_def Let_def split: sum.splits reservation.splits)
  with t assms(1) show ?thesis by (auto simp: once_ok_def)
qed

lemma data_claims [simp]:
  "kt_claims (committed (put_data d s)) = kt_claims (committed s)"
  "kt_claims (working (put_data d s)) = kt_claims (working s)"
  by (simp_all add: put_data_def)

lemma all_taken_cong:
  "kt_claims (committed s') = kt_claims (committed s) \<Longrightarrow> kt_claims (working s') = kt_claims (working s) \<Longrightarrow>
   all_taken s' ks = all_taken s ks"
  by (simp add: all_taken_def taken_def)

lemma call_keys_snoc [simp]:
  "call_keys (cs @ [x]) = call_keys cs @ (case ca_key x of None \<Rightarrow> [] | Some k \<Rightarrow> [k])"
  by (auto simp: call_keys_def List.map_filter_def split: option.splits)

lemma stage_provider_once:
  assumes "once_ok (xs_world s)" "stage_provider E c spec m args s = (res, s')"
    and "case xs_claim s of None \<Rightarrow> cs_risk spec = Read_Only
      | Some k \<Rightarrow> k \<notin> set (call_keys (w_calls (xs_world s))) \<and> all_taken (w_session (xs_world s)) {k}"
  shows "once_ok (xs_world s')"
proof -
  have "xs_world s' = xs_world s \<or> (\<exists>d. xs_world s' = (xs_world s)\<lparr>w_session := put_data d (w_session (xs_world s)),
      w_calls := w_calls (xs_world s) @ [\<lparr>ca_key = xs_claim s, ca_capability = spec, ca_arguments = args\<rparr>]\<rparr>)"
    using assms(2) by (auto simp: stage_provider_def Let_def split: sum.splits prod.splits)
  then show ?thesis
  proof
    assume "\<exists>d. xs_world s' = (xs_world s)\<lparr>w_session := put_data d (w_session (xs_world s)),
      w_calls := w_calls (xs_world s) @ [\<lparr>ca_key = xs_claim s, ca_capability = spec, ca_arguments = args\<rparr>]\<rparr>"
    then obtain d where w: "xs_world s' = (xs_world s)\<lparr>w_session := put_data d (w_session (xs_world s)),
      w_calls := w_calls (xs_world s) @ [\<lparr>ca_key = xs_claim s, ca_capability = spec, ca_arguments = args\<rparr>]\<rparr>" ..
    have "all_taken (put_data d (w_session (xs_world s))) ks = all_taken (w_session (xs_world s)) ks" for ks
      by (rule all_taken_cong) simp_all
    with assms(1,3) show ?thesis
      by (cases "xs_claim s") (auto simp: once_ok_def w all_taken_def)
  qed (use assms(1) in simp)
qed

text \<open>Writes that keep every taken key taken.\<close>

definition keeps_taken :: "('d kernel_tables \<Rightarrow> 'd kernel_tables) \<Rightarrow> bool" where
  "keeps_taken f = (\<forall>t k. taken t k \<longrightarrow> taken (f t) k)"

lemma persist_audit_claims [simp]: "kt_claims (persist_audit ids n a c g cap st res e rt ri t) = kt_claims t"
  by (simp add: persist_audit_def Let_def)

lemma complete_request_taken: "taken t k \<Longrightarrow> taken (complete_request cl resp t) k"
  by (auto simp: complete_request_def written_def intro!: taken_set_claim split: option.splits)

lemma finish_tables_taken:
  assumes "taken (tables_of s) k"
  shows "taken (snd (finish_tables F c spec r x resp s)) k"
proof -
  define t where "t = persist_audit (fr_event F) (fr_now F) (xs_audit s) c (py_strip (rq_goal r)) (Some (cs_id spec))
            ''completed'' (Some (xr_value x)) False (xr_resource_type x) (xr_resource_id x) (tables_of s)"
  obtain res rows where r: "consume_approval (fr_now F) (xs_approval s) (ab_run (xs_audit s)) (kt_approvals t) = (res, rows)"
    by fastforce
  have t: "taken t k" using assms by (simp add: t_def taken_def)
  then have "taken (t\<lparr>kt_approvals := rows\<rparr>) k" by (simp add: taken_def)
  with t show ?thesis
    unfolding finish_tables_def Let_def t_def [symmetric] r prod.case
    by (auto split: sum.split intro: complete_request_taken)
qed

lemma put_tables_once:
  "once_ok (xs_world s) \<Longrightarrow> (\<And>k. taken (tables_of s) k \<Longrightarrow> taken t k) \<Longrightarrow> once_ok (xs_world (put_tables t s))"
  by (auto simp: once_ok_def put_tables_def tables_of_def all_taken_def session_simps)

lemma commit_once: "once_ok (xs_world s) \<Longrightarrow> once_ok (xs_world (commit_world s))"
  by (auto simp: once_ok_def commit_world_def all_taken_def session_simps)

lemma rollback_once: "once_ok (xs_world s) \<Longrightarrow> once_ok (xs_world (rollback_world s))"
  by (auto simp: once_ok_def rollback_world_def all_taken_def session_simps)

text \<open>A fact about the world that every outcome of an action keeps.\<close>

definition invar :: "('d world \<Rightarrow> bool) \<Rightarrow> ('d exec_state, 'a) act \<Rightarrow> bool" where
  "invar P m = (\<forall>s. P (xs_world s) \<longrightarrow> P (xs_world (snd (m s))))"

lemma invar_bind: "invar P m \<Longrightarrow> (\<And>x. invar P (f x)) \<Longrightarrow> invar P (bind_act m f)"
  unfolding invar_def bind_act_def by (auto split: prod.splits sum.splits)

lemma invar_same: "keeps same_world m \<Longrightarrow> invar P m"
  by (simp add: invar_def keeps_def same_world_def)

lemma stage_finish_once: "invar once_ok (stage_finish H F c spec r x)"
proof -
  have last: "invar once_ok (stage_store F c spec r x)"
    unfolding invar_def stage_store_def Let_def
    by (auto simp: split_beta intro!: commit_once put_tables_once finish_tables_taken split: sum.split)
  show ?thesis
    unfolding stage_finish_def
    by (intro invar_bind last; rule invar_same; (rule keeps_same_atoms | simp add: keeps_def same_world_def log_step_def))
qed

lemma kernel_body_once:
  assumes "once_ok (xs_world s)" "xs_claim s = None"
  shows "once_ok (xs_world (snd (kernel_body H E F c r s)))"
proof -
  obtain r1 s1 where p1: "stage_plan H E c r s = (r1, s1)" by fastforce
  note k1 = keeps_sameD [OF stage_plan_keeps p1]
  show ?thesis
  proof (cases r1)
    case (Inl e)
    with p1 assms k1 show ?thesis by (simp add: kernel_body_def)
  next
    case (Inr sm)
    then obtain spec m where r1: "r1 = Inr (spec, m)" by (cases sm) auto
    let ?xr = "execution_request r spec"
    obtain r2 s2 where p2: "stage_replay H c spec ?xr s1 = (r2, s2)" by fastforce
    note k2 = keeps_sameD [OF stage_replay_keeps p2]
    obtain r3 s3 where p3: "stage_authorize H c spec ?xr s2 = (r3, s3)" by fastforce
    note k3 = keeps_sameD [OF stage_authorize_keeps p3]
    obtain r4 s4 where p4: "stage_reserve H F c spec ?xr s3 = (r4, s4)" by fastforce
    have ok3: "once_ok (xs_world s3)" "xs_claim s3 = None" using assms k1 k2 k3 by auto
    note t4 = stage_reserve_once [OF ok3 p4]
    obtain r5 s5 where p5: "stage_provider E c spec m (rq_arguments r) s4 = (r5, s5)" by fastforce
    have body: "kernel_body H E F c r s = (case r2 of Inl e \<Rightarrow> (Inl e, s2) | Inr (Some resp) \<Rightarrow> (Inr resp, s2)
        | Inr None \<Rightarrow> (case r3 of Inl e \<Rightarrow> (Inl e, s3) | Inr _ \<Rightarrow>
            (case r4 of Inl e \<Rightarrow> (Inl e, s4) | Inr (Some resp) \<Rightarrow> (Inr resp, s4)
            | Inr None \<Rightarrow> (case r5 of Inl e \<Rightarrow> (Inl e, s5) | Inr x \<Rightarrow> stage_finish H F c spec r x s5))))"
      by (simp add: kernel_body_def Let_def bind_act_def p1 r1 p2 p3 p4 p5 split: sum.split option.split)
    have w2: "once_ok (xs_world s1)" "once_ok (xs_world s2)" using assms(1) k1 k2 by auto
    have w5: "r4 = Inr None \<Longrightarrow> once_ok (xs_world s5)"
      using stage_provider_once [OF _ p5] t4 by blast
    have "r4 = Inr None \<Longrightarrow> once_ok (xs_world (snd (stage_finish H F c spec r x s5)))" for x
      using stage_finish_once w5 unfolding invar_def by blast
    with w2 ok3 t4 w5 show ?thesis
      unfolding body by (auto split: sum.split option.split)
  qed
qed

lemma persist_failure_once:
  "once_ok (xs_world s) \<Longrightarrow> once_ok (xs_world (persist_failure F c r code msg s))"
  unfolding persist_failure_def Let_def
  by (intro commit_once put_tables_once) (auto simp: taken_def tables_of_def)

lemma log_blocked_world [simp]: "xs_world (log_blocked st p s) = xs_world s"
  by (simp add: log_blocked_def)

lemma handle_with_once:
  "once_ok (xs_world s) \<Longrightarrow> once_ok (xs_world (snd (handle_with F c r st code rec msg sc s)))"
  unfolding handle_with_def Let_def
  by (simp add: persist_failure_once rollback_once)

lemma handle_runtime_error_once:
  assumes "once_ok (xs_world s)"
  shows "once_ok (xs_world (snd (handle_runtime_error H F c r m run code sc aid s)))"
proof -
  have "once_ok (xs_world (rollback_world s))" using assms by (rule rollback_once)
  then have "once_ok (xs_world (put_tables (tables_of (rollback_world s)\<lparr>kt_approvals := rows\<rparr>) (rollback_world s)))" for rows
    by (rule put_tables_once) (simp add: taken_def)
  with \<open>once_ok (xs_world (rollback_world s))\<close> show ?thesis
    unfolding handle_runtime_error_def Let_def
    by (auto simp: split_beta intro!: persist_failure_once split: sum.split)
qed

lemma handle_exn_once:
  "once_ok (xs_world s) \<Longrightarrow> once_ok (xs_world (snd (handle_exn H F c r e s)))"
  by (cases e) (simp_all add: handle_exn_def handle_with_once handle_runtime_error_once)

lemma kernel_execute_once: "once_ok w \<Longrightarrow> once_ok (snd (kernel_execute H E F c r w))"
  using kernel_body_once [of "start_state F w" H E F c r]
  by (auto simp: kernel_execute_def start_state_def split: prod.splits sum.splits)
    (metis handle_exn_once snd_conv)+

subsection \<open>What success and a provider call presuppose\<close>

lemma bind_known [simp]:
  "bind_act (log_step n nm st p) f s = f () (s\<lparr>xs_audit := audit_add n nm st p (xs_audit s)\<rparr>)"
  "bind_act (modify g) f s = f () (g s)"
  "bind_act (lift (Inr x)) f s = f x s"
  "bind_act (lift (Inl e)) f s = (Inl e, s)"
  by (simp_all add: bind_act_def log_step_def)

lemma bind_lift_Inr: "bind_act (lift r) f s = (Inr y, t) \<longleftrightarrow> (\<exists>x. r = Inr x \<and> f x s = (Inr y, t))"
  by (cases r) auto

lemma bind_read_Inr: "bind_act (\<lambda>s. (g s, s)) f s = (Inr y, t) \<longleftrightarrow> (\<exists>x. g s = Inr x \<and> f x s = (Inr y, t))"
  by (cases "g s") (auto simp: bind_act_def)

lemma stage_plan_Inr:
  assumes "stage_plan H E c r s = (Inr (spec, m), s1)"
  shows "resolve_capability E c r = Inr spec"
    and "validate_schema H (JObj (rq_arguments r)) (cs_input spec) ''$'' = Inr ()"
    and "fst (evaluate_policy c spec) \<noteq> Deny" and "xs_decision s1 = fst (evaluate_policy c spec)"
proof -
  have "resolve_capability E c r = Inr spec
    \<and> validate_schema H (JObj (rq_arguments r)) (cs_input spec) ''$'' = Inr ()
    \<and> fst (evaluate_policy c spec) \<noteq> Deny \<and> xs_decision s1 = fst (evaluate_policy c spec)"
    using assms unfolding stage_plan_def Let_def
    by (auto simp: bind_lift_Inr bind_read_Inr case_prod_beta split: if_splits)
  then show "resolve_capability E c r = Inr spec"
    "validate_schema H (JObj (rq_arguments r)) (cs_input spec) ''$'' = Inr ()"
    "fst (evaluate_policy c spec) \<noteq> Deny" "xs_decision s1 = fst (evaluate_policy c spec)"
    by auto
qed

lemma stage_authorize_Inr:
  assumes "stage_authorize H c spec r s = (Inr u, s')"
  shows "xs_decision s = Allow \<or> (xs_decision s = Ask \<and> present (rq_approval_id r)
    \<and> (\<exists>ap. validate_approved_invocation H (kt_approvals (tables_of s)) c (the (rq_approval_id r))
          (cs_id spec) (rq_arguments r) = Inr ap))"
  using assms unfolding stage_authorize_def
  by (auto simp: bind_act_Inr_iff log_step_def split: if_splits sum.splits)

lemma kernel_body_stages:
  assumes "stage_plan H E c r s = (Inr (spec, m), s1)"
    and "stage_replay H c spec (execution_request r spec) s1 = (r2, s2)"
    and "stage_authorize H c spec (execution_request r spec) s2 = (r3, s3)"
    and "stage_reserve H F c spec (execution_request r spec) s3 = (r4, s4)"
    and "stage_provider E c spec m (rq_arguments r) s4 = (r5, s5)"
  shows "kernel_body H E F c r s = (case r2 of Inl e \<Rightarrow> (Inl e, s2) | Inr (Some resp) \<Rightarrow> (Inr resp, s2)
        | Inr None \<Rightarrow> (case r3 of Inl e \<Rightarrow> (Inl e, s3) | Inr _ \<Rightarrow>
            (case r4 of Inl e \<Rightarrow> (Inl e, s4) | Inr (Some resp) \<Rightarrow> (Inr resp, s4)
            | Inr None \<Rightarrow> (case r5 of Inl e \<Rightarrow> (Inl e, s5) | Inr x \<Rightarrow> stage_finish H F c spec r x s5))))"
  by (simp add: kernel_body_def Let_def bind_act_def assms split: sum.split option.split)

lemma validate_schema_conforms: "validate_schema H v schema path = Inr () \<Longrightarrow> conforms H v schema"
  by (simp add: validate_schema_verdict)

lemma stage_reserve_calls:
  "stage_reserve H F c spec r s = (res, s') \<Longrightarrow> w_calls (xs_world s') = w_calls (xs_world s)"
  by (auto simp: stage_reserve_def Let_def split: if_splits prod.splits sum.splits reservation.splits)

lemma reserve_request_key:
  assumes "reserve_request H c r run race s = (Inr (Reserved k), s')"
  shows "idempotency_key H c (py_strip (text_or_empty (rq_request_id r))) = Inr k"
  using reserve_request_taken [of s "{}", OF _ assms] by (auto simp: all_taken_def)

lemma stage_reserve_key:
  "stage_reserve H F c spec r s = (Inr None, s') \<Longrightarrow> cs_risk spec \<noteq> Read_Only \<Longrightarrow>
   \<exists>k. xs_claim s' = Some k \<and> idempotency_key H c (py_strip (text_or_empty (rq_request_id r))) = Inr k"
  by (auto simp: stage_reserve_def Let_def dest: reserve_request_key
      split: prod.splits sum.splits reservation.splits)

lemma stage_provider_calls:
  "stage_provider E c spec m args s = (res, s') \<Longrightarrow>
   w_calls (xs_world s') = w_calls (xs_world s) \<or> w_calls (xs_world s') = w_calls (xs_world s) @
     [\<lparr>ca_key = xs_claim s, ca_capability = spec, ca_arguments = args\<rparr>]"
  by (auto simp: stage_provider_def Let_def split: sum.splits prod.splits)

lemma persist_failure_calls [simp]:
  "w_calls (xs_world (persist_failure F c r code msg s)) = w_calls (xs_world s)"
  by (simp add: persist_failure_def Let_def commit_world_def put_tables_def)

lemma rollback_calls [simp]: "w_calls (xs_world (rollback_world s)) = w_calls (xs_world s)"
  by (simp add: rollback_world_def)

lemma put_tables_calls [simp]: "w_calls (xs_world (put_tables t s)) = w_calls (xs_world s)"
  by (simp add: put_tables_def)

lemma handle_exn_calls: "w_calls (xs_world (snd (handle_exn H F c r e s))) = w_calls (xs_world s)"
  by (cases e) (auto simp: handle_exn_def handle_with_def handle_runtime_error_def Let_def split_beta
      split: sum.split)

text \<open>
  C12. No answer without present authority: whatever the kernel returns, freshly executed or
  replayed, the caller's present context may see the capability and holds all its permissions, and
  the arguments conform to its contract.
\<close>

theorem kernel_success_is_authorised:
  assumes "kernel_execute H E F c r w = (Inr resp, w')"
  shows "\<exists>spec. resolve_capability E c r = Inr spec \<and> surface_allowed spec c
    \<and> (\<forall>p \<in> set (cs_permissions spec). can c p) \<and> conforms H (JObj (rq_arguments r)) (cs_input spec)"
proof -
  obtain s where b: "kernel_body H E F c r (start_state F w) = (Inr resp, s)"
    using assms by (auto simp: kernel_execute_def split: prod.splits sum.splits)
  then obtain spec m s1 where "stage_plan H E c r (start_state F w) = (Inr (spec, m), s1)"
    by (auto simp: kernel_body_def bind_act_Inr_iff)
  note p = stage_plan_Inr [OF this]
  from validate_schema_conforms [OF p(2)] p(1,3) show ?thesis
    using policy_deny_iff [of c spec] by (auto simp: permitted_def list_all_iff)
qed

lemma provider_call_governed:
  assumes "kernel_execute H E F c r w = (res, w')" "once_ok w"
  shows "w_calls w' = w_calls w \<or> (\<exists>x spec. w_calls w' = w_calls w @ [x]
    \<and> resolve_capability E c r = Inr spec \<and> ca_capability x = spec \<and> ca_arguments x = rq_arguments r
    \<and> fst (evaluate_policy c spec) \<noteq> Deny \<and> conforms H (JObj (rq_arguments r)) (cs_input spec)
    \<and> (fst (evaluate_policy c spec) = Ask \<longrightarrow>
        (\<exists>ap. validate_approved_invocation H (kt_approvals (working (w_session w))) c
           (the (rq_approval_id r)) (cs_id spec) (rq_arguments r) = Inr ap))
    \<and> (cs_risk spec \<noteq> Read_Only \<longrightarrow> (\<exists>k. ca_key x = Some k
        \<and> idempotency_key H c (py_strip (text_or_empty (rq_request_id r))) = Inr k
        \<and> taken (committed (w_session w')) k)))"
proof -
  let ?s = "start_state F w"
  obtain rb sb where b: "kernel_body H E F c r ?s = (rb, sb)" by fastforce
  have calls: "w_calls w' = w_calls (xs_world sb)" and ok': "once_ok w'"
    using assms kernel_execute_once [OF assms(2), of H E F c r] handle_exn_calls [of H F c r _ sb]
    by (cases rb; auto simp: kernel_execute_def b split: prod.splits; metis snd_conv)+
  obtain r1 s1 where p1: "stage_plan H E c r ?s = (r1, s1)" by fastforce
  note k1 = keeps_sameD [OF stage_plan_keeps p1]
  show ?thesis
  proof (cases r1)
    case (Inl e)
    with p1 b calls k1 show ?thesis by (simp add: kernel_body_def start_state_def)
  next
    case (Inr sm)
    then obtain spec m where r1: "r1 = Inr (spec, m)" by (cases sm) auto
    note plan = stage_plan_Inr [OF p1 [unfolded r1]]
    let ?xr = "execution_request r spec"
    obtain r2 s2 where p2: "stage_replay H c spec ?xr s1 = (r2, s2)" by fastforce
    note k2 = keeps_sameD [OF stage_replay_keeps p2]
    obtain r3 s3 where p3: "stage_authorize H c spec ?xr s2 = (r3, s3)" by fastforce
    note k3 = keeps_sameD [OF stage_authorize_keeps p3]
    obtain r4 s4 where p4: "stage_reserve H F c spec ?xr s3 = (r4, s4)" by fastforce
    have w3: "xs_world s3 = w" "xs_claim s3 = None" using k1 k2 k3 by (auto simp: start_state_def)
    obtain r5 s5 where p5: "stage_provider E c spec m (rq_arguments r) s4 = (r5, s5)" by fastforce
    note body = kernel_body_stages [OF p1 [unfolded r1] p2 p3 p4 p5]
    note r4c = stage_reserve_calls [OF p4]
    note r5c = stage_provider_calls [OF p5]
    show ?thesis
    proof (cases "r2 = Inr None \<and> (\<exists>u. r3 = Inr u) \<and> r4 = Inr None \<and> w_calls (xs_world s5) \<noteq> w_calls (xs_world s4)")
      case False
      then have "w_calls (xs_world sb) = w_calls w"
        using b body k1 k2 k3 r4c r5c w3 stage_finish_calls [of H F c spec r _ s5]
        by (auto simp: start_state_def split: sum.splits option.splits) (metis snd_conv)+
      with calls show ?thesis by simp
    next
      case True
      then have "w_calls (xs_world sb) = w_calls (xs_world s5)"
        using b body stage_finish_calls [of H F c spec r _ s5]
        by (auto split: sum.splits) (metis snd_conv)
      then have x: "w_calls w' = w_calls w @ [\<lparr>ca_key = xs_claim s4, ca_capability = spec, ca_arguments = rq_arguments r\<rparr>]"
        using True r4c r5c w3 calls by auto
      have dec: "xs_decision s2 = fst (evaluate_policy c spec)"
        using plan(4) p2 by (auto simp: stage_replay_def split: if_splits)
      have ask: "fst (evaluate_policy c spec) = Ask \<Longrightarrow>
        \<exists>ap. validate_approved_invocation H (kt_approvals (working (w_session w))) c
           (the (rq_approval_id r)) (cs_id spec) (rq_arguments r) = Inr ap"
        using stage_authorize_Inr [of H c spec ?xr s2] p3 True dec k1 k2
        by (auto simp: tables_of_def execution_request_def start_state_def)
      have key: "cs_risk spec \<noteq> Read_Only \<Longrightarrow> \<exists>k. xs_claim s4 = Some k
          \<and> idempotency_key H c (py_strip (text_or_empty (rq_request_id r))) = Inr k"
        using stage_reserve_key [of H F c spec ?xr s3 s4] p4 True by (auto simp: execution_request_def)
      have "taken (committed (w_session w')) k" if "xs_claim s4 = Some k" for k
        using ok' that unfolding once_ok_def x by (auto simp: all_taken_def)
      with x plan ask key validate_schema_conforms [OF plan(2)] show ?thesis
        by auto
    qed
  qed
qed

text \<open>
  C13. A provider is called at most once per execution, and only after the policy has let the
  invocation through, its arguments conform, an approval for exactly this invocation was found if
  the policy asks for one, and, for a mutation, the key of this very request is durably taken.
\<close>

theorem provider_call_is_governed:
  assumes "kernel_execute H E F c r w = (res, w')" "once_ok w"
  shows "w_calls w' = w_calls w \<or> (\<exists>x spec. w_calls w' = w_calls w @ [x]
    \<and> resolve_capability E c r = Inr spec \<and> ca_capability x = spec \<and> ca_arguments x = rq_arguments r
    \<and> fst (evaluate_policy c spec) \<noteq> Deny \<and> conforms H (JObj (rq_arguments r)) (cs_input spec)
    \<and> (fst (evaluate_policy c spec) = Ask \<longrightarrow>
        (\<exists>ap. validate_approved_invocation H (kt_approvals (working (w_session w))) c
           (the (rq_approval_id r)) (cs_id spec) (rq_arguments r) = Inr ap))
    \<and> (cs_risk spec \<noteq> Read_Only \<longrightarrow> (\<exists>k. ca_key x = Some k
        \<and> idempotency_key H c (py_strip (text_or_empty (rq_request_id r))) = Inr k
        \<and> taken (committed (w_session w')) k)))"
  by (rule provider_call_governed [OF assms])

subsection \<open>Sequences of executions\<close>

text \<open>
  What can happen to the database between and around executions by this process: an execution with
  any providers, context and request; the loss of everything uncommitted; claims committed by other
  processes; and any change elsewhere that leaves the claims alone. A process that dies inside a
  provider is an execution whose provider raises an exception that no handler catches, followed by
  the loss of what it had not committed.
\<close>

inductive kernel_step :: "host \<Rightarrow> 'd world \<Rightarrow> 'd world \<Rightarrow> bool" for H where
  execute: "kernel_step H w (snd (kernel_execute H E F c r w))"
| crash: "kernel_step H w (w\<lparr>w_session := rollback (w_session w)\<rparr>)"
| others: "kernel_step H w (w\<lparr>w_session := arrive race (w_session w)\<rparr>)"
| elsewhere: "w_calls w' = w_calls w \<Longrightarrow>
    kt_claims (committed (w_session w')) = kt_claims (committed (w_session w)) \<Longrightarrow>
    kt_claims (working (w_session w')) = kt_claims (working (w_session w)) \<Longrightarrow> kernel_step H w w'"

inductive_cases kernel_stepE [elim]: "kernel_step H w w'"

lemma kernel_step_once: "kernel_step H w w' \<Longrightarrow> once_ok w \<Longrightarrow> once_ok w'"
proof (induction rule: kernel_step.induct)
  case (execute w E F c r)
  then show ?case by (rule kernel_execute_once)
next
  case (elsewhere w' w)
  then show ?case
    using all_taken_cong [of "w_session w'" "w_session w"] by (simp add: once_ok_def)
qed (auto simp: once_ok_def all_taken_simps all_taken_arrive, auto simp: all_taken_def)

lemma kernel_steps_once: "(kernel_step H)\<^sup>*\<^sup>* w w' \<Longrightarrow> once_ok w \<Longrightarrow> once_ok w'"
  by (induction rule: rtranclp_induct) (auto intro: kernel_step_once)

text \<open>
  C14. A mutation reaches a provider at most once per idempotency key. Whatever executions are made,
  in whatever order and with whatever providers, through crashes, lost transactions and claims of
  other processes: no key is used for two provider calls, and no mutation is called without one.
\<close>

theorem mutations_run_at_most_once:
  assumes "(kernel_step H)\<^sup>*\<^sup>* w w'" and "w_calls w = []"
  shows "distinct (call_keys (w_calls w'))
    \<and> (\<forall>x \<in> set (w_calls w'). cs_risk (ca_capability x) \<noteq> Read_Only \<longrightarrow> ca_key x \<noteq> None)"
proof -
  have "once_ok w" using assms(2) by (simp add: once_ok_def call_keys_def List.map_filter_def all_taken_def)
  from kernel_steps_once [OF assms(1) this] show ?thesis by (simp add: once_ok_def)
qed

lemma stage_finish_succeeds:
  assumes "validate_schema H (JObj (xr_value x)) (cs_output spec) ''$'' = Inr ()" "xs_approval s = None"
  shows "\<exists>resp t. stage_finish H F c spec r x s = (Inr resp, t)"
  using assms
  by (simp add: stage_finish_def stage_store_def Let_def finish_tables_def consume_approval_def log_step_def
      bind_act_def)

text \<open>The stages of an execution up to its provider's result.\<close>

definition until_provider ::
  "host \<Rightarrow> 'd kernel_env \<Rightarrow> fresh \<Rightarrow> exec_context \<Rightarrow> runtime_request \<Rightarrow>
   ('d exec_state, capability_spec \<times> execution_result) act" where
  "until_provider H E F c r = bind_act (stage_plan H E c r) (\<lambda>(spec, m).
      let xr = execution_request r spec in
      bind_act (stage_replay H c spec xr) (\<lambda>replay.
      bind_act (stage_authorize H c spec xr) (\<lambda>_.
      bind_act (stage_reserve H F c spec xr) (\<lambda>replay'.
      if replay = None \<and> replay' = None then
        bind_act (stage_provider E c spec m (rq_arguments r)) (\<lambda>x. ret (spec, x))
      else raise (OtherError [])))))"

lemma until_provider_execute:
  assumes "until_provider H E F c r (start_state F w) = (Inr (spec, x), s)"
  shows "kernel_body H E F c r (start_state F w) = stage_finish H F c spec r x s"
    and "w_calls (snd (kernel_execute H E F c r w)) = w_calls (xs_world s)"
proof -
  obtain m s1 where p1: "stage_plan H E c r (start_state F w) = (Inr (spec, m), s1)"
    using assms by (auto simp: until_provider_def bind_act_Inr_iff Let_def split: if_splits)
  let ?xr = "execution_request r spec"
  obtain s2 u s3 s4 where p: "stage_replay H c spec ?xr s1 = (Inr None, s2)"
    "stage_authorize H c spec ?xr s2 = (Inr u, s3)" "stage_reserve H F c spec ?xr s3 = (Inr None, s4)"
    "stage_provider E c spec m (rq_arguments r) s4 = (Inr x, s)"
    using assms p1 by (auto simp: until_provider_def bind_act_Inr_iff Let_def split: if_splits)
  show b: "kernel_body H E F c r (start_state F w) = stage_finish H F c spec r x s"
    using kernel_body_stages [OF p1 p] by simp
  obtain rb sb where f: "stage_finish H F c spec r x s = (rb, sb)" by fastforce
  have "w_calls (xs_world sb) = w_calls (xs_world s)"
    using stage_finish_calls [of H F c spec r x s] by (simp add: f)
  then show "w_calls (snd (kernel_execute H E F c r w)) = w_calls (xs_world s)"
    using handle_exn_calls [of H F c r _ sb]
    by (cases rb) (auto simp: kernel_execute_def b f split: prod.splits, metis snd_conv)
qed

lemma sample_until_provider:
  "case until_provider sample_host sample_env sample_fresh sample_member sample_request
      (start_state sample_fresh sample_world) of
    (Inr (spec, x), s) \<Rightarrow> length (w_calls (xs_world s)) = 1 \<and> xs_approval s = None
      \<and> cs_risk (ca_capability (w_calls (xs_world s) ! 0)) = Low_Risk
      \<and> validate_schema sample_host (JObj (xr_value x)) (cs_output spec) ''$'' = Inr ()
  | _ \<Rightarrow> False"
  by code_simp

lemma sample_execution:
  "length (w_calls (snd (kernel_execute sample_host sample_env sample_fresh sample_member sample_request sample_world))) = 1"
  "cs_risk (ca_capability (w_calls (snd (kernel_execute sample_host sample_env sample_fresh sample_member
     sample_request sample_world)) ! 0)) = Low_Risk"
  "\<exists>resp w'. kernel_execute sample_host sample_env sample_fresh sample_member sample_request sample_world = (Inr resp, w')"
proof -
  obtain spec x s where u: "until_provider sample_host sample_env sample_fresh sample_member sample_request
      (start_state sample_fresh sample_world) = (Inr (spec, x), s)"
    and p: "length (w_calls (xs_world s)) = 1" "xs_approval s = None"
      "cs_risk (ca_capability (w_calls (xs_world s) ! 0)) = Low_Risk"
      "validate_schema sample_host (JObj (xr_value x)) (cs_output spec) ''$'' = Inr ()"
    using sample_until_provider by (auto split: prod.splits sum.splits)
  from until_provider_execute(2) [OF u] p
  show "length (w_calls (snd (kernel_execute sample_host sample_env sample_fresh sample_member sample_request sample_world))) = 1"
    "cs_risk (ca_capability (w_calls (snd (kernel_execute sample_host sample_env sample_fresh sample_member
     sample_request sample_world)) ! 0)) = Low_Risk" by simp_all
  from stage_finish_succeeds [OF p(4,2)] until_provider_execute(1) [OF u]
  show "\<exists>resp w'. kernel_execute sample_host sample_env sample_fresh sample_member sample_request sample_world = (Inr resp, w')"
    by (metis (no_types, lifting) kernel_execute_def old.prod.case sum.simps(6))
qed

theorem kernel_success_is_authorised_witness:
  "\<exists>spec. resolve_capability sample_env sample_member sample_request = Inr spec \<and> surface_allowed spec sample_member"
proof -
  obtain resp w' where "kernel_execute sample_host sample_env sample_fresh sample_member sample_request sample_world = (Inr resp, w')"
    using sample_execution(3) by blast
  from kernel_success_is_authorised [OF this] show ?thesis by blast
qed

lemma sample_world_once: "once_ok sample_world"
  by (simp add: once_ok_def sample_world_def call_keys_def List.map_filter_def all_taken_def)

theorem mutations_run_at_most_once_witness:
  "\<exists>w' x. (kernel_step sample_host)\<^sup>*\<^sup>* sample_world w' \<and> w_calls w' = [x] \<and> ca_key x \<noteq> None"
proof -
  define w' where "w' = snd (kernel_execute sample_host sample_env sample_fresh sample_member sample_request sample_world)"
  have "kernel_step sample_host sample_world w'" unfolding w'_def by (rule kernel_step.execute)
  then have s: "(kernel_step sample_host)\<^sup>*\<^sup>* sample_world w'" by simp
  obtain x where x: "w_calls w' = [x]"
    using sample_execution(1) unfolding w'_def [symmetric] by (auto simp: length_Suc_conv)
  have "cs_risk (ca_capability x) = Low_Risk"
    using sample_execution(2) unfolding w'_def [symmetric] x by simp
  with mutations_run_at_most_once [OF s] x s show ?thesis by (auto simp: sample_world_def)
qed

theorem provider_call_is_governed_witness:
  "\<exists>x. w_calls (snd (kernel_execute sample_host sample_env sample_fresh sample_member sample_request sample_world)) = [x]
     \<and> fst (evaluate_policy sample_member (ca_capability x)) \<noteq> Deny"
proof -
  obtain res w' where e: "kernel_execute sample_host sample_env sample_fresh sample_member sample_request sample_world
      = (res, w')" by fastforce
  have "length (w_calls w') = 1" using sample_execution(1) by (simp add: e)
  moreover have "w_calls sample_world = []" by (simp add: sample_world_def)
  ultimately show ?thesis
    using provider_call_is_governed [OF e sample_world_once] by (auto simp: e)
qed

subsection \<open>A failure commits nothing of the provider's\<close>

definition data_is :: "'d \<Rightarrow> 'd ksession \<Rightarrow> bool" where
  "data_is d s = (kt_data (committed s) = d \<and> kt_data (working s) = d)"

lemma claim_request_approval_data:
  "claim_request_approval H c r rid s = (res, s') \<Longrightarrow> data_is d s \<Longrightarrow> data_is d s'"
  by (auto simp: claim_request_approval_def data_is_def session_simps split: if_splits sum.splits prod.splits)

lemma arrive_data: "data_is d s \<Longrightarrow> data_is d (arrive race s)"
  by (simp add: data_is_def arrive_def add_missing_def)

lemma insert_claim_data:
  assumes "insert_claim H c r key rid run race s = (res, s')" "data_is d s"
  shows "data_is d s'"
proof -
  have "s' = rollback (arrive race s) \<or> (\<exists>f. s' = commit (on_working f (arrive race s)) \<and> (\<forall>t. kt_data (f t) = kt_data t))"
    using assms(1) by (auto simp: insert_claim_def Let_def split: if_splits option.splits sum.splits)
  with arrive_data [OF assms(2)] show ?thesis by (auto simp: data_is_def session_simps)
qed

lemma reserve_request_data:
  assumes "reserve_request H c r run race s = (res, s')" "data_is d s"
  shows "data_is d s'"
proof -
  let ?rid = "py_strip (text_or_empty (rq_request_id r))"
  have "s' = s \<or> (\<exists>key f. s' = commit (on_working (set_claim key f) s))
    \<or> (\<exists>key. bind_act (claim_request_approval H c r ?rid) (\<lambda>_. insert_claim H c r key ?rid run race) s = (res, s'))"
    using assms(1) by (auto simp: reserve_request_def Let_def split: if_splits option.splits sum.splits)
  then consider "s' = s" | key f where "s' = commit (on_working (set_claim key f) s)"
    | key where "bind_act (claim_request_approval H c r ?rid) (\<lambda>_. insert_claim H c r key ?rid run race) s = (res, s')"
    by blast
  then show ?thesis
  proof cases
    case 2
    with assms(2) show ?thesis by (simp add: data_is_def session_simps set_claim_def)
  next
    case 3
    then show ?thesis
      using assms(2) by (auto simp: bind_act_def split: prod.splits sum.splits
          dest: claim_request_approval_data insert_claim_data)
  qed (use assms(2) in simp)
qed

lemma stage_reserve_data:
  assumes "stage_reserve H F c spec r s = (res, s')" "data_is d (w_session (xs_world s))"
  shows "data_is d (w_session (xs_world s'))"
proof (cases "cs_risk spec = Read_Only")
  case False
  obtain rr sess where rr: "reserve_request H c r (fr_run F) (fr_race F) (w_session (xs_world s)) = (rr, sess)"
    by fastforce
  with False assms(1) have "w_session (xs_world s') = sess"
    by (auto simp: stage_reserve_def Let_def split: sum.splits reservation.splits)
  with reserve_request_data [OF rr assms(2)] show ?thesis by simp
qed (use assms in \<open>simp add: stage_reserve_def\<close>)

definition never_commits :: "'d kernel_env \<Rightarrow> bool" where
  "never_commits E = (\<forall>pid p. en_providers E pid = Some p \<longrightarrow>
     (\<forall>c spec args m d. committed (snd (p c spec args m d)) = committed d))"

lemma stage_provider_data:
  "never_commits E \<Longrightarrow> stage_provider E c spec m args s = (res, s') \<Longrightarrow>
   kt_data (committed (w_session (xs_world s'))) = kt_data (committed (w_session (xs_world s)))"
  unfolding never_commits_def
  by (auto simp: stage_provider_def find_provider_def Let_def put_data_def data_session_def
      split: sum.splits prod.splits option.splits) (metis session.select_convs(1) snd_conv)+

lemma stage_finish_data:
  assumes "stage_finish H F c spec r x s = (Inl e, s')"
  shows "kt_data (committed (w_session (xs_world s'))) = kt_data (committed (w_session (xs_world s)))"
  using assms
  by (auto simp: stage_finish_def stage_store_def bind_act_def log_step_def Let_def put_tables_def session_simps
      split: prod.splits sum.splits)

lemma handle_exn_data:
  "kt_data (committed (w_session (xs_world (snd (handle_exn H F c r e s))))) = kt_data (committed (w_session (xs_world s)))"
proof -
  have f: "kt_data (committed (w_session (xs_world (persist_failure F c r code msg t)))) = kt_data (tables_of t)" for code msg t
    by (simp add: persist_failure_def Let_def commit_world_def put_tables_def session_simps persist_audit_def tables_of_def)
  have b: "tables_of (rollback_world s) = committed (w_session (xs_world s))"
    "committed (w_session (xs_world (rollback_world s))) = committed (w_session (xs_world s))"
    by (simp_all add: tables_of_def rollback_world_def session_simps)
  have l: "tables_of (log_blocked st p t) = tables_of t" "tables_of (put_tables u t) = u" for st p t u
    by (simp_all add: tables_of_def put_tables_def session_simps)
  show ?thesis
    by (cases e) (auto simp: handle_exn_def handle_with_def handle_runtime_error_def Let_def split_beta f b l
        split: sum.split)
qed


definition failing_env :: "nat kernel_env" where
  "failing_env = sample_env\<lparr>en_providers := (\<lambda>k. Some (\<lambda>c spec args m d.
     (Inl (ValueError ''upstream''), d\<lparr>working := Suc (working d)\<rparr>)))\<rparr>"

lemma failing_run:
  "case kernel_body sample_host failing_env sample_fresh sample_member sample_request
      (start_state sample_fresh sample_world) of
    (Inl e, s) \<Rightarrow> kt_data (tables_of s) = 1 | _ \<Rightarrow> False"
  by code_simp


subsection \<open>An approval spent by an invocation that needs none\<close>

definition sample_spec_other :: capability_spec where
  "sample_spec_other = sample_spec_write\<lparr>cs_id := ''tasks.drop'', cs_approval := True\<rparr>"

definition other_approval :: approval where
  "other_approval = sample_approval\<lparr>ap_capability := ''tasks.drop'',
     ap_hash := arguments_hash sample_host ''tasks.drop'' []\<rparr>"

definition approved_world :: "nat world" where
  "approved_world = \<lparr>w_session = \<lparr>committed = empty_tables\<lparr>kt_approvals := [other_approval]\<rparr>,
     working = empty_tables\<lparr>kt_approvals := [other_approval]\<rparr>\<rparr>, w_calls = []\<rparr>"

lemma approved_until_provider:
  "case until_provider sample_host sample_env sample_fresh sample_member (sample_request\<lparr>rq_approval_id := Some ''a''\<rparr>)
     (start_state sample_fresh approved_world) of
   (Inr (spec, x), s) \<Rightarrow> map ap_status (kt_approvals (working (w_session (xs_world s)))) = [Executing]
     \<and> xs_approval s = None \<and> cs_id spec = ''tasks.add''
     \<and> validate_schema sample_host (JObj (xr_value x)) (cs_output spec) ''$'' = Inr ()
   | _ \<Rightarrow> False"
  by code_simp

lemma bind_log_state [simp]:
  "bind_act (\<lambda>s. log_step n nm st (p s) s) f s = f () (s\<lparr>xs_audit := audit_add n nm st (p s) (xs_audit s)\<rparr>)"
  by (simp add: bind_act_def log_step_def)

lemma stage_finish_Inr:
  assumes "stage_finish H F c spec r x s = (Inr resp, t)"
  shows "\<exists>s0 tt. xs_world s0 = xs_world s \<and> xs_approval s0 = xs_approval s
    \<and> finish_tables F c spec r x resp s0 = (Inr (), tt) \<and> t = commit_world (put_tables tt s0)
    \<and> rr_capability resp = Some (cs_id spec)"
proof -
  from assms have "\<exists>a. stage_store F c spec r x (s\<lparr>xs_audit := a\<rparr>) = (Inr resp, t)"
    unfolding stage_finish_def bind_known bind_log_state bind_lift_Inr
    by (elim exE conjE) (auto simp: exI)
  then obtain a where "stage_store F c spec r x (s\<lparr>xs_audit := a\<rparr>) = (Inr resp, t)" ..
  then show ?thesis
    by (intro exI [of _ "s\<lparr>xs_audit := a\<rparr>"]) (auto simp: stage_store_def Let_def split: prod.splits sum.splits)
qed

lemma stage_finish_approvals:
  assumes "stage_finish H F c spec r x s = (Inr resp, t)" "xs_approval s = None"
  shows "kt_approvals (committed (w_session (xs_world t))) = kt_approvals (working (w_session (xs_world s)))"
proof -
  have c: "kt_approvals (complete_request k resp u) = kt_approvals u" for k resp and u :: "'b kernel_tables"
    by (simp add: complete_request_def set_claim_def split: option.split)
  obtain s0 tt where s0: "xs_world s0 = xs_world s" "xs_approval s0 = None"
    "finish_tables F c spec r x resp s0 = (Inr (), tt)" "t = commit_world (put_tables tt s0)"
    using stage_finish_Inr [OF assms(1)] assms(2) by auto
  have "kt_approvals tt = kt_approvals (tables_of s0)"
    using s0(2,3) by (auto simp: finish_tables_def consume_approval_def c Let_def persist_audit_def)
  with s0 show ?thesis
    by (simp add: commit_world_def put_tables_def session_simps tables_of_def)
qed

text \<open>
  A mutation that needs no approval but carries an approval id spends that approval, even one
  for another capability: its claim is checked against the capability the approval itself names.
  The approval is left executing, is never consumed by the run, and can never be used again.
\<close>

lemma approval_spent_by_other_capability:
  "\<exists>resp w'. kernel_execute sample_host sample_env sample_fresh sample_member
      (sample_request\<lparr>rq_approval_id := Some ''a''\<rparr>) approved_world = (Inr resp, w')
   \<and> rr_capability resp = Some ''tasks.add'' \<and> ap_capability other_approval = ''tasks.drop''
   \<and> ap_status other_approval = Approved
   \<and> map ap_status (kt_approvals (committed (w_session w'))) = [Executing]"
proof -
  let ?r = "sample_request\<lparr>rq_approval_id := Some ''a''\<rparr>"
  obtain spec x s where u: "until_provider sample_host sample_env sample_fresh sample_member ?r
      (start_state sample_fresh approved_world) = (Inr (spec, x), s)"
    and p: "map ap_status (kt_approvals (working (w_session (xs_world s)))) = [Executing]"
      "xs_approval s = None" "cs_id spec = ''tasks.add''"
      "validate_schema sample_host (JObj (xr_value x)) (cs_output spec) ''$'' = Inr ()"
    using approved_until_provider by (auto split: prod.splits sum.splits)
  obtain resp t where f: "stage_finish sample_host sample_fresh sample_member spec ?r x s = (Inr resp, t)"
    using stage_finish_succeeds [OF p(4,2)] by blast
  have "rr_capability resp = Some (cs_id spec)"
    using stage_finish_Inr [OF f] by blast
  moreover have "kernel_execute sample_host sample_env sample_fresh sample_member ?r approved_world = (Inr resp, xs_world t)"
    using until_provider_execute(1) [OF u] f by (simp add: kernel_execute_def)
  ultimately show ?thesis
    using stage_finish_approvals [OF f p(2)] p(1,3)
    by (simp add: other_approval_def sample_approval_def)
qed

end
