(* ===== verification/Wf_Tables.thy ===== *)
theory Wf_Tables
  imports Kernel_Runtime Wf_Schedule
begin

text \<open>
  packages/workflow/models.py and packages/workflow/tracing.py: the workflow tables, the state and
  the actions of the workflow code, and the trace it writes. The tables are the data part of the
  kernel's tables, so both share one session: what the workflow code has not committed when it
  calls the kernel is lost when the kernel rolls back. JSON columns hold the value they encode.
\<close>

subsection \<open>Rows\<close>

record wf_definition =
  wd_id :: ident
  wd_scope :: string
  wd_workspace :: "ident option"
  wd_owner :: "ident option"
  wd_name :: string
  wd_description :: string
  wd_status :: string
  wd_version :: int

text \<open>The text columns of a version may hold what is not JSON: then the value is \<open>None\<close>.\<close>

record wf_version =
  wv_id :: ident
  wv_workflow :: ident
  wv_version :: int
  wv_spec :: "json option"
  wv_snapshot :: "json option"
  wv_created_by :: "ident option"

record wf_schedule =
  sc_id :: ident
  sc_workflow :: ident
  sc_type :: string
  sc_spec :: json
  sc_timezone :: string
  sc_enabled :: bool
  sc_next :: "time option"
  sc_last :: "time option"
  sc_token :: "string option"
  sc_until :: "time option"

record wf_trigger =
  tg_id :: ident
  tg_workflow :: ident
  tg_pattern :: string
  tg_condition :: "json option"
  tg_enabled :: bool
  tg_created_by :: "ident option"
  tg_created :: time

record wf_cursor =
  cu_id :: ident
  cu_created :: "time option"
  cu_event :: "ident option"

datatype run_status =
    Run_Queued | Run_Running | Run_Waiting | Run_Waiting_Approval
  | Run_Completed | Run_Completed_With_Errors | Run_Failed | Run_Cancelled | Run_Orphaned

record wf_run =
  rn_id :: ident
  rn_workflow :: ident
  rn_version :: ident
  rn_scope :: string
  rn_workspace :: "ident option"
  rn_authority :: "ident option"
  rn_initiator :: "ident option"
  rn_trigger_type :: string
  rn_trigger :: "(string \<times> json) list"
  rn_dedupe :: string
  rn_status :: run_status
  rn_step :: "string option"
  rn_error_code :: "string option"
  rn_error :: "string option"
  rn_result :: "(string \<times> json) list"
  rn_token :: "string option"
  rn_until :: "time option"
  rn_scheduled :: "time option"
  rn_created :: time
  rn_started :: "time option"
  rn_finished :: "time option"

datatype step_status =
    Step_Pending | Step_Running | Step_Waiting | Step_Waiting_Approval
  | Step_Completed | Step_Failed | Step_Skipped | Step_Cancelled

fun step_status_text :: "step_status \<Rightarrow> string" where
  "step_status_text Step_Pending = ''pending''"
| "step_status_text Step_Running = ''running''"
| "step_status_text Step_Waiting = ''waiting''"
| "step_status_text Step_Waiting_Approval = ''waiting_approval''"
| "step_status_text Step_Completed = ''completed''"
| "step_status_text Step_Failed = ''failed''"
| "step_status_text Step_Skipped = ''skipped''"
| "step_status_text Step_Cancelled = ''cancelled''"

record wf_step_run =
  sr_id :: ident
  sr_run :: ident
  sr_key :: string
  sr_order :: nat
  sr_kind :: string
  sr_capability :: "string option"
  sr_status :: step_status
  sr_attempt :: int
  sr_request :: "string option"
  sr_kernel_run :: "ident option"
  sr_approval :: "ident option"
  sr_arguments :: "(string \<times> json) list"
  sr_result :: "(string \<times> json) list"
  sr_error_code :: "string option"
  sr_error :: "string option"
  sr_wait_until :: "time option"
  sr_started :: "time option"
  sr_finished :: "time option"

datatype attempt_status =
  Attempt_Running | Attempt_Waiting_Approval | Attempt_Completed | Attempt_Failed | Attempt_Orphaned
  | Attempt_Cancelled

record wf_attempt =
  sa_id :: ident
  sa_run :: ident
  sa_step :: ident
  sa_attempt :: int
  sa_capability :: string
  sa_status :: attempt_status
  sa_request :: string
  sa_kernel_run :: "ident option"
  sa_approval :: "ident option"
  sa_arguments :: "(string \<times> json) list"
  sa_result :: "(string \<times> json) list"
  sa_error_code :: "string option"
  sa_error :: "string option"
  sa_started :: time
  sa_finished :: "time option"

record wf_trace =
  te_id :: ident
  te_scope :: scope_kind
  te_workspace :: "ident option"
  te_owner :: "ident option"
  te_workflow :: ident
  te_run :: "ident option"
  te_step :: "ident option"
  te_attempt :: "ident option"
  te_type :: string
  te_actor_type :: string
  te_actor :: "string option"
  te_capability :: "string option"
  te_kernel_run :: "ident option"
  te_approval :: "ident option"
  te_payload :: json
  te_created :: time

record 'x wf_tables =
  wf_definitions :: "wf_definition list"
  wf_versions :: "wf_version list"
  wf_schedules :: "wf_schedule list"
  wf_triggers :: "wf_trigger list"
  wf_cursors :: "wf_cursor list"
  wf_runs :: "wf_run list"
  wf_steps :: "wf_step_run list"
  wf_attempts :: "wf_attempt list"
  wf_traces :: "wf_trace list"
  wf_authority :: authority_db
  wf_data :: 'x

subsection \<open>State and actions\<close>

text \<open>
  What the code reads from outside, by the number of the reading: the clock, fresh ids, what one
  kernel execution draws, and what other transactions have committed to a run when it is refreshed.
\<close>

record draws =
  now_at :: "nat \<Rightarrow> time"
  id_at :: "nat \<Rightarrow> ident"
  kernel_at :: "nat \<Rightarrow> fresh"
  outside_at :: "nat \<Rightarrow> wf_run \<Rightarrow> wf_run"

record 'x wf_state =
  wf_world :: "'x wf_tables world"
  wf_tick :: nat

type_synonym ('x, 'a) wact = "('x wf_state, 'a) act"

definition draw :: "(nat \<Rightarrow> 'a) \<Rightarrow> ('x, 'a) wact" where
  "draw f s = (Inr (f (wf_tick s)), s\<lparr>wf_tick := Suc (wf_tick s)\<rparr>)"

definition kernel_tables_of :: "'x wf_state \<Rightarrow> 'x wf_tables kernel_tables" where
  "kernel_tables_of s = working (w_session (wf_world s))"

definition tables :: "'x wf_state \<Rightarrow> 'x wf_tables" where
  "tables s = kt_data (kernel_tables_of s)"

definition committed_tables :: "'x wf_state \<Rightarrow> 'x wf_tables" where
  "committed_tables s = kt_data (committed (w_session (wf_world s)))"

definition on_kernel :: "('x wf_tables kernel_tables \<Rightarrow> 'x wf_tables kernel_tables) \<Rightarrow> 'x wf_state \<Rightarrow> 'x wf_state" where
  "on_kernel f s = s\<lparr>wf_world := (wf_world s)\<lparr>w_session := on_working f (w_session (wf_world s))\<rparr>\<rparr>"

definition on_tables :: "('x wf_tables \<Rightarrow> 'x wf_tables) \<Rightarrow> 'x wf_state \<Rightarrow> 'x wf_state" where
  "on_tables f = on_kernel (\<lambda>t. t\<lparr>kt_data := f (kt_data t)\<rparr>)"

definition put :: "('x wf_tables \<Rightarrow> 'x wf_tables) \<Rightarrow> ('x, unit) wact" where
  "put f = modify (on_tables f)"

definition commit_all :: "('x, unit) wact" where
  "commit_all = modify (\<lambda>s. s\<lparr>wf_world := (wf_world s)\<lparr>w_session := commit (w_session (wf_world s))\<rparr>\<rparr>)"

definition rollback_all :: "('x, unit) wact" where
  "rollback_all = modify (\<lambda>s. s\<lparr>wf_world := (wf_world s)\<lparr>w_session := rollback (w_session (wf_world s))\<rparr>\<rparr>)"

definition reads :: "('x wf_tables \<Rightarrow> 'a) \<Rightarrow> ('x, 'a) wact" where
  "reads g s = (Inr (g (tables s)), s)"

text \<open>
  A loaded object is the row with its id. Reading an attribute of an object whose row is gone
  raises.
\<close>

definition gone :: exn where
  "gone = OtherError ''Row is gone''"

definition fetch :: "('x wf_tables \<Rightarrow> 'a option) \<Rightarrow> ('x, 'a) wact" where
  "fetch g s = (case g (tables s) of Some x \<Rightarrow> (Inr x, s) | None \<Rightarrow> (Inl gone, s))"

definition find_run :: "ident \<Rightarrow> 'x wf_tables \<Rightarrow> wf_run option" where
  "find_run i t = find (\<lambda>r. rn_id r = i) (wf_runs t)"

definition find_step :: "ident \<Rightarrow> 'x wf_tables \<Rightarrow> wf_step_run option" where
  "find_step i t = find (\<lambda>r. sr_id r = i) (wf_steps t)"

definition find_attempt :: "ident \<Rightarrow> 'x wf_tables \<Rightarrow> wf_attempt option" where
  "find_attempt i t = find (\<lambda>r. sa_id r = i) (wf_attempts t)"

definition find_definition :: "ident \<Rightarrow> 'x wf_tables \<Rightarrow> wf_definition option" where
  "find_definition i t = find (\<lambda>r. wd_id r = i) (wf_definitions t)"

definition find_version :: "ident \<Rightarrow> 'x wf_tables \<Rightarrow> wf_version option" where
  "find_version i t = find (\<lambda>r. wv_id r = i) (wf_versions t)"

definition set_run :: "ident \<Rightarrow> (wf_run \<Rightarrow> wf_run) \<Rightarrow> 'x wf_tables \<Rightarrow> 'x wf_tables" where
  "set_run i f t = t\<lparr>wf_runs := update_where (\<lambda>r. rn_id r = i) f (wf_runs t)\<rparr>"

definition set_step :: "ident \<Rightarrow> (wf_step_run \<Rightarrow> wf_step_run) \<Rightarrow> 'x wf_tables \<Rightarrow> 'x wf_tables" where
  "set_step i f t = t\<lparr>wf_steps := update_where (\<lambda>r. sr_id r = i) f (wf_steps t)\<rparr>"

definition set_attempt :: "ident \<Rightarrow> (wf_attempt \<Rightarrow> wf_attempt) \<Rightarrow> 'x wf_tables \<Rightarrow> 'x wf_tables" where
  "set_attempt i f t = t\<lparr>wf_attempts := update_where (\<lambda>r. sa_id r = i) f (wf_attempts t)\<rparr>"

text \<open>\<open>json.loads(raw or "")\<close> with the fallback for what is not JSON.\<close>

definition loads :: "json option \<Rightarrow> json \<Rightarrow> json" where
  "loads raw fallback = (case raw of Some v \<Rightarrow> v | None \<Rightarrow> fallback)"

text \<open>What a JSON column holds after \<open>_dumps\<close>: the items in key order.\<close>

definition stored :: "(string \<times> json) list \<Rightarrow> (string \<times> json) list" where
  "stored kvs = (case sort_keys (JObj kvs) of JObj r \<Rightarrow> r | _ \<Rightarrow> [])"

subsection \<open>The trace\<close>

text \<open>The keyword arguments of \<open>record_workflow_event\<close>, and its defaults.\<close>

record wf_event =
  ev_workspace :: "ident option"
  ev_workflow :: ident
  ev_type :: string
  ev_run :: "ident option"
  ev_step :: "ident option"
  ev_attempt :: "ident option"
  ev_actor_type :: string
  ev_actor :: "string option"
  ev_owner :: "ident option"
  ev_principal :: "string option"
  ev_capability :: "string option"
  ev_kernel_run :: "ident option"
  ev_approval :: "ident option"
  ev_payload :: "(string \<times> json) list"

definition wf_event_of :: "ident option \<Rightarrow> ident \<Rightarrow> string \<Rightarrow> (string \<times> json) list \<Rightarrow> wf_event" where
  "wf_event_of ws wid kind payload = \<lparr>ev_workspace = ws, ev_workflow = wid, ev_type = kind,
     ev_run = None, ev_step = None, ev_attempt = None, ev_actor_type = ''system'', ev_actor = None,
     ev_owner = None, ev_principal = None, ev_capability = None, ev_kernel_run = None,
     ev_approval = None, ev_payload = payload\<rparr>"

definition trace_row :: "ident \<Rightarrow> time \<Rightarrow> wf_event \<Rightarrow> wf_trace" where
  "trace_row tid now e =
     (let personal = \<not> present (ev_workspace e) in
      \<lparr>te_id = tid, te_scope = (if personal then Personal else Workspace), te_workspace = ev_workspace e,
       te_owner = (if personal then ev_owner e else None), te_workflow = ev_workflow e,
       te_run = ev_run e, te_step = ev_step e, te_attempt = ev_attempt e, te_type = ev_type e,
       te_actor_type = ev_actor_type e, te_actor = ev_actor e, te_capability = ev_capability e,
       te_kernel_run = ev_kernel_run e, te_approval = ev_approval e,
       te_payload = JObj (stored (ev_payload e)), te_created = now\<rparr>)"

definition trace_event :: "ident \<Rightarrow> time \<Rightarrow> wf_event \<Rightarrow> kernel_event" where
  "trace_event eid now e =
     (let personal = \<not> present (ev_workspace e) in
      \<lparr>ke_id = eid, ke_created = now, ke_type = ev_type e, ke_scope = (if personal then Personal else Workspace),
       ke_workspace = ev_workspace e, ke_owner = (if personal then ev_owner e else None),
       ke_principal = ev_principal e, ke_actor_type = ev_actor_type e, ke_actor = ev_actor e,
       ke_initiator = ev_principal e, ke_executor = ''operly:workflow'',
       ke_capability = ev_capability e,
       ke_resource_type = Some (if present (ev_run e) then ''workflow_run'' else ''workflow''),
       ke_resource = Some (if present (ev_run e) then the (ev_run e) else ev_workflow e),
       ke_payload = JObj (stored (obj_merge
         [(''workflow_id'', JStr (ev_workflow e)), (''workflow_run_id'', opt_json (ev_run e)),
          (''workflow_step_run_id'', opt_json (ev_step e)),
          (''workflow_step_attempt_id'', opt_json (ev_attempt e)),
          (''kernel_run_id'', opt_json (ev_kernel_run e)),
          (''approval_id'', opt_json (ev_approval e))] (ev_payload e)))\<rparr>)"

definition record_workflow_event :: "draws \<Rightarrow> wf_event \<Rightarrow> ('x, unit) wact" where
  "record_workflow_event D e =
     (if \<not> present (ev_workspace e) \<and> \<not> present (ev_owner e) then
        raise (ValueError ''Personal workflow trace requires owner_user_id'')
      else bind_act (draw (now_at D)) (\<lambda>now. bind_act (draw (id_at D)) (\<lambda>tid.
        bind_act (draw (id_at D)) (\<lambda>eid.
        modify (on_kernel (\<lambda>t. t\<lparr>kt_events := kt_events t @ [trace_event eid now e],
          kt_data := (kt_data t)\<lparr>wf_traces := wf_traces (kt_data t) @ [trace_row tid now e]\<rparr>\<rparr>))))))"

end
