(* ===== verification/Wf_Engine.thy ===== *)
theory Wf_Engine
  imports Wf_Tables "HOL-Library.AList"
begin

text \<open>
  packages/workflow/engine.py: queueing a run and executing it. A run executes the steps of its
  version in order, commits after each, and stops at a wait, at a pending approval, at a failure
  that is not continued and whenever the refreshed run is no longer its own. Actions go through
  the kernel, one request id per attempt. The two kernel runtimes are parameters.
\<close>

record 'x wf_env =
  en_personal :: "'x wf_tables kernel_env"
  en_workspace :: "'x wf_tables kernel_env"

subsection \<open>What expressions see of a run\<close>

definition error_json :: "string option \<Rightarrow> string option \<Rightarrow> json" where
  "error_json code message =
     (if present code then JObj [(''code'', opt_json code), (''message'', opt_json message)] else JNull)"

definition step_summary :: "wf_step_run \<Rightarrow> json" where
  "step_summary r = JObj [(''status'', JStr (step_status_text (sr_status r))),
     (''attempt'', JInt (sr_attempt r)), (''result'', JObj (sr_result r)),
     (''error'', error_json (sr_error_code r) (sr_error r))]"

definition time_text :: "host \<Rightarrow> time option \<Rightarrow> json" where
  "time_text H t = opt_json (map_option (iso_format H) t)"

definition step_context :: "host \<Rightarrow> wf_run \<Rightarrow> (string \<times> wf_step_run) list \<Rightarrow> json" where
  "step_context H run rows = JObj
     [(''trigger'', JObj (rn_trigger run)),
      (''steps'', JObj (map (\<lambda>(k, r). (k, step_summary r)) rows)),
      (''run'', JObj [(''id'', JStr (rn_id run)), (''scope_kind'', JStr (rn_scope run)),
         (''trigger_type'', JStr (rn_trigger_type run)),
         (''scheduled_for'', time_text H (rn_scheduled run))])]"

definition parse_until :: "host \<Rightarrow> json \<Rightarrow> time result" where
  "parse_until H v = (case iso_parse H (replace_Z (py_strip (str_or_empty H v))) of
       None \<Rightarrow> Inl (WorkflowSpecError ''Wait-until value must resolve to ISO 8601'')
     | Some (local, None) \<Rightarrow> Inr local
     | Some (local, Some offset) \<Rightarrow> Inr (local - offset))"

subsection \<open>Queueing\<close>

definition or_workspace :: "string \<Rightarrow> string" where
  "or_workspace s = (if s = [] then ''workspace'' else s)"

definition opt_or :: "string option \<Rightarrow> string option \<Rightarrow> string option" where
  "opt_or a b = (if present a then a else b)"

definition queue_workflow_run ::
  "host \<Rightarrow> draws \<Rightarrow> wf_definition \<Rightarrow> string \<Rightarrow> (string \<times> json) list \<Rightarrow> ident option \<Rightarrow>
   string option \<Rightarrow> time option \<Rightarrow> ('x, ident) wact" where
  "queue_workflow_run H D w kind payload initiator dedupe scheduled =
     bind_act (reads (\<lambda>t. find (\<lambda>v. wv_workflow v = wd_id w \<and> wv_version v = wd_version w) (wf_versions t)))
     (\<lambda>version. case version of
       None \<Rightarrow> raise (RuntimeError ''Workflow version is unavailable'')
     | Some v \<Rightarrow>
         let who = opt_or initiator (wd_owner w); scope = or_workspace (wd_scope w) in
         if \<not> present who then raise (PermissionError ''Workflow run has no executable authority user'')
         else if scope = ''personal'' \<and> wd_workspace w \<noteq> None then
           raise (PermissionError ''Personal workflow may not carry Workspace authority'')
         else if scope = ''workspace'' \<and> \<not> present (wd_workspace w) then
           raise (PermissionError ''Workspace workflow requires workspace_id'')
         else
           bind_act (draw (id_at D)) (\<lambda>rid.
           bind_act (draw (id_at D)) (\<lambda>unique.
           bind_act (draw (now_at D)) (\<lambda>created.
           let key = (if present dedupe then the dedupe else ''manual:'' @ wd_id w @ '':'' @ unique) in
           bind_act (reads (\<lambda>t. key \<in> rn_dedupe ` set (wf_runs t))) (\<lambda>taken.
           if taken then raise (OtherError ''UNIQUE constraint failed: workflow_runs.dedupe_key'') else
           bind_act (put (\<lambda>t. t\<lparr>wf_runs := wf_runs t @ [
              \<lparr>rn_id = rid, rn_workflow = wd_id w, rn_version = wv_id v, rn_scope = scope,
               rn_workspace = wd_workspace w, rn_authority = who, rn_initiator = initiator,
               rn_trigger_type = kind, rn_trigger = stored payload,
               rn_dedupe = key,
               rn_status = Run_Queued, rn_step = None, rn_error_code = None, rn_error = None,
               rn_result = [], rn_token = None, rn_until = None, rn_scheduled = scheduled,
               rn_created = created, rn_started = None, rn_finished = None\<rparr>]\<rparr>)) (\<lambda>_.
           bind_act (record_workflow_event D ((wf_event_of (wd_workspace w) (wd_id w) ''workflow.run.queued''
               [(''scope_kind'', JStr scope), (''trigger_type'', JStr kind),
                (''scheduled_for'', time_text H scheduled),
                (''workflow_version'', JInt (wd_version w)), (''workflow_version_id'', JStr (wv_id v)),
                (''authority_user_id'', opt_json who)])
              \<lparr>ev_run := Some rid, ev_actor_type := (if present initiator then ''human'' else ''system''),
               ev_actor := (if present initiator then initiator else Some ''operly:scheduler''),
               ev_owner := who, ev_principal := Some (''user:'' @ the who)\<rparr>)) (\<lambda>_.
           ret rid)))))))"

subsection \<open>Authority of a step\<close>

definition authority_metadata ::
  "wf_run \<Rightarrow> wf_step_run \<Rightarrow> wf_attempt \<Rightarrow> (string \<times> json) list result" where
  "authority_metadata run row a =
     (let base = [(''workflow_id'', JStr (rn_workflow run)), (''workflow_run_id'', JStr (rn_id run)),
            (''workflow_step_key'', JStr (sr_key row)), (''workflow_step_run_id'', JStr (sr_id row)),
            (''workflow_step_attempt_id'', JStr (sa_id a)), (''workflow_attempt'', JInt (sr_attempt row))]
      in case obj_get ''event'' (rn_trigger run) of
          Some (JObj ev) \<Rightarrow>
            bind_result (py_int (get_or ''depth'' (JInt 1) (rn_trigger run))) (\<lambda>depth.
            Inr (base @ [(''workflow_trigger_event_id'', get_or_null ''id'' ev),
              (''workflow_correlation_id'', get_or ''correlation_id'' (get_or_null ''id'' ev) ev),
              (''workflow_causation_id'', get_or_null ''id'' ev), (''workflow_depth'', JInt depth)]))
        | _ \<Rightarrow> Inr base)"

definition resolve_authority ::
  "host \<Rightarrow> authority_db \<Rightarrow> wf_run \<Rightarrow> wf_step_run \<Rightarrow> wf_attempt \<Rightarrow> exec_context result" where
  "resolve_authority H db run row a =
     bind_result (authority_metadata run row a) (\<lambda>md.
       if rn_scope run = ''personal'' then
         resolve_personal_execution_context H db (case rn_authority run of None \<Rightarrow> ''None'' | Some u \<Rightarrow> u)
           ''workflow'' (Some ''system_task'') (Some (''workflow:'' @ rn_id run)) md None None
       else if \<not> present (rn_workspace run) then
         Inl (ExecutionContextError ''Workspace workflow has no workspace authority'')
       else resolve_execution_context H db (the (rn_workspace run)) (rn_authority run)
           ''workflow'' (Some ''system_task'') (Some (''workflow:'' @ rn_id run)) md True)"

subsection \<open>Ownership and failure of a run\<close>

text \<open>\<open>refresh\<close> reloads the run with what other transactions have committed to it.\<close>

definition refresh_row :: "(wf_run \<Rightarrow> wf_run) \<Rightarrow> wf_run \<Rightarrow> wf_run" where
  "refresh_row f r = (f r)\<lparr>rn_id := rn_id r\<rparr>"

definition refresh_run :: "draws \<Rightarrow> ident \<Rightarrow> ('x, unit) wact" where
  "refresh_run D rid = bind_act (draw (outside_at D)) (\<lambda>f. modify (\<lambda>s.
     s\<lparr>wf_world := (wf_world s)\<lparr>w_session :=
       \<lparr>committed = (committed (w_session (wf_world s)))\<lparr>kt_data :=
          set_run rid (refresh_row f) (kt_data (committed (w_session (wf_world s))))\<rparr>,
        working = (working (w_session (wf_world s)))\<lparr>kt_data :=
          set_run rid (refresh_row f) (kt_data (working (w_session (wf_world s))))\<rparr>\<rparr>\<rparr>\<rparr>))"

definition owned :: "string option \<Rightarrow> wf_run \<Rightarrow> bool" where
  "owned token r = (rn_status r \<notin> {Run_Cancelled, Run_Orphaned} \<and> (token = None \<or> rn_token r = token))"

definition still_owned :: "draws \<Rightarrow> ident \<Rightarrow> string option \<Rightarrow> ('x, bool) wact" where
  "still_owned D rid token =
     bind_act (refresh_run D rid) (\<lambda>_. bind_act (fetch (find_run rid)) (\<lambda>r. ret (owned token r)))"

definition run_principal :: "wf_run \<Rightarrow> string option" where
  "run_principal r = (if present (rn_authority r) then Some (''user:'' @ the (rn_authority r)) else None)"

text \<open>Some callers print the user without checking that there is one.\<close>

definition run_principal_text :: "wf_run \<Rightarrow> string option" where
  "run_principal_text r = Some (''user:'' @ (case rn_authority r of None \<Rightarrow> ''None'' | Some u \<Rightarrow> u))"

definition run_event :: "wf_run \<Rightarrow> string \<Rightarrow> (string \<times> json) list \<Rightarrow> wf_event" where
  "run_event r kind payload = (wf_event_of (rn_workspace r) (rn_workflow r) kind payload)
     \<lparr>ev_run := Some (rn_id r), ev_actor := Some ''operly:workflow'', ev_owner := rn_authority r,
      ev_principal := run_principal r\<rparr>"

definition fail_run :: "draws \<Rightarrow> ident \<Rightarrow> wf_definition option \<Rightarrow> string \<Rightarrow> string \<Rightarrow> ('x, unit) wact" where
  "fail_run D rid w code message =
     bind_act (draw (now_at D)) (\<lambda>now.
     bind_act (put (set_run rid (\<lambda>r. r\<lparr>rn_status := Run_Failed, rn_error_code := Some code,
        rn_error := Some (take 2000 message), rn_finished := Some now, rn_token := None,
        rn_until := None\<rparr>))) (\<lambda>_.
     bind_act (case w of None \<Rightarrow> ret () | Some _ \<Rightarrow> bind_act (fetch (find_run rid)) (\<lambda>r.
        record_workflow_event D (run_event r ''workflow.run.failed''
          [(''code'', JStr code), (''current_step_key'', opt_json (rn_step r))]))) (\<lambda>_.
     commit_all)))"

subsection \<open>Wait steps\<close>

definition step_capability :: "wf_step \<Rightarrow> string option" where
  "step_capability s = (case body s of Action cap _ \<Rightarrow> Some cap | _ \<Rightarrow> None)"

definition new_step_run :: "ident \<Rightarrow> ident \<Rightarrow> nat \<Rightarrow> wf_step \<Rightarrow> wf_step_run" where
  "new_step_run sid rid index s = \<lparr>sr_id = sid, sr_run = rid, sr_key = step_id s, sr_order = index,
     sr_kind = step_kind s, sr_capability = step_capability s, sr_status = Step_Pending,
     sr_attempt = 0, sr_request = None, sr_kernel_run = None, sr_approval = None,
     sr_arguments = [], sr_result = [], sr_error_code = None, sr_error = None,
     sr_wait_until = None, sr_started = None, sr_finished = None\<rparr>"

text \<open>The row of the step: the existing one, or a new one.\<close>

definition ensure_row :: "draws \<Rightarrow> ident \<Rightarrow> ident option \<Rightarrow> wf_step \<Rightarrow> nat \<Rightarrow> ('x, ident) wact" where
  "ensure_row D rid existing s index = (case existing of
       Some sid \<Rightarrow> ret sid
     | None \<Rightarrow> bind_act (draw (id_at D)) (\<lambda>sid.
         bind_act (put (\<lambda>t. t\<lparr>wf_steps := wf_steps t @ [new_step_run sid rid index s]\<rparr>)) (\<lambda>_. ret sid)))"

definition started_or :: "time \<Rightarrow> wf_step_run \<Rightarrow> wf_step_run" where
  "started_or now r = r\<lparr>sr_started := (case sr_started r of None \<Rightarrow> Some now | t \<Rightarrow> t)\<rparr>"

definition release_lease :: "run_status \<Rightarrow> string \<Rightarrow> wf_run \<Rightarrow> wf_run" where
  "release_lease st key r = r\<lparr>rn_status := st, rn_step := Some key, rn_token := None, rn_until := None\<rparr>"

definition skip_step :: "host \<Rightarrow> draws \<Rightarrow> ident \<Rightarrow> ident option \<Rightarrow> wf_step \<Rightarrow> nat \<Rightarrow> ('x, ident) wact" where
  "skip_step H D rid existing s index =
     bind_act (ensure_row D rid existing s index) (\<lambda>sid.
     bind_act (draw (now_at D)) (\<lambda>now.
     bind_act (put (set_step sid (\<lambda>r. r\<lparr>sr_status := Step_Skipped, sr_finished := Some now\<rparr>)
        \<circ> set_run rid (\<lambda>r. r\<lparr>rn_step := Some (step_id s)\<rparr>))) (\<lambda>_.
     bind_act (fetch (find_run rid)) (\<lambda>run.
     bind_act (record_workflow_event D ((run_event run ''workflow.step.skipped''
         [(''step_key'', JStr (step_id s)), (''reason'', JStr ''condition_false'')])
         \<lparr>ev_step := Some sid, ev_principal := run_principal_text run\<rparr>)) (\<lambda>_.
     bind_act commit_all (\<lambda>_. ret sid))))))"

text \<open>When a wait ends: read from the row, or fixed now.\<close>

definition wait_deadline :: "host \<Rightarrow> ident \<Rightarrow> wf_step \<Rightarrow> json \<Rightarrow> time \<Rightarrow> ('x, time) wact" where
  "wait_deadline H sid s ctx now =
     bind_act (fetch (find_step sid)) (\<lambda>row. case sr_wait_until row of
       Some u \<Rightarrow> ret u
     | None \<Rightarrow> (case body s of
           Wait_Seconds n \<Rightarrow>
             bind_act (put (set_step sid (\<lambda>r. r\<lparr>sr_wait_until := Some (now + seconds n)\<rparr>)))
               (\<lambda>_. ret (now + seconds n))
         | Wait_Until v \<Rightarrow>
             bind_act (lift (bind_result (render_value H ctx (JStr v)) (parse_until H))) (\<lambda>u.
             bind_act (put (set_step sid (\<lambda>r. r\<lparr>sr_wait_until := Some u\<rparr>))) (\<lambda>_.
             if u > now + seconds MAX_WAIT_SECONDS then
               raise (WorkflowSpecError ''Wait-until exceeds the maximum 31-day workflow wait'')
             else ret u))
         | Action _ _ \<Rightarrow> raise (KeyError ''until'')))"

definition wait_step ::
  "host \<Rightarrow> draws \<Rightarrow> ident \<Rightarrow> ident option \<Rightarrow> wf_step \<Rightarrow> nat \<Rightarrow> json \<Rightarrow> ('x, ident) wact" where
  "wait_step H D rid existing s index ctx =
     bind_act (draw (now_at D)) (\<lambda>now.
     bind_act (ensure_row D rid existing s index) (\<lambda>sid.
     bind_act (wait_deadline H sid s ctx now) (\<lambda>until.
     if until > now then
       bind_act (put (set_step sid (\<lambda>r. started_or now (r\<lparr>sr_status := Step_Waiting\<rparr>))
          \<circ> set_run rid (release_lease Run_Waiting (step_id s)))) (\<lambda>_.
       bind_act (fetch (find_run rid)) (\<lambda>run.
       bind_act (record_workflow_event D ((run_event run ''workflow.step.waiting''
           [(''step_key'', JStr (step_id s)), (''wait_until'', JStr (iso_format H until))])
           \<lparr>ev_step := Some sid, ev_principal := run_principal_text run\<rparr>)) (\<lambda>_.
       bind_act commit_all (\<lambda>_. ret sid))))
     else
       bind_act (put (set_step sid (\<lambda>r. started_or now (r\<lparr>sr_status := Step_Completed,
            sr_finished := Some now, sr_result := [(''waited_until'', JStr (iso_format H until))]\<rparr>))
          \<circ> set_run rid (\<lambda>r. r\<lparr>rn_step := Some (step_id s)\<rparr>))) (\<lambda>_.
       bind_act (fetch (find_run rid)) (\<lambda>run.
       bind_act (record_workflow_event D ((run_event run ''workflow.step.completed''
           [(''step_key'', JStr (step_id s)), (''kind'', JStr ''wait'')])
           \<lparr>ev_step := Some sid, ev_principal := run_principal_text run\<rparr>)) (\<lambda>_.
       bind_act commit_all (\<lambda>_. ret sid)))))))"

subsection \<open>Action steps\<close>

definition current_attempt :: "wf_step_run \<Rightarrow> 'x wf_tables \<Rightarrow> wf_attempt option" where
  "current_attempt row t = (if sr_attempt row < 1 then None
     else find (\<lambda>a. sa_step a = sr_id row \<and> sa_attempt a = sr_attempt row) (wf_attempts t))"

definition request_id_of :: "ident \<Rightarrow> string \<Rightarrow> int \<Rightarrow> string" where
  "request_id_of rid key n = ''workflow:'' @ rid @ '':'' @ key @ '':attempt:'' @ int_str n"

definition step_lineage :: "wf_step_run \<Rightarrow> (string \<times> json) list" where
  "step_lineage row = [(''step_key'', JStr (sr_key row)), (''attempt'', JInt (sr_attempt row)),
     (''request_id'', opt_json (sr_request row))]"

definition action_event :: "wf_run \<Rightarrow> wf_step_run \<Rightarrow> ident \<Rightarrow> string \<Rightarrow> (string \<times> json) list \<Rightarrow> wf_event" where
  "action_event run row aid kind payload = (run_event run kind payload)
     \<lparr>ev_step := Some (sr_id row), ev_attempt := Some aid, ev_capability := sr_capability row\<rparr>"

definition fail_before_runtime ::
  "draws \<Rightarrow> ident \<Rightarrow> ident \<Rightarrow> ident \<Rightarrow> string \<Rightarrow> string \<Rightarrow> ('x, unit) wact" where
  "fail_before_runtime D rid sid aid code message =
     bind_act (draw (now_at D)) (\<lambda>now.
     bind_act (put (set_step sid (\<lambda>r. r\<lparr>sr_status := Step_Failed, sr_error_code := Some code,
          sr_error := Some (take 1000 message), sr_finished := Some now\<rparr>)
        \<circ> set_attempt aid (\<lambda>a. a\<lparr>sa_status := Attempt_Failed, sa_error_code := Some code,
          sa_error := Some (take 1000 message), sa_finished := Some now\<rparr>))) (\<lambda>_.
     bind_act (fetch (find_run rid)) (\<lambda>run.
     bind_act (fetch (find_step sid)) (\<lambda>row.
     bind_act (record_workflow_event D (action_event run row aid ''workflow.step.failed''
         (step_lineage row @ [(''code'', JStr code)]))) (\<lambda>_.
     commit_all)))))"

text \<open>
  The attempt to execute, and the approval that resumes it: \<open>None\<close> when the step is already
  settled. First the branch of a step that waits for its approval.
\<close>

definition new_attempt ::
  "ident \<Rightarrow> wf_step_run \<Rightarrow> wf_step \<Rightarrow> attempt_status \<Rightarrow> string option \<Rightarrow> string option \<Rightarrow>
   time \<Rightarrow> time option \<Rightarrow> wf_attempt" where
  "new_attempt aid row s st code message started finished = \<lparr>sa_id = aid, sa_run = sr_run row,
     sa_step = sr_id row, sa_attempt = sr_attempt row,
     sa_capability = (if present (sr_capability row) then the (sr_capability row)
       else text_or_empty (step_capability s)),
     sa_status = st, sa_request = text_or_empty (sr_request row), sa_kernel_run = None,
     sa_approval = None, sa_arguments = sr_arguments row, sa_result = [], sa_error_code = code,
     sa_error = message, sa_started = started, sa_finished = finished\<rparr>"

definition add_attempt ::
  "draws \<Rightarrow> ident \<Rightarrow> wf_step \<Rightarrow> attempt_status \<Rightarrow> string option \<Rightarrow> string option \<Rightarrow>
   time \<Rightarrow> time option \<Rightarrow> ('x, ident) wact" where
  "add_attempt D sid s st code message started finished =
     bind_act (draw (id_at D)) (\<lambda>aid.
     bind_act (fetch (find_step sid)) (\<lambda>row.
     bind_act (put (\<lambda>t. t\<lparr>wf_attempts := wf_attempts t
        @ [new_attempt aid row s st code message started finished]\<rparr>)) (\<lambda>_. ret aid)))"

definition lineage_missing :: "draws \<Rightarrow> ident \<Rightarrow> ident \<Rightarrow> wf_step \<Rightarrow> time \<Rightarrow> ('x, unit) wact" where
  "lineage_missing D rid sid s now =
     bind_act (put (set_step sid (\<lambda>r. r\<lparr>sr_attempt := sr_attempt r + 1,
        sr_request := Some (if present (sr_request r) then the (sr_request r)
          else request_id_of rid (sr_key r) (sr_attempt r + 1))\<rparr>))) (\<lambda>_.
     bind_act (add_attempt D sid s Attempt_Failed (Some ''attempt_lineage_missing'')
        (Some ''Workflow approval attempt lineage is unavailable'') now (Some now)) (\<lambda>aid.
     fail_before_runtime D rid sid aid ''attempt_lineage_missing''
       ''Workflow approval attempt lineage is unavailable''))"

definition approval_rejected ::
  "draws \<Rightarrow> ident \<Rightarrow> ident \<Rightarrow> ident \<Rightarrow> approval \<Rightarrow> time \<Rightarrow> ('x, unit) wact" where
  "approval_rejected D rid sid aid ap now =
     bind_act (put (set_step sid (\<lambda>r. r\<lparr>sr_status := Step_Failed,
          sr_error_code := Some ''approval_rejected'',
          sr_error := Some ''A human rejected this workflow step'', sr_finished := Some now\<rparr>)
        \<circ> set_attempt aid (\<lambda>a. a\<lparr>sa_status := Attempt_Failed, sa_approval := Some (ap_id ap),
          sa_error_code := Some ''approval_rejected'',
          sa_error := Some ''A human rejected this workflow step'', sa_finished := Some now\<rparr>))) (\<lambda>_.
     bind_act (fetch (find_step sid)) (\<lambda>row.
     bind_act (put (set_run rid (\<lambda>r. r\<lparr>rn_step := Some (sr_key row)\<rparr>))) (\<lambda>_.
     bind_act (fetch (find_run rid)) (\<lambda>run.
     bind_act (record_workflow_event D ((action_event run row aid ''workflow.step.failed''
         (step_lineage row @ [(''code'', JStr ''approval_rejected'')]))
         \<lparr>ev_actor_type := ''human'', ev_actor := ap_decided_by ap,
          ev_kernel_run := sr_kernel_run row, ev_approval := Some (ap_id ap)\<rparr>)) (\<lambda>_.
     commit_all)))))"

definition approval_branch ::
  "draws \<Rightarrow> ident \<Rightarrow> ident \<Rightarrow> wf_step \<Rightarrow> time \<Rightarrow> ('x, (ident \<times> ident option) option) wact" where
  "approval_branch D rid sid s now =
     bind_act (fetch (find_step sid)) (\<lambda>row.
     bind_act (reads (current_attempt row)) (\<lambda>attempt. case attempt of
       None \<Rightarrow> bind_act (lineage_missing D rid sid s now) (\<lambda>_. ret None)
     | Some a \<Rightarrow>
         bind_act (\<lambda>st. (Inr (find (\<lambda>p. Some (ap_id p) = sr_approval row) (kt_approvals (kernel_tables_of st))), st))
         (\<lambda>found. case found of
           Some ap \<Rightarrow>
             if ap_status ap = Pending then
               bind_act (put (set_run rid (release_lease Run_Waiting_Approval (sr_key row))))
                 (\<lambda>_. bind_act commit_all (\<lambda>_. ret None))
             else if ap_status ap \<noteq> Approved then
               bind_act (approval_rejected D rid sid (sa_id a) ap now) (\<lambda>_. ret None)
             else
               bind_act (put (set_attempt (sa_id a) (\<lambda>x. x\<lparr>sa_status := Attempt_Running,
                  sa_approval := Some (ap_id ap)\<rparr>))) (\<lambda>_. ret (Some (sa_id a, Some (ap_id ap))))
         | None \<Rightarrow>
             bind_act (put (set_run rid (release_lease Run_Waiting_Approval (sr_key row))))
               (\<lambda>_. bind_act commit_all (\<lambda>_. ret None)))))"

text \<open>\<open>try: ... except WorkflowSpecError as error\<close> around a computation that does not change the state.\<close>

definition on_spec :: "'a result \<Rightarrow> ('a \<Rightarrow> ('s, 'b) act) \<Rightarrow> (string \<Rightarrow> ('s, 'b) act) \<Rightarrow> ('s, 'b) act" where
  "on_spec r f h = (case r of
       Inr x \<Rightarrow> f x
     | Inl e \<Rightarrow> (case e of WorkflowSpecError m \<Rightarrow> h m | _ \<Rightarrow> raise e))"

text \<open>The other branch: a new attempt, with its arguments rendered against the run.\<close>

definition render_arguments :: "host \<Rightarrow> json \<Rightarrow> wf_step \<Rightarrow> (string \<times> json) list result" where
  "render_arguments H ctx s =
     bind_result (render_value H ctx (JObj (case body s of Action _ args \<Rightarrow> args | _ \<Rightarrow> [])))
       (\<lambda>v. case v of JObj kvs \<Rightarrow> Inr kvs
          | _ \<Rightarrow> Inl (WorkflowSpecError ''Rendered action arguments must be an object''))"

definition next_attempt :: "ident \<Rightarrow> wf_step_run \<Rightarrow> wf_step_run" where
  "next_attempt rid r = r\<lparr>sr_attempt := sr_attempt r + 1,
     sr_request := Some (request_id_of rid (sr_key r) (sr_attempt r + 1)), sr_approval := None,
     sr_kernel_run := None, sr_error_code := None, sr_error := None, sr_result := [],
     sr_finished := None\<rparr>"

definition fresh_branch ::
  "host \<Rightarrow> draws \<Rightarrow> ident \<Rightarrow> ident \<Rightarrow> wf_step \<Rightarrow> json \<Rightarrow> time \<Rightarrow>
   ('x, (ident \<times> ident option) option) wact" where
  "fresh_branch H D rid sid s ctx now =
     bind_act (put (set_step sid (next_attempt rid))) (\<lambda>_.
     on_spec (render_arguments H ctx s)
       (\<lambda>args.
         bind_act (put (set_step sid (\<lambda>r. r\<lparr>sr_arguments := stored args\<rparr>))) (\<lambda>_.
         bind_act (add_attempt D sid s Attempt_Running None None now None) (\<lambda>aid.
         ret (Some (aid, None)))))
       (\<lambda>m.
         bind_act (put (set_step sid (\<lambda>r. r\<lparr>sr_arguments := []\<rparr>))) (\<lambda>_.
         bind_act (add_attempt D sid s Attempt_Failed (Some ''argument_render_failed'')
            (Some (take 1000 m)) now (Some now)) (\<lambda>aid.
         bind_act (fail_before_runtime D rid sid aid ''argument_render_failed'' m) (\<lambda>_. ret None)))))"

definition start_action ::
  "draws \<Rightarrow> ident \<Rightarrow> ident \<Rightarrow> ident \<Rightarrow> ident option \<Rightarrow> time \<Rightarrow> ('x, unit) wact" where
  "start_action D rid sid aid apid now =
     bind_act (fetch (find_attempt aid)) (\<lambda>a.
     bind_act (put (set_step sid (\<lambda>r. started_or now (r\<lparr>sr_arguments := sa_arguments a,
          sr_status := Step_Running\<rparr>)))) (\<lambda>_.
     bind_act (fetch (find_step sid)) (\<lambda>row.
     bind_act (put (set_run rid (\<lambda>r. r\<lparr>rn_status := Run_Running, rn_step := Some (sr_key row)\<rparr>))) (\<lambda>_.
     bind_act (fetch (find_run rid)) (\<lambda>run.
     bind_act (record_workflow_event D ((action_event run row aid
         (if apid = None then ''workflow.step.started'' else ''workflow.step.approval_resumed'')
         (step_lineage row @ [(''argument_keys'', JArr (map JStr (sort (map fst (sa_arguments a)))))]))
         \<lparr>ev_approval := apid\<rparr>)) (\<lambda>_.
     commit_all))))))"

definition run_kernel ::
  "host \<Rightarrow> 'x wf_env \<Rightarrow> draws \<Rightarrow> wf_run \<Rightarrow> exec_context \<Rightarrow> runtime_request \<Rightarrow> ('x, runtime_response) wact" where
  "run_kernel H E D run ctx req s =
     (case kernel_execute H (if rn_scope run = ''personal'' then en_personal E else en_workspace E)
         (kernel_at D (wf_tick s)) ctx req (wf_world s) of
        (r, w) \<Rightarrow> (r, s\<lparr>wf_world := w, wf_tick := Suc (wf_tick s)\<rparr>))"

definition kernel_request :: "wf_run \<Rightarrow> wf_step_run \<Rightarrow> wf_attempt \<Rightarrow> ident option \<Rightarrow> runtime_request" where
  "kernel_request run row a apid = \<lparr>rq_goal = [], rq_capability = sr_capability row,
     rq_arguments = sa_arguments a, rq_conversation = Some (''workflow:'' @ rn_id run),
     rq_request_id = sr_request row, rq_approval_id = apid\<rparr>"

text \<open>The three rows, read again after the kernel; they must still exist.\<close>

definition fetch_rows ::
  "ident \<Rightarrow> ident \<Rightarrow> ident \<Rightarrow> ('x, wf_step_run \<times> wf_attempt \<times> wf_run) wact" where
  "fetch_rows rid sid aid =
     bind_act (fetch (find_step sid)) (\<lambda>row. bind_act (fetch (find_attempt aid)) (\<lambda>a.
     bind_act (fetch (find_run rid)) (\<lambda>run. ret (row, a, run))))"

definition action_waits ::
  "draws \<Rightarrow> ident \<Rightarrow> ident \<Rightarrow> ident \<Rightarrow> ident \<Rightarrow> ident \<Rightarrow> ('x, unit) wact" where
  "action_waits D rid sid aid kid apid =
     bind_act (put (set_step sid (\<lambda>r. r\<lparr>sr_status := Step_Waiting_Approval, sr_approval := Some apid\<rparr>)
        \<circ> set_attempt aid (\<lambda>a. a\<lparr>sa_status := Attempt_Waiting_Approval, sa_approval := Some apid\<rparr>))) (\<lambda>_.
     bind_act (fetch (find_step sid)) (\<lambda>row.
     bind_act (put (set_run rid (release_lease Run_Waiting_Approval (sr_key row)))) (\<lambda>_.
     bind_act (fetch (find_run rid)) (\<lambda>run.
     record_workflow_event D ((action_event run row aid ''workflow.step.waiting_approval'' (step_lineage row))
       \<lparr>ev_kernel_run := Some kid, ev_approval := Some apid\<rparr>)))))"

definition action_fails ::
  "draws \<Rightarrow> ident \<Rightarrow> ident \<Rightarrow> ident \<Rightarrow> ident \<Rightarrow> ident option \<Rightarrow> string \<Rightarrow> string \<Rightarrow> ('x, unit) wact" where
  "action_fails D rid sid aid kid apid code message =
     bind_act (draw (now_at D)) (\<lambda>now.
     bind_act (put (set_step sid (\<lambda>r. r\<lparr>sr_status := Step_Failed, sr_error_code := Some code,
          sr_error := Some (take 1000 message), sr_finished := Some now\<rparr>)
        \<circ> set_attempt aid (\<lambda>a. a\<lparr>sa_status := Attempt_Failed, sa_error_code := Some code,
          sa_error := Some (take 1000 message), sa_finished := Some now\<rparr>))) (\<lambda>_.
     bind_act (fetch (find_run rid)) (\<lambda>run.
     bind_act (fetch (find_step sid)) (\<lambda>row.
     record_workflow_event D ((action_event run row aid ''workflow.step.failed''
       (step_lineage row @ [(''code'', JStr code)]))
       \<lparr>ev_kernel_run := Some kid, ev_approval := apid\<rparr>)))))"

definition action_refused ::
  "draws \<Rightarrow> ident \<Rightarrow> ident \<Rightarrow> ident \<Rightarrow> ident option \<Rightarrow> string \<Rightarrow> ident \<Rightarrow> string \<Rightarrow> ident option \<Rightarrow>
   ('x, unit) wact" where
  "action_refused D rid sid aid apid message kid code needs =
     bind_act (fetch_rows rid sid aid) (\<lambda>_.
     bind_act (put (set_step sid (\<lambda>r. r\<lparr>sr_kernel_run := Some kid\<rparr>)
        \<circ> set_attempt aid (\<lambda>a. a\<lparr>sa_kernel_run := Some kid\<rparr>))) (\<lambda>_.
     bind_act (if code = ''approval_required'' \<and> present needs then action_waits D rid sid aid kid (the needs)
               else action_fails D rid sid aid kid apid code message) (\<lambda>_.
     commit_all)))"

definition action_completes ::
  "draws \<Rightarrow> ident \<Rightarrow> ident \<Rightarrow> ident \<Rightarrow> ident option \<Rightarrow> runtime_response \<Rightarrow> ('x, unit) wact" where
  "action_completes D rid sid aid apid resp =
     (let value = (case rr_result resp of Some v \<Rightarrow> v | None \<Rightarrow> []) in
      bind_act (fetch_rows rid sid aid) (\<lambda>_.
      bind_act (draw (now_at D)) (\<lambda>now.
      bind_act (put (set_step sid (\<lambda>r. r\<lparr>sr_status := Step_Completed, sr_kernel_run := Some (rr_run_id resp),
           sr_result := stored value, sr_error_code := None, sr_error := None, sr_finished := Some now\<rparr>)
         \<circ> set_attempt aid (\<lambda>a. a\<lparr>sa_status := Attempt_Completed, sa_kernel_run := Some (rr_run_id resp),
           sa_result := stored value, sa_error_code := None, sa_error := None, sa_finished := Some now\<rparr>))) (\<lambda>_.
      bind_act (fetch_rows rid sid aid) (\<lambda>(row, a, run).
      bind_act (record_workflow_event D ((action_event run row aid ''workflow.step.completed''
          (step_lineage row @ [(''result_keys'', JArr (map JStr (sort (map fst value))))]))
          \<lparr>ev_kernel_run := Some (rr_run_id resp), ev_approval := apid\<rparr>)) (\<lambda>_.
      commit_all))))))"

text \<open>What the engine makes of the kernel's answer: only its own error ends the step.\<close>

definition kernel_outcome ::
  "draws \<Rightarrow> ident \<Rightarrow> ident \<Rightarrow> ident \<Rightarrow> ident option \<Rightarrow> runtime_response result \<Rightarrow> ('x, unit) wact" where
  "kernel_outcome D rid sid aid apid r = (case r of
       Inr resp \<Rightarrow> action_completes D rid sid aid apid resp
     | Inl e \<Rightarrow> (case e of
           RuntimeExecutionError message kid code sc needs \<Rightarrow>
             action_refused D rid sid aid apid message kid code needs
         | _ \<Rightarrow> raise e))"

definition call_kernel ::
  "host \<Rightarrow> 'x wf_env \<Rightarrow> draws \<Rightarrow> ident \<Rightarrow> ident \<Rightarrow> ident \<Rightarrow> ident option \<Rightarrow> wf_run \<Rightarrow> exec_context \<Rightarrow>
   runtime_request \<Rightarrow> ('x, unit) wact" where
  "call_kernel H E D rid sid aid apid run ctx req s =
     (case run_kernel H E D run ctx req s of (r, s') \<Rightarrow> kernel_outcome D rid sid aid apid r s')"

text \<open>From the authority to the outcome.\<close>

definition run_action ::
  "host \<Rightarrow> 'x wf_env \<Rightarrow> draws \<Rightarrow> ident \<Rightarrow> ident \<Rightarrow> ident \<Rightarrow> ident option \<Rightarrow> ('x, unit) wact" where
  "run_action H E D rid sid aid apid =
     bind_act (fetch_rows rid sid aid) (\<lambda>(row, a, run).
     if \<not> present (rn_authority run) then
       fail_before_runtime D rid sid aid ''authority_unavailable'' ''Workflow authority user is unavailable''
     else
       bind_act (reads wf_authority) (\<lambda>db.
       case resolve_authority H db run row a of
         Inl e \<Rightarrow>
           if is_permission_error e then
             fail_before_runtime D rid sid aid ''authority_unavailable'' (exn_message e)
           else raise e
       | Inr ctx \<Rightarrow> call_kernel H E D rid sid aid apid run ctx (kernel_request run row a apid)))"

definition action_step ::
  "host \<Rightarrow> 'x wf_env \<Rightarrow> draws \<Rightarrow> ident \<Rightarrow> ident option \<Rightarrow> wf_step \<Rightarrow> nat \<Rightarrow> json \<Rightarrow> ('x, ident) wact" where
  "action_step H E D rid existing s index ctx =
     bind_act (draw (now_at D)) (\<lambda>now.
     bind_act (ensure_row D rid existing s index) (\<lambda>sid.
     bind_act (fetch (find_step sid)) (\<lambda>row.
     bind_act (if sr_status row = Step_Waiting_Approval \<and> present (sr_approval row)
         then approval_branch D rid sid s now else fresh_branch H D rid sid s ctx now) (\<lambda>go.
     case go of
       None \<Rightarrow> ret sid
     | Some (aid, apid) \<Rightarrow>
         bind_act (start_action D rid sid aid apid now) (\<lambda>_.
         bind_act (run_action H E D rid sid aid apid) (\<lambda>_. ret sid))))))"

subsection \<open>The run\<close>

definition finished :: "wf_step_run option \<Rightarrow> bool" where
  "finished r = (case r of None \<Rightarrow> False | Some x \<Rightarrow> sr_status x \<in> {Step_Completed, Step_Skipped})"

text \<open>The rows of the run's steps by key, in the order they were met.\<close>

type_synonym step_rows = "(string \<times> ident) list"

definition rows_of :: "step_rows \<Rightarrow> wf_step_run list \<Rightarrow> (string \<times> wf_step_run) list" where
  "rows_of rows xs = List.map_filter (\<lambda>(k, i). map_option (Pair k) (find (\<lambda>r. sr_id r = i) xs)) rows"

definition catch_spec :: "('x, 'a) wact \<Rightarrow> (string \<Rightarrow> ('x, 'a) wact) \<Rightarrow> ('x, 'a) wact" where
  "catch_spec m h s = (case m s of (Inl (WorkflowSpecError e), t) \<Rightarrow> h e t | r \<Rightarrow> r)"

text \<open>One turn of the loop over the steps: \<open>None\<close> when \<open>execute_run\<close> returns from it.\<close>

definition after_wait :: "draws \<Rightarrow> ident \<Rightarrow> string option \<Rightarrow> step_rows \<Rightarrow> ident \<Rightarrow> ('x, step_rows option) wact" where
  "after_wait D rid token rows sid =
     bind_act (fetch (find_step sid)) (\<lambda>row.
     if sr_status row = Step_Waiting then ret None
     else bind_act (still_owned D rid token) (\<lambda>own. ret (if own then Some rows else None)))"

definition after_action ::
  "draws \<Rightarrow> ident \<Rightarrow> string option \<Rightarrow> wf_definition \<Rightarrow> wf_step \<Rightarrow> step_rows \<Rightarrow> ident \<Rightarrow>
   ('x, step_rows option) wact" where
  "after_action D rid token w s rows sid =
     bind_act (fetch (find_step sid)) (\<lambda>row.
     if sr_status row = Step_Waiting_Approval then ret None
     else bind_act (still_owned D rid token) (\<lambda>own.
       if \<not> own then ret None
       else if sr_status row = Step_Failed \<and> on_error s \<noteq> Continue then
         bind_act (fail_run D rid (Some w)
            (if present (sr_error_code row) then the (sr_error_code row) else ''step_failed'')
            (if present (sr_error row) then the (sr_error row) else ''Step '' @ step_id s @ '' failed''))
           (\<lambda>_. ret None)
       else ret (Some rows)))"

definition perform_step ::
  "host \<Rightarrow> 'x wf_env \<Rightarrow> draws \<Rightarrow> ident \<Rightarrow> string option \<Rightarrow> wf_definition \<Rightarrow> nat \<Rightarrow> wf_step \<Rightarrow>
   step_rows \<Rightarrow> json \<Rightarrow> bool \<Rightarrow> ('x, step_rows option) wact" where
  "perform_step H E D rid token w index s rows ctx should_run =
     (let existing = map_of rows (step_id s) in
      if \<not> should_run then
        bind_act (skip_step H D rid existing s index)
          (\<lambda>sid. ret (Some (AList.update (step_id s) sid rows)))
      else if step_kind s = ''wait'' then
        bind_act (catch_spec
            (bind_act (wait_step H D rid existing s index ctx) (\<lambda>sid. ret (Some sid)))
            (\<lambda>m. bind_act (fail_run D rid (Some w) ''wait_invalid'' m) (\<lambda>_. ret None)))
          (\<lambda>waited. case waited of
            None \<Rightarrow> ret None
          | Some sid \<Rightarrow> after_wait D rid token (AList.update (step_id s) sid rows) sid)
      else
        bind_act (action_step H E D rid existing s index ctx)
          (\<lambda>sid. after_action D rid token w s (AList.update (step_id s) sid rows) sid))"

text \<open>The first dependency that has no finished row.\<close>

definition missing_dependency :: "(string \<times> wf_step_run) list \<Rightarrow> wf_step \<Rightarrow> string option" where
  "missing_dependency cur s = find (\<lambda>d. \<not> finished (map_of cur d)) (depends_on s)"

definition decide_step ::
  "host \<Rightarrow> 'x wf_env \<Rightarrow> draws \<Rightarrow> ident \<Rightarrow> string option \<Rightarrow> wf_definition \<Rightarrow> nat \<Rightarrow> wf_step \<Rightarrow>
   step_rows \<Rightarrow> (string \<times> wf_step_run) list \<Rightarrow> ('x, step_rows option) wact" where
  "decide_step H E D rid token w index s rows cur =
     (if present (missing_dependency cur s) then
        bind_act (fail_run D rid (Some w) ''dependency_unavailable''
          (''Step '' @ step_id s @ '' depends on unfinished step ''
             @ the (missing_dependency cur s))) (\<lambda>_. ret None)
      else
        bind_act (fetch (find_run rid)) (\<lambda>run.
        let ctx = step_context H run cur in
        on_spec (case step_when s of None \<Rightarrow> Inr True | Some c \<Rightarrow> evaluate_condition H c ctx)
          (\<lambda>should_run. perform_step H E D rid token w index s rows ctx should_run)
          (\<lambda>m. bind_act (fail_run D rid (Some w) ''condition_invalid'' m) (\<lambda>_. ret None))))"

definition run_step ::
  "host \<Rightarrow> 'x wf_env \<Rightarrow> draws \<Rightarrow> ident \<Rightarrow> string option \<Rightarrow> wf_definition \<Rightarrow> nat \<Rightarrow> wf_step \<Rightarrow>
   step_rows \<Rightarrow> ('x, step_rows option) wact" where
  "run_step H E D rid token w index s rows =
     bind_act (reads (\<lambda>t. rows_of rows (wf_steps t))) (\<lambda>cur.
     if finished (map_of cur (step_id s)) then ret (Some rows)
     else decide_step H E D rid token w index s rows cur)"

fun run_steps ::
  "host \<Rightarrow> 'x wf_env \<Rightarrow> draws \<Rightarrow> ident \<Rightarrow> string option \<Rightarrow> wf_definition \<Rightarrow> nat \<Rightarrow> wf_step list \<Rightarrow>
   step_rows \<Rightarrow> ('x, step_rows option) wact" where
  "run_steps H E D rid token w index [] rows = ret (Some rows)"
| "run_steps H E D rid token w index (s # ss) rows =
     bind_act (still_owned D rid token) (\<lambda>own.
     if \<not> own then ret None
     else bind_act (run_step H E D rid token w index s rows) (\<lambda>r. case r of
         None \<Rightarrow> ret None
       | Some rows' \<Rightarrow> run_steps H E D rid token w (Suc index) ss rows'))"

definition finish_run :: "host \<Rightarrow> draws \<Rightarrow> ident \<Rightarrow> nat \<Rightarrow> step_rows \<Rightarrow> ('x, unit) wact" where
  "finish_run H D rid count rows =
     bind_act (reads (\<lambda>t. rows_of rows (wf_steps t))) (\<lambda>cur.
     let failed = filter (\<lambda>(k, r). sr_status r = Step_Failed) cur in
     bind_act (draw (now_at D)) (\<lambda>now.
     bind_act (put (set_run rid (\<lambda>r. r\<lparr>
        rn_status := (if failed \<noteq> [] then Run_Completed_With_Errors else Run_Completed),
        rn_step := None, rn_finished := Some now, rn_token := None, rn_until := None,
        rn_result := stored (map (\<lambda>(k, r). (k, step_summary r)) cur)\<rparr>))) (\<lambda>_.
     bind_act (fetch (find_run rid)) (\<lambda>run.
     bind_act (record_workflow_event D ((run_event run
         (if failed \<noteq> [] then ''workflow.run.completed_with_errors'' else ''workflow.run.completed'')
         [(''step_count'', JInt (int count)),
          (''failed_continued_steps'', JArr (map (\<lambda>(k, r). JStr (sr_key r)) failed))])
         \<lparr>ev_principal := run_principal_text run\<rparr>)) (\<lambda>_.
     commit_all)))))"

definition begin_run :: "draws \<Rightarrow> wf_run \<Rightarrow> ('x, unit) wact" where
  "begin_run D run =
     bind_act (if rn_started run = None then bind_act (draw (now_at D)) (\<lambda>now.
         put (set_run (rn_id run) (\<lambda>r. r\<lparr>rn_started := Some now\<rparr>))) else ret ()) (\<lambda>_.
     bind_act (put (set_run (rn_id run) (\<lambda>r. r\<lparr>rn_status := Run_Running, rn_error_code := None,
        rn_error := None\<rparr>))) (\<lambda>_.
     bind_act (fetch (find_run (rn_id run))) (\<lambda>r.
     bind_act (record_workflow_event D ((run_event r
         (if rn_started run = None then ''workflow.run.started'' else ''workflow.run.resumed'')
         [(''scope_kind'', JStr (rn_scope r)), (''workflow_version_id'', JStr (rn_version r)),
          (''current_step_key'', opt_json (rn_step r)),
          (''authority_user_id'', opt_json (rn_authority r))])
         \<lparr>ev_principal := run_principal_text r\<rparr>)) (\<lambda>_.
     commit_all))))"

definition terminal :: "run_status \<Rightarrow> bool" where
  "terminal st = (st \<in> {Run_Completed, Run_Completed_With_Errors, Run_Cancelled, Run_Failed, Run_Orphaned})"

definition load_rows :: "ident \<Rightarrow> 'x wf_tables \<Rightarrow> step_rows" where
  "load_rows rid t = fold (\<lambda>r rows. AList.update (sr_key r) (sr_id r) rows)
     (sort_key sr_order (filter (\<lambda>r. sr_run r = rid) (wf_steps t))) []"

definition execute_run ::
  "host \<Rightarrow> 'x wf_env \<Rightarrow> draws \<Rightarrow> ident \<Rightarrow> string option \<Rightarrow> ('x, unit) wact" where
  "execute_run H E D rid token =
     bind_act (reads (find_run rid)) (\<lambda>found. case found of
       None \<Rightarrow> raise (LookupError ''Workflow run is unavailable'')
     | Some run \<Rightarrow>
         if terminal (rn_status run) then ret ()
         else if token \<noteq> None \<and> rn_token run \<noteq> token then ret ()
         else
           bind_act (reads (find_definition (rn_workflow run))) (\<lambda>wf.
           bind_act (reads (find_version (rn_version run))) (\<lambda>version.
           case (wf, version) of
             (Some w, Some v) \<Rightarrow>
               if or_workspace (wd_scope w) \<noteq> or_workspace (rn_scope run) then
                 fail_run D rid (Some w) ''scope_mismatch'' ''Workflow/run authority scope changed''
               else if wd_status w = ''archived'' then
                 fail_run D rid (Some w) ''workflow_archived'' ''Workflow has been archived''
               else if \<not> present (rn_authority run) then
                 fail_run D rid (Some w) ''authority_unavailable''
                   ''Workflow run authority user is unavailable''
               else on_spec (validate_workflow_spec H (loads (wv_spec v) (JObj [])))
                   (\<lambda>ss.
                     bind_act (begin_run D run) (\<lambda>_.
                     bind_act (reads (load_rows rid)) (\<lambda>rows.
                     bind_act (run_steps H E D rid token w 0 ss rows) (\<lambda>r. case r of
                       None \<Rightarrow> ret ()
                     | Some rows' \<Rightarrow>
                         bind_act (still_owned D rid token) (\<lambda>own.
                         if own then finish_run H D rid (length ss) rows' else ret ())))))
                   (\<lambda>m. fail_run D rid (Some w) ''invalid_spec'' m)
           | _ \<Rightarrow> fail_run D rid wf ''workflow_unavailable'' ''Workflow definition/version is unavailable'')))"

end
