(* ===== verification/Kernel_Frame.thy ===== *)
theory Kernel_Frame
  imports Kernel_Runtime
begin

text \<open>
  What an execution of the kernel leaves of the data that shares its session: a fact that holds of
  the committed and of the working data, and that the providers keep, holds of both afterwards,
  whatever the outcome. The components above the kernel rest on this.
\<close>

definition data_ok :: "('d \<Rightarrow> bool) \<Rightarrow> 'd ksession \<Rightarrow> bool" where
  "data_ok P s = (P (kt_data (committed s)) \<and> P (kt_data (working s)))"

definition providers_keep :: "('d \<Rightarrow> bool) \<Rightarrow> 'd kernel_env \<Rightarrow> bool" where
  "providers_keep P E = (\<forall>pid p. en_providers E pid = Some p \<longrightarrow> (\<forall>c spec args m d.
     P (committed d) \<and> P (working d) \<longrightarrow>
       P (committed (snd (p c spec args m d))) \<and> P (working (snd (p c spec args m d)))))"

lemma data_ok_simps [simp]:
  "data_ok P (commit s) = P (kt_data (working s))"
  "data_ok P (rollback s) = P (kt_data (committed s))"
  by (auto simp: data_ok_def session_simps)

lemma data_ok_on_working:
  "data_ok P s \<Longrightarrow> (\<And>t. kt_data (f t) = kt_data t) \<Longrightarrow> data_ok P (on_working f s)"
  by (simp add: data_ok_def session_simps)

lemma claim_request_approval_ok:
  "claim_request_approval H c r rid s = (res, s') \<Longrightarrow> data_ok P s \<Longrightarrow> data_ok P s'"
  by (auto simp: claim_request_approval_def data_ok_def session_simps split: if_splits sum.splits prod.splits)

lemma insert_claim_ok:
  assumes "insert_claim H c r key rid run race s = (res, s')" "data_ok P s"
  shows "data_ok P s'"
proof -
  have "s' = rollback (arrive race s) \<or> (\<exists>f. s' = commit (on_working f (arrive race s)) \<and> (\<forall>t. kt_data (f t) = kt_data t))"
    using assms(1) by (auto simp: insert_claim_def Let_def split: if_splits option.splits sum.splits)
  then show ?thesis using assms(2) by (auto simp: data_ok_def session_simps arrive_def add_missing_def)
qed

lemma reserve_request_ok:
  assumes "reserve_request H c r run race s = (res, s')" "data_ok P s"
  shows "data_ok P s'"
proof -
  let ?rid = "py_strip (text_or_empty (rq_request_id r))"
  have "s' = s \<or> (\<exists>key f. s' = commit (on_working (set_claim key f) s))
    \<or> (\<exists>key. bind_act (claim_request_approval H c r ?rid) (\<lambda>_. insert_claim H c r key ?rid run race) s = (res, s'))"
    using assms(1) by (auto simp: reserve_request_def Let_def split: if_splits option.splits sum.splits)
  then consider "s' = s" | key f where "s' = commit (on_working (set_claim key f) s)"
    | key where "bind_act (claim_request_approval H c r ?rid) (\<lambda>_. insert_claim H c r key ?rid run race) s = (res, s')"
    by blast
  then show ?thesis
  proof cases
    case 2
    with assms(2) show ?thesis by (simp add: data_ok_def session_simps set_claim_def)
  next
    case 3
    then show ?thesis
      using assms(2) by (auto simp: bind_act_def split: prod.splits sum.splits
          dest: claim_request_approval_ok insert_claim_ok)
  qed (use assms(2) in simp)
qed

lemma stage_reserve_ok:
  assumes "stage_reserve H F c spec r s = (res, s')" "data_ok P (w_session (xs_world s))"
  shows "data_ok P (w_session (xs_world s'))"
proof (cases "cs_risk spec = Read_Only")
  case False
  obtain rr sess where rr: "reserve_request H c r (fr_run F) (fr_race F) (w_session (xs_world s)) = (rr, sess)"
    by fastforce
  with False assms(1) have "w_session (xs_world s') = sess"
    by (auto simp: stage_reserve_def Let_def split: sum.splits reservation.splits)
  with reserve_request_ok [OF rr assms(2)] show ?thesis by simp
qed (use assms in \<open>simp add: stage_reserve_def\<close>)

lemma stage_provider_ok:
  assumes "providers_keep P E" "stage_provider E c spec m args s = (res, s')" "data_ok P (w_session (xs_world s))"
  shows "data_ok P (w_session (xs_world s'))"
proof (cases "find_provider E (cs_provider spec)")
  case (Inl e)
  with assms(2,3) show ?thesis by (simp add: stage_provider_def)
next
  case (Inr p)
  then obtain pid where p: "en_providers E pid = Some p"
    by (auto simp: find_provider_def Let_def split: option.splits)
  obtain x d where d: "p c spec args m (data_session (w_session (xs_world s))) = (x, d)" by fastforce
  have "P (committed d) \<and> P (working d)"
    using assms(1,3) p d unfolding providers_keep_def data_ok_def data_session_def
    by (metis session.select_convs snd_conv)
  with assms(2) Inr d show ?thesis by (auto simp: stage_provider_def data_ok_def put_data_def Let_def)
qed

lemma put_tables_ok:
  "data_ok P (w_session (xs_world s)) \<Longrightarrow> kt_data t = kt_data (tables_of s) \<Longrightarrow>
   data_ok P (w_session (xs_world (put_tables t s)))"
  by (simp add: put_tables_def data_ok_def session_simps tables_of_def)

lemma commit_world_ok:
  "data_ok P (w_session (xs_world s)) \<Longrightarrow> data_ok P (w_session (xs_world (commit_world s)))"
  "data_ok P (w_session (xs_world s)) \<Longrightarrow> data_ok P (w_session (xs_world (rollback_world s)))"
  by (simp_all add: commit_world_def rollback_world_def data_ok_def session_simps)

lemma finish_tables_data: "kt_data (snd (finish_tables F c spec r x resp s)) = kt_data (tables_of s)"
  by (auto simp: finish_tables_def persist_audit_def complete_request_def set_claim_def Let_def
      split: prod.splits sum.splits option.splits)

lemma stage_finish_ok: "invar (\<lambda>w. data_ok P (w_session w)) (stage_finish H F c spec r x)"
proof -
  have last: "invar (\<lambda>w. data_ok P (w_session w)) (stage_store F c spec r x)"
    unfolding invar_def stage_store_def Let_def
    by (auto simp: split_beta finish_tables_data intro!: commit_world_ok put_tables_ok split: sum.split)
  show ?thesis
    unfolding stage_finish_def
    by (intro invar_bind last; rule invar_same; (rule keeps_same_atoms | simp add: keeps_def same_world_def log_step_def))
qed

lemma persist_failure_ok:
  "data_ok P (w_session (xs_world s)) \<Longrightarrow> data_ok P (w_session (xs_world (persist_failure F c r code msg s)))"
  unfolding persist_failure_def Let_def
  by (intro commit_world_ok put_tables_ok) (auto simp: persist_audit_def tables_of_def Let_def)

lemma handle_exn_ok:
  assumes "data_ok P (w_session (xs_world s))"
  shows "data_ok P (w_session (xs_world (snd (handle_exn H F c r e s))))"
proof -
  let ?s = "rollback_world s"
  have "data_ok P (w_session (xs_world ?s))" using assms by (rule commit_world_ok)
  moreover from this have "data_ok P (w_session (xs_world (put_tables (tables_of ?s\<lparr>kt_approvals := rows\<rparr>) ?s)))" for rows
    by (rule put_tables_ok) simp
  ultimately show ?thesis
    using assms by (cases e) (auto simp: handle_exn_def handle_with_def handle_runtime_error_def Let_def split_beta
        intro!: persist_failure_ok split: sum.split)
qed

lemma kernel_execute_ok:
  assumes "providers_keep P E" "data_ok P (w_session w)"
  shows "data_ok P (w_session (snd (kernel_execute H E F c r w)))"
proof -
  let ?s = "start_state F w"
  obtain r1 s1 where p1: "stage_plan H E c r ?s = (r1, s1)" by fastforce
  note k1 = keeps_sameD [OF stage_plan_keeps p1]
  obtain rb sb where b: "kernel_body H E F c r ?s = (rb, sb)" by fastforce
  have "data_ok P (w_session (xs_world sb))"
  proof (cases r1)
    case (Inl e)
    with p1 b k1 assms(2) show ?thesis by (simp add: kernel_body_def start_state_def)
  next
    case (Inr sm)
    then obtain spec m where r1: "r1 = Inr (spec, m)" by (cases sm) auto
    let ?xr = "execution_request r spec"
    obtain r2 s2 where p2: "stage_replay H c spec ?xr s1 = (r2, s2)" by fastforce
    obtain r3 s3 where p3: "stage_authorize H c spec ?xr s2 = (r3, s3)" by fastforce
    obtain r4 s4 where p4: "stage_reserve H F c spec ?xr s3 = (r4, s4)" by fastforce
    obtain r5 s5 where p5: "stage_provider E c spec m (rq_arguments r) s4 = (r5, s5)" by fastforce
    have w: "xs_world s2 = w" "xs_world s3 = w"
      using k1 keeps_sameD [OF stage_replay_keeps p2] keeps_sameD [OF stage_authorize_keeps p3]
      by (auto simp: start_state_def)
    have d4: "data_ok P (w_session (xs_world s4))"
      using assms(2) by (intro stage_reserve_ok [OF p4]) (simp add: w)
    note d5 = stage_provider_ok [OF assms(1) p5 d4]
    then have d6: "data_ok P (w_session (xs_world (snd (stage_finish H F c spec r x s5))))" for x
      using stage_finish_ok unfolding invar_def by blast
    show ?thesis
      using b kernel_body_stages [OF p1 [unfolded r1] p2 p3 p4 p5] w d4 d5 d6 assms(2)
      by (auto split: sum.splits option.splits) (metis snd_conv)+
  qed
  with b show ?thesis
    by (auto simp: kernel_execute_def split: sum.splits prod.splits) (metis handle_exn_ok snd_conv)
qed

end
