(* ===== verification/Wf_Frame.thy ===== *)
theory Wf_Frame
  imports Wf_Engine Kernel_Frame
begin

text \<open>
  What the engine leaves alone. One rule per combinator pushes an invariant through the engine's
  actions; the invariants are facts about the committed and the working step rows, so that they
  survive the kernel's commits and rollbacks, provided the kernel's providers keep them.
\<close>

subsection \<open>Invariants of actions\<close>

text \<open>Every outcome keeps \<open>I\<close>, and every value returned satisfies \<open>T\<close>.\<close>

definition yields :: "('s \<Rightarrow> bool) \<Rightarrow> ('a \<Rightarrow> bool) \<Rightarrow> ('s, 'a) act \<Rightarrow> bool" where
  "yields I T m = (\<forall>s. I s \<longrightarrow> I (snd (m s)) \<and> (\<forall>x. fst (m s) = Inr x \<longrightarrow> T x))"

lemma yieldsD: "yields I T m \<Longrightarrow> I s \<Longrightarrow> I (snd (m s))"
  by (simp add: yields_def)

named_theorems act_rules \<open>invariants of actions, one rule per combinator\<close>

lemma yields_bind:
  "yields I T m \<Longrightarrow> (\<And>x. T x \<Longrightarrow> yields I U (f x)) \<Longrightarrow> yields I U (bind_act m f)"
  unfolding yields_def bind_act_def by (fastforce split: prod.splits sum.splits)

lemma yields_bind_any [act_rules]:
  "yields I (\<lambda>_. True) m \<Longrightarrow> (\<And>x. yields I U (f x)) \<Longrightarrow> yields I U (bind_act m f)"
  by (rule yields_bind)

lemma yields_weaken: "yields I T m \<Longrightarrow> (\<And>x. T x \<Longrightarrow> U x) \<Longrightarrow> yields I U m"
  by (auto simp: yields_def)

lemma yields_atoms [act_rules]:
  "T x \<Longrightarrow> yields I T (ret x)"
  "yields I T (raise e)"
  "(\<And>x. r = Inr x \<Longrightarrow> T x) \<Longrightarrow> yields I T (lift r)"
  "(\<And>s. T (g s)) \<Longrightarrow> yields I T (\<lambda>s. (Inr (g s), s))"
  by (auto simp: yields_def)

lemma yields_reads [act_rules]:
  "(\<And>t. T (h t)) \<Longrightarrow> yields I T (reads h)"
  "(\<And>t x. k t = Some x \<Longrightarrow> T x) \<Longrightarrow> yields I T (fetch k)"
  by (auto simp: yields_def reads_def fetch_def split: option.splits)

lemma yields_if [act_rules]:
  "(b \<Longrightarrow> yields I T m) \<Longrightarrow> (\<not> b \<Longrightarrow> yields I T n) \<Longrightarrow> yields I T (if b then m else n)"
  by simp

lemma yields_cases [act_rules]:
  "(x = None \<Longrightarrow> yields I T m) \<Longrightarrow> (\<And>y. x = Some y \<Longrightarrow> yields I T (f y)) \<Longrightarrow>
   yields I T (case x of None \<Rightarrow> m | Some y \<Rightarrow> f y)"
  "(\<And>a b. p = (a, b) \<Longrightarrow> yields I T (g a b)) \<Longrightarrow> yields I T (case p of (a, b) \<Rightarrow> g a b)"
  by (auto split: option.split prod.split)

lemma yields_catch [act_rules]:
  "yields I T m \<Longrightarrow> (\<And>e. yields I T (h e)) \<Longrightarrow> yields I T (catch_spec m h)"
  unfolding yields_def catch_spec_def by (fastforce split: prod.splits sum.splits exn.splits)

lemma yields_on_spec [act_rules]:
  "(\<And>x. yields I T (f x)) \<Longrightarrow> (\<And>m. yields I T (h m)) \<Longrightarrow> yields I T (on_spec r f h)"
  by (auto simp: on_spec_def intro!: act_rules split: sum.split exn.split)

subsection \<open>Facts about step rows\<close>

text \<open>Facts about the number of readings so far and the rows, committed and working.\<close>

type_synonym step_fact = "nat \<Rightarrow> wf_step_run list \<Rightarrow> bool"

definition on_steps :: "step_fact \<Rightarrow> 'x wf_state \<Rightarrow> bool" where
  "on_steps Q s = data_ok (\<lambda>t. Q (wf_tick s) (wf_steps t)) (w_session (wf_world s))"

text \<open>Updates of a row that keep what identifies it.\<close>

definition same_step :: "(wf_step_run \<Rightarrow> wf_step_run) \<Rightarrow> bool" where
  "same_step f = (\<forall>r. sr_id (f r) = sr_id r \<and> sr_key (f r) = sr_key r \<and> sr_run (f r) = sr_run r)"

definition env_keeps :: "step_fact \<Rightarrow> 'x wf_env \<Rightarrow> bool" where
  "env_keeps Q E = (\<forall>n. providers_keep (\<lambda>t. Q n (wf_steps t)) (en_personal E)
     \<and> providers_keep (\<lambda>t. Q n (wf_steps t)) (en_workspace E))"

lemma on_steps_put:
  "(\<And>n t. Q n (wf_steps t) \<Longrightarrow> Q n (wf_steps (f t))) \<Longrightarrow> yields (on_steps Q) (\<lambda>_. True) (put f)"
  by (simp add: yields_def on_steps_def put_def on_tables_def on_kernel_def data_ok_def session_simps)

lemma on_steps_other [act_rules]:
  "yields (on_steps Q) (\<lambda>_. True) commit_all"
  "yields (on_steps Q) (\<lambda>_. True) (put (set_run rid u))"
  "yields (on_steps Q) (\<lambda>_. True) (put (set_attempt aid g))"
  "yields (on_steps Q) (\<lambda>_. True) (put (\<lambda>t. t\<lparr>wf_attempts := h t\<rparr>))"
  "yields (on_steps Q) (\<lambda>_. True) (put (\<lambda>t. t\<lparr>wf_runs := k t\<rparr>))"
  by (auto intro!: on_steps_put simp: set_run_def set_attempt_def)
    (simp_all add: yields_def on_steps_def commit_all_def data_ok_def session_simps)

lemma same_step_updates [simp]:
  "same_step (\<lambda>r. r\<lparr>sr_status := a\<rparr>)" "same_step (\<lambda>r. r\<lparr>sr_status := a, sr_finished := b\<rparr>)"
  "same_step (\<lambda>r. r\<lparr>sr_wait_until := c\<rparr>)" "same_step (next_attempt i)"
  "same_step (\<lambda>r. r\<lparr>sr_arguments := d\<rparr>)"
  "same_step (\<lambda>r. started_or n (r\<lparr>sr_arguments := d, sr_status := a\<rparr>))"
  "same_step (\<lambda>r. started_or n (r\<lparr>sr_status := a\<rparr>))"
  "same_step (\<lambda>r. started_or n (r\<lparr>sr_status := a, sr_finished := b, sr_result := e\<rparr>))"
  "same_step (\<lambda>r. r\<lparr>sr_status := a, sr_error_code := g, sr_error := h, sr_finished := b\<rparr>)"
  "same_step (\<lambda>r. r\<lparr>sr_attempt := p r, sr_request := q r\<rparr>)"
  "same_step (\<lambda>r. r\<lparr>sr_status := a, sr_approval := k\<rparr>)" "same_step (\<lambda>r. r\<lparr>sr_kernel_run := l\<rparr>)"
  "same_step (\<lambda>r. r\<lparr>sr_status := a, sr_kernel_run := l, sr_result := e, sr_error_code := g,
     sr_error := h, sr_finished := b\<rparr>)"
  by (simp_all add: same_step_def started_or_def next_attempt_def split: option.splits)

text \<open>
  A fact that stays when time passes is kept by every action that writes no step row.
\<close>

locale time_frame =
  fixes Q :: step_fact
  assumes later: "Q n xs \<Longrightarrow> Q (Suc n) xs"
begin

lemma draw_rule: "yields (on_steps Q) (\<lambda>_. True) (draw f)"
  by (auto simp: yields_def draw_def on_steps_def data_ok_def intro: later)

lemma record_rule: "yields (on_steps Q) (\<lambda>_. True) (record_workflow_event D e)"
  unfolding record_workflow_event_def
  by (intro act_rules draw_rule) (auto simp: yields_def on_steps_def on_kernel_def data_ok_def session_simps)

lemma refresh_rule: "yields (on_steps Q) (\<lambda>_. True) (refresh_run D i)"
  unfolding refresh_run_def
  by (intro act_rules draw_rule) (auto simp: yields_def on_steps_def data_ok_def set_run_def)

lemma kernel_rule:
  "env_keeps Q E \<Longrightarrow> yields (on_steps Q) (\<lambda>_. True) (run_kernel H E D run ctx req)"
  unfolding yields_def run_kernel_def on_steps_def env_keeps_def
  by (auto split: prod.split simp: data_ok_def intro!: later)
    (metis data_ok_def kernel_execute_ok snd_conv)+

lemmas quiet_rules = act_rules draw_rule record_rule refresh_rule TrueI

lemma still_owned_frame: "yields (on_steps Q) (\<lambda>_. True) (still_owned D i token)"
  unfolding still_owned_def by (intro quiet_rules)

lemma fail_run_frame: "yields (on_steps Q) (\<lambda>_. True) (fail_run D i w code m)"
  unfolding fail_run_def by (intro quiet_rules)

lemma begin_run_frame: "yields (on_steps Q) (\<lambda>_. True) (begin_run D run)"
  unfolding begin_run_def by (intro quiet_rules)

lemma finish_run_frame: "yields (on_steps Q) (\<lambda>_. True) (finish_run H D i n rows)"
  unfolding finish_run_def Let_def by (intro quiet_rules)

end

text \<open>
  The contract of an invariant of the step rows: it also allows the updates of the rows in \<open>T\<close>,
  and the new row of a step of the run with a key in \<open>K\<close>, whose id is the next one drawn. Every
  action of the engine on such a step then keeps it.
\<close>

locale step_frame = time_frame Q for Q :: step_fact +
  fixes D :: draws and rid :: ident and K :: "string set" and T :: "ident \<Rightarrow> bool"
  assumes update: "T sid \<Longrightarrow> same_step f \<Longrightarrow> Q n xs \<Longrightarrow> Q n (update_where (\<lambda>r. sr_id r = sid) f xs)"
    and add: "Q n xs \<Longrightarrow> sr_id r = id_at D n \<Longrightarrow> sr_run r = rid \<Longrightarrow> sr_key r \<in> K \<Longrightarrow> Q (Suc n) (xs @ [r])"
    and drawn: "Q n xs \<Longrightarrow> T (id_at D n)"
begin

lemma set_rules:
  assumes "T sid" "same_step f"
  shows "yields (on_steps Q) (\<lambda>_. True) (put (set_step sid f))"
    "yields (on_steps Q) (\<lambda>_. True) (put (set_step sid f \<circ> set_run i g))"
    "yields (on_steps Q) (\<lambda>_. True) (put (set_step sid f \<circ> set_attempt aid h))"
  using assms by (auto intro!: on_steps_put update simp: set_step_def set_run_def set_attempt_def)

lemmas rules = set_rules quiet_rules

lemma ensure_row_frame:
  assumes "\<And>sid. ex = Some sid \<Longrightarrow> T sid" "step_id s \<in> K"
  shows "yields (on_steps Q) T (ensure_row D rid ex s index)"
proof (cases ex)
  case None
  with assms(2) show ?thesis
    by (auto simp: ensure_row_def yields_def bind_act_def draw_def put_def on_tables_def on_kernel_def on_steps_def
        data_ok_def session_simps new_step_run_def intro: add later drawn)
qed (use assms in \<open>auto simp: ensure_row_def intro!: act_rules\<close>)

lemma fail_before_runtime_frame:
  "T sid \<Longrightarrow> yields (on_steps Q) (\<lambda>_. True) (fail_before_runtime D i sid aid code m)"
  unfolding fail_before_runtime_def by (intro rules) simp_all

lemma add_attempt_frame:
  "yields (on_steps Q) (\<lambda>_. True) (add_attempt D sid s st code m n e)"
  unfolding add_attempt_def by (intro rules)

lemma approval_branch_frame:
  "T sid \<Longrightarrow> yields (on_steps Q) (\<lambda>_. True) (approval_branch D i sid s now)"
  unfolding approval_branch_def lineage_missing_def approval_rejected_def
  by (intro rules fail_before_runtime_frame add_attempt_frame) simp_all

lemma fresh_branch_frame:
  "T sid \<Longrightarrow> yields (on_steps Q) (\<lambda>_. True) (fresh_branch H D i sid s ctx now)"
  unfolding fresh_branch_def
  by (intro rules fail_before_runtime_frame add_attempt_frame) simp_all

lemma start_action_frame:
  "T sid \<Longrightarrow> yields (on_steps Q) (\<lambda>_. True) (start_action D i sid aid apid now)"
  unfolding start_action_def by (intro rules) simp_all

lemma action_refused_frame:
  "T sid \<Longrightarrow> yields (on_steps Q) (\<lambda>_. True) (action_refused D i sid aid apid m kid code needs)"
  unfolding action_refused_def action_waits_def action_fails_def fetch_rows_def
  by (intro rules) simp_all

lemma action_completes_frame:
  "T sid \<Longrightarrow> yields (on_steps Q) (\<lambda>_. True) (action_completes D i sid aid apid resp)"
  unfolding action_completes_def fetch_rows_def Let_def
  by (intro rules) simp_all

lemma kernel_outcome_frame:
  "T sid \<Longrightarrow> yields (on_steps Q) (\<lambda>_. True) (kernel_outcome D i sid aid apid r)"
  unfolding kernel_outcome_def
  by (auto intro: action_refused_frame action_completes_frame yields_atoms split: sum.split exn.split)

lemma call_kernel_frame:
  assumes "T sid" "env_keeps Q E"
  shows "yields (on_steps Q) (\<lambda>_. True) (call_kernel H E D i sid aid apid run ctx req)"
  unfolding yields_def
proof (intro allI impI conjI TrueI)
  fix st :: "'a wf_state" assume st: "on_steps Q st"
  obtain y st' where y: "run_kernel H E D run ctx req st = (y, st')" by fastforce
  have "on_steps Q st'"
    using kernel_rule [OF assms(2), of H D run ctx req] st y unfolding yields_def by (metis snd_conv)
  then have "on_steps Q (snd (kernel_outcome D i sid aid apid y st'))"
    using kernel_outcome_frame [OF assms(1)] unfolding yields_def by blast
  with y show "on_steps Q (snd (call_kernel H E D i sid aid apid run ctx req st))"
    by (simp add: call_kernel_def)
qed

lemma run_action_frame:
  assumes "T sid" "env_keeps Q E"
  shows "yields (on_steps Q) (\<lambda>_. True) (run_action H E D i sid aid apid)"
  unfolding run_action_def fetch_rows_def
  by (auto intro!: rules fail_before_runtime_frame call_kernel_frame assms split: sum.split)

lemma action_step_frame:
  assumes "\<And>sid. ex = Some sid \<Longrightarrow> T sid" "step_id s \<in> K" "env_keeps Q E"
  shows "yields (on_steps Q) T (action_step H E D rid ex s index ctx)"
  unfolding action_step_def
  by (rule yields_bind_any, rule draw_rule, rule yields_bind [OF ensure_row_frame])
    (use assms in \<open>auto intro!: rules approval_branch_frame fresh_branch_frame start_action_frame run_action_frame\<close>)

lemma wait_deadline_frame:
  "T sid \<Longrightarrow> yields (on_steps Q) (\<lambda>_. True) (wait_deadline H sid s ctx now)"
  unfolding wait_deadline_def
  by (auto intro!: rules split: option.split step_body.split)

lemma wait_step_frame:
  assumes "\<And>sid. ex = Some sid \<Longrightarrow> T sid" "step_id s \<in> K"
  shows "yields (on_steps Q) T (wait_step H D rid ex s index ctx)"
  unfolding wait_step_def
  by (rule yields_bind_any, rule draw_rule, rule yields_bind [OF ensure_row_frame])
    (use assms in \<open>auto intro!: rules wait_deadline_frame\<close>)

lemma skip_step_frame:
  assumes "\<And>sid. ex = Some sid \<Longrightarrow> T sid" "step_id s \<in> K"
  shows "yields (on_steps Q) T (skip_step H D rid ex s index)"
  unfolding skip_step_def
  by (rule yields_bind [OF ensure_row_frame]) (use assms in \<open>auto intro!: rules\<close>)

lemma perform_step_frame:
  assumes "step_id s \<in> K" "env_keeps Q E" "\<And>sid. map_of rows (step_id s) = Some sid \<Longrightarrow> T sid"
  shows "yields (on_steps Q) (\<lambda>_. True) (perform_step H E D rid token w index s rows ctx should_run)"
proof -
  note parts = yields_weaken [OF skip_step_frame [OF _ assms(1)] TrueI]
    yields_weaken [OF wait_step_frame [OF _ assms(1)] TrueI]
    yields_weaken [OF action_step_frame [OF _ assms(1,2)] TrueI]
  show ?thesis
    unfolding perform_step_def Let_def after_wait_def after_action_def
    by (intro rules parts still_owned_frame fail_run_frame) (auto intro: assms(3))
qed

lemma decide_step_frame:
  assumes "step_id s \<in> K" "env_keeps Q E" "\<And>sid. map_of rows (step_id s) = Some sid \<Longrightarrow> T sid"
  shows "yields (on_steps Q) (\<lambda>_. True) (decide_step H E D rid token w index s rows cur)"
  unfolding decide_step_def Let_def
  by (intro rules fail_run_frame perform_step_frame) (use assms in auto)

lemma run_step_frame:
  assumes "step_id s \<in> K" "env_keeps Q E" "on_steps Q st"
    and guard: "\<And>sid. map_of rows (step_id s) = Some sid \<Longrightarrow>
      \<not> finished (map_of (rows_of rows (wf_steps (tables st))) (step_id s)) \<Longrightarrow> T sid"
  shows "on_steps Q (snd (run_step H E D rid token w index s rows st))"
  using decide_step_frame [OF assms(1,2) guard] assms(3)
  unfolding run_step_def bind_act_def reads_def yields_def by simp

end

text \<open>When the finished rows are outside \<open>T\<close>, the loop and the whole run keep the invariant.\<close>

locale run_frame = step_frame +
  assumes guard: "Q n xs \<Longrightarrow> map_of rows key = Some sid \<Longrightarrow>
      \<not> finished (map_of (rows_of rows xs) key) \<Longrightarrow> T sid"
begin

lemma run_steps_frame:
  assumes "\<And>s. s \<in> set ss \<Longrightarrow> step_id s \<in> K" "env_keeps Q E"
  shows "yields (on_steps Q) (\<lambda>_. True) (run_steps H E D rid token w index ss rows)"
  using assms(1)
proof (induction ss arbitrary: index rows)
  case (Cons s ss)
  have "yields (on_steps Q) (\<lambda>_. True) (run_step H E D rid token w index s rows)"
    unfolding yields_def
  proof (intro allI impI conjI TrueI)
    fix st :: "'a wf_state" assume st: "on_steps Q st"
    then have q: "Q (wf_tick st) (wf_steps (tables st))"
      by (simp add: on_steps_def data_ok_def tables_def kernel_tables_of_def)
    show "on_steps Q (snd (run_step H E D rid token w index s rows st))"
      by (rule run_step_frame [OF _ assms(2) st]) (use Cons.prems guard [OF q] in auto)
  qed
  with Cons show ?case by (auto intro!: rules still_owned_frame)
qed (auto intro!: rules)

lemma execute_run_frame:
  assumes "K = UNIV" "env_keeps Q E"
  shows "yields (on_steps Q) (\<lambda>_. True) (execute_run H E D rid token)"
  unfolding execute_run_def
  by (intro rules run_steps_frame fail_run_frame still_owned_frame begin_run_frame finish_run_frame assms(2))
    (auto simp: assms(1))

end

subsection \<open>The frames of the model\<close>

interpretation rows: time_frame "\<lambda>_. P" for P
  by unfold_locales

text \<open>The row \<open>r\<close> stays as it is, unless \<open>b\<close>; the actions work on other rows.\<close>

definition row_kept :: "draws \<Rightarrow> bool \<Rightarrow> wf_step_run \<Rightarrow> step_fact" where
  "row_kept D b r n xs = (b \<or> (\<forall>m \<ge> n. id_at D m \<noteq> sr_id r) \<and> find (\<lambda>x. sr_id x = sr_id r) xs = Some r)"

definition row_free :: "bool \<Rightarrow> wf_step_run \<Rightarrow> ident \<Rightarrow> bool" where
  "row_free b r sid = (b \<or> sid \<noteq> sr_id r)"

interpretation kept: step_frame "row_kept D b r" D rid K "row_free b r" for D rid K b r
proof
  show "row_kept D b r n (update_where (\<lambda>x. sr_id x = sid) f xs)"
    if "row_free b r sid" "same_step f" "row_kept D b r n xs" for sid f n xs
    using that by (auto simp: row_kept_def row_free_def same_step_def find_update_where)
qed (auto simp: row_kept_def row_free_def find_append split: option.split)

lemma map_of_rows_of:
  "map_of rows k = Some i \<Longrightarrow> find (\<lambda>r. sr_id r = i) xs = Some r \<Longrightarrow> map_of (rows_of rows xs) k = Some r"
  by (induction rows) (auto simp: rows_of_def map_filter_simps split: option.splits if_splits)

interpretation final: run_frame "row_kept D (\<not> finished (Some r)) r" D rid K "row_free (\<not> finished (Some r)) r"
  for D rid K r
  by unfold_locales (auto simp: row_free_def row_kept_def dest!: map_of_rows_of)

end
