(* ===== verification/Wf_Laws.thy ===== *)
theory Wf_Laws
  imports Wf_Frame
begin

text \<open>
  What an execution of a run guarantees: finished steps are final, a step runs after its
  dependencies, a completed run has settled every step. The engine relies on providers that leave
  the step rows of runs alone, which is what \<open>spares_steps\<close> says; the kernel refuses the engine's
  own capabilities inside a workflow.
\<close>

subsection \<open>Providers that leave step rows alone\<close>

definition spares_steps :: "'x wf_tables kernel_env \<Rightarrow> bool" where
  "spares_steps E = (\<forall>pid p. en_providers E pid = Some p \<longrightarrow> (\<forall>c spec args m d.
     wf_steps (working (snd (p c spec args m d))) = wf_steps (working d)
     \<and> (wf_steps (committed (snd (p c spec args m d))) = wf_steps (committed d)
        \<or> wf_steps (committed (snd (p c spec args m d))) = wf_steps (working d))))"

lemma spares_keep: "spares_steps E \<Longrightarrow> providers_keep (\<lambda>t. P (wf_steps t)) E"
  unfolding spares_steps_def providers_keep_def by metis

lemma spares_env: "spares_steps (en_personal E) \<Longrightarrow> spares_steps (en_workspace E) \<Longrightarrow> env_keeps Q E"
  by (auto simp: env_keeps_def intro: spares_keep)

lemma on_steps_iff:
  "on_steps Q s \<longleftrightarrow> Q (wf_tick s) (wf_steps (committed_tables s)) \<and> Q (wf_tick s) (wf_steps (tables s))"
  by (simp add: on_steps_def data_ok_def committed_tables_def tables_def kernel_tables_of_def)

text \<open>A session that has nothing to commit among the step rows.\<close>

definition clean :: "'x wf_state \<Rightarrow> bool" where
  "clean s = (wf_steps (committed_tables s) = wf_steps (tables s))"


subsection \<open>Which ids and keys there are\<close>

text \<open>No id that is still to be drawn is in use.\<close>

definition ids_fresh :: "draws \<Rightarrow> step_fact" where
  "ids_fresh D n xs = (inj (id_at D) \<and> (\<forall>r \<in> set xs. \<forall>m \<ge> n. id_at D m \<noteq> sr_id r))"

interpretation fresh: step_frame "ids_fresh D" D rid K "\<lambda>_. True" for D rid K
proof
  show "ids_fresh D n (update_where (\<lambda>r. sr_id r = sid) f xs)" if "same_step f" "ids_fresh D n xs" for sid f n xs
    using that by (auto simp: ids_fresh_def same_step_def row_simps)
  show "ids_fresh D (Suc n) (xs @ [r])" if "ids_fresh D n xs" "sr_id r = id_at D n" for n xs r
    using that by (auto simp: ids_fresh_def dest!: injD [of "id_at D"])
qed (auto simp: ids_fresh_def)

text \<open>The rows of the run have keys in \<open>K\<close>.\<close>

definition keys_in :: "ident \<Rightarrow> string set \<Rightarrow> step_fact" where
  "keys_in rid K n xs = (\<forall>r \<in> set xs. sr_run r = rid \<longrightarrow> sr_key r \<in> K)"

interpretation keys: step_frame "keys_in rid K" D rid K "\<lambda>_. True" for D rid K
proof
  show "keys_in rid K n (update_where (\<lambda>r. sr_id r = sid) f xs)" if "same_step f" "keys_in rid K n xs" for sid f n xs
    using that by (auto simp: keys_in_def same_step_def row_simps)
qed (auto simp: keys_in_def)

text \<open>The row \<open>sid\<close> is a row of the run's step \<open>key\<close>.\<close>

definition row_of :: "ident \<Rightarrow> string \<Rightarrow> step_status set \<Rightarrow> ident \<Rightarrow> wf_step_run list \<Rightarrow> bool" where
  "row_of rid key S sid xs = (case find (\<lambda>r. sr_id r = sid) xs of
     Some q \<Rightarrow> sr_run q = rid \<and> sr_key q = key \<and> sr_status q \<in> S | None \<Rightarrow> False)"

interpretation named: step_frame "\<lambda>n. row_of rid key UNIV sid" D rid' K "\<lambda>_. True" for D rid' K rid key sid
proof
  show "row_of rid key UNIV sid (update_where (\<lambda>r. sr_id r = i) f xs)"
    if "same_step f" "row_of rid key UNIV sid xs" for i f xs
    using that by (auto simp: row_of_def same_step_def find_update_where split: option.splits)
qed (auto simp: row_of_def find_append split: option.splits)

end
