(* ===== verification/Wf_Outcomes.thy ===== *)
theory Wf_Outcomes
  imports Wf_Laws
begin

text \<open>
  What the engine's actions on a step establish when they succeed: the step's row, its status and
  that it is committed. One rule per combinator carries a postcondition through an action.
\<close>


subsection \<open>What the actions on a step establish\<close>

text \<open>A successful outcome of \<open>m\<close> from \<open>R\<close> satisfies \<open>Q\<close>.\<close>

definition valid :: "('s \<Rightarrow> bool) \<Rightarrow> ('s, 'a) act \<Rightarrow> ('a \<Rightarrow> 's \<Rightarrow> bool) \<Rightarrow> bool" where
  "valid R m Q = (\<forall>s x s'. R s \<longrightarrow> m s = (Inr x, s') \<longrightarrow> Q x s')"

definition wk :: "(wf_step_run list \<Rightarrow> bool) \<Rightarrow> 'x wf_state \<Rightarrow> bool" where
  "wk P s = P (wf_steps (tables s))"

definition bk :: "(wf_step_run list \<Rightarrow> bool) \<Rightarrow> 'x wf_state \<Rightarrow> bool" where
  "bk P s = (clean s \<and> P (wf_steps (tables s)))"

named_theorems post_rules \<open>postconditions of actions, one rule per combinator\<close>

lemma valid_bind [post_rules]:
  "valid R m M \<Longrightarrow> (\<And>x. valid (M x) (f x) Q) \<Longrightarrow> valid R (bind_act m f) Q"
  unfolding valid_def by (auto simp: bind_act_Inr_iff)

lemma valid_conseq: "valid R m Q \<Longrightarrow> (\<And>s. R' s \<Longrightarrow> R s) \<Longrightarrow> (\<And>x s. Q x s \<Longrightarrow> Q' x s) \<Longrightarrow> valid R' m Q'"
  unfolding valid_def by blast

lemma valid_ret: "valid (Q x) (ret x) Q"
  by (simp add: valid_def)

lemma valid_raise [post_rules]: "valid R (raise e) Q"
  by (simp add: valid_def)

lemma valid_if: "(b \<Longrightarrow> valid R m Q) \<Longrightarrow> (\<not> b \<Longrightarrow> valid R n Q) \<Longrightarrow> valid R (if b then m else n) Q"
  by simp

lemma valid_readers [post_rules]:
  "valid R (reads g) (\<lambda>_. R)" "valid R (fetch k) (\<lambda>_. R)" "valid R (\<lambda>s. (Inr (h s), s)) (\<lambda>_. R)"
  by (auto simp: valid_def reads_def fetch_def split: option.splits)

lemma valid_lift [post_rules]: "valid R (lift r) (\<lambda>_. R)"
  by (auto simp: valid_def)

lemma tables_on_tables [simp]: "tables (on_tables f s) = f (tables s)"
  "committed_tables (on_tables f s) = committed_tables s" "wf_tick (on_tables f s) = wf_tick s"
  by (simp_all add: tables_def on_tables_def on_kernel_def kernel_tables_of_def session_simps committed_tables_def)

lemma valid_wk [post_rules]:
  "valid (wk P) (draw f) (\<lambda>_. wk P)"
  "valid (wk P) (put (set_run i u)) (\<lambda>_. wk P)"
  "valid (wk P) (put (set_attempt aid g)) (\<lambda>_. wk P)"
  "valid (wk P) (put (\<lambda>t. t\<lparr>wf_attempts := h t\<rparr>)) (\<lambda>_. wk P)"
  "valid (wk P) (record_workflow_event D e) (\<lambda>_. wk P)"
  "valid (wk P) commit_all (\<lambda>_. bk P)"
  by (auto simp: valid_def wk_def bk_def clean_def draw_def put_def set_run_def set_attempt_def commit_all_def tables_def
      kernel_tables_of_def session_simps record_workflow_event_def bind_act_def on_kernel_def committed_tables_def
      on_tables_def split: if_splits)

lemma row_of_update:
  "row_of r k S sid xs \<Longrightarrow> same_step f \<Longrightarrow> (\<And>q. sr_status q \<in> S \<Longrightarrow> sr_status (f q) \<in> S') \<Longrightarrow>
   row_of r k S' sid (update_where (\<lambda>q. sr_id q = sid) f xs)"
  by (auto simp: row_of_def same_step_def find_update_where dest: find_SomeD split: option.splits)

lemma valid_set:
  assumes "same_step f" "\<And>q. sr_status q \<in> S \<Longrightarrow> sr_status (f q) \<in> S'"
  shows "valid (wk (row_of r k S sid)) (put (set_step sid f)) (\<lambda>_. wk (row_of r k S' sid))"
    "valid (wk (row_of r k S sid)) (put (set_step sid f \<circ> set_run i u)) (\<lambda>_. wk (row_of r k S' sid))"
    "valid (wk (row_of r k S sid)) (put (set_step sid f \<circ> set_attempt aid g)) (\<lambda>_. wk (row_of r k S' sid))"
  using row_of_update [OF _ assms]
  by (auto simp: valid_def wk_def put_def set_step_def set_run_def set_attempt_def)

text \<open>The updates that set the status, and those that do not.\<close>

lemmas valid_set_status = valid_set [where S' = "{a}" for a, simplified singleton_iff]
lemmas valid_set_same = valid_set [where S' = S and S = S for S]

lemma row_of_mono: "row_of r k S sid xs \<Longrightarrow> S \<subseteq> S' \<Longrightarrow> row_of r k S' sid xs"
  by (auto simp: row_of_def split: option.splits)

lemma bk_mono: "bk (row_of r k S sid) s \<Longrightarrow> S \<subseteq> S' \<Longrightarrow> bk (row_of r k S' sid) s"
  by (auto simp: bk_def intro: row_of_mono)

lemma wk_mono: "wk (row_of r k S sid) s \<Longrightarrow> S \<subseteq> S' \<Longrightarrow> wk (row_of r k S' sid) s"
  by (auto simp: wk_def intro: row_of_mono)

lemma bk_wk: "bk P s \<Longrightarrow> wk P s"
  by (simp add: bk_def wk_def)

lemma fail_before_runtime_post:
  "valid (wk (row_of r k S sid)) (fail_before_runtime D i sid aid code m) (\<lambda>_. bk (row_of r k {Step_Failed} sid))"
  unfolding fail_before_runtime_def by (rule post_rules valid_set_status | simp)+

lemma add_attempt_post:
  "valid (wk P) (add_attempt D sid s st code m n e) (\<lambda>_. wk P)"
  unfolding add_attempt_def by (rule post_rules valid_ret)+

lemma lineage_missing_post:
  "valid (wk (row_of r k S sid)) (lineage_missing D i sid s now) (\<lambda>_. bk (row_of r k {Step_Failed} sid))"
  unfolding lineage_missing_def
  by (rule post_rules valid_set_same add_attempt_post fail_before_runtime_post | simp)+

lemma approval_rejected_post:
  "valid (wk (row_of r k S sid)) (approval_rejected D i sid aid ap now) (\<lambda>_. bk (row_of r k {Step_Failed} sid))"
  unfolding approval_rejected_def by (rule post_rules valid_set_status | simp)+

text \<open>A branch either has settled the step, or leaves the row for the execution.\<close>

definition branch_post :: "ident \<Rightarrow> string \<Rightarrow> ident \<Rightarrow> (ident \<times> ident option) option \<Rightarrow> 'x wf_state \<Rightarrow> bool" where
  "branch_post r k sid go = (case go of
     None \<Rightarrow> bk (row_of r k {Step_Failed, Step_Waiting_Approval} sid)
   | Some _ \<Rightarrow> wk (row_of r k UNIV sid))"

lemma branch_settled:
  "valid R m (\<lambda>_. bk (row_of r k S sid)) \<Longrightarrow> S \<subseteq> {Step_Failed, Step_Waiting_Approval} \<Longrightarrow>
   valid R (bind_act m (\<lambda>_. ret None)) (branch_post r k sid)"
  by (auto simp: valid_def bind_act_Inr_iff branch_post_def intro: bk_mono)

lemma branch_goes:
  "valid R m (\<lambda>_. wk (row_of r k S sid)) \<Longrightarrow>
   valid R (bind_act m (\<lambda>a. ret (Some (f a)))) (branch_post r k sid)"
  unfolding valid_def bind_act_Inr_iff branch_post_def by (fastforce intro: wk_mono)

lemma approval_branch_post:
  "valid (wk (row_of r k {Step_Waiting_Approval} sid)) (approval_branch D i sid s now) (branch_post r k sid)"
proof -
  have p: "valid (wk (row_of r k {Step_Waiting_Approval} sid))
      (bind_act (put (set_run i u)) (\<lambda>_. bind_act commit_all (\<lambda>_. ret None))) (branch_post r k sid)" for u
    by (rule valid_bind [OF valid_wk(2)], rule branch_settled [OF valid_wk(6)]) simp
  show ?thesis
    unfolding approval_branch_def
    by (rule valid_bind [OF valid_readers(2)], rule valid_bind [OF valid_readers(1)])
      (auto intro!: valid_bind [OF valid_readers(3)] p branch_settled [OF lineage_missing_post] branch_settled [OF approval_rejected_post]
        branch_goes valid_wk split: option.split)
qed

lemma valid_on_spec:
  "(\<And>a. valid R (f a) Q) \<Longrightarrow> (\<And>m. valid R (h m) Q) \<Longrightarrow> valid R (on_spec x f h) Q"
  by (auto simp: on_spec_def intro: valid_raise split: sum.split exn.split)

lemma fresh_branch_post:
  "valid (wk (row_of r k UNIV sid)) (fresh_branch H D i sid s ctx now) (branch_post r k sid)"
  unfolding fresh_branch_def
  by (rule valid_bind [OF valid_set_same(1)] valid_on_spec branch_goes [OF add_attempt_post]
      branch_settled [OF fail_before_runtime_post] valid_bind [OF add_attempt_post] | simp)+

lemma start_action_post:
  "valid (wk (row_of r k UNIV sid)) (start_action D i sid aid apid now) (\<lambda>_. bk (row_of r k UNIV sid))"
  unfolding start_action_def by (rule post_rules valid_set_same | simp)+

lemma fetch_rows_post: "valid R (fetch_rows i sid aid) (\<lambda>_. R)"
  unfolding fetch_rows_def by (rule post_rules valid_ret)+

lemma bk_strengthen: "valid (wk P) m Q \<Longrightarrow> valid (bk P) m Q"
  unfolding valid_def by (blast intro: bk_wk)

lemma action_waits_post:
  "valid (wk (row_of r k S sid)) (action_waits D i sid aid kid apid) (\<lambda>_. wk (row_of r k {Step_Waiting_Approval} sid))"
  unfolding action_waits_def by (rule post_rules valid_set_status | simp)+

lemma action_fails_post:
  "valid (wk (row_of r k S sid)) (action_fails D i sid aid kid apid code m) (\<lambda>_. wk (row_of r k {Step_Failed} sid))"
  unfolding action_fails_def by (rule post_rules valid_set_status | simp)+

lemma action_refused_post:
  "valid (wk (row_of r k UNIV sid)) (action_refused D i sid aid apid m kid code needs)
     (\<lambda>_. bk (row_of r k {Step_Failed, Step_Waiting_Approval} sid))"
proof -
  let ?S = "{Step_Failed, Step_Waiting_Approval}"
  have w: "valid (wk (row_of r k UNIV sid)) (action_waits D i sid aid kid a) (\<lambda>_. wk (row_of r k ?S sid))"
    and f: "valid (wk (row_of r k UNIV sid)) (action_fails D i sid aid kid apid code m) (\<lambda>_. wk (row_of r k ?S sid))" for a
    by (auto intro: valid_conseq [OF action_waits_post] valid_conseq [OF action_fails_post] wk_mono)
  show ?thesis
    unfolding action_refused_def
    by (rule valid_bind [OF fetch_rows_post] valid_bind [OF valid_set_same(3)] valid_bind [OF valid_if [OF w f]]
        valid_wk | simp)+
qed

lemma action_completes_post:
  "valid (wk (row_of r k UNIV sid)) (action_completes D i sid aid apid resp) (\<lambda>_. bk (row_of r k {Step_Completed} sid))"
  unfolding action_completes_def Let_def case_prod_beta
  by (rule post_rules valid_set_status fetch_rows_post | simp)+

definition ACTION_ENDS :: "step_status set" where
  "ACTION_ENDS = {Step_Failed, Step_Waiting_Approval, Step_Completed}"

lemma kernel_outcome_post:
  "valid (wk (row_of r k UNIV sid)) (kernel_outcome D i sid aid apid x) (\<lambda>_. bk (row_of r k ACTION_ENDS sid))"
proof -
  have "valid (wk (row_of r k UNIV sid)) (action_refused D i sid aid apid m kid code needs) (\<lambda>_. bk (row_of r k ACTION_ENDS sid))"
    "valid (wk (row_of r k UNIV sid)) (action_completes D i sid aid apid resp) (\<lambda>_. bk (row_of r k ACTION_ENDS sid))"
    for m kid code needs resp
    by (auto intro: valid_conseq [OF action_refused_post] valid_conseq [OF action_completes_post] bk_mono
        simp: ACTION_ENDS_def)
  then show ?thesis
    unfolding kernel_outcome_def by (auto intro: valid_raise split: sum.split exn.split)
qed

lemma call_kernel_post:
  assumes "env_keeps (\<lambda>_. row_of r k UNIV sid) E"
  shows "valid (bk (row_of r k UNIV sid)) (call_kernel H E D i sid aid apid run ctx req) (\<lambda>_. bk (row_of r k ACTION_ENDS sid))"
  unfolding valid_def
proof (intro allI impI)
  fix st :: "'a wf_state" and x s'
  assume st: "bk (row_of r k UNIV sid) st" and c: "call_kernel H E D i sid aid apid run ctx req st = (Inr x, s')"
  obtain y st' where y: "run_kernel H E D run ctx req st = (y, st')" by fastforce
  have "wk (row_of r k UNIV sid) st'"
    using rows.kernel_rule [OF assms, of H D run ctx req] st y
    by (auto simp: yields_def on_steps_iff bk_def wk_def clean_def) (metis snd_conv)
  moreover have "kernel_outcome D i sid aid apid y st' = (Inr x, s')" using c y by (simp add: call_kernel_def)
  ultimately show "bk (row_of r k ACTION_ENDS sid) s'"
    using kernel_outcome_post unfolding valid_def by blast
qed

lemma run_action_post:
  assumes "env_keeps (\<lambda>_. row_of r k UNIV sid) E"
  shows "valid (bk (row_of r k UNIV sid)) (run_action H E D i sid aid apid) (\<lambda>_. bk (row_of r k ACTION_ENDS sid))"
proof -
  have f: "valid (bk (row_of r k UNIV sid)) (fail_before_runtime D i sid aid code m) (\<lambda>_. bk (row_of r k ACTION_ENDS sid))" for code m
    by (rule valid_conseq [OF fail_before_runtime_post bk_wk bk_mono]) (auto simp: ACTION_ENDS_def)
  show ?thesis
    unfolding run_action_def
    by (rule valid_bind [OF fetch_rows_post])
      (auto intro!: valid_if f valid_bind [OF valid_readers(1)] valid_raise call_kernel_post [OF assms] split: sum.splits)
qed

lemma row_of_new:
  "sr_id r = sid \<Longrightarrow> \<forall>x \<in> set xs. sr_id x \<noteq> sid \<Longrightarrow> sr_run r = rid \<Longrightarrow> sr_key r = k \<Longrightarrow> row_of rid k UNIV sid (xs @ [r])"
  by (auto simp: row_of_def find_append find_None_iff split: option.split dest: find_SomeD)

lemma ensure_row_post:
  "valid (\<lambda>st. (\<forall>sid. ex = Some sid \<longrightarrow> row_of rid (step_id s) UNIV sid (wf_steps (tables st))) \<and>
      ids_fresh D (wf_tick st) (wf_steps (tables st)))
    (ensure_row D rid ex s index) (\<lambda>sid. wk (row_of rid (step_id s) UNIV sid))"
proof (cases ex)
  case None
  then show ?thesis
    by (auto simp: valid_def ensure_row_def bind_act_def draw_def put_def wk_def
        ids_fresh_def new_step_run_def tables_def on_tables_def on_kernel_def kernel_tables_of_def session_simps
        intro!: row_of_new) (metis order_refl)
qed (auto simp: valid_def ensure_row_def wk_def)


text \<open>Before a step: its row, if there is one, is the run's, and drawn ids are new.\<close>

definition step_ready :: "draws \<Rightarrow> ident \<Rightarrow> string \<Rightarrow> ident option \<Rightarrow> 'x wf_state \<Rightarrow> bool" where
  "step_ready D rid k ex st = ((\<forall>sid. ex = Some sid \<longrightarrow> row_of rid k UNIV sid (wf_steps (tables st)))
     \<and> ids_fresh D (wf_tick st) (wf_steps (tables st)))"

lemma draw_ready: "valid (step_ready D rid k ex) (draw f) (\<lambda>_. step_ready D rid k ex)"
  by (auto simp: valid_def draw_def step_ready_def tables_def kernel_tables_of_def ids_fresh_def)

lemma ensure_row_ready:
  "valid (step_ready D rid (step_id s) ex) (ensure_row D rid ex s index) (\<lambda>sid. wk (row_of rid (step_id s) UNIV sid))"
  using ensure_row_post unfolding step_ready_def .

lemma fetch_status:
  "valid (wk (row_of r k UNIV sid)) (fetch (find_step sid)) (\<lambda>row. wk (row_of r k {sr_status row} sid))"
  by (auto simp: valid_def fetch_def wk_def row_of_def find_step_def split: option.splits)

lemma skip_step_post:
  "valid (step_ready D rid (step_id s) ex) (skip_step H D rid ex s index)
     (\<lambda>sid. bk (row_of rid (step_id s) {Step_Skipped} sid))"
  unfolding skip_step_def
  by (rule post_rules ensure_row_ready valid_set_status valid_ret | simp)+

lemma wait_deadline_post:
  "valid (wk (row_of r k UNIV sid)) (wait_deadline H sid s ctx now) (\<lambda>_. wk (row_of r k UNIV sid))"
proof -
  have "valid (wk (row_of r k UNIV sid)) (case b of
           Wait_Seconds n \<Rightarrow>
             bind_act (put (set_step sid (\<lambda>r. r\<lparr>sr_wait_until := Some (now + seconds n)\<rparr>)))
               (\<lambda>_. ret (now + seconds n))
         | Wait_Until v \<Rightarrow>
             bind_act (lift (bind_result (render_value H ctx (JStr v)) (parse_until H))) (\<lambda>u.
             bind_act (put (set_step sid (\<lambda>r. r\<lparr>sr_wait_until := Some u\<rparr>))) (\<lambda>_.
             if u > now + seconds MAX_WAIT_SECONDS then
               raise (WorkflowSpecError ''Wait-until exceeds the maximum 31-day workflow wait'')
             else ret u))
         | Action _ _ \<Rightarrow> raise (KeyError ''until'')) (\<lambda>_. wk (row_of r k UNIV sid))" for b
    by (cases b; simp) (rule post_rules valid_set_same valid_ret valid_if | simp)+
  then show ?thesis
    unfolding wait_deadline_def
    by (intro valid_bind [OF valid_readers(2)]) (auto intro: valid_ret split: option.split)
qed

lemma wait_step_post:
  "valid (step_ready D rid (step_id s) ex) (wait_step H D rid ex s index ctx)
     (\<lambda>sid. bk (row_of rid (step_id s) {Step_Waiting, Step_Completed} sid))"
proof -
  have e: "valid (wk (row_of rid (step_id s) UNIV sid)) (bind_act (put (set_step sid f \<circ> set_run rid u)) (\<lambda>_.
       bind_act (fetch (find_run rid)) (\<lambda>run.
       bind_act (record_workflow_event D (ev run)) (\<lambda>_.
       bind_act commit_all (\<lambda>_. ret sid)))))
     (\<lambda>sid. bk (row_of rid (step_id s) {Step_Waiting, Step_Completed} sid))"
    if "same_step f" "\<And>q. sr_status (f q) \<in> {Step_Waiting, Step_Completed}" for sid f u ev
    by (rule valid_bind [OF valid_set(2) [OF that(1)]], rule that(2)) (rule post_rules valid_ret)+
  show ?thesis
    unfolding wait_step_def
    by (rule valid_bind [OF draw_ready], rule valid_bind [OF ensure_row_ready], rule valid_bind [OF wait_deadline_post],
        rule valid_if) (rule e, simp, simp add: started_or_def)+
qed

lemma action_step_post:
  assumes "\<And>sid. env_keeps (\<lambda>_. row_of rid (step_id s) UNIV sid) E"
  shows "valid (step_ready D rid (step_id s) ex) (action_step H E D rid ex s index ctx)
     (\<lambda>sid. bk (row_of rid (step_id s) ACTION_ENDS sid))"
proof -
  let ?k = "step_id s"
  have branch: "valid (wk (row_of rid ?k {sr_status row} sid))
      (if sr_status row = Step_Waiting_Approval \<and> present (sr_approval row)
       then approval_branch D rid sid s now else fresh_branch H D rid sid s ctx now) (branch_post rid ?k sid)" for row sid now
    by (rule valid_if) (auto intro: approval_branch_post valid_conseq [OF fresh_branch_post] wk_mono)
  have go: "valid (branch_post rid ?k sid go) (case go of None \<Rightarrow> ret sid
     | Some (aid, apid) \<Rightarrow> bind_act (start_action D rid sid aid apid now) (\<lambda>_.
         bind_act (run_action H E D rid sid aid apid) (\<lambda>_. ret sid)))
      (\<lambda>sid. bk (row_of rid ?k ACTION_ENDS sid))" for sid go now
  proof (cases go)
    case None
    then show ?thesis
      by (auto simp: branch_post_def valid_def ACTION_ENDS_def intro: bk_mono)
  next
    case (Some p)
    moreover obtain aid apid where "p = (aid, apid)" by (cases p)
    ultimately show ?thesis
      by (auto simp: branch_post_def intro!: valid_bind [OF start_action_post] valid_bind [OF run_action_post [OF assms]]
          valid_ret)
  qed
  show ?thesis
    unfolding action_step_def
    by (rule valid_bind [OF draw_ready], rule valid_bind [OF ensure_row_ready], rule valid_bind [OF fetch_status],
        rule valid_bind [OF branch go])
qed


subsection \<open>What the loop establishes\<close>

text \<open>The statuses in which a step lets the run go on.\<close>

definition settled :: "wf_step \<Rightarrow> step_status set" where
  "settled s = {Step_Completed, Step_Skipped} \<union> (if on_error s = Continue then {Step_Failed} else {})"

lemma still_owned_bk: "valid (bk P) (still_owned D i token) (\<lambda>_. bk P)"
  by (auto simp: valid_def still_owned_def refresh_run_def bind_act_def draw_def fetch_def bk_def clean_def
      tables_def committed_tables_def kernel_tables_of_def set_run_def split: option.splits)

lemma fetch_status_bk:
  "valid (bk (row_of r k S sid)) (fetch (find_step sid)) (\<lambda>row. bk (row_of r k (S \<inter> {sr_status row}) sid))"
  by (auto simp: valid_def fetch_def bk_def row_of_def find_step_def split: option.splits)

definition step_done :: "ident \<Rightarrow> wf_step \<Rightarrow> step_rows \<Rightarrow> step_rows option \<Rightarrow> 'x wf_state \<Rightarrow> bool" where
  "step_done rid s rows r st = (\<forall>rows'. r = Some rows' \<longrightarrow>
     (\<exists>sid. rows' = AList.update (step_id s) sid rows \<and> bk (row_of rid (step_id s) (settled s) sid) st))"

lemma step_doneI:
  "bk (row_of rid (step_id s) S sid) st \<Longrightarrow> S \<subseteq> settled s \<Longrightarrow>
   step_done rid s rows (Some (AList.update (step_id s) sid rows)) st"
  by (auto simp: step_done_def intro: bk_mono)

lemma step_done_None [simp]: "step_done rid s rows None st"
  by (simp add: step_done_def)

lemma after_wait_post:
  "valid (bk (row_of rid (step_id s) {Step_Waiting, Step_Completed} sid))
     (after_wait D rid token (AList.update (step_id s) sid rows) sid) (step_done rid s rows)"
  unfolding after_wait_def
proof (rule valid_bind [OF fetch_status_bk], rule valid_if)
  fix row :: wf_step_run assume n: "sr_status row \<noteq> Step_Waiting"
  show "valid (bk (row_of rid (step_id s) ({Step_Waiting, Step_Completed} \<inter> {sr_status row}) sid))
      (bind_act (still_owned D rid token) (\<lambda>own. ret (if own then Some (AList.update (step_id s) sid rows) else None)))
      (step_done rid s rows)"
    by (rule valid_bind [OF still_owned_bk]) (use n in \<open>auto simp: valid_def settled_def intro!: step_doneI\<close>)
qed (simp add: valid_def)

lemma after_action_post:
  "valid (bk (row_of rid (step_id s) ACTION_ENDS sid))
     (after_action D rid token w s (AList.update (step_id s) sid rows) sid) (step_done rid s rows)"
  unfolding after_action_def
proof (rule valid_bind [OF fetch_status_bk], rule valid_if)
  fix row :: wf_step_run assume n: "sr_status row \<noteq> Step_Waiting_Approval"
  show "valid (bk (row_of rid (step_id s) (ACTION_ENDS \<inter> {sr_status row}) sid))
      (bind_act (still_owned D rid token) (\<lambda>own.
       if \<not> own then ret None
       else if sr_status row = Step_Failed \<and> on_error s \<noteq> Continue then
         bind_act (fail_run D rid (Some w)
            (if present (sr_error_code row) then the (sr_error_code row) else ''step_failed'')
            (if present (sr_error row) then the (sr_error row) else ''Step '' @ step_id s @ '' failed''))
           (\<lambda>_. ret None)
       else ret (Some (AList.update (step_id s) sid rows))))
      (step_done rid s rows)"
    by (rule valid_bind [OF still_owned_bk])
      (use n in \<open>auto simp: valid_def settled_def ACTION_ENDS_def bind_act_Inr_iff intro!: step_doneI split: if_splits\<close>)
qed (simp add: valid_def)

lemma perform_step_post:
  assumes "\<And>sid. env_keeps (\<lambda>_. row_of rid (step_id s) UNIV sid) E"
  shows "valid (step_ready D rid (step_id s) (map_of rows (step_id s)))
     (perform_step H E D rid token w index s rows ctx b) (step_done rid s rows)"
proof -
  let ?P = "step_ready D rid (step_id s) (map_of rows (step_id s))"
  have skip: "valid ?P (bind_act (skip_step H D rid (map_of rows (step_id s)) s index)
      (\<lambda>sid. ret (Some (AList.update (step_id s) sid rows)))) (step_done rid s rows)"
    by (rule valid_bind [OF skip_step_post]) (auto simp: valid_def settled_def intro!: step_doneI)
  have wait: "valid ?P (bind_act (catch_spec
            (bind_act (wait_step H D rid (map_of rows (step_id s)) s index ctx) (\<lambda>sid. ret (Some sid)))
            (\<lambda>m. bind_act (fail_run D rid (Some w) ''wait_invalid'' m) (\<lambda>_. ret None)))
          (\<lambda>waited. case waited of
            None \<Rightarrow> ret None
          | Some sid \<Rightarrow> after_wait D rid token (AList.update (step_id s) sid rows) sid)) (step_done rid s rows)"
  proof (rule valid_bind)
    show "valid ?P (catch_spec
            (bind_act (wait_step H D rid (map_of rows (step_id s)) s index ctx) (\<lambda>sid. ret (Some sid)))
            (\<lambda>m. bind_act (fail_run D rid (Some w) ''wait_invalid'' m) (\<lambda>_. ret None)))
        (\<lambda>x. case x of None \<Rightarrow> \<lambda>_. True
           | Some sid \<Rightarrow> bk (row_of rid (step_id s) {Step_Waiting, Step_Completed} sid))"
      using wait_step_post [of D rid s "map_of rows (step_id s)" H index ctx]
      unfolding valid_def catch_spec_def
      by (auto simp: bind_act_Inr_iff bind_act_def split: prod.splits sum.splits exn.splits)
    show "valid (case x of None \<Rightarrow> \<lambda>_. True
           | Some sid \<Rightarrow> bk (row_of rid (step_id s) {Step_Waiting, Step_Completed} sid))
        (case x of None \<Rightarrow> ret None
          | Some sid \<Rightarrow> after_wait D rid token (AList.update (step_id s) sid rows) sid) (step_done rid s rows)" for x
      by (cases x) (auto simp: valid_def intro: after_wait_post [unfolded valid_def, rule_format])
  qed
  show ?thesis
    unfolding perform_step_def Let_def
    by (intro valid_if skip wait valid_bind [OF action_step_post [OF assms] after_action_post])
qed

end
