(* ===== verification/Wf_Runs.thy ===== *)
theory Wf_Runs
  imports Wf_Frame
begin

text \<open>
  What the engine does to the rows of runs. A fact about the workflow tables that the updates of
  the executed run keep, and that does not depend on step rows, attempts and traces, is an
  invariant of every action of the engine; the interfaces below state what is asked of the fact.
\<close>

subsection \<open>Facts about the tables\<close>

text \<open>A fact about the committed and the working tables.\<close>

definition on_data :: "('x wf_tables \<Rightarrow> bool) \<Rightarrow> 'x wf_state \<Rightarrow> bool" where
  "on_data P s = data_ok P (w_session (wf_world s))"

lemma on_data_iff: "on_data P s \<longleftrightarrow> P (committed_tables s) \<and> P (tables s)"
  by (simp add: on_data_def data_ok_def committed_tables_def tables_def kernel_tables_of_def)

lemma data_draw [act_rules]: "(\<And>n. T (g n)) \<Longrightarrow> yields (on_data P) T (draw g)"
  by (simp add: yields_def draw_def on_data_def data_ok_def)

lemma data_commit [act_rules]: "yields (on_data P) (\<lambda>_. True) commit_all"
  by (simp add: yields_def commit_all_def on_data_def data_ok_def session_simps)

lemma data_rollback [act_rules]: "yields (on_data P) (\<lambda>_. True) rollback_all"
  by (simp add: yields_def rollback_all_def on_data_def data_ok_def session_simps)

lemma data_put: "(\<And>t. P t \<Longrightarrow> P (f t)) \<Longrightarrow> yields (on_data P) (\<lambda>_. True) (put f)"
  by (simp add: yields_def put_def on_tables_def on_kernel_def on_data_def data_ok_def session_simps)

text \<open>A fact that does not see the trace.\<close>

locale table_frame =
  fixes P :: "'x wf_tables \<Rightarrow> bool"
  assumes traces: "P t \<Longrightarrow> P (t\<lparr>wf_traces := a\<rparr>)"
begin

lemma record_rule: "yields (on_data P) (\<lambda>_. True) (record_workflow_event D e)"
  unfolding record_workflow_event_def
  by (intro act_rules TrueI) (simp add: yields_def on_kernel_def on_data_def data_ok_def session_simps traces)

lemmas rules = act_rules record_rule TrueI

end

subsection \<open>The statuses a run goes through\<close>

definition ENGINE_STATES :: "run_status set" where
  "ENGINE_STATES = {Run_Running, Run_Waiting, Run_Waiting_Approval, Run_Failed, Run_Cancelled, Run_Orphaned}"

text \<open>Updates of a run that keep its id, and keep its status or set one of the engine's.\<close>

definition calm :: "(wf_run \<Rightarrow> wf_run) \<Rightarrow> bool" where
  "calm u = (\<forall>r. rn_id (u r) = rn_id r \<and> (rn_status (u r) = rn_status r \<or> rn_status (u r) \<in> ENGINE_STATES))"

lemma calm_updates [simp]:
  "calm (\<lambda>r. r\<lparr>rn_step := a\<rparr>)" "calm (release_lease Run_Waiting k)" "calm (release_lease Run_Waiting_Approval k)"
  "calm (\<lambda>r. r\<lparr>rn_status := Run_Running, rn_step := a\<rparr>)" "calm (\<lambda>r. r\<lparr>rn_started := b\<rparr>)"
  "calm (\<lambda>r. r\<lparr>rn_status := Run_Running, rn_error_code := b', rn_error := c\<rparr>)"
  "calm (\<lambda>r. r\<lparr>rn_status := Run_Failed, rn_error_code := b', rn_error := c, rn_finished := d, rn_token := e,
      rn_until := f\<rparr>)"
  by (auto simp: calm_def release_lease_def ENGINE_STATES_def)

text \<open>Other transactions may cancel or orphan the run, but do not complete it.\<close>

definition outside_calm :: "draws \<Rightarrow> bool" where
  "outside_calm D = (\<forall>n. calm (refresh_row (outside_at D n)))"

text \<open>A fact that the updates of the run \<open>rid\<close> which count as good keep.\<close>

locale engine_frame = table_frame P for P :: "'x wf_tables \<Rightarrow> bool" +
  fixes rid :: ident and good :: "(wf_run \<Rightarrow> wf_run) \<Rightarrow> bool"
  assumes steps: "P t \<Longrightarrow> P (t\<lparr>wf_steps := b\<rparr>)"
    and attempts: "P t \<Longrightarrow> P (t\<lparr>wf_attempts := c\<rparr>)"
    and run: "good u \<Longrightarrow> P t \<Longrightarrow> P (set_run rid u t)"
    and calm_good: "calm u \<Longrightarrow> good u"
begin

lemma set_rules:
  "yields (on_data P) (\<lambda>_. True) (put (set_step sid f))"
  "yields (on_data P) (\<lambda>_. True) (put (set_attempt aid h))"
  "yields (on_data P) (\<lambda>_. True) (put (set_step sid f \<circ> set_attempt aid h))"
  "yields (on_data P) (\<lambda>_. True) (put (\<lambda>t. t\<lparr>wf_steps := k t\<rparr>))"
  "yields (on_data P) (\<lambda>_. True) (put (\<lambda>t. t\<lparr>wf_attempts := l t\<rparr>))"
  "good u \<Longrightarrow> yields (on_data P) (\<lambda>_. True) (put (set_run rid u))"
  "good u \<Longrightarrow> yields (on_data P) (\<lambda>_. True) (put (set_step sid f \<circ> set_run rid u))"
  by (auto intro!: data_put simp: set_attempt_def set_step_def steps attempts run)

lemmas all_rules = rules set_rules calm_good calm_updates

lemma refresh_frame:
  assumes "outside_calm D"
  shows "yields (on_data P) (\<lambda>_. True) (refresh_run D rid)"
proof -
  have "good (refresh_row (outside_at D n))" for n
    using assms calm_good by (simp add: outside_calm_def)
  then show ?thesis
    by (auto simp: yields_def refresh_run_def bind_act_def draw_def on_data_def data_ok_def run)
qed

lemma kernel_frame:
  assumes "providers_keep P (en_personal E)" "providers_keep P (en_workspace E)"
  shows "yields (on_data P) (\<lambda>_. True) (run_kernel H E D r ctx req)"
  unfolding yields_def run_kernel_def on_data_def
  using assms by (auto split: prod.split) (metis kernel_execute_ok snd_conv)+

lemma parts:
  "yields (on_data P) (\<lambda>_. True) (ensure_row D rid ex s index)"
  "yields (on_data P) (\<lambda>_. True) (fail_run D rid w code m)"
  "yields (on_data P) (\<lambda>_. True) (fail_before_runtime D rid sid aid code m)"
  "yields (on_data P) (\<lambda>_. True) (add_attempt D sid s st code' m' n e)"
  "yields (on_data P) (\<lambda>_. True) (fetch_rows rid sid aid)"
  unfolding ensure_row_def fail_run_def fail_before_runtime_def add_attempt_def fetch_rows_def
  by (intro all_rules; simp)+

lemma branches:
  "yields (on_data P) (\<lambda>_. True) (approval_branch D rid sid s now)"
  "yields (on_data P) (\<lambda>_. True) (fresh_branch H D rid sid s ctx now)"
  "yields (on_data P) (\<lambda>_. True) (start_action D rid sid aid apid now)"
  unfolding approval_branch_def lineage_missing_def approval_rejected_def fresh_branch_def start_action_def
  by (intro all_rules parts; simp)+

lemma outcome: "yields (on_data P) (\<lambda>_. True) (kernel_outcome D rid sid aid apid r)"
  unfolding kernel_outcome_def action_refused_def action_waits_def action_fails_def action_completes_def Let_def
  by (auto intro!: all_rules parts split: sum.split exn.split)

lemma call_kernel_frame:
  assumes "providers_keep P (en_personal E)" "providers_keep P (en_workspace E)"
  shows "yields (on_data P) (\<lambda>_. True) (call_kernel H E D rid sid aid apid r ctx req)"
  unfolding yields_def
proof (intro allI impI conjI TrueI)
  fix st :: "'x wf_state" assume st: "on_data P st"
  obtain y st' where y: "run_kernel H E D r ctx req st = (y, st')" by fastforce
  have "on_data P st'" using yieldsD [OF kernel_frame [OF assms] st] y by (metis snd_conv)
  then have "on_data P (snd (kernel_outcome D rid sid aid apid y st'))" by (rule yieldsD [OF outcome])
  with y show "on_data P (snd (call_kernel H E D rid sid aid apid r ctx req st))" by (simp add: call_kernel_def)
qed

lemma run_action_frame:
  assumes "providers_keep P (en_personal E)" "providers_keep P (en_workspace E)"
  shows "yields (on_data P) (\<lambda>_. True) (run_action H E D rid sid aid apid)"
  unfolding run_action_def
  by (rule yields_bind_any [OF parts(5)])
    (auto intro!: all_rules parts call_kernel_frame [OF assms] split: sum.split)

lemma still_owned_frame: "outside_calm D \<Longrightarrow> yields (on_data P) (\<lambda>_. True) (still_owned D rid token)"
  unfolding still_owned_def by (intro all_rules refresh_frame)

lemma step_frames:
  "yields (on_data P) (\<lambda>_. True) (skip_step H D rid ex s index)"
  "yields (on_data P) (\<lambda>_. True) (wait_step H D rid ex s index ctx)"
  unfolding skip_step_def wait_step_def wait_deadline_def
  by (auto intro!: all_rules parts split: step_body.split option.split)

lemma run_step_frame:
  assumes "providers_keep P (en_personal E)" "providers_keep P (en_workspace E)" "outside_calm D"
  shows "yields (on_data P) (\<lambda>_. True) (run_step H E D rid token w index s rows)"
  unfolding run_step_def decide_step_def perform_step_def action_step_def after_wait_def after_action_def Let_def
  by (intro all_rules parts step_frames branches run_action_frame still_owned_frame assms)

lemma run_steps_frame:
  assumes "providers_keep P (en_personal E)" "providers_keep P (en_workspace E)" "outside_calm D"
  shows "yields (on_data P) (\<lambda>_. True) (run_steps H E D rid token w index ss rows)"
proof (induction ss arbitrary: index rows)
  case (Cons s ss)
  then show ?case by (auto intro!: all_rules still_owned_frame run_step_frame assms)
qed (auto intro!: rules)

end

text \<open>A fact that all updates of the run keep is kept by the whole execution.\<close>

locale execution_frame = engine_frame +
  assumes any_good: "(\<And>r. rn_id (u r) = rn_id r) \<Longrightarrow> good u"
begin

lemma begin_run_frame: "rn_id r = rid \<Longrightarrow> yields (on_data P) (\<lambda>_. True) (begin_run D r)"
  unfolding begin_run_def by (intro all_rules; simp add: all_rules)

lemma finish_run_frame: "yields (on_data P) (\<lambda>_. True) (finish_run H D rid n rows)"
  unfolding finish_run_def Let_def by (intro all_rules any_good) simp

lemma execute_run_frame:
  assumes "providers_keep P (en_personal E)" "providers_keep P (en_workspace E)" "outside_calm D"
  shows "yields (on_data P) (\<lambda>_. True) (execute_run H E D rid token)"
  unfolding execute_run_def
proof (rule yields_bind [where T = "\<lambda>f. \<forall>r. f = Some r \<longrightarrow> rn_id r = rid"])
  show "yields (on_data P) (\<lambda>f. \<forall>r. f = Some r \<longrightarrow> rn_id r = rid) (reads (find_run rid))"
    by (rule yields_reads) (auto simp: find_run_def dest: find_SomeD)
qed (auto intro!: rules parts begin_run_frame finish_run_frame run_steps_frame still_owned_frame assms
      split: option.split)

end

subsection \<open>The run that is executed\<close>

text \<open>The run is in none but the given statuses, committed and working.\<close>

definition run_in :: "ident \<Rightarrow> run_status set \<Rightarrow> wf_run list \<Rightarrow> bool" where
  "run_in rid A rs = (\<forall>r \<in> set rs. rn_id r = rid \<longrightarrow> rn_status r \<in> A)"

abbreviation calm_runs :: "ident \<Rightarrow> 'x wf_state \<Rightarrow> bool" where
  "calm_runs rid \<equiv> on_data (\<lambda>t. run_in rid ENGINE_STATES (wf_runs t))"

definition spares_runs :: "'x wf_tables kernel_env \<Rightarrow> bool" where
  "spares_runs E = (\<forall>pid p. en_providers E pid = Some p \<longrightarrow> (\<forall>c spec args m d.
     wf_runs (working (snd (p c spec args m d))) = wf_runs (working d)
     \<and> (wf_runs (committed (snd (p c spec args m d))) = wf_runs (committed d)
        \<or> wf_runs (committed (snd (p c spec args m d))) = wf_runs (working d))))"

lemma spares_runs_keep: "spares_runs E \<Longrightarrow> providers_keep (\<lambda>t. P (wf_runs t)) E"
  unfolding spares_runs_def providers_keep_def by metis

interpretation calm: engine_frame "\<lambda>t. run_in rid ENGINE_STATES (wf_runs t)" i calm for rid i
proof
  fix u and t :: "'a wf_tables"
  assume "calm u" "run_in rid ENGINE_STATES (wf_runs t)"
  then show "run_in rid ENGINE_STATES (wf_runs (set_run i u t))"
    unfolding run_in_def calm_def set_run_def by (simp add: row_simps) metis
qed simp_all

text \<open>The run \<open>j\<close>, the only row with its id, stays in a status while other runs are executed.\<close>

definition run_has :: "ident \<Rightarrow> run_status \<Rightarrow> wf_run list \<Rightarrow> bool" where
  "run_has j st rs = (\<exists>r. filter (\<lambda>q. rn_id q = j) rs = [r] \<and> rn_status r = st)"

lemma filter_update_other:
  assumes "\<And>r. rn_id (u r) = rn_id r" "i \<noteq> j"
  shows "filter (\<lambda>q. rn_id q = j) (update_where (\<lambda>r. rn_id r = i) u rs) = filter (\<lambda>q. rn_id q = j) rs"
  using assms by (induction rs) auto

lemma run_has_other:
  "run_has j st rs \<Longrightarrow> (\<And>r. rn_id (u r) = rn_id r) \<Longrightarrow> i \<noteq> j \<Longrightarrow>
   run_has j st (update_where (\<lambda>r. rn_id r = i) u rs)"
  by (simp add: run_has_def filter_update_other)

lemma run_has_member:
  assumes "run_has j st rs" "r \<in> set rs" "rn_id r = j"
  shows "rn_status r = st"
proof -
  obtain q where q: "filter (\<lambda>q. rn_id q = j) rs = [q]" "rn_status q = st" using assms(1) by (auto simp: run_has_def)
  have "r \<in> set (filter (\<lambda>q. rn_id q = j) rs)" using assms(2,3) by simp
  with q show ?thesis by simp
qed

lemma run_has_find:
  assumes "run_has j st rs"
  shows "\<exists>r. find (\<lambda>q. rn_id q = j) rs = Some r \<and> rn_status r = st"
proof (cases "find (\<lambda>q. rn_id q = j) rs")
  case None
  then have "filter (\<lambda>q. rn_id q = j) rs = []" by (auto simp: find_None_iff_all filter_empty_conv)
  with assms show ?thesis by (simp add: run_has_def)
next
  case (Some r)
  with run_has_member [OF assms] show ?thesis by (auto dest: find_SomeD)
qed

interpretation others: execution_frame "\<lambda>t. i = j \<or> run_has j st (wf_runs t)" i "\<lambda>u. \<forall>r. rn_id (u r) = rn_id r"
  for i j st
proof
  fix u :: "wf_run \<Rightarrow> wf_run" and t :: "'a wf_tables"
  assume "\<forall>r. rn_id (u r) = rn_id r" "i = j \<or> run_has j st (wf_runs t)"
  then show "i = j \<or> run_has j st (wf_runs (set_run i u t))"
    by (auto simp: set_run_def intro: run_has_other)
qed (auto simp: calm_def)

lemma execute_run_keeps_terminal:
  assumes "spares_runs (en_personal E)" "spares_runs (en_workspace E)" "outside_calm D" "terminal st"
  shows "yields (on_data (\<lambda>t. run_has j st (wf_runs t))) (\<lambda>_. True) (execute_run H E D rid token)"
proof (cases "rid = j")
  case True
  show ?thesis
    unfolding yields_def
  proof (intro allI impI conjI TrueI)
    fix s :: "'a wf_state" assume s: "on_data (\<lambda>t. run_has j st (wf_runs t)) s"
    then have "\<exists>r. find_run rid (tables s) = Some r \<and> terminal (rn_status r)"
      using True assms(4) by (auto simp: on_data_iff find_run_def dest!: run_has_find)
    then have "execute_run H E D rid token s = (Inr (), s)"
      by (auto simp: execute_run_def bind_act_def reads_def)
    with s show "on_data (\<lambda>t. run_has j st (wf_runs t)) (snd (execute_run H E D rid token s))" by simp
  qed
next
  case False
  have "providers_keep (\<lambda>t. rid = j \<or> run_has j st (wf_runs t)) (en_personal E)"
    "providers_keep (\<lambda>t. rid = j \<or> run_has j st (wf_runs t)) (en_workspace E)"
    using assms(1,2) by (auto intro: spares_runs_keep [where P = "\<lambda>rs. rid = j \<or> run_has j st rs"])
  from others.execute_run_frame [OF this assms(3), of H token] False show ?thesis by simp
qed

end
