(* ===== verification/Wf_Samples.thy ===== *)
theory Wf_Samples
  imports Wf_Engine
begin

text \<open>A small workflow, its run and its state, for the witnesses of the workflow properties.\<close>

definition sample_wf_provider :: "nat wf_tables provider" where
  "sample_wf_provider c spec args minimum d =
     (Inr \<lparr>xr_value = [], xr_resource_type = None, xr_resource_id = None, xr_event = []\<rparr>,
      d\<lparr>working := (working d)\<lparr>wf_data := Suc (wf_data (working d))\<rparr>\<rparr>)"

definition sample_wf_kernel :: "nat wf_tables kernel_env" where
  "sample_wf_kernel = \<lparr>en_registry = [sample_spec_write], en_index = sample_index,
     en_providers = (\<lambda>k. if k = ''tasks'' then Some sample_wf_provider else None)\<rparr>"

definition sample_wf_env :: "nat wf_env" where
  "sample_wf_env = \<lparr>en_personal = sample_wf_kernel, en_workspace = sample_wf_kernel\<rparr>"

definition sample_draws :: draws where
  "sample_draws = \<lparr>now_at = (\<lambda>n. 1000), id_at = (\<lambda>n. replicate n (CHR ''x'')),
     kernel_at = (\<lambda>n. sample_fresh), outside_at = (\<lambda>n r. r)\<rparr>"

definition sample_wait_spec :: json where
  "sample_wait_spec = JObj [(''steps'', JArr [JObj [(''id'', JStr ''a''), (''kind'', JStr ''wait''),
     (''until'', JStr ''5'')], JObj [(''id'', JStr ''b''), (''kind'', JStr ''wait''), (''until'', JStr ''6''),
     (''depends_on'', JArr [JStr ''a''])]])]"

definition sample_wait_steps :: "wf_step list" where
  "sample_wait_steps = [\<lparr>step_id = ''a'', depends_on = [], on_error = Stop, step_when = None,
     body = Wait_Until ''5''\<rparr>, \<lparr>step_id = ''b'', depends_on = [''a''], on_error = Stop, step_when = None,
     body = Wait_Until ''6''\<rparr>]"

definition sample_run :: wf_run where
  "sample_run = \<lparr>rn_id = ''r'', rn_workflow = ''w'', rn_version = ''v'', rn_scope = ''workspace'',
     rn_workspace = Some ''t'', rn_authority = Some ''u'', rn_initiator = Some ''u'',
     rn_trigger_type = ''manual'', rn_trigger = [], rn_dedupe = ''k'', rn_status = Run_Queued,
     rn_step = None, rn_error_code = None, rn_error = None, rn_result = [], rn_token = None,
     rn_until = None, rn_scheduled = None, rn_created = 0, rn_started = None, rn_finished = None\<rparr>"

definition sample_definition :: wf_definition where
  "sample_definition = \<lparr>wd_id = ''w'', wd_scope = ''workspace'', wd_workspace = Some ''t'',
     wd_owner = Some ''u'', wd_name = ''W'', wd_description = [], wd_status = ''enabled'', wd_version = 1\<rparr>"

definition sample_version :: "json \<Rightarrow> wf_version" where
  "sample_version spec = \<lparr>wv_id = ''v'', wv_workflow = ''w'', wv_version = 1, wv_spec = Some spec,
     wv_snapshot = None, wv_created_by = Some ''u''\<rparr>"

definition empty_authority :: authority_db where
  "empty_authority = \<lparr>users = [], tenants = [], members = [], roles = [], role_permissions = [],
     installations = []\<rparr>"

definition sample_wf_tables :: "json \<Rightarrow> wf_step_run list \<Rightarrow> nat wf_tables" where
  "sample_wf_tables spec rows = \<lparr>wf_definitions = [sample_definition], wf_versions = [sample_version spec],
     wf_schedules = [], wf_triggers = [], wf_cursors = [], wf_runs = [sample_run], wf_steps = rows,
     wf_attempts = [], wf_traces = [], wf_authority = empty_authority, wf_data = 0\<rparr>"

definition sample_kernel_tables :: "nat wf_tables \<Rightarrow> nat wf_tables kernel_tables" where
  "sample_kernel_tables t = \<lparr>kt_workspaces = [], kt_claims = [], kt_approvals = [], kt_runs = [],
     kt_steps = [], kt_events = [], kt_data = t\<rparr>"

definition sample_state :: "nat wf_tables \<Rightarrow> nat wf_state" where
  "sample_state t = \<lparr>wf_world = \<lparr>w_session = \<lparr>committed = sample_kernel_tables t,
     working = sample_kernel_tables t\<rparr>, w_calls = []\<rparr>, wf_tick = 0\<rparr>"

definition sample_wf :: "json \<Rightarrow> wf_step_run list \<Rightarrow> nat wf_state" where
  "sample_wf spec rows = sample_state (sample_wf_tables spec rows)"

lemma sample_state_tables [simp]:
  "tables (sample_state t) = t" "committed_tables (sample_state t) = t" "wf_tick (sample_state t) = 0"
  by (simp_all add: tables_def committed_tables_def kernel_tables_of_def sample_state_def sample_kernel_tables_def)

lemma sample_tables [simp]:
  "tables (sample_wf spec rows) = sample_wf_tables spec rows"
  "committed_tables (sample_wf spec rows) = sample_wf_tables spec rows" "wf_tick (sample_wf spec rows) = 0"
  by (simp_all add: sample_wf_def)

lemma sample_inj: "inj (id_at sample_draws)"
  by (rule injI) (metis length_replicate draws.select_convs(2) sample_draws_def)

end
