(* ===== verification/Wf_Completion.thy ===== *)
theory Wf_Completion
  imports Wf_Outcomes Wf_Runs Wf_Samples
begin

text \<open>
  The loop over the steps: its invariant, the statuses an execution gives to the run, and the two
  properties they carry, that a step starts after its dependencies and that a completed run has
  settled all its steps.
\<close>

subsection \<open>The invariant of the loop\<close>

definition loop_inv :: "draws \<Rightarrow> ident \<Rightarrow> wf_step set \<Rightarrow> step_rows \<Rightarrow> 'x wf_state \<Rightarrow> bool" where
  "loop_inv D rid done rows st = (clean st \<and> ids_fresh D (wf_tick st) (wf_steps (tables st))
     \<and> (\<forall>k i. map_of rows k = Some i \<longrightarrow> row_of rid k UNIV i (wf_steps (tables st)))
     \<and> (\<forall>s \<in> done. \<exists>i. map_of rows (step_id s) = Some i
          \<and> row_of rid (step_id s) (settled s) i (wf_steps (tables st))))"

lemma map_of_rows_of_None: "map_of rows k = None \<Longrightarrow> map_of (rows_of rows xs) k = None"
  by (induction rows) (auto simp: rows_of_def map_filter_simps split: option.splits if_splits)

lemma finished_row_of:
  assumes "\<And>i. map_of rows k = Some i \<Longrightarrow> row_of rid k UNIV i xs" "finished (map_of (rows_of rows xs) k)"
  shows "\<exists>i. map_of rows k = Some i \<and> row_of rid k {Step_Completed, Step_Skipped} i xs"
proof (cases "map_of rows k")
  case None
  with assms(2) show ?thesis by (simp add: map_of_rows_of_None finished_def)
next
  case (Some i)
  with assms(1) obtain q where q: "find (\<lambda>r. sr_id r = i) xs = Some q" "sr_run q = rid" "sr_key q = k"
    by (auto simp: row_of_def split: option.splits)
  with map_of_rows_of [OF Some q(1)] assms(2) Some show ?thesis by (auto simp: row_of_def finished_def)
qed

lemma on_spec_Inr: "on_spec x f h st = (Inr y, st') \<Longrightarrow>
   (\<exists>a. x = Inr a \<and> f a st = (Inr y, st')) \<or> (\<exists>m. x = Inl (WorkflowSpecError m) \<and> h m st = (Inr y, st'))"
  by (auto simp: on_spec_def split: sum.splits exn.splits)

lemma decide_step_Some:
  assumes "decide_step H E D rid token w index s rows cur st = (Inr (Some rows'), st')"
  shows "\<exists>ctx b. perform_step H E D rid token w index s rows ctx b st = (Inr (Some rows'), st')
    \<and> \<not> present (missing_dependency cur s)"
  using assms
  by (auto simp: decide_step_def Let_def bind_act_Inr_iff fetch_def split: if_splits option.splits dest!: on_spec_Inr)

lemma kept_after:
  assumes "loop_inv D rid done rows st" "map_of rows k' = Some i" "k' \<noteq> step_id s"
    and "spares_steps (en_personal E)" "spares_steps (en_workspace E)"
    and "find (\<lambda>r. sr_id r = i) (wf_steps (tables st)) = Some q"
  shows "find (\<lambda>r. sr_id r = i) (wf_steps (tables (snd (perform_step H E D rid token w index s rows ctx b st)))) = Some q"
proof -
  have i: "sr_id q = i" using assms(6) by (auto dest: find_SomeD)
  have "row_of rid k' UNIV i (wf_steps (tables st))" using assms(1,2) by (simp add: loop_inv_def)
  with assms(6) have k: "sr_key q = k'" by (simp add: row_of_def)
  have "on_steps (row_kept D False q) st"
    using assms(1,6) i find_SomeD [OF assms(6)]
    by (auto simp: loop_inv_def on_steps_iff row_kept_def clean_def ids_fresh_def)
  moreover have "row_free False q sid" if "map_of rows (step_id s) = Some sid" for sid
    using assms(1,3,6) that i k find_SomeD [OF assms(6)]
    by (auto simp: loop_inv_def row_free_def row_of_def split: option.splits)
  ultimately have "on_steps (row_kept D False q) (snd (perform_step H E D rid token w index s rows ctx b st))"
    using kept.perform_step_frame [where K = UNIV and s = s and E = E and D = D and b = False and r = q
        and rows = rows] spares_env [OF assms(4,5)]
    by (auto simp: yields_def)
  with i show ?thesis by (simp add: on_steps_iff row_kept_def)
qed

lemma run_step_inv:
  assumes inv: "loop_inv D rid done rows st" and new: "step_id s \<notin> step_id ` done"
    and E: "spares_steps (en_personal E)" "spares_steps (en_workspace E)"
    and run: "run_step H E D rid token w index s rows st = (Inr (Some rows'), st')"
  shows "loop_inv D rid (insert s done) rows' st'"
proof (cases "finished (map_of (rows_of rows (wf_steps (tables st))) (step_id s))")
  case True
  with run have "rows' = rows" "st' = st" by (auto simp: run_step_def bind_act_def reads_def)
  moreover obtain i where "map_of rows (step_id s) = Some i"
    "row_of rid (step_id s) {Step_Completed, Step_Skipped} i (wf_steps (tables st))"
    using finished_row_of [where rid = rid, OF _ True] inv unfolding loop_inv_def by blast
  ultimately show ?thesis using inv by (auto simp: loop_inv_def settled_def intro: row_of_mono)
next
  case False
  with run obtain ctx b where p: "perform_step H E D rid token w index s rows ctx b st = (Inr (Some rows'), st')"
    by (auto simp: run_step_def bind_act_def reads_def dest: decide_step_Some)
  have "step_ready D rid (step_id s) (map_of rows (step_id s)) st"
    using inv by (auto simp: loop_inv_def step_ready_def)
  with perform_step_post [OF spares_env [OF E]] p obtain sid where
    sid: "rows' = AList.update (step_id s) sid rows" "clean st'"
      "row_of rid (step_id s) (settled s) sid (wf_steps (tables st'))"
    unfolding valid_def step_done_def bk_def by blast
  have st': "st' = snd (perform_step H E D rid token w index s rows ctx b st)" using p by simp
  have fresh: "ids_fresh D (wf_tick st') (wf_steps (tables st'))"
    using fresh.perform_step_frame [where K = UNIV and s = s and E = E and D = D and rows = rows] inv
      spares_env [OF E] unfolding st' yields_def on_steps_iff loop_inv_def clean_def by fastforce
  have other: "row_of rid k S i (wf_steps (tables st'))"
    if "map_of rows k = Some i" "k \<noteq> step_id s" "row_of rid k S i (wf_steps (tables st))" for k i S
    using that kept_after [OF inv that(1,2) E] unfolding st'
    by (auto simp: row_of_def split: option.splits)
  show ?thesis
    unfolding loop_inv_def
  proof (intro conjI allI impI ballI)
    fix k i assume "map_of rows' k = Some i"
    with sid other inv show "row_of rid k UNIV i (wf_steps (tables st'))"
      by (auto simp: update_conv' loop_inv_def split: if_splits intro: row_of_mono)
  next
    fix x assume "x \<in> insert s done"
    then show "\<exists>i. map_of rows' (step_id x) = Some i \<and> row_of rid (step_id x) (settled x) i (wf_steps (tables st'))"
    proof
      assume "x = s"
      with sid show ?thesis by (simp add: update_conv')
    next
      assume x: "x \<in> done"
      with new have "step_id x \<noteq> step_id s" by (metis imageI)
      with x sid other inv show ?thesis by (fastforce simp: update_conv' loop_inv_def)
    qed
  qed (use sid fresh in auto)
qed

lemma still_owned_inv:
  "loop_inv D rid done rows st \<Longrightarrow> still_owned D i token st = (x, st') \<Longrightarrow> loop_inv D rid done rows st'"
  by (auto simp: loop_inv_def still_owned_def refresh_run_def bind_act_def draw_def fetch_def clean_def
      tables_def committed_tables_def kernel_tables_of_def set_run_def ids_fresh_def split: option.splits)

lemma run_steps_inv:
  assumes "loop_inv D rid done rows st" "distinct (map step_id ss)" "step_id ` done \<inter> step_id ` set ss = {}"
    and E: "spares_steps (en_personal E)" "spares_steps (en_workspace E)"
    and "run_steps H E D rid token w index ss rows st = (Inr (Some rows'), st')"
  shows "loop_inv D rid (done \<union> set ss) rows' st'"
  using assms(1-3,6)
proof (induction ss arbitrary: "done" index rows st)
  case (Cons s ss)
  obtain own st1 where o: "still_owned D rid token st = (own, st1)" by fastforce
  have i1: "loop_inv D rid done rows st1" by (rule still_owned_inv [OF Cons.prems(1) o])
  from Cons.prems(4) o obtain rows1 st2 where
    r: "run_step H E D rid token w index s rows st1 = (Inr (Some rows1), st2)"
    and rest: "run_steps H E D rid token w (Suc index) ss rows1 st2 = (Inr (Some rows'), st')"
    by (auto simp: bind_act_Inr_iff split: if_splits option.splits)
  have "loop_inv D rid (insert s done) rows1 st2"
    by (rule run_step_inv [OF i1 _ E r]) (use Cons.prems(3) in auto)
  from Cons.IH [OF this _ _ rest] Cons.prems(2,3) show ?case by auto
qed simp


subsection \<open>The whole run\<close>

lemmas state_simps = tables_def committed_tables_def kernel_tables_of_def on_tables_def on_kernel_def session_simps

lemma record_post:
  "record_workflow_event D e st = (Inr x, st') \<Longrightarrow>
   wf_steps (tables st') = wf_steps (tables st) \<and> wf_runs (tables st') = wf_runs (tables st)
   \<and> wf_tick st \<le> wf_tick st'"
  by (auto simp: record_workflow_event_def bind_act_def draw_def state_simps split: if_splits)

lemma commit_post: "commit_all st = (Inr x, st') \<Longrightarrow>
   tables st' = tables st \<and> committed_tables st' = tables st \<and> wf_tick st' = wf_tick st"
  by (auto simp: commit_all_def state_simps)

lemma put_post: "put f st = (Inr x, st') \<Longrightarrow> tables st' = f (tables st) \<and> wf_tick st' = wf_tick st"
  by (auto simp: put_def)

lemma draw_post: "draw f st = (Inr x, st') \<Longrightarrow> tables st' = tables st \<and> wf_tick st' = Suc (wf_tick st)"
  by (auto simp: draw_def state_simps)

lemma fetch_post: "fetch g st = (Inr x, st') \<Longrightarrow> st' = st \<and> g (tables st) = Some x"
  by (auto simp: fetch_def split: option.splits)

lemma set_run_steps: "wf_steps (set_run i u t) = wf_steps t"
  by (simp add: set_run_def)

lemma set_run_status: "find_run i (set_run i u t) = Some q \<Longrightarrow> (\<And>r. rn_status (u r) = a) \<Longrightarrow> rn_status q = a"
  by (auto simp: find_run_def set_run_def set_update_where dest!: find_SomeD)

lemmas posts = record_post commit_post put_post draw_post fetch_post

lemma fail_run_calm:
  "fail_run D rid w c m s = (Inr x, s') \<Longrightarrow> run_in rid ENGINE_STATES (wf_runs (tables s'))"
  by (auto simp: fail_run_def bind_act_Inr_iff split: option.splits dest!: posts)
    (auto simp: set_run_def run_in_def row_simps ENGINE_STATES_def)

lemma begin_run_post:
  assumes "begin_run D run s = (Inr x, s')"
  shows "wf_steps (tables s') = wf_steps (tables s) \<and> clean s' \<and> wf_tick s \<le> wf_tick s' \<and> calm_runs (rn_id run) s'"
proof -
  obtain s1 s2 s3 s4 u r y where
    a: "(if rn_started run = None then bind_act (draw (now_at D)) (\<lambda>now.
         put (set_run (rn_id run) (\<lambda>r. r\<lparr>rn_started := Some now\<rparr>))) else ret ()) s = (Inr u, s1)"
    and b: "put (set_run (rn_id run) (\<lambda>r. r\<lparr>rn_status := Run_Running, rn_error_code := None,
        rn_error := None\<rparr>)) s1 = (Inr y, s2)"
    and c: "fetch (find_run (rn_id run)) s2 = (Inr r, s3)"
    and d: "\<exists>e z. record_workflow_event D e s3 = (Inr z, s4)" and e: "commit_all s4 = (Inr x, s')"
    using assms unfolding begin_run_def bind_act_Inr_iff by blast
  have "wf_steps (tables s1) = wf_steps (tables s)" "wf_tick s \<le> wf_tick s1"
    using a by (auto simp: bind_act_Inr_iff set_run_def split: if_splits dest!: posts)
  moreover have "wf_steps (tables s2) = wf_steps (tables s1)" "wf_tick s2 = wf_tick s1"
    "run_in (rn_id run) ENGINE_STATES (wf_runs (tables s2))"
    using put_post [OF b] by (auto simp: set_run_def run_in_def set_update_where ENGINE_STATES_def)
  ultimately show ?thesis
    using c d e by (auto dest!: posts simp: clean_def on_data_def data_ok_def)
      (auto simp: tables_def committed_tables_def kernel_tables_of_def)
qed

lemma load_rows_ok:
  assumes "distinct (map sr_id (wf_steps t))" "map_of (load_rows rid t) k = Some i"
  shows "row_of rid k UNIV i (wf_steps t)"
proof -
  have "map_of (fold (\<lambda>r rows. AList.update (sr_key r) (sr_id r) rows) rs acc) k = Some i \<Longrightarrow>
      (\<exists>r \<in> set rs. sr_key r = k \<and> sr_id r = i) \<or> map_of acc k = Some i" for rs acc
    by (induction rs arbitrary: acc) (fastforce simp: update_conv' split: if_splits)+
  with assms(2) obtain r where "r \<in> set (wf_steps t)" "sr_run r = rid" "sr_key r = k" "sr_id r = i"
    by (fastforce simp: load_rows_def)
  with find_distinct_key [OF assms(1)] show ?thesis by (auto simp: row_of_def)
qed

lemma finish_run_post:
  assumes "finish_run H D rid n rows s = (Inr x, s')"
  shows "wf_steps (tables s') = wf_steps (tables s) \<and>
    (\<forall>r. find_run rid (tables s') = Some r \<longrightarrow> rn_status r =
      (if list_ex (\<lambda>(k, q). sr_status q = Step_Failed) (rows_of rows (wf_steps (tables s)))
       then Run_Completed_With_Errors else Run_Completed))"
proof -
  let ?cur = "rows_of rows (wf_steps (tables s))"
  let ?bad = "filter (\<lambda>(k, r). sr_status r = Step_Failed) ?cur"
  let ?st = "if ?bad \<noteq> [] then Run_Completed_With_Errors else Run_Completed"
  obtain s1 s2 s3 s4 now u r y e where
    a: "draw (now_at D) s = (Inr now, s1)"
    and b: "put (set_run rid (\<lambda>r. r\<lparr>rn_status := ?st, rn_step := None, rn_finished := Some now, rn_token := None,
        rn_until := None, rn_result := stored (map (\<lambda>(k, r). (k, step_summary r)) ?cur)\<rparr>)) s1 = (Inr u, s2)"
    and c: "fetch (find_run rid) s2 = (Inr r, s3)"
    and d: "record_workflow_event D e s3 = (Inr y, s4)" and f: "commit_all s4 = (Inr x, s')"
    using assms unfolding finish_run_def bind_act_Inr_iff reads_def Let_def by auto
  have t1: "tables s1 = tables s" using draw_post [OF a] by blast
  have t2: "wf_steps (tables s2) = wf_steps (tables s1)"
    by (subst put_post [OF b, THEN conjunct1]) (rule set_run_steps)
  have "wf_steps (tables s') = wf_steps (tables s2)" "wf_runs (tables s') = wf_runs (tables s2)"
    using fetch_post [OF c] record_post [OF d] commit_post [OF f] by auto
  with t1 t2 have "wf_steps (tables s') = wf_steps (tables s)" "wf_runs (tables s') = wf_runs (tables s2)" by auto
  moreover have "rn_status q = ?st" if "find_run rid (tables s2) = Some q" for q
    by (rule set_run_status [OF that [unfolded put_post [OF b, THEN conjunct1]]]) (cases "?bad = []"; simp)
  moreover have "?bad \<noteq> [] \<longleftrightarrow> list_ex (\<lambda>(k, q). sr_status q = Step_Failed) ?cur"
    by (auto simp: filter_empty_conv list_ex_iff)
  ultimately show ?thesis by (simp add: find_run_def)
qed


text \<open>Providers that leave runs and step rows alone, in both environments.\<close>

definition env_spares :: "'x wf_env \<Rightarrow> bool" where
  "env_spares E = (spares_steps (en_personal E) \<and> spares_steps (en_workspace E)
     \<and> spares_runs (en_personal E) \<and> spares_runs (en_workspace E))"

text \<open>The step rows of a session in which an execution starts: known ids, and nothing pending.\<close>

definition rows_ready :: "draws \<Rightarrow> 'x wf_state \<Rightarrow> bool" where
  "rows_ready D s = (clean s \<and> ids_fresh D (wf_tick s) (wf_steps (tables s))
     \<and> distinct (map sr_id (wf_steps (tables s))))"

lemma validated_distinct:
  "validate_workflow_spec H v = Inr ss \<Longrightarrow> distinct (map step_id ss)"
  using steps_ok_distinct validate_workflow_spec_ok by blast

lemma execute_run_completes:
  assumes E: "env_spares E" "outside_calm D" and ready: "rows_ready D s"
    and run: "find_run rid (tables s) = Some run" "\<not> terminal (rn_status run)"
      "find_version (rn_version run) (tables s) = Some v"
    and spec: "validate_workflow_spec H (loads (wv_spec v) (JObj [])) = Inr ss"
    and exec: "execute_run H E D rid token s = (Inr x, s')"
    and run': "find_run rid (tables s') = Some run'"
      "rn_status run' \<in> {Run_Completed, Run_Completed_With_Errors}"
  shows "\<exists>rows st. loop_inv D rid (set ss) rows st \<and> finish_run H D rid (length ss) rows st = (Inr x, s')"
proof -
  have id: "rn_id run = rid" using run(1) by (auto simp: find_run_def dest: find_SomeD)
  have calm: "rn_status run' \<in> ENGINE_STATES" if "run_in rid ENGINE_STATES (wf_runs (tables s'))"
    using that run'(1) by (auto simp: run_in_def find_run_def dest!: find_SomeD)
  have end_calm: "\<not> calm_runs rid s'"
    using calm run'(2) by (auto simp: on_data_def data_ok_def tables_def kernel_tables_of_def ENGINE_STATES_def)
  have nofail: "fail_run D rid w c m s \<noteq> (Inr x, s')" for w c m
    using fail_run_calm [of D rid w c m s x s'] calm run'(2) by (auto simp: ENGINE_STATES_def)
  have notsame: "s' \<noteq> s" using run run' by (auto simp: terminal_def)
  from exec obtain w where exec1: "bind_act (begin_run D run) (\<lambda>_.
                     bind_act (reads (load_rows rid)) (\<lambda>rows.
                     bind_act (run_steps H E D rid token w 0 ss rows) (\<lambda>r. case r of
                       None \<Rightarrow> ret ()
                     | Some rows' \<Rightarrow>
                         bind_act (still_owned D rid token) (\<lambda>own.
                         if own then finish_run H D rid (length ss) rows' else ret ())))) s = (Inr x, s')"
    using run(2) spec notsame nofail
    by (auto simp: execute_run_def bind_act_def [of "reads _"] reads_def run(1,3) on_spec_def split: if_splits option.splits)
  then obtain s1 s2 r where b: "begin_run D run s = (Inr (), s1)"
    and l: "run_steps H E D rid token w 0 ss (load_rows rid (tables s1)) s1 = (Inr r, s2)"
    and e: "(case r of None \<Rightarrow> ret () | Some rows' \<Rightarrow> bind_act (still_owned D rid token) (\<lambda>own.
        if own then finish_run H D rid (length ss) rows' else ret ())) s2 = (Inr x, s')"
    by (auto simp: bind_act_Inr_iff reads_def)
  note bp = begin_run_post [OF b, unfolded id]
  have "yields (calm_runs rid) (\<lambda>_. True) (run_steps H E D rid token w 0 ss (load_rows rid (tables s1)))"
    by (intro calm.run_steps_frame E(2) spares_runs_keep) (use E(1) in \<open>simp_all add: env_spares_def\<close>)
  from yieldsD [OF this] bp l have c2: "calm_runs rid s2" by (metis snd_conv)
  obtain rows' where r: "r = Some rows'" using e c2 end_calm by (cases r) auto
  have "loop_inv D rid {} (load_rows rid (tables s1)) s1"
    using ready bp load_rows_ok [of "tables s1" rid]
    by (auto simp: loop_inv_def rows_ready_def ids_fresh_def)
  from run_steps_inv [OF this validated_distinct [OF spec] _ _ _ l [unfolded r]] E(1)
  have inv: "loop_inv D rid (set ss) rows' s2" by (simp add: env_spares_def)
  obtain own s3 where o: "still_owned D rid token s2 = (Inr own, s3)"
    and f: "(if own then finish_run H D rid (length ss) rows' else ret ()) s3 = (Inr x, s')"
    using e by (auto simp: r bind_act_Inr_iff)
  have "calm_runs rid s3"
    using yieldsD [OF calm.still_owned_frame [OF E(2)] c2] o by (metis snd_conv)
  with f end_calm have "finish_run H D rid (length ss) rows' s3 = (Inr x, s')" by (auto split: if_splits)
  with still_owned_inv [OF inv o] show ?thesis by blast
qed


subsection \<open>Dependencies first\<close>

text \<open>A step of the run that has a row has finished rows for all its dependencies.\<close>

definition deps_ok :: "ident \<Rightarrow> wf_step list \<Rightarrow> wf_step_run list \<Rightarrow> bool" where
  "deps_ok rid ss xs = (\<forall>s \<in> set ss. (\<exists>r \<in> set xs. sr_run r = rid \<and> sr_key r = step_id s) \<longrightarrow>
     (\<forall>d \<in> set (depends_on s). \<exists>i. row_of rid d {Step_Completed, Step_Skipped} i xs))"

lemma nothing_missing:
  assumes "\<not> present (missing_dependency cur s)" "[] \<notin> set (depends_on s)" "d \<in> set (depends_on s)"
  shows "finished (map_of cur d)"
proof (cases "missing_dependency cur s")
  case None
  with assms(3) show ?thesis by (auto simp: missing_dependency_def find_None_iff)
next
  case (Some e)
  with assms(1,2) show ?thesis by (auto simp: missing_dependency_def dest: find_SomeD)
qed

lemma finished_stays:
  assumes inv: "loop_inv D rid done rows st" and E: "env_keeps (row_kept D (\<not> finished (Some q)) q) E"
    and new: "\<not> finished (map_of (rows_of rows (wf_steps (tables st))) (step_id s))"
    and q: "row_of rid d {Step_Completed, Step_Skipped} i (wf_steps (tables st))"
      "find (\<lambda>r. sr_id r = i) (wf_steps (tables st)) = Some q"
  shows "on_steps (\<lambda>_. row_of rid d {Step_Completed, Step_Skipped} i)
    (snd (perform_step H E D rid token w index s rows ctx b st))"
proof -
  have f: "finished (Some q)" "sr_id q = i" "q \<in> set (wf_steps (tables st))"
    using q find_SomeD [OF q(2)] by (auto simp: row_of_def finished_def)
  have "on_steps (row_kept D (\<not> finished (Some q)) q) st"
    using inv q(2) f by (auto simp: on_steps_iff row_kept_def loop_inv_def clean_def ids_fresh_def)
  moreover have "row_free (\<not> finished (Some q)) q sid" if "map_of rows (step_id s) = Some sid" for sid
    using new f q(2) map_of_rows_of [OF that] by (auto simp: row_free_def)
  ultimately have "on_steps (row_kept D (\<not> finished (Some q)) q)
      (snd (perform_step H E D rid token w index s rows ctx b st))"
    using kept.perform_step_frame [where K = UNIV and s = s and E = E and D = D and r = q and rows = rows
        and b = "\<not> finished (Some q)"] E
    by (auto simp: yields_def)
  with f q show ?thesis by (auto simp: on_steps_iff row_kept_def row_of_def)
qed

lemma keys_after:
  assumes inv: "loop_inv D rid done rows st" and E: "env_keeps (keys_in rid K) E" "step_id s \<in> K"
    and K: "\<And>r. r \<in> set (wf_steps (tables st)) \<Longrightarrow> sr_run r = rid \<Longrightarrow> sr_key r \<in> K"
  shows "on_steps (keys_in rid K) (snd (perform_step H E D rid token w index s rows ctx b st))"
proof -
  have "on_steps (keys_in rid K) st"
    using inv K by (auto simp: on_steps_iff keys_in_def loop_inv_def clean_def)
  with keys.perform_step_frame [where K = K and s = s and E = E and D = D and rid = rid and rows = rows] E
  show ?thesis by (auto simp: yields_def)
qed

lemma perform_step_deps:
  assumes inv: "loop_inv D rid done rows st" and E: "env_spares E"
    and ok: "deps_ok rid ss (wf_steps (tables st))" "distinct (map step_id ss)" "s \<in> set ss"
    and new: "\<not> finished (map_of (rows_of rows (wf_steps (tables st))) (step_id s))"
    and deps: "\<And>d. d \<in> set (depends_on s) \<Longrightarrow> finished (map_of (rows_of rows (wf_steps (tables st))) d)"
  shows "on_steps (\<lambda>_. deps_ok rid ss) (snd (perform_step H E D rid token w index s rows ctx b st))"
proof -
  let ?xs = "wf_steps (tables st)" and ?st' = "snd (perform_step H E D rid token w index s rows ctx b st)"
  let ?K = "insert (step_id s) {sr_key r | r. r \<in> set ?xs \<and> sr_run r = rid}"
  have keep: "env_keeps Q E" for Q using E by (auto simp: env_spares_def intro: spares_env)
  have keys: "on_steps (keys_in rid ?K) ?st'" by (rule keys_after [OF inv keep]) auto
  have stay: "on_steps (\<lambda>_. row_of rid d {Step_Completed, Step_Skipped} i) ?st'"
    if "row_of rid d {Step_Completed, Step_Skipped} i ?xs" for d i
    using that finished_stays [OF inv keep new that] by (auto simp: row_of_def split: option.splits)
  have dep: "\<exists>i. row_of rid d {Step_Completed, Step_Skipped} i ?xs"
    if "x \<in> set ss" "step_id x \<in> ?K" "d \<in> set (depends_on x)" for x d
  proof (cases "step_id x = step_id s")
    case True
    with that(1) ok(2,3) have "x = s" by (metis distinct_map inj_onD)
    with that(3) deps inv show ?thesis
      unfolding loop_inv_def by (blast dest: finished_row_of [where rid = rid, rotated])
  next
    case False
    with that(2) have "\<exists>r \<in> set ?xs. sr_run r = rid \<and> sr_key r = step_id x" by auto
    with that(1,3) ok(1) show ?thesis unfolding deps_ok_def by blast
  qed
  have main: "deps_ok rid ss ys"
    if "keys_in rid ?K n ys" "\<And>d i. row_of rid d {Step_Completed, Step_Skipped} i ?xs \<Longrightarrow>
        row_of rid d {Step_Completed, Step_Skipped} i ys" for n ys
    unfolding deps_ok_def
  proof (intro ballI impI)
    fix x d assume x: "x \<in> set ss" "d \<in> set (depends_on x)" and "\<exists>r \<in> set ys. sr_run r = rid \<and> sr_key r = step_id x"
    then obtain r where r: "r \<in> set ys" "sr_run r = rid" "sr_key r = step_id x" by blast
    with that(1) have "sr_key r \<in> ?K" unfolding keys_in_def by blast
    from dep [OF x(1) this [unfolded r(3)] x(2)] that(2) show "\<exists>i. row_of rid d {Step_Completed, Step_Skipped} i ys" by blast
  qed
  note k = keys [unfolded on_steps_iff] and st = stay [unfolded on_steps_iff]
  from main [OF conjunct1 [OF k] conjunct1 [OF st]] main [OF conjunct2 [OF k] conjunct2 [OF st]]
  show ?thesis unfolding on_steps_iff by simp
qed

lemma on_steps_const: "clean st \<Longrightarrow> P (wf_steps (tables st)) \<Longrightarrow> on_steps (\<lambda>_. P) st"
  by (simp add: on_steps_iff clean_def)

lemma run_step_deps:
  assumes inv: "loop_inv D rid done rows st" and E: "env_spares E"
    and ok: "deps_ok rid ss (wf_steps (tables st))" "distinct (map step_id ss)" "s \<in> set ss" "[] \<notin> set (depends_on s)"
  shows "on_steps (\<lambda>_. deps_ok rid ss) (snd (run_step H E D rid token w index s rows st))"
proof -
  let ?cur = "rows_of rows (wf_steps (tables st))"
  have start: "on_steps (\<lambda>_. deps_ok rid ss) st"
    using inv ok(1) by (intro on_steps_const) (simp_all add: loop_inv_def)
  have fail: "on_steps (\<lambda>_. deps_ok rid ss) (snd (bind_act (fail_run D rid c m n) (\<lambda>_. ret None) st))" for c m n
    by (rule yieldsD [OF yields_bind_any [where U = "\<lambda>_. True", OF rows.fail_run_frame] start]) (intro yields_atoms TrueI)
  consider (finished) "finished (map_of ?cur (step_id s))"
    | (missing) "\<not> finished (map_of ?cur (step_id s))" "present (missing_dependency ?cur s)"
    | (go) "\<not> finished (map_of ?cur (step_id s))" "\<not> present (missing_dependency ?cur s)" by blast
  then show ?thesis
  proof cases
    case finished
    with start show ?thesis by (simp add: run_step_def bind_act_def reads_def)
  next
    case missing
    with fail show ?thesis by (simp add: run_step_def bind_act_def [of "reads _"] reads_def decide_step_def)
  next
    case go
    have "on_steps (\<lambda>_. deps_ok rid ss) (snd (perform_step H E D rid token w index s rows ctx b st))" for ctx b
      using perform_step_deps [OF inv E ok(1,2,3) go(1)] nothing_missing [OF go(2) ok(4)] by blast
    with go start fail show ?thesis
      by (auto simp: run_step_def bind_act_def [of "reads _"] bind_act_def [of "fetch _"] reads_def fetch_def
          decide_step_def Let_def on_spec_def split: option.split sum.split exn.split)
  qed
qed

lemma run_steps_deps:
  assumes "loop_inv D rid done rows st" "distinct (map step_id us)" "step_id ` done \<inter> step_id ` set us = {}"
    and "set us \<subseteq> set ss" "deps_ok rid ss (wf_steps (tables st))"
    and E: "env_spares E" and ss: "distinct (map step_id ss)" "\<And>s. s \<in> set ss \<Longrightarrow> [] \<notin> set (depends_on s)"
  shows "on_steps (\<lambda>_. deps_ok rid ss) (snd (run_steps H E D rid token w index us rows st))"
  using assms(1-5)
proof (induction us arbitrary: "done" index rows st)
  case Nil
  then show ?case by (auto simp: loop_inv_def intro: on_steps_const)
next
  case (Cons s us)
  obtain own st1 where o: "still_owned D rid token st = (own, st1)" by fastforce
  have i1: "loop_inv D rid done rows st1" by (rule still_owned_inv [OF Cons.prems(1) o])
  have "on_steps (\<lambda>_. deps_ok rid ss) st"
    using Cons.prems(1,5) by (intro on_steps_const) (simp_all add: loop_inv_def)
  then have d1: "on_steps (\<lambda>_. deps_ok rid ss) st1"
    using yieldsD [OF rows.still_owned_frame] o by (metis snd_conv)
  obtain r st2 where r: "run_step H E D rid token w index s rows st1 = (r, st2)" by fastforce
  have d2: "on_steps (\<lambda>_. deps_ok rid ss) st2"
    using run_step_deps [OF i1 E _ ss(1), of s H token w index] Cons.prems(4) d1 ss(2) r by (auto simp: on_steps_iff)
  have "on_steps (\<lambda>_. deps_ok rid ss) (snd (run_steps H E D rid token w (Suc index) us rows' st2))"
    if "r = Inr (Some rows')" for rows'
  proof (rule Cons.IH)
    show "loop_inv D rid (insert s done) rows' st2"
      by (rule run_step_inv [OF i1 _ _ _ r [unfolded that]]) (use Cons.prems(3) E in \<open>auto simp: env_spares_def\<close>)
  qed (use Cons.prems d2 in \<open>auto simp: on_steps_iff\<close>)
  with o r d1 d2 show ?case
    by (auto simp: bind_act_def split: sum.split option.split)
qed

lemma validated_deps_nonempty:
  assumes "validate_workflow_spec H v = Inr ss" "x \<in> set ss"
  shows "[] \<notin> set (depends_on x)"
proof -
  from assms(1) have ok: "steps_ok H [] ss" by (auto dest: validate_workflow_spec_ok)
  have "steps_ok H seen us \<Longrightarrow> [] \<notin> set seen \<Longrightarrow> x \<in> set us \<Longrightarrow> [] \<notin> set (depends_on x)" for seen us
    by (induction us arbitrary: seen) (fastforce simp: step_ok_def valid_step_id_def)+
  from this [OF ok _ assms(2)] show ?thesis by simp
qed


subsection \<open>A sample run\<close>

definition sample_done_row :: wf_step_run where
  "sample_done_row = (new_step_run ''s0'' ''r'' 0 (hd sample_wait_steps))\<lparr>sr_status := Step_Completed\<rparr>"

lemma sample_env_spares: "env_spares sample_wf_env"
  by (simp add: env_spares_def spares_steps_def spares_runs_def sample_wf_env_def sample_wf_kernel_def
      sample_wf_provider_def)

lemma sample_outside: "outside_calm sample_draws"
  by (simp add: outside_calm_def calm_def refresh_row_def sample_draws_def)

lemma sample_ready: "rows_ready sample_draws (sample_wf spec [])"
  by (simp add: rows_ready_def clean_def ids_fresh_def sample_inj sample_wf_tables_def)

lemma sample_completes:
  "case execute_run sample_host sample_wf_env sample_draws ''r'' None (sample_wf sample_wait_spec []) of
     (Inr _, s') \<Rightarrow> (case find_run ''r'' (tables s') of Some r \<Rightarrow> rn_status r = Run_Completed | None \<Rightarrow> False)
   | _ \<Rightarrow> False"
  by code_simp

lemma sample_spec_steps: "validate_workflow_spec sample_host sample_wait_spec = Inr sample_wait_steps"
  by code_simp




end
