(* ===== verification/Wf_Scheduler.thy ===== *)
theory Wf_Scheduler
  imports Wf_Engine
begin

text \<open>
  packages/workflow/scheduler.py: the dispatcher of workflow runs. Each operation is one database
  transaction of its own. A tick releases waits and decided approvals, orphans runs whose lease
  has expired, fires due schedules and claims queued runs; a claimed run is executed by a worker
  that holds its lease token.
\<close>

text \<open>
  The scheduler's limits, which rows it finds unlocked by other transactions when it selects with
  \<open>skip_locked\<close>, and the \<open>updated_at\<close> column, which the session maintains.
\<close>

record scheduler =
  sd_lease :: int
  sd_workers :: nat
  sd_free :: "nat \<Rightarrow> ident \<Rightarrow> bool"
  sd_updated :: "nat \<Rightarrow> wf_run \<Rightarrow> time"

text \<open>\<open>session_scope\<close>: a session that commits at its end, and rolls back when it is left by an exception.\<close>

definition transaction :: "('x, 'a) wact \<Rightarrow> ('x, 'a) wact" where
  "transaction m = bind_act rollback_all (\<lambda>_ s. (case m s of
       (Inr x, s') \<Rightarrow> bind_act commit_all (\<lambda>_. ret x) s'
     | (Inl e, s') \<Rightarrow> bind_act rollback_all (\<lambda>_. raise e) s'))"

fun for_each :: "('a \<Rightarrow> ('s, unit) act) \<Rightarrow> 'a list \<Rightarrow> ('s, unit) act" where
  "for_each f [] = ret ()"
| "for_each f (x # xs) = bind_act (f x) (\<lambda>_. for_each f xs)"

definition set_schedule :: "ident \<Rightarrow> (wf_schedule \<Rightarrow> wf_schedule) \<Rightarrow> 'x wf_tables \<Rightarrow> 'x wf_tables" where
  "set_schedule i f t = t\<lparr>wf_schedules := update_where (\<lambda>r. sc_id r = i) f (wf_schedules t)\<rparr>"

definition set_definition :: "ident \<Rightarrow> (wf_definition \<Rightarrow> wf_definition) \<Rightarrow> 'x wf_tables \<Rightarrow> 'x wf_tables" where
  "set_definition i f t = t\<lparr>wf_definitions := update_where (\<lambda>r. wd_id r = i) f (wf_definitions t)\<rparr>"

definition find_schedule :: "ident \<Rightarrow> 'x wf_tables \<Rightarrow> wf_schedule option" where
  "find_schedule i t = find (\<lambda>r. sc_id r = i) (wf_schedules t)"

definition unleased :: "time \<Rightarrow> wf_run \<Rightarrow> bool" where
  "unleased now r = (case rn_until r of None \<Rightarrow> True | Some u \<Rightarrow> u < now)"

subsection \<open>Waits and approvals\<close>

definition step_at :: "wf_run \<Rightarrow> 'x wf_tables \<Rightarrow> wf_step_run option" where
  "step_at run t = find (\<lambda>r. sr_run r = rn_id run \<and> Some (sr_key r) = rn_step run) (wf_steps t)"

definition released :: "time \<Rightarrow> approval list \<Rightarrow> 'x wf_tables \<Rightarrow> wf_run \<Rightarrow> bool" where
  "released now approvals t run = (case step_at run t of
       None \<Rightarrow> True
     | Some st \<Rightarrow>
         if rn_status run = Run_Waiting \<and> (case sr_wait_until st of None \<Rightarrow> False | Some u \<Rightarrow> u \<le> now) then True
         else if rn_status run = Run_Waiting_Approval \<and> present (sr_approval st) then
           (case find (\<lambda>p. Some (ap_id p) = sr_approval st) approvals of
              None \<Rightarrow> False
            | Some ap \<Rightarrow> ap_status ap \<noteq> Pending)
         else False)"

definition release_waiting :: "scheduler \<Rightarrow> draws \<Rightarrow> ('x, unit) wact" where
  "release_waiting S D =
     bind_act (draw (now_at D)) (\<lambda>now. transaction (
       bind_act (draw (sd_free S)) (\<lambda>free.
       bind_act (draw (sd_updated S)) (\<lambda>updated.
       bind_act (reads (\<lambda>t. take 100 (sort_key updated (filter
           (\<lambda>r. rn_status r \<in> {Run_Waiting, Run_Waiting_Approval} \<and> free (rn_id r)) (wf_runs t))))) (\<lambda>waiting.
       for_each (\<lambda>run st.
         (if released now (kt_approvals (kernel_tables_of st)) (tables st) run
          then put (set_run (rn_id run) (\<lambda>r. r\<lparr>rn_status := Run_Queued\<rparr>)) st else (Inr (), st))) waiting)))))"

subsection \<open>Lost executions\<close>

definition sched_attempt :: "wf_run \<Rightarrow> 'x wf_tables \<Rightarrow> wf_attempt option" where
  "sched_attempt run t =
     (if \<not> present (rn_step run) then None
      else case step_at run t of
          None \<Rightarrow> None
        | Some st \<Rightarrow> if sr_kind st \<noteq> ''action'' \<or> sr_attempt st < 1 then None else current_attempt st t)"

definition orphan_run :: "draws \<Rightarrow> ident \<Rightarrow> string \<Rightarrow> string \<Rightarrow> string \<Rightarrow> ('x, unit) wact" where
  "orphan_run D rid code message actor =
     bind_act (fetch (find_run rid)) (\<lambda>run.
     bind_act (reads (find_definition (rn_workflow run))) (\<lambda>w.
     bind_act (reads (sched_attempt run)) (\<lambda>attempt.
     bind_act (draw (now_at D)) (\<lambda>now.
     bind_act (put (set_run rid (\<lambda>r. r\<lparr>rn_status := Run_Orphaned, rn_error_code := Some code,
        rn_error := Some message, rn_finished := Some now, rn_token := None, rn_until := None\<rparr>))) (\<lambda>_.
     bind_act (case attempt of
         Some a \<Rightarrow> if sa_status a = Attempt_Running then
             put (set_attempt (sa_id a) (\<lambda>x. x\<lparr>sa_status := Attempt_Orphaned, sa_error_code := Some code,
               sa_error := Some message, sa_finished := Some now\<rparr>)) else ret ()
       | None \<Rightarrow> ret ()) (\<lambda>_.
     case w of None \<Rightarrow> ret ()
     | Some _ \<Rightarrow> record_workflow_event D ((run_event run ''workflow.run.orphaned''
          [(''code'', JStr code), (''current_step_key'', opt_json (rn_step run)),
           (''attempt'', case attempt of None \<Rightarrow> JNull | Some a \<Rightarrow> JInt (sa_attempt a))])
          \<lparr>ev_attempt := map_option sa_id attempt, ev_actor := Some actor,
           ev_capability := map_option sa_capability attempt,
           ev_kernel_run := Option.bind attempt sa_kernel_run,
           ev_approval := Option.bind attempt sa_approval\<rparr>)))))))"

definition mark_orphaned :: "scheduler \<Rightarrow> draws \<Rightarrow> ('x, unit) wact" where
  "mark_orphaned S D =
     bind_act (draw (now_at D)) (\<lambda>now. transaction (
       bind_act (draw (sd_free S)) (\<lambda>free.
       bind_act (reads (\<lambda>t. take 50 (filter (\<lambda>r. rn_status r = Run_Running
           \<and> (case rn_until r of None \<Rightarrow> False | Some u \<Rightarrow> u < now) \<and> free (rn_id r)) (wf_runs t)))) (\<lambda>lost.
       for_each (\<lambda>run. orphan_run D (rn_id run) ''execution_outcome_uncertain''
          ''The worker lease expired during an in-flight step; Operly will not replay it automatically.''
          ''operly:scheduler'') lost))))"

text \<open>A worker that is cancelled gives a run back only when the engine has not started it.\<close>

definition handle_cancelled_worker :: "draws \<Rightarrow> ident \<Rightarrow> string \<Rightarrow> ('x, unit) wact" where
  "handle_cancelled_worker D rid token = transaction (
     bind_act (reads (\<lambda>t. find (\<lambda>r. rn_id r = rid \<and> rn_token r = Some token) (wf_runs t))) (\<lambda>found.
     case found of
       None \<Rightarrow> ret ()
     | Some run \<Rightarrow>
         if rn_status run = Run_Queued then
           put (set_run rid (\<lambda>r. r\<lparr>rn_token := None, rn_until := None\<rparr>))
         else if rn_status run = Run_Running then
           orphan_run D rid ''worker_shutdown_outcome_uncertain''
             (''The executing Operly worker stopped while this step was in ''
              @ ''flight; the action will not be replayed automatically.'')
             ''operly:scheduler''
         else ret ()))"

definition heartbeat :: "scheduler \<Rightarrow> draws \<Rightarrow> ident \<Rightarrow> string \<Rightarrow> ('x, bool) wact" where
  "heartbeat S D rid token = transaction (
     bind_act (reads (\<lambda>t. find (\<lambda>r. rn_id r = rid \<and> rn_token r = Some token
         \<and> rn_status r \<in> {Run_Queued, Run_Running}) (wf_runs t))) (\<lambda>found.
     case found of
       None \<Rightarrow> ret False
     | Some _ \<Rightarrow> bind_act (draw (now_at D)) (\<lambda>now.
         bind_act (put (set_run rid (\<lambda>r. r\<lparr>rn_until := Some (now + seconds (sd_lease S))\<rparr>))) (\<lambda>_. ret True))))"

subsection \<open>Schedules\<close>

definition due_schedules :: "(ident \<Rightarrow> bool) \<Rightarrow> time \<Rightarrow> 'x wf_tables \<Rightarrow> ident list" where
  "due_schedules free now t = map sc_id (take 25 (sort_key (\<lambda>s. the (sc_next s)) (filter (\<lambda>s. sc_enabled s
     \<and> (case sc_next s of None \<Rightarrow> False | Some n \<Rightarrow> n \<le> now)
     \<and> (case sc_until s of None \<Rightarrow> True | Some u \<Rightarrow> u < now) \<and> free (sc_id s)) (wf_schedules t))))"

definition schedule_key :: "host \<Rightarrow> ident \<Rightarrow> time \<Rightarrow> string" where
  "schedule_key H sid scheduled = ''schedule:'' @ sid @ '':'' @ iso_format H scheduled"

definition schedule_event :: "wf_definition \<Rightarrow> string \<Rightarrow> (string \<times> json) list \<Rightarrow> wf_event" where
  "schedule_event w kind payload = (wf_event_of (wd_workspace w) (wd_id w) kind payload)
     \<lparr>ev_actor := Some ''operly:scheduler'', ev_owner := wd_owner w,
      ev_principal := (if present (wd_owner w) then Some (''user:'' @ the (wd_owner w)) else None)\<rparr>"

text \<open>What firing writes to the schedule and to its workflow, once the next time is known.\<close>

definition advance_schedule :: "wf_schedule \<Rightarrow> time \<Rightarrow> time option \<Rightarrow> 'x wf_tables \<Rightarrow> 'x wf_tables" where
  "advance_schedule sc scheduled upcoming t =
     (let t' = set_schedule (sc_id sc) (\<lambda>r. r\<lparr>sc_last := Some scheduled, sc_next := upcoming,
            sc_enabled := (if upcoming = None then False else sc_enabled r), sc_token := None,
            sc_until := None\<rparr>) t
      in if upcoming = None then set_definition (sc_workflow sc) (\<lambda>w. w\<lparr>wd_status := ''disabled''\<rparr>) t' else t')"

definition fire_schedule :: "host \<Rightarrow> draws \<Rightarrow> ident \<Rightarrow> ('x, unit) wact" where
  "fire_schedule H D sid =
     bind_act (fetch (find_schedule sid)) (\<lambda>sc.
     bind_act (reads (find_definition (sc_workflow sc))) (\<lambda>found.
     case (found, sc_next sc) of
       (Some w, Some scheduled) \<Rightarrow>
         if wd_status w \<noteq> ''enabled'' then
           put (set_schedule sid (\<lambda>r. r\<lparr>sc_enabled := False, sc_token := None, sc_until := None\<rparr>))
         else
           bind_act (lift (next_schedule_time H (sc_spec sc) scheduled)) (\<lambda>upcoming.
           bind_act (put (advance_schedule sc scheduled upcoming)) (\<lambda>_.
           let key = schedule_key H sid scheduled; text = JStr (iso_format H scheduled) in
           bind_act (reads (\<lambda>t. key \<in> rn_dedupe ` set (wf_runs t))) (\<lambda>existing.
           bind_act (if existing then ret () else bind_act (queue_workflow_run H D w ''schedule''
               [(''schedule_id'', JStr sid), (''scheduled_for'', text)] None (Some key) (Some scheduled))
               (\<lambda>_. ret ())) (\<lambda>_.
           bind_act (record_workflow_event D (schedule_event w ''workflow.schedule.fired''
               [(''schedule_id'', JStr sid), (''scheduled_for'', text), (''deduplicated'', JBool existing),
                (''exhausted'', JBool (upcoming = None)), (''next_run_at'', time_text H upcoming)])) (\<lambda>_.
           if upcoming = None then record_workflow_event D (schedule_event w ''workflow.schedule.exhausted''
               [(''schedule_id'', JStr sid), (''scheduled_for'', text)])
           else ret ())))))
     | _ \<Rightarrow> put (set_schedule sid (\<lambda>r. r\<lparr>sc_enabled := False, sc_token := None, sc_until := None\<rparr>))))"

definition enqueue_due :: "host \<Rightarrow> scheduler \<Rightarrow> draws \<Rightarrow> ('x, unit) wact" where
  "enqueue_due H S D =
     bind_act (draw (now_at D)) (\<lambda>now.
     bind_act (draw (id_at D)) (\<lambda>token. transaction (
       bind_act (draw (sd_free S)) (\<lambda>free.
       bind_act (reads (due_schedules free now)) (\<lambda>due.
       bind_act (for_each (\<lambda>sid. put (set_schedule sid (\<lambda>r. r\<lparr>sc_token := Some token,
           sc_until := Some (now + seconds (sd_lease S))\<rparr>))) due) (\<lambda>_.
       for_each (fire_schedule H D) due))))))"

subsection \<open>Claiming and executing runs\<close>

type_synonym claims = "(ident \<times> string) list"

definition lease_run :: "scheduler \<Rightarrow> draws \<Rightarrow> time \<Rightarrow> ident \<Rightarrow> ('x, string) wact" where
  "lease_run S D now rid =
     bind_act (draw (id_at D)) (\<lambda>token.
     bind_act (put (set_run rid (\<lambda>r. r\<lparr>rn_token := Some token,
        rn_until := Some (now + seconds (sd_lease S))\<rparr>))) (\<lambda>_. ret token))"

fun lease_all :: "scheduler \<Rightarrow> draws \<Rightarrow> time \<Rightarrow> wf_run list \<Rightarrow> claims \<Rightarrow> ('x, claims) wact" where
  "lease_all S D now [] claims = ret claims"
| "lease_all S D now (r # rs) claims =
     bind_act (lease_run S D now (rn_id r)) (\<lambda>token. lease_all S D now rs (claims @ [(rn_id r, token)]))"

definition base_claim_runs :: "scheduler \<Rightarrow> draws \<Rightarrow> nat \<Rightarrow> ('x, claims) wact" where
  "base_claim_runs S D limit =
     bind_act (draw (now_at D)) (\<lambda>now. transaction (
       bind_act (draw (sd_free S)) (\<lambda>free.
       bind_act (reads (\<lambda>t. take limit (sort_key rn_created (filter (\<lambda>r. rn_status r = Run_Queued
           \<and> unleased now r \<and> free (rn_id r)) (wf_runs t))))) (\<lambda>rows.
       lease_all S D now rows []))))"

text \<open>The text of an exception's class, as \<open>type(error).__name__\<close> gives it.\<close>

fun exn_class :: "exn \<Rightarrow> string" where
  "exn_class (ValueError _) = ''ValueError''"
| "exn_class (WorkflowSpecError _) = ''WorkflowSpecError''"
| "exn_class (SchemaValidationError _) = ''SchemaValidationError''"
| "exn_class (TypeError _) = ''TypeError''"
| "exn_class (KeyError _) = ''KeyError''"
| "exn_class (LookupError _) = ''LookupError''"
| "exn_class (PermissionError _) = ''PermissionError''"
| "exn_class (ExecutionContextError _) = ''ExecutionContextError''"
| "exn_class (DelegationError _) = ''DelegationError''"
| "exn_class (ResourceBudgetExceeded _) = ''ResourceBudgetExceeded''"
| "exn_class (RuntimeError _) = ''RuntimeError''"
| "exn_class (CapabilityRegistryError _) = ''CapabilityRegistryError''"
| "exn_class (ApprovalError _) = ''ApprovalError''"
| "exn_class (IdempotencyConflict _) = ''IdempotencyConflict''"
| "exn_class (IdempotencyInProgress _) = ''IdempotencyInProgress''"
| "exn_class (AgentRunStateError _) = ''AgentRunStateError''"
| "exn_class (AgentLeaseLost _) = ''AgentLeaseLost''"
| "exn_class (AgentRuntimeDisabled _) = ''AgentRuntimeDisabled''"
| "exn_class (RuntimeExecutionError _ _ _ _ _) = ''RuntimeExecutionError''"
| "exn_class (PermanentPlatformJobError _) = ''PermanentPlatformJobError''"
| "exn_class (EventDeliveryError _ _) = ''EventDeliveryError''"
| "exn_class (OtherError _) = ''Exception''"

definition mark_dispatch_failure :: "draws \<Rightarrow> ident \<Rightarrow> exn \<Rightarrow> string option \<Rightarrow> ('x, unit) wact" where
  "mark_dispatch_failure D rid e token = transaction (
     bind_act (reads (\<lambda>t. find (\<lambda>r. rn_id r = rid \<and> (present token \<longrightarrow> rn_token r = token)) (wf_runs t))) (\<lambda>found.
     case found of
       None \<Rightarrow> ret ()
     | Some run \<Rightarrow>
         if terminal (rn_status run) \<or> rn_status run \<in> {Run_Waiting, Run_Waiting_Approval} then ret ()
         else
           bind_act (reads (find_definition (rn_workflow run))) (\<lambda>w.
           bind_act (draw (now_at D)) (\<lambda>now.
           bind_act (put (set_run rid (\<lambda>r. r\<lparr>rn_status := Run_Failed, rn_error_code := Some ''dispatcher_failure'',
              rn_error := Some (take 1000 (exn_class e @ '': '' @ exn_message e)), rn_finished := Some now,
              rn_token := None, rn_until := None\<rparr>))) (\<lambda>_.
           case w of None \<Rightarrow> ret ()
           | Some _ \<Rightarrow> record_workflow_event D ((run_event run ''workflow.run.failed''
               [(''code'', JStr ''dispatcher_failure'')])\<lparr>ev_actor := Some ''operly:scheduler''\<rparr>))))))"

text \<open>A worker's session ends in a commit or a rollback; its exception fails the run.\<close>

definition execute_claimed_run ::
  "host \<Rightarrow> 'x wf_env \<Rightarrow> draws \<Rightarrow> ident \<Rightarrow> string \<Rightarrow> ('x, unit) wact" where
  "execute_claimed_run H E D rid token s =
     (case transaction (
         bind_act (reads (\<lambda>t. find (\<lambda>r. rn_id r = rid \<and> rn_token r = Some token
             \<and> rn_status r = Run_Queued) (wf_runs t))) (\<lambda>mine.
         case mine of None \<Rightarrow> ret () | Some _ \<Rightarrow> execute_run H E D rid (Some token))) s of
       (Inr x, s') \<Rightarrow> (Inr x, s')
     | (Inl e, s') \<Rightarrow> mark_dispatch_failure D rid e (Some token) s')"

text \<open>
  A tick, with the claiming operation of the scheduler's class and the number of workers that are
  busy; it gives the runs for which workers are started.
\<close>

definition tick ::
  "(nat \<Rightarrow> ('x, claims) wact) \<Rightarrow> host \<Rightarrow> scheduler \<Rightarrow> draws \<Rightarrow> nat \<Rightarrow> ('x, claims) wact" where
  "tick claim H S D active =
     bind_act (release_waiting S D) (\<lambda>_.
     bind_act (mark_orphaned S D) (\<lambda>_.
     bind_act (enqueue_due H S D) (\<lambda>_.
     let capacity = sd_workers S - active in
     if capacity < 1 then ret [] else claim (min capacity 25))))"

end
