(* ===== verification/Wf_Concurrency.thy ===== *)
theory Wf_Concurrency
  imports Wf_Scheduler
begin

text \<open>
  packages/workflow/concurrency.py: the concurrency policy a workflow version carries in its
  snapshot, and the scheduler that claims runs under it. A workflow's row is locked while its
  occupied slots are counted, so a claim is one transaction over the workflow's runs.
\<close>

subsection \<open>The policy\<close>

definition MAX_CONCURRENT_RUNS :: int where
  "MAX_CONCURRENT_RUNS = 64"

datatype overflow = Queue_Overflow | Drop_Overflow

fun overflow_text :: "overflow \<Rightarrow> string" where
  "overflow_text Queue_Overflow = ''queue''"
| "overflow_text Drop_Overflow = ''drop''"

record concurrency =
  cc_limit :: int
  cc_overflow :: overflow

definition DEFAULT_CONCURRENCY_POLICY :: concurrency where
  "DEFAULT_CONCURRENCY_POLICY = \<lparr>cc_limit = 0, cc_overflow = Queue_Overflow\<rparr>"

definition policy_json :: "concurrency \<Rightarrow> (string \<times> json) list" where
  "policy_json p = [(''max_concurrent_runs'', JInt (cc_limit p)),
     (''overflow_policy'', JStr (overflow_text (cc_overflow p)))]"

definition policy_limit :: "(string \<times> json) list \<Rightarrow> int result" where
  "policy_limit kvs =
     (let raw = (case obj_get ''max_concurrent_runs'' kvs of None \<Rightarrow> JInt 0 | Some v \<Rightarrow> v);
          bad = Inl (ValueError ''max_concurrent_runs must be an integer'')
      in case raw of
           JBool _ \<Rightarrow> bad
         | _ \<Rightarrow> (case py_int raw of
               Inl _ \<Rightarrow> bad
             | Inr n \<Rightarrow>
                 if n < 0 \<or> n > MAX_CONCURRENT_RUNS then
                   Inl (ValueError (''max_concurrent_runs must be between 0 and '' @ int_str MAX_CONCURRENT_RUNS))
                 else Inr n))"

definition policy_overflow :: "host \<Rightarrow> (string \<times> json) list \<Rightarrow> overflow result" where
  "policy_overflow H kvs =
     (let text = py_lower (py_strip (py_str H (get_or ''overflow_policy'' (JStr ''queue'') kvs)))
      in if text = ''queue'' then Inr Queue_Overflow
         else if text = ''drop'' then Inr Drop_Overflow
         else Inl (ValueError (''overflow_policy must be '' @ [CHR 0x27] @ ''queue'' @ [CHR 0x27] @ '' or ''
           @ [CHR 0x27] @ ''drop'' @ [CHR 0x27])))"

definition normalize_concurrency_policy :: "host \<Rightarrow> json \<Rightarrow> concurrency result" where
  "normalize_concurrency_policy H v = (case v of
       JNull \<Rightarrow> Inr DEFAULT_CONCURRENCY_POLICY
     | JObj kvs \<Rightarrow>
         (let unknown = filter (\<lambda>k. k \<noteq> ''max_concurrent_runs'' \<and> k \<noteq> ''overflow_policy'') (remdups (map fst kvs))
          in if unknown \<noteq> [] then
               Inl (ValueError (''Unsupported Workflow concurrency field(s): '' @ join '', '' (sort unknown)))
             else bind_result (policy_limit kvs) (\<lambda>n.
               bind_result (policy_overflow H kvs) (\<lambda>over.
               Inr \<lparr>cc_limit = n, cc_overflow = (if n = 0 then Queue_Overflow else over)\<rparr>)))
     | _ \<Rightarrow> Inl (ValueError ''Workflow concurrency must be an object or null''))"

definition policy_from_snapshot :: "host \<Rightarrow> json \<Rightarrow> concurrency" where
  "policy_from_snapshot H snapshot = (case snapshot of
       JObj kvs \<Rightarrow> (case normalize_concurrency_policy H (get_or_null ''concurrency'' kvs) of
           Inr p \<Rightarrow> p
         | Inl _ \<Rightarrow> DEFAULT_CONCURRENCY_POLICY)
     | _ \<Rightarrow> DEFAULT_CONCURRENCY_POLICY)"

definition workflow_policy :: "host \<Rightarrow> wf_definition \<Rightarrow> 'x wf_tables \<Rightarrow> concurrency" where
  "workflow_policy H w t =
     (case find (\<lambda>v. wv_workflow v = wd_id w \<and> wv_version v = wd_version w) (wf_versions t) of
        None \<Rightarrow> DEFAULT_CONCURRENCY_POLICY
      | Some v \<Rightarrow> policy_from_snapshot H (loads (wv_snapshot v) (JObj [])))"

subsection \<open>Claiming\<close>

definition waiting_run :: "time \<Rightarrow> wf_run \<Rightarrow> bool" where
  "waiting_run now r = (rn_status r = Run_Queued \<and> unleased now r)"

text \<open>A run occupies a slot while it runs or waits, and from the moment it is leased.\<close>

definition occupies :: "time \<Rightarrow> wf_run \<Rightarrow> bool" where
  "occupies now r = (rn_status r \<in> {Run_Running, Run_Waiting, Run_Waiting_Approval}
     \<or> rn_status r = Run_Queued \<and> \<not> unleased now r)"

definition runs_of :: "ident \<Rightarrow> 'x wf_tables \<Rightarrow> wf_run list" where
  "runs_of wid t = filter (\<lambda>r. rn_workflow r = wid) (wf_runs t)"

definition occupied :: "time \<Rightarrow> ident \<Rightarrow> 'x wf_tables \<Rightarrow> nat" where
  "occupied now wid t = length (filter (occupies now) (runs_of wid t))"

text \<open>The workflows that have runs to claim, by their oldest one.\<close>

definition candidates :: "time \<Rightarrow> nat \<Rightarrow> 'x wf_tables \<Rightarrow> ident list" where
  "candidates now limit t =
     (let rows = filter (waiting_run now) (wf_runs t)
      in take (max 25 (min (limit * 8) 256))
           (sort_key (\<lambda>wid. Min (rn_created ` {r \<in> set rows. rn_workflow r = wid}))
              (remdups (map rn_workflow rows))))"

definition queued_rows :: "(ident \<Rightarrow> bool) \<Rightarrow> time \<Rightarrow> ident \<Rightarrow> nat \<Rightarrow> 'x wf_tables \<Rightarrow> wf_run list" where
  "queued_rows free now wid n t =
     take n (sort_key rn_created (sort_key rn_id
       (filter (\<lambda>r. waiting_run now r \<and> free (rn_id r)) (runs_of wid t))))"

definition suppress_overflow_run :: "draws \<Rightarrow> concurrency \<Rightarrow> time \<Rightarrow> wf_run \<Rightarrow> ('x, unit) wact" where
  "suppress_overflow_run D p now run =
     bind_act (put (set_run (rn_id run) (\<lambda>r. r\<lparr>rn_status := Run_Cancelled,
        rn_error_code := Some ''concurrency_suppressed'',
        rn_error := Some ''This run was suppressed because the workflow concurrency limit was full.'',
        rn_finished := Some now, rn_token := None, rn_until := None\<rparr>))) (\<lambda>_.
     record_workflow_event D ((run_event run ''workflow.run.suppressed''
       ([(''reason'', JStr ''concurrency_limit'')] @ policy_json p
        @ [(''trigger_type'', JStr (rn_trigger_type run))]))\<lparr>ev_actor := Some ''operly:scheduler''\<rparr>))"

text \<open>The runs of one workflow in turn, by their index.\<close>

fun claim_rows ::
  "scheduler \<Rightarrow> draws \<Rightarrow> time \<Rightarrow> concurrency \<Rightarrow> nat \<Rightarrow> nat \<Rightarrow> nat \<Rightarrow> wf_run list \<Rightarrow> claims \<Rightarrow> ('x, claims) wact" where
  "claim_rows S D now p budget available index [] claims = ret claims"
| "claim_rows S D now p budget available index (r # rs) claims =
     (if index < budget then
        bind_act (lease_run S D now (rn_id r)) (\<lambda>token.
          claim_rows S D now p budget available (Suc index) rs (claims @ [(rn_id r, token)]))
      else
        bind_act (if 0 < cc_limit p \<and> available \<le> index \<and> cc_overflow p = Drop_Overflow
            then suppress_overflow_run D p now r else ret ()) (\<lambda>_.
          claim_rows S D now p budget available (Suc index) rs claims))"

definition slots :: "concurrency \<Rightarrow> nat \<Rightarrow> nat \<Rightarrow> nat" where
  "slots p global active = (if cc_limit p = 0 then global else nat (cc_limit p) - active)"

definition claim_workflow ::
  "host \<Rightarrow> scheduler \<Rightarrow> draws \<Rightarrow> time \<Rightarrow> nat \<Rightarrow> ident \<Rightarrow> claims \<Rightarrow> ('x, claims) wact" where
  "claim_workflow H S D now limit wid claims =
     bind_act (draw (sd_free S)) (\<lambda>free.
     bind_act (reads (find_definition wid)) (\<lambda>found.
     case found of
       None \<Rightarrow> ret claims
     | Some w \<Rightarrow>
         if \<not> free wid then ret claims
         else
           bind_act (reads (workflow_policy H w)) (\<lambda>p.
           bind_act (reads (occupied now wid)) (\<lambda>active.
           let global = limit - length claims; available = slots p global active in
           bind_act (draw (sd_free S)) (\<lambda>unlocked.
           bind_act (reads (queued_rows unlocked now wid (max 50 (min 512 (global * 16))))) (\<lambda>rows.
           claim_rows S D now p (min global available) available 0 rows claims))))))"

fun claim_workflows ::
  "host \<Rightarrow> scheduler \<Rightarrow> draws \<Rightarrow> time \<Rightarrow> nat \<Rightarrow> ident list \<Rightarrow> claims \<Rightarrow> ('x, claims) wact" where
  "claim_workflows H S D now limit [] claims = ret claims"
| "claim_workflows H S D now limit (wid # wids) claims =
     (if limit \<le> length claims then ret claims
      else bind_act (claim_workflow H S D now limit wid claims) (claim_workflows H S D now limit wids))"

definition claim_runs :: "host \<Rightarrow> scheduler \<Rightarrow> draws \<Rightarrow> nat \<Rightarrow> ('x, claims) wact" where
  "claim_runs H S D limit =
     (if limit < 1 then ret []
      else bind_act (draw (now_at D)) (\<lambda>now. transaction (
        bind_act (reads (candidates now limit)) (\<lambda>wids. claim_workflows H S D now limit wids []))))"

definition concurrent_tick :: "host \<Rightarrow> scheduler \<Rightarrow> draws \<Rightarrow> nat \<Rightarrow> ('x, claims) wact" where
  "concurrent_tick H S D = tick (claim_runs H S D) H S D"

end
