(* ===== verification/Wf_Claims.thy ===== *)
theory Wf_Claims
  imports Wf_Concurrency Wf_Samples
begin

text \<open>
  What a claim of the concurrent scheduler does: the limits it respects, the runs it suppresses
  and the run it cannot overlook. The turn of one workflow is described over the list of its runs,
  and the claim as the turns of its candidates.
\<close>

subsection \<open>What a claim does to the runs\<close>

definition leased_run :: "scheduler \<Rightarrow> time \<Rightarrow> string \<Rightarrow> wf_run \<Rightarrow> wf_run" where
  "leased_run S now token r = r\<lparr>rn_token := Some token, rn_until := Some (now + seconds (sd_lease S))\<rparr>"

definition suppressed_run :: "time \<Rightarrow> wf_run \<Rightarrow> wf_run" where
  "suppressed_run now r = r\<lparr>rn_status := Run_Cancelled, rn_error_code := Some ''concurrency_suppressed'',
     rn_error := Some ''This run was suppressed because the workflow concurrency limit was full.'',
     rn_finished := Some now, rn_token := None, rn_until := None\<rparr>"

definition claim_effect :: "scheduler \<Rightarrow> time \<Rightarrow> claims \<Rightarrow> ident set \<Rightarrow> wf_run \<Rightarrow> wf_run" where
  "claim_effect S now cs X r = (case map_of cs (rn_id r) of
       Some token \<Rightarrow> leased_run S now token r
     | None \<Rightarrow> if rn_id r \<in> X then suppressed_run now r else r)"

lemma claim_effect_keys [simp]:
  "rn_id (claim_effect S now cs X r) = rn_id r" "rn_workflow (claim_effect S now cs X r) = rn_workflow r"
  by (simp_all add: claim_effect_def leased_run_def suppressed_run_def split: option.split)

lemma claim_effect_other: "rn_id r \<notin> fst ` set cs \<Longrightarrow> rn_id r \<notin> X \<Longrightarrow> claim_effect S now cs X r = r"
  by (simp add: claim_effect_def map_of_eq_None_iff [THEN iffD2])

lemma claim_effect_nothing [simp]: "claim_effect S now [] {} = (\<lambda>r. r)"
  by (simp add: claim_effect_def fun_eq_iff)

lemma claim_effect_none: "map_of cs (rn_id r) = None \<Longrightarrow>
  claim_effect S now cs X r = (if rn_id r \<in> X then suppressed_run now r else r)"
  by (simp add: claim_effect_def)

lemma claim_effect_Cons:
  assumes "i \<notin> fst ` set cs" "i \<notin> X"
  shows "claim_effect S now cs X (if rn_id r = i then leased_run S now token r else r)
    = claim_effect S now ((i, token) # cs) X r"
proof (cases "rn_id r = i")
  case True
  then have "claim_effect S now cs X (leased_run S now token r) = leased_run S now token r"
    using assms by (intro claim_effect_other) (simp_all add: leased_run_def)
  with True show ?thesis by (simp add: claim_effect_def)
next
  case False
  then show ?thesis by (simp add: claim_effect_def)
qed

lemma suppressed_id [simp]: "rn_id (suppressed_run now r) = rn_id r"
  by (simp add: suppressed_run_def)

lemma claim_effect_insert:
  assumes "i \<notin> X"
  shows "claim_effect S now [] X (if b \<and> rn_id r = i then suppressed_run now r else r)
    = claim_effect S now [] (if b then insert i X else X) r"
  using assms by (auto simp: claim_effect_def)

text \<open>A change of the runs only.\<close>

definition runs_only :: "(wf_run \<Rightarrow> wf_run) \<Rightarrow> 'x wf_state \<Rightarrow> 'x wf_state \<Rightarrow> bool" where
  "runs_only f s s' = (wf_runs (tables s') = map f (wf_runs (tables s))
     \<and> wf_definitions (tables s') = wf_definitions (tables s)
     \<and> wf_versions (tables s') = wf_versions (tables s))"

lemma runs_only_id: "runs_only (\<lambda>r. r) s s" by (simp add: runs_only_def)

lemma runs_only_trans:
  "runs_only f s t \<Longrightarrow> runs_only g t u \<Longrightarrow> (\<And>r. r \<in> set (wf_runs (tables s)) \<Longrightarrow> g (f r) = h r) \<Longrightarrow> runs_only h s u"
  by (simp add: runs_only_def)

lemmas state_of_simps = tables_def committed_tables_def kernel_tables_of_def on_tables_def on_kernel_def session_simps

lemma record_runs_only: "record_workflow_event D e s = (Inr x, s') \<Longrightarrow> runs_only (\<lambda>r. r) s s'"
  by (auto simp: record_workflow_event_def bind_act_def draw_def state_of_simps runs_only_def split: if_splits)

lemma draw_runs_only: "draw f s = (Inr x, s') \<Longrightarrow> runs_only (\<lambda>r. r) s s'"
  by (auto simp: draw_def state_of_simps runs_only_def)

lemma put_runs_only: "put (set_run i f) s = (Inr x, s') \<Longrightarrow> runs_only (\<lambda>r. if rn_id r = i then f r else r) s s'"
  by (auto simp: put_def set_run_def update_where_def state_of_simps runs_only_def)

lemma lease_run_effect:
  assumes "lease_run S D now i s = (Inr token, s')"
  shows "runs_only (\<lambda>r. if rn_id r = i then leased_run S now token r else r) s s'"
proof -
  from assms obtain s1 where e: "draw (id_at D) s = (Inr token, s1)"
    "put (set_run i (leased_run S now token)) s1 = (Inr (), s')"
    by (auto simp: lease_run_def bind_act_Inr_iff leased_run_def [abs_def])
  show ?thesis by (rule runs_only_trans [OF draw_runs_only [OF e(1)] put_runs_only [OF e(2)]]) simp
qed

lemma suppress_effect:
  assumes "suppress_overflow_run D p now r s = (Inr x, s')"
  shows "runs_only (\<lambda>q. if rn_id q = rn_id r then suppressed_run now q else q) s s'"
proof -
  from assms obtain s1 y v where e: "put (set_run (rn_id r) (suppressed_run now)) s = (Inr y, s1)"
    "record_workflow_event D v s1 = (Inr x, s')"
    by (auto simp: suppress_overflow_run_def bind_act_Inr_iff suppressed_run_def [abs_def])
  show ?thesis by (rule runs_only_trans [OF put_runs_only [OF e(1)] record_runs_only [OF e(2)]]) simp
qed

definition drops :: "concurrency \<Rightarrow> bool" where
  "drops p = (0 < cc_limit p \<and> cc_overflow p = Drop_Overflow)"

text \<open>The rows in turn: those within the budget are leased, those beyond the slots may be suppressed.\<close>

lemma claim_rows_effect:
  assumes "claim_rows S D now p budget available index rows cs s = (Inr cs', s')"
    and "distinct (map rn_id rows)" "budget \<le> available"
  shows "\<exists>new. cs' = cs @ new \<and> map fst new = map rn_id (take (budget - index) rows)
    \<and> runs_only (claim_effect S now new
         (if drops p then rn_id ` set (drop (available - index) rows) else {})) s s'"
  using assms
proof (induction rows arbitrary: index cs s)
  case Nil
  then show ?case by (simp add: runs_only_def claim_effect_def)
next
  case (Cons r rs)
  show ?case
  proof (cases "index < budget")
    case True
    with Cons.prems(1) obtain token s1 where l: "lease_run S D now (rn_id r) s = (Inr token, s1)"
      and c: "claim_rows S D now p budget available (Suc index) rs (cs @ [(rn_id r, token)]) s1 = (Inr cs', s')"
      by (auto simp: bind_act_Inr_iff)
    let ?X = "if drops p then rn_id ` set (drop (available - Suc index) rs) else {}"
    from Cons.IH [OF c] Cons.prems(2,3) obtain new where new: "cs' = (cs @ [(rn_id r, token)]) @ new"
      "map fst new = map rn_id (take (budget - Suc index) rs)"
      "runs_only (claim_effect S now new ?X) s1 s'" by auto
    have fresh: "rn_id r \<notin> rn_id ` set rs" using Cons.prems(2) by simp
    have "set (map fst new) \<subseteq> rn_id ` set rs" unfolding new(2) by (auto dest: in_set_takeD)
    with fresh have o: "rn_id r \<notin> fst ` set new" by auto
    have o': "rn_id r \<notin> ?X" using fresh by (auto dest: in_set_dropD)
    have "runs_only (claim_effect S now ((rn_id r, token) # new) ?X) s s'"
      by (rule runs_only_trans [OF lease_run_effect [OF l] new(3)]) (rule claim_effect_Cons [OF o o'])
    moreover have d: "drop (available - index) (r # rs) = drop (available - Suc index) rs"
      "take (budget - index) (r # rs) = r # take (budget - Suc index) rs"
      using True Cons.prems(3) by (simp_all add: Suc_diff_Suc [symmetric])
    ultimately show ?thesis unfolding d using new(1,2) by (intro exI [of _ "(rn_id r, token) # new"]) simp
  next
    case False
    let ?b = "0 < cc_limit p \<and> available \<le> index \<and> cc_overflow p = Drop_Overflow"
    from False Cons.prems(1) obtain s1 where
      l: "(if ?b then suppress_overflow_run D p now r else ret ()) s = (Inr (), s1)"
      and c: "claim_rows S D now p budget available (Suc index) rs cs s1 = (Inr cs', s')"
      by (auto simp: bind_act_Inr_iff)
    let ?X = "if drops p then rn_id ` set (drop (available - Suc index) rs) else {}"
    from Cons.IH [OF c] Cons.prems(2,3) False obtain new where new: "cs' = cs @ new" "map fst new = []"
      "runs_only (claim_effect S now new ?X) s1 s'" by auto
    then have n: "new = []" by simp
    have o: "rn_id r \<notin> ?X" using Cons.prems(2) by (auto dest: in_set_dropD)
    let ?Y = "if drops p then rn_id ` set (drop (available - index) (r # rs)) else {}"
    have Y: "?Y = (if ?b then insert (rn_id r) ?X else ?X)"
    proof (cases "available - index")
      case 0
      then show ?thesis by (auto simp: drops_def)
    next
      case (Suc n)
      then have "available - Suc index = n" "\<not> available \<le> index" by simp_all
      with Suc show ?thesis by (simp add: drops_def)
    qed
    have first: "runs_only (\<lambda>q. if ?b \<and> rn_id q = rn_id r then suppressed_run now q else q) s s1"
    proof (cases ?b)
      case True
      with l have "suppress_overflow_run D p now r s = (Inr (), s1)" by simp
      from suppress_effect [OF this] True show ?thesis by simp
    next
      case False
      with l have "s1 = s" by simp
      moreover have "(\<lambda>q. if ?b \<and> rn_id q = rn_id r then suppressed_run now q else q) = (\<lambda>q. q)"
        using False by auto
      ultimately show ?thesis by (simp only: runs_only_id)
    qed
    have "runs_only (claim_effect S now [] ?Y) s s'"
      unfolding Y by (rule runs_only_trans [OF first new(3) [unfolded n]]) (rule claim_effect_insert [OF o])
    with new n False show ?thesis by simp
  qed
qed

text \<open>One workflow's turn, over its runs.\<close>

definition turn :: "scheduler \<Rightarrow> time \<Rightarrow> concurrency \<Rightarrow> nat \<Rightarrow> wf_run list \<Rightarrow> claims \<Rightarrow> wf_run list \<Rightarrow> bool" where
  "turn S now p global runs new runs' = (\<exists>rows.
     set rows \<subseteq> {r \<in> set runs. waiting_run now r} \<and> distinct (map rn_id rows) \<and> sorted (map rn_created rows)
     \<and> map fst new = map rn_id (take (min global (slots p global (length (filter (occupies now) runs)))) rows)
     \<and> runs' = map (claim_effect S now new (if drops p
          then rn_id ` set (drop (slots p global (length (filter (occupies now) runs))) rows) else {})) runs)"

lemma queued_rows_props:
  assumes "distinct (map rn_id (wf_runs t))"
  shows "set (queued_rows free now wid n t) \<subseteq> {r \<in> set (runs_of wid t). waiting_run now r}"
    and "distinct (map rn_id (queued_rows free now wid n t))"
    and "sorted (map rn_created (queued_rows free now wid n t))"
proof -
  let ?xs = "filter (\<lambda>r. waiting_run now r \<and> free (rn_id r)) (runs_of wid t)"
  let ?ys = "sort_key rn_created (sort_key rn_id ?xs)"
  show "set (queued_rows free now wid n t) \<subseteq> {r \<in> set (runs_of wid t). waiting_run now r}"
    by (auto simp: queued_rows_def dest!: in_set_takeD)
  have "distinct (map rn_id ?xs)"
    using assms by (simp add: runs_of_def distinct_map_filter)
  then have "distinct (map rn_id ?ys)" by (simp only: distinct_map distinct_sort set_sort)
  then show "distinct (map rn_id (queued_rows free now wid n t))"
    unfolding queued_rows_def take_map [symmetric] by (rule distinct_take)
  show "sorted (map rn_created (queued_rows free now wid n t))"
    unfolding queued_rows_def take_map [symmetric] by (intro sorted_wrt_take) simp
qed

lemma runs_of_effect:
  "runs_only (claim_effect S now new X) s s' \<Longrightarrow>
   runs_of v (tables s') = map (claim_effect S now new X) (runs_of v (tables s))"
  by (simp add: runs_only_def runs_of_def filter_map comp_def)

lemma runs_of_other:
  assumes "runs_only (claim_effect S now new X) s s'" "distinct (map rn_id (wf_runs (tables s)))"
    and "fst ` set new \<union> X \<subseteq> rn_id ` set (runs_of wid (tables s))" "v \<noteq> wid"
  shows "runs_of v (tables s') = runs_of v (tables s)"
  unfolding runs_of_effect [OF assms(1)]
proof (intro map_idI claim_effect_other)
  fix r assume r: "r \<in> set (runs_of v (tables s))"
  have "rn_id r \<notin> rn_id ` set (runs_of wid (tables s))"
  proof
    assume "rn_id r \<in> rn_id ` set (runs_of wid (tables s))"
    then obtain q where "q \<in> set (wf_runs (tables s))" "rn_workflow q = wid" "rn_id q = rn_id r"
      by (auto simp: runs_of_def)
    with r assms(2,4) show False by (auto simp: runs_of_def distinct_map dest: inj_onD)
  qed
  with assms(3) show "rn_id r \<notin> fst ` set new" "rn_id r \<notin> X" by auto
qed

lemma claim_workflow_turn:
  assumes "claim_workflow H S D now limit wid cs s = (Inr cs', s')"
    and "distinct (map rn_id (wf_runs (tables s)))"
  shows "\<exists>new X. cs' = cs @ new \<and> runs_only (claim_effect S now new X) s s'
    \<and> fst ` set new \<union> X \<subseteq> rn_id ` set (runs_of wid (tables s))
    \<and> (new = [] \<and> X = {} \<or> (\<exists>w. find_definition wid (tables s) = Some w
       \<and> turn S now (workflow_policy H w (tables s)) (limit - length cs) (runs_of wid (tables s)) new
            (runs_of wid (tables s'))))"
proof -
  have nothing: "runs_only (claim_effect S now [] {}) t t" for t :: "'a wf_state"
    by (simp add: runs_only_def)
  from assms(1) obtain free s1 where d: "draw (sd_free S) s = (Inr free, s1)"
    and m: "(case find_definition wid (tables s1) of None \<Rightarrow> ret cs
     | Some w \<Rightarrow> if \<not> free wid then ret cs else
           bind_act (reads (workflow_policy H w)) (\<lambda>p.
           bind_act (reads (occupied now wid)) (\<lambda>active.
           let global = limit - length cs; available = slots p global active in
           bind_act (draw (sd_free S)) (\<lambda>unlocked.
           bind_act (reads (queued_rows unlocked now wid (max 50 (min 512 (global * 16))))) (\<lambda>rows.
           claim_rows S D now p (min global available) available 0 rows cs))))) s1 = (Inr cs', s')"
    by (auto simp: claim_workflow_def bind_act_Inr_iff reads_def)
  have t1: "tables s1 = tables s" using d by (auto simp: draw_def state_of_simps)
  show ?thesis
  proof (cases "\<exists>w. find_definition wid (tables s) = Some w \<and> free wid")
    case False
    with m t1 have "cs' = cs" "s' = s1" by (auto split: option.splits if_splits)
    moreover have "runs_only (claim_effect S now [] {}) s s1" using nothing t1 by (simp add: runs_only_def)
    ultimately show ?thesis by (intro exI [of _ "[]"] exI [of _ "{}"]) simp
  next
    case True
    then obtain w where w: "find_definition wid (tables s) = Some w" "free wid" by blast
    define p where "p = workflow_policy H w (tables s)"
    define global where "global = limit - length cs"
    define available where "available = slots p global (occupied now wid (tables s))"
    from m w t1 obtain unlocked s2 where d2: "draw (sd_free S) s1 = (Inr unlocked, s2)"
      and c: "claim_rows S D now p (min global available) available 0
        (queued_rows unlocked now wid (max 50 (min 512 (global * 16))) (tables s2)) cs s2 = (Inr cs', s')"
      by (auto simp: bind_act_Inr_iff reads_def p_def global_def available_def Let_def)
    have t2: "tables s2 = tables s" using d2 t1 by (auto simp: draw_def state_of_simps)
    define rows where "rows = queued_rows unlocked now wid (max 50 (min 512 (global * 16))) (tables s)"
    note rows = queued_rows_props [OF assms(2), of unlocked now wid "max 50 (min 512 (global * 16))",
        folded rows_def]
    let ?X = "if drops p then rn_id ` set (drop available rows) else {}"
    from claim_rows_effect [OF c [unfolded t2, folded rows_def] rows(2) min.cobounded2]
    obtain new where new: "cs' = cs @ new" "map fst new = map rn_id (take (min global available) rows)"
      "runs_only (claim_effect S now new ?X) s2 s'"
      unfolding diff_zero by blast
    have eff: "runs_only (claim_effect S now new ?X) s s'" using new(3) t2 by (simp add: runs_only_def)
    have "fst ` set new = rn_id ` set (take (min global available) rows)"
      using arg_cong [OF new(2), of set] by simp
    then have sub: "fst ` set new \<union> ?X \<subseteq> rn_id ` set (runs_of wid (tables s))"
      using rows(1) by (auto dest!: in_set_takeD in_set_dropD)
    have "turn S now p global (runs_of wid (tables s)) new (runs_of wid (tables s'))"
      unfolding turn_def using rows new(2) runs_of_effect [OF eff]
      by (intro exI [of _ rows]) (simp add: available_def occupied_def)
    with w(1) have "\<exists>w. find_definition wid (tables s) = Some w
       \<and> turn S now (workflow_policy H w (tables s)) (limit - length cs) (runs_of wid (tables s)) new
            (runs_of wid (tables s'))"
      unfolding p_def global_def by (intro exI [of _ w] conjI)
    with new(1) eff sub show ?thesis by (intro exI [of _ new] exI [of _ ?X] conjI disjI2)
  qed
qed

text \<open>What a turn means for the slots of its workflow.\<close>

lemma turnE:
  assumes "turn S now p global runs new runs'"
  obtains rows X where "set rows \<subseteq> {r \<in> set runs. waiting_run now r}" "distinct (map rn_id rows)"
    "sorted (map rn_created rows)"
    "map fst new = map rn_id (take (min global (slots p global (length (filter (occupies now) runs)))) rows)"
    "X = (if drops p then rn_id ` set (drop (slots p global (length (filter (occupies now) runs))) rows) else {})"
    "X \<subseteq> rn_id ` set rows" "runs' = map (claim_effect S now new X) runs"
proof -
  from assms obtain rows where rows: "set rows \<subseteq> {r \<in> set runs. waiting_run now r}" "distinct (map rn_id rows)"
    "sorted (map rn_created rows)"
    "map fst new = map rn_id (take (min global (slots p global (length (filter (occupies now) runs)))) rows)"
    "runs' = map (claim_effect S now new (if drops p
       then rn_id ` set (drop (slots p global (length (filter (occupies now) runs))) rows) else {})) runs"
    unfolding turn_def by blast
  show thesis by (rule that [OF rows(1-4) refl _ rows(5)]) (auto dest: in_set_dropD)
qed

lemma turn_leased:
  assumes "turn S now p global runs new runs'" "(i, token) \<in> set new"
  shows "\<exists>r \<in> set runs. rn_id r = i \<and> waiting_run now r \<and> leased_run S now token r \<in> set runs'"
proof -
  from assms(1) obtain rows where rows: "set rows \<subseteq> {r \<in> set runs. waiting_run now r}" "distinct (map rn_id rows)"
    and n: "map fst new = map rn_id (take (min global (slots p global (length (filter (occupies now) runs)))) rows)"
    and runs': "\<exists>X. runs' = map (claim_effect S now new X) runs"
    by (rule turnE) blast
  have d: "distinct (map fst new)" unfolding n take_map [symmetric] using rows(2) by (rule distinct_take)
  have "i \<in> rn_id ` set (take (min global (slots p global (length (filter (occupies now) runs)))) rows)"
    using assms(2) n by (metis (no_types, lifting) fst_conv image_eqI list.set_map)
  then obtain r where r: "r \<in> set rows" "rn_id r = i" by (auto dest: in_set_takeD)
  have "map_of new (rn_id r) = Some token" using d assms(2) r(2) by simp
  then have "claim_effect S now new X r = leased_run S now token r" for X by (simp add: claim_effect_def)
  with r rows(1) runs' show ?thesis by (intro bexI [of _ r]) (auto simp: image_iff intro!: bexI [of _ r])
qed

lemma turn_length:
  assumes "turn S now p global runs new runs'"
  shows "length new \<le> min global (slots p global (length (filter (occupies now) runs)))"
  using assms by (rule turnE) (metis length_map length_take min.cobounded2)

lemma turn_bounds:
  assumes "turn S now p global runs new runs'" "0 \<le> sd_lease S" "distinct (map rn_id runs)"
  shows "length (filter (occupies now) runs') = length (filter (occupies now) runs) + length new"
proof -
  from assms(1) obtain rows X where rows: "set rows \<subseteq> {r \<in> set runs. waiting_run now r}" "distinct (map rn_id rows)"
    and n: "map fst new = map rn_id (take (min global (slots p global (length (filter (occupies now) runs)))) rows)"
    and X: "X \<subseteq> rn_id ` set rows"
    and runs': "runs' = map (claim_effect S now new X) runs"
    by (rule turnE)
  let ?k = "min global (slots p global (length (filter (occupies now) runs)))"
  let ?N = "fst ` set new"
  have N: "?N = rn_id ` set (take ?k rows)" using arg_cong [OF n, of set] by simp
  have waits: "r \<in> set runs \<Longrightarrow> rn_id r \<in> rn_id ` set rows \<Longrightarrow> waiting_run now r" for r
    using rows(1) assms(3) by (auto simp: distinct_map dest!: inj_onD)
  have idle: "waiting_run now r \<Longrightarrow> \<not> occupies now r" for r by (auto simp: waiting_run_def occupies_def)
  have occ: "occupies now (claim_effect S now new X r) \<longleftrightarrow> occupies now r \<or> rn_id r \<in> ?N" if "r \<in> set runs" for r
  proof (cases "map_of new (rn_id r)")
    case None
    then have "rn_id r \<notin> ?N" by (simp add: map_of_eq_None_iff)
    moreover have "rn_id r \<in> X \<Longrightarrow> \<not> occupies now r" using waits idle that X by blast
    ultimately show ?thesis using None by (auto simp: claim_effect_def suppressed_run_def occupies_def)
  next
    case (Some token)
    then have i: "rn_id r \<in> ?N" by (metis map_of_eq_None_iff option.distinct(1))
    then have "rn_id r \<in> rn_id ` set rows" unfolding N by (auto dest: in_set_takeD)
    then have "waiting_run now r" using waits that by blast
    with Some i assms(2) show ?thesis
      by (auto simp: claim_effect_def leased_run_def occupies_def unleased_def waiting_run_def seconds_def)
  qed
  have dis: "\<not> (occupies now r \<and> rn_id r \<in> ?N)" if "r \<in> set runs" for r
    using waits idle that unfolding N by (auto dest: in_set_takeD)
  have split: "length (filter (\<lambda>r. P r \<or> Q r) xs) = length (filter P xs) + length (filter Q xs)"
    if "\<And>r. r \<in> set xs \<Longrightarrow> \<not> (P r \<and> Q r)" for P Q and xs :: "wf_run list"
    using that by (induction xs) auto
  have "length (filter (\<lambda>r. rn_id r \<in> ?N) runs) = card ?N"
  proof -
    have sub: "?N \<subseteq> rn_id ` set runs" using rows(1) unfolding N by (auto dest!: in_set_takeD)
    have "length (filter (\<lambda>r. rn_id r \<in> ?N) runs) = card (set (map rn_id (filter (\<lambda>r. rn_id r \<in> ?N) runs)))"
      using assms(3) by (subst distinct_card) (simp_all add: distinct_map_filter)
    also have "set (map rn_id (filter (\<lambda>r. rn_id r \<in> ?N) runs)) = rn_id ` set runs \<inter> ?N" by auto
    also have "\<dots> = ?N" using sub by blast
    finally show ?thesis .
  qed
  also have "card ?N = length new"
  proof -
    have "distinct (map fst new)" unfolding n take_map [symmetric] using rows(2) by (rule distinct_take)
    then show ?thesis using distinct_card [of "map fst new"] by simp
  qed
  finally have "length (filter (\<lambda>r. rn_id r \<in> ?N) runs) = length new" .
  moreover have "length (filter (occupies now) runs') = length (filter (\<lambda>r. occupies now r \<or> rn_id r \<in> ?N) runs)"
    unfolding runs' by (simp add: filter_map comp_def occ cong: filter_cong)
  ultimately show "length (filter (occupies now) runs') = length (filter (occupies now) runs) + length new"
    using split [of runs "occupies now" "\<lambda>r. rn_id r \<in> ?N"] dis by simp
qed


text \<open>The turns of all candidates.\<close>

lemma claim_workflows_turns:
  assumes "claim_workflows H S D now limit wids cs s = (Inr cs', s')"
    and "distinct wids" "distinct (map rn_id (wf_runs (tables s)))" "length cs \<le> limit"
  shows "length cs' \<le> limit
    \<and> (\<forall>v. v \<notin> set wids \<longrightarrow> runs_of v (tables s') = runs_of v (tables s))
    \<and> (\<forall>v \<in> set wids. runs_of v (tables s') = runs_of v (tables s)
        \<or> (\<exists>w g new. find_definition v (tables s) = Some w
             \<and> turn S now (workflow_policy H w (tables s)) g (runs_of v (tables s)) new (runs_of v (tables s'))))
    \<and> (\<forall>x \<in> set cs'. x \<in> set cs \<or> (\<exists>v w g new. v \<in> set wids \<and> x \<in> set new \<and> find_definition v (tables s) = Some w
        \<and> turn S now (workflow_policy H w (tables s)) g (runs_of v (tables s)) new (runs_of v (tables s'))))"
  using assms
proof (induction wids arbitrary: cs s)
  case Nil
  then show ?case by simp
next
  case (Cons wid wids)
  show ?case
  proof (cases "limit \<le> length cs")
    case True
    with Cons.prems show ?thesis by auto
  next
    case False
    with Cons.prems(1) obtain cs1 s1 where w: "claim_workflow H S D now limit wid cs s = (Inr cs1, s1)"
      and r: "claim_workflows H S D now limit wids cs1 s1 = (Inr cs', s')"
      by (auto simp: bind_act_Inr_iff)
    from claim_workflow_turn [OF w Cons.prems(3)] obtain new X where n: "cs1 = cs @ new"
      "runs_only (claim_effect S now new X) s s1"
      "fst ` set new \<union> X \<subseteq> rn_id ` set (runs_of wid (tables s))"
      and t: "new = [] \<and> X = {} \<or> (\<exists>w. find_definition wid (tables s) = Some w
       \<and> turn S now (workflow_policy H w (tables s)) (limit - length cs) (runs_of wid (tables s)) new
            (runs_of wid (tables s1)))" by blast
    have len: "length cs1 \<le> limit"
      using t n(1) False by (auto dest!: turn_length)
    have dist: "distinct (map rn_id (wf_runs (tables s1)))"
      using n(2) Cons.prems(3) by (simp add: runs_only_def comp_def)
    have same: "find_definition v (tables s1) = find_definition v (tables s)"
      "workflow_policy H w (tables s1) = workflow_policy H w (tables s)" for v w
      using n(2) by (simp_all add: runs_only_def find_definition_def workflow_policy_def)
    have other: "v \<noteq> wid \<Longrightarrow> runs_of v (tables s1) = runs_of v (tables s)" for v
      using runs_of_other [OF n(2) Cons.prems(3) n(3)] by blast
    note IH = Cons.IH [OF r _ dist len, unfolded same] 
    have wid: "wid \<notin> set wids" "distinct wids" using Cons.prems(2) by simp_all
    note IH' = IH [OF wid(2)]
    have last: "runs_of wid (tables s') = runs_of wid (tables s1)" using IH' wid(1) by blast
    have first: "runs_of wid (tables s') = runs_of wid (tables s) \<and> new = []
      \<or> (\<exists>w. find_definition wid (tables s) = Some w
       \<and> turn S now (workflow_policy H w (tables s)) (limit - length cs) (runs_of wid (tables s)) new
            (runs_of wid (tables s')))"
      using t unfolding last by (auto simp: runs_of_effect [OF n(2)])
    have here: "runs_of v (tables s') = runs_of v (tables s)
        \<or> (\<exists>w g new. find_definition v (tables s) = Some w
             \<and> turn S now (workflow_policy H w (tables s)) g (runs_of v (tables s)) new (runs_of v (tables s')))"
      if "v \<in> set (wid # wids)" for v
    proof (cases "v = wid")
      case True
      with first show ?thesis by blast
    next
      case False
      with that have "v \<in> set wids" by simp
      with IH' other [OF False] show ?thesis by metis
    qed
    have mine: "x \<in> set cs \<or> (\<exists>v w g new. v \<in> set (wid # wids) \<and> x \<in> set new \<and> find_definition v (tables s) = Some w
        \<and> turn S now (workflow_policy H w (tables s)) g (runs_of v (tables s)) new (runs_of v (tables s')))"
      if x: "x \<in> set cs'" for x
    proof -
      consider "x \<in> set cs" | "x \<in> set new" | v w g new' where "x \<in> set new'" "find_definition v (tables s) = Some w"
        "turn S now (workflow_policy H w (tables s)) g (runs_of v (tables s1)) new' (runs_of v (tables s'))"
        "v \<in> set wids"
        using bspec [OF IH' [THEN conjunct2, THEN conjunct2, THEN conjunct2] x] unfolding n(1) set_append
        by blast
      then show ?thesis
      proof cases
        case 2
        then have "new \<noteq> []" by auto
        with 2 first show ?thesis by (metis list.set_intros(1))
      next
        case 3
        then have "v \<noteq> wid" using wid(1) by blast
        with 3 show ?thesis using other [of v] by (intro disjI2 exI [of _ v] exI [of _ w] exI [of _ g] exI [of _ new']) simp
      qed simp
    qed
    have "runs_of v (tables s') = runs_of v (tables s)" if "v \<notin> set (wid # wids)" for v
      using IH' other [of v] that by simp
    with IH' here mine show ?thesis by blast
  qed
qed

subsection \<open>The whole claim\<close>

lemma transaction_ok:
  assumes "transaction m s = (Inr x, s')"
  obtains s1 s2 where "tables s1 = committed_tables s" "committed_tables s1 = committed_tables s"
    "wf_tick s1 = wf_tick s" "m s1 = (Inr x, s2)" "tables s' = tables s2" "committed_tables s' = tables s2"
proof -
  let ?s1 = "s\<lparr>wf_world := (wf_world s)\<lparr>w_session := rollback (w_session (wf_world s))\<rparr>\<rparr>"
  from assms obtain s2 where m: "m ?s1 = (Inr x, s2)" and s': "commit_all s2 = (Inr (), s')"
    by (auto simp: transaction_def rollback_all_def bind_act_Inr_iff bind_act_def commit_all_def
        split: prod.splits sum.splits)
  show thesis
    by (rule that [OF _ _ _ m]) (use s' in \<open>auto simp: commit_all_def state_of_simps\<close>)
qed

definition claim_time :: "draws \<Rightarrow> 'x wf_state \<Rightarrow> time" where
  "claim_time D s = now_at D (wf_tick s)"

lemma candidates_distinct: "distinct (candidates now limit t)"
  by (simp add: candidates_def Let_def distinct_sort)

lemma claim_runs_turns:
  assumes "claim_runs H S D limit s = (Inr cs, s')"
    and "distinct (map rn_id (wf_runs (committed_tables s)))"
  shows "length cs \<le> limit"
    and "runs_of v (committed_tables s') = runs_of v (committed_tables s)
        \<or> (\<exists>w g new. find_definition v (committed_tables s) = Some w
             \<and> turn S (claim_time D s) (workflow_policy H w (committed_tables s)) g
                 (runs_of v (committed_tables s)) new (runs_of v (committed_tables s')))"
    and "x \<in> set cs \<Longrightarrow> \<exists>v w g new. x \<in> set new \<and> find_definition v (committed_tables s) = Some w
        \<and> turn S (claim_time D s) (workflow_policy H w (committed_tables s)) g
            (runs_of v (committed_tables s)) new (runs_of v (committed_tables s'))"
proof -
  have "length cs \<le> limit
    \<and> (\<forall>v. runs_of v (committed_tables s') = runs_of v (committed_tables s)
        \<or> (\<exists>w g new. find_definition v (committed_tables s) = Some w
             \<and> turn S (claim_time D s) (workflow_policy H w (committed_tables s)) g
                 (runs_of v (committed_tables s)) new (runs_of v (committed_tables s'))))
    \<and> (\<forall>x \<in> set cs. \<exists>v w g new. x \<in> set new \<and> find_definition v (committed_tables s) = Some w
        \<and> turn S (claim_time D s) (workflow_policy H w (committed_tables s)) g
            (runs_of v (committed_tables s)) new (runs_of v (committed_tables s')))"
  proof (cases "limit < 1")
    case True
    with assms(1) show ?thesis by (simp add: claim_runs_def)
  next
    case False
    define s0 where "s0 = s\<lparr>wf_tick := Suc (wf_tick s)\<rparr>"
    have s0: "committed_tables s0 = committed_tables s" by (simp add: s0_def committed_tables_def)
    have t: "transaction (bind_act (reads (candidates (claim_time D s) limit))
          (\<lambda>wids. claim_workflows H S D (claim_time D s) limit wids [])) s0 = (Inr cs, s')"
      using assms(1) False by (simp add: claim_runs_def bind_act_def draw_def claim_time_def s0_def)
    from t obtain s1 s2 where e: "tables s1 = committed_tables s" "tables s' = tables s2" "committed_tables s' = tables s2"
      and m: "claim_workflows H S D (claim_time D s) limit (candidates (claim_time D s) limit (tables s1)) [] s1 = (Inr cs, s2)"
      by (rule transaction_ok) (auto simp: bind_act_Inr_iff reads_def s0)
    have "distinct (map rn_id (wf_runs (tables s1)))" "length ([] :: claims) \<le> limit"
      using assms(2) e(1) by simp_all
    from claim_workflows_turns [OF m candidates_distinct this, unfolded e(1)]
    show ?thesis unfolding e(3) by (simp (no_asm_use)) blast
  qed
  then show "length cs \<le> limit"
    and "runs_of v (committed_tables s') = runs_of v (committed_tables s)
        \<or> (\<exists>w g new. find_definition v (committed_tables s) = Some w
             \<and> turn S (claim_time D s) (workflow_policy H w (committed_tables s)) g
                 (runs_of v (committed_tables s)) new (runs_of v (committed_tables s')))"
    and "x \<in> set cs \<Longrightarrow> \<exists>v w g new. x \<in> set new \<and> find_definition v (committed_tables s) = Some w
        \<and> turn S (claim_time D s) (workflow_policy H w (committed_tables s)) g
            (runs_of v (committed_tables s)) new (runs_of v (committed_tables s'))" by blast+
qed

lemma runs_of_distinct: "distinct (map rn_id (wf_runs t)) \<Longrightarrow> distinct (map rn_id (runs_of v t))"
  by (simp add: runs_of_def distinct_map_filter)

lemma turn_occupied:
  assumes "turn S now p g runs new runs'" "0 \<le> sd_lease S" "distinct (map rn_id runs)" "0 < cc_limit p"
  shows "length (filter (occupies now) runs') \<le> max (nat (cc_limit p)) (length (filter (occupies now) runs))"
  using turn_bounds [OF assms(1-3)] turn_length [OF assms(1)] assms(4) by (simp add: slots_def) arith

text \<open>
  C19. Claiming respects every limit: at most as many runs are claimed as there are workers free;
  each was queued and unleased, and is now leased under its own token; and no workflow with a limit
  comes to occupy more slots than its limit allows, unless it already did.
\<close>

theorem claims_respect_limits:
  assumes "claim_runs H S D limit s = (Inr cs, s')" "0 \<le> sd_lease S"
    and "distinct (map rn_id (wf_runs (committed_tables s)))"
    and "find_definition wid (committed_tables s) = Some w"
    and "0 < cc_limit (workflow_policy H w (committed_tables s))"
  shows "length cs \<le> limit
    \<and> occupied (claim_time D s) wid (committed_tables s')
        \<le> max (nat (cc_limit (workflow_policy H w (committed_tables s))))
            (occupied (claim_time D s) wid (committed_tables s))
    \<and> (\<forall>(i, token) \<in> set cs. \<exists>r \<in> set (wf_runs (committed_tables s)). rn_id r = i
        \<and> waiting_run (claim_time D s) r
        \<and> leased_run S (claim_time D s) token r \<in> set (wf_runs (committed_tables s')))"
proof (intro conjI)
  show "length cs \<le> limit" by (rule claim_runs_turns [OF assms(1,3)])
  show "occupied (claim_time D s) wid (committed_tables s')
        \<le> max (nat (cc_limit (workflow_policy H w (committed_tables s))))
            (occupied (claim_time D s) wid (committed_tables s))"
    using claim_runs_turns(2) [OF assms(1,3), of wid] assms(4)
    by (auto simp: occupied_def dest: turn_occupied [OF _ assms(2) runs_of_distinct [OF assms(3)] assms(5)])
  show "\<forall>(i, token) \<in> set cs. \<exists>r \<in> set (wf_runs (committed_tables s)). rn_id r = i
        \<and> waiting_run (claim_time D s) r
        \<and> leased_run S (claim_time D s) token r \<in> set (wf_runs (committed_tables s'))"
    using claim_runs_turns(3) [OF assms(1,3)] by (fastforce simp: runs_of_def dest: turn_leased)
qed

lemma drop_index: "x \<in> set (drop n xs) \<Longrightarrow> \<exists>i. n \<le> i \<and> i < length xs \<and> xs ! i = x"
  by (auto simp: in_set_conv_nth) (metis add.commute le_add1 less_diff_conv)

lemma sorted_before:
  assumes "sorted (map k xs)" "distinct (map f xs)" "x \<in> set (drop n xs)"
  shows "\<exists>ys. length ys = n \<and> distinct (map f ys) \<and> set ys \<subseteq> {y \<in> set xs. k y \<le> k x \<and> f y \<noteq> f x}"
proof (intro exI [of _ "take n xs"] conjI)
  from drop_index [OF assms(3)] obtain i where i: "n \<le> i" "i < length xs" "xs ! i = x" by blast
  then show "length (take n xs) = n" by simp
  show "distinct (map f (take n xs))" unfolding take_map [symmetric] using assms(2) by (rule distinct_take)
  show "set (take n xs) \<subseteq> {y \<in> set xs. k y \<le> k x \<and> f y \<noteq> f x}"
  proof
    fix y assume "y \<in> set (take n xs)"
    then obtain j where j: "j < n" "j < length xs" "xs ! j = y" by (auto simp: in_set_conv_nth)
    then have "j < i" using i(1) by simp
    then have "k y \<le> k x" using sorted_nth_mono [OF assms(1), of j i] i j by simp
    moreover have "f y \<noteq> f x"
      using assms(2) i j \<open>j < i\<close> by (auto simp: distinct_conv_nth)
    ultimately show "y \<in> {y \<in> set xs. k y \<le> k x \<and> f y \<noteq> f x}" using j by auto
  qed
qed

lemma distinct_length_le: "distinct (map f ys) \<Longrightarrow> set ys \<subseteq> set xs \<Longrightarrow> length ys \<le> length xs"
  by (metis card_length card_mono distinct_card distinct_map finite_set le_trans)

lemma turn_suppresses:
  assumes "turn S now p g runs new runs'" "distinct (map rn_id runs)" "r \<in> set runs" "r' \<in> set runs'"
    and "rn_id r' = rn_id r" "rn_status r' \<noteq> rn_status r"
  shows "drops p \<and> waiting_run now r \<and> rn_status r' = Run_Cancelled
    \<and> nat (cc_limit p) \<le> length (filter (occupies now) runs)
        + length (filter (\<lambda>q. waiting_run now q \<and> rn_created q \<le> rn_created r \<and> rn_id q \<noteq> rn_id r) runs)"
proof -
  let ?n = "slots p g (length (filter (occupies now) runs))"
  from assms(1) obtain rows X where rows: "set rows \<subseteq> {r \<in> set runs. waiting_run now r}" "distinct (map rn_id rows)"
      "sorted (map rn_created rows)"
    and X: "X = (if drops p then rn_id ` set (drop ?n rows) else {})"
    and runs': "runs' = map (claim_effect S now new X) runs"
    by (rule turnE)
  from assms(4) runs' obtain q where q: "q \<in> set runs" "r' = claim_effect S now new X q" by auto
  then have "q = r" using assms(2,3,5) by (auto simp: distinct_map dest: inj_onD)
  with q assms(6) have x: "rn_id r \<in> X" "r' = suppressed_run now r"
    by (auto simp: claim_effect_def leased_run_def split: option.splits if_splits)
  with X have d: "drops p" and "\<exists>q \<in> set (drop ?n rows). rn_id q = rn_id r" by (auto split: if_splits)
  then obtain q where q: "q \<in> set (drop ?n rows)" "rn_id q = rn_id r" by blast
  then have "q = r" using rows(1) assms(2,3) by (auto simp: distinct_map dest!: in_set_dropD inj_onD)
  with q have r: "r \<in> set (drop ?n rows)" by simp
  from sorted_before [OF rows(3,2) r] obtain ys where ys: "length ys = ?n" "distinct (map rn_id ys)"
    "set ys \<subseteq> {y \<in> set rows. rn_created y \<le> rn_created r \<and> rn_id y \<noteq> rn_id r}" by blast
  then have "?n \<le> length (filter (\<lambda>q. waiting_run now q \<and> rn_created q \<le> rn_created r \<and> rn_id q \<noteq> rn_id r) runs)"
    using rows(1) distinct_length_le [OF ys(2)] by (auto simp: subset_iff)
  with d x r rows(1) show ?thesis
    by (auto simp: suppressed_run_def drops_def slots_def dest!: in_set_dropD)
qed

text \<open>
  Suppression hits excess runs only: a run whose status a claim changes was queued and is now
  cancelled; its workflow's policy has a limit and drops the overflow, and the slots that are
  occupied together with the runs queued no later than it make up the limit.
\<close>

lemma suppressed_runs_are_excess:
  assumes "claim_runs H S D limit s = (Inr cs, s')"
    and "distinct (map rn_id (wf_runs (committed_tables s)))"
    and "r \<in> set (wf_runs (committed_tables s))" "r' \<in> set (wf_runs (committed_tables s'))"
    and "rn_id r' = rn_id r" "rn_workflow r' = rn_workflow r" "rn_status r' \<noteq> rn_status r"
  shows "\<exists>w. find_definition (rn_workflow r) (committed_tables s) = Some w
    \<and> drops (workflow_policy H w (committed_tables s))
    \<and> waiting_run (claim_time D s) r \<and> rn_status r' = Run_Cancelled
    \<and> nat (cc_limit (workflow_policy H w (committed_tables s)))
        \<le> occupied (claim_time D s) (rn_workflow r) (committed_tables s)
          + length (filter (\<lambda>q. waiting_run (claim_time D s) q \<and> rn_created q \<le> rn_created r \<and> rn_id q \<noteq> rn_id r)
              (runs_of (rn_workflow r) (committed_tables s)))"
proof -
  have r: "r \<in> set (runs_of (rn_workflow r) (committed_tables s))"
    "r' \<in> set (runs_of (rn_workflow r) (committed_tables s'))"
    using assms(3,4,6) by (simp_all add: runs_of_def)
  have "runs_of (rn_workflow r) (committed_tables s') \<noteq> runs_of (rn_workflow r) (committed_tables s)"
  proof
    assume "runs_of (rn_workflow r) (committed_tables s') = runs_of (rn_workflow r) (committed_tables s)"
    with r(2) have "r' \<in> set (runs_of (rn_workflow r) (committed_tables s))" by simp
    then have "r' \<in> set (wf_runs (committed_tables s))" by (simp add: runs_of_def)
    with assms(2,3,5,7) show False by (auto simp: distinct_map dest: inj_onD)
  qed
  with claim_runs_turns(2) [OF assms(1,2)] obtain w g new where
    w: "find_definition (rn_workflow r) (committed_tables s) = Some w"
    and t: "turn S (claim_time D s) (workflow_policy H w (committed_tables s)) g
                 (runs_of (rn_workflow r) (committed_tables s)) new (runs_of (rn_workflow r) (committed_tables s'))"
    by blast
  from turn_suppresses [OF t runs_of_distinct [OF assms(2)] r assms(5,7)] w show ?thesis
    by (simp add: occupied_def)
qed

subsection \<open>Progress\<close>

definition traceable :: "wf_run \<Rightarrow> bool" where
  "traceable r = (present (rn_workspace r) \<or> present (rn_authority r))"

lemma traceable_effect: "traceable (claim_effect S now new X r) = traceable r"
  by (simp add: traceable_def claim_effect_def leased_run_def suppressed_run_def split: option.split)

lemma lease_run_ok: "\<exists>token s'. lease_run S D now i s = (Inr token, s')"
  by (auto simp: lease_run_def bind_act_def draw_def put_def)

lemma suppress_ok: "traceable r \<Longrightarrow> \<exists>s'. suppress_overflow_run D p now r s = (Inr (), s')"
  by (auto simp: suppress_overflow_run_def bind_act_def draw_def put_def record_workflow_event_def run_event_def
      wf_event_of_def traceable_def)

lemma claim_rows_ok:
  "(\<And>r. r \<in> set rows \<Longrightarrow> traceable r) \<Longrightarrow>
   \<exists>cs' s'. claim_rows S D now p budget available index rows cs s = (Inr cs', s')"
proof (induction rows arbitrary: index cs s)
  case (Cons r rs)
  have r: "traceable r" by (simp add: Cons.prems)
  note IH = Cons.IH [OF Cons.prems [OF list.set_intros(2)]]
  show ?case
  proof (cases "index < budget")
    case True
    obtain token s1 where "lease_run S D now (rn_id r) s = (Inr token, s1)" using lease_run_ok by blast
    with True IH show ?thesis by simp
  next
    case False
    obtain s1 where "(if 0 < cc_limit p \<and> available \<le> index \<and> cc_overflow p = Drop_Overflow
            then suppress_overflow_run D p now r else ret ()) s = (Inr (), s1)"
      using suppress_ok [OF r, of D p now s]
      by (cases "0 < cc_limit p \<and> available \<le> index \<and> cc_overflow p = Drop_Overflow") auto
    with False IH show ?thesis by simp
  qed
qed simp

text \<open>One workflow's turn, written out when it is unlocked.\<close>

lemma claim_workflow_unlocked:
  fixes H :: host and limit :: nat and cs :: claims and now :: time
  assumes "\<And>n i. sd_free S n i" "find_definition wid (tables s) = Some w"
  defines "p \<equiv> workflow_policy H w (tables s)"
  defines "available \<equiv> slots p (limit - length cs) (occupied now wid (tables s))"
  shows "\<exists>s1. tables s1 = tables s \<and> claim_workflow H S D now limit wid cs s =
    claim_rows S D now p (min (limit - length cs) available) available 0
      (queued_rows (\<lambda>_. True) now wid (max 50 (min 512 ((limit - length cs) * 16))) (tables s)) cs s1"
proof (intro exI [of _ "s\<lparr>wf_tick := Suc (Suc (wf_tick s))\<rparr>"] conjI)
  have f: "sd_free S n = (\<lambda>_. True)" for n using assms(1) by auto
  have t: "tables (s\<lparr>wf_tick := k\<rparr>) = tables s" for k by (simp add: state_of_simps)
  show "tables (s\<lparr>wf_tick := Suc (Suc (wf_tick s))\<rparr>) = tables s" by (rule t)
  show "claim_workflow H S D now limit wid cs s =
    claim_rows S D now p (min (limit - length cs) available) available 0
      (queued_rows (\<lambda>_. True) now wid (max 50 (min 512 ((limit - length cs) * 16))) (tables s)) cs
      (s\<lparr>wf_tick := Suc (Suc (wf_tick s))\<rparr>)"
    using assms(2) by (simp add: claim_workflow_def bind_act_def draw_def reads_def f t Let_def p_def available_def)
qed

lemma claim_workflow_ok:
  assumes "\<And>n i. sd_free S n i" "\<And>r. r \<in> set (wf_runs (tables s)) \<Longrightarrow> traceable r"
  shows "\<exists>cs' s'. claim_workflow H S D now limit wid cs s = (Inr cs', s')"
proof (cases "find_definition wid (tables s)")
  case None
  then show ?thesis by (simp add: claim_workflow_def bind_act_def draw_def reads_def state_of_simps)
next
  case (Some w)
  have "r \<in> set (queued_rows free now wid n (tables s)) \<Longrightarrow> traceable r" for r free n
    using assms(2) by (auto simp: queued_rows_def runs_of_def dest!: in_set_takeD)
  with claim_workflow_unlocked [OF assms(1) Some] claim_rows_ok show ?thesis by metis
qed

lemma claim_workflows_ok:
  assumes "\<And>n i. sd_free S n i" "\<And>r. r \<in> set (wf_runs (tables s)) \<Longrightarrow> traceable r"
    and "distinct (map rn_id (wf_runs (tables s)))"
  shows "\<exists>new s'. claim_workflows H S D now limit wids cs s = (Inr (cs @ new), s')"
  using assms(2,3)
proof (induction wids arbitrary: cs s)
  case (Cons wid wids)
  show ?case
  proof (cases "limit \<le> length cs")
    case False
    obtain cs1 s1 where w: "claim_workflow H S D now limit wid cs s = (Inr cs1, s1)"
      using claim_workflow_ok [of S s H D now limit wid cs] assms(1) Cons.prems(1) by blast
    from claim_workflow_turn [OF w Cons.prems(2)] obtain new X where n: "cs1 = cs @ new"
      "runs_only (claim_effect S now new X) s s1" by blast
    have "r \<in> set (wf_runs (tables s1)) \<Longrightarrow> traceable r" for r
      using n(2) Cons.prems(1) by (auto simp: runs_only_def traceable_effect)
    moreover have "distinct (map rn_id (wf_runs (tables s1)))"
      using n(2) Cons.prems(2) by (simp add: runs_only_def comp_def)
    ultimately obtain new' s' where "claim_workflows H S D now limit wids cs1 s1 = (Inr (cs1 @ new'), s')"
      using Cons.IH by blast
    with w n(1) False show ?thesis by simp
  qed simp
qed simp

lemma sort_key_first:
  assumes "x \<in> set xs" "\<And>y. y \<in> set xs \<Longrightarrow> y \<noteq> x \<Longrightarrow> k x < k y"
  shows "\<exists>ys. sort_key k xs = x # ys"
proof (cases "sort_key k xs")
  case Nil
  then show ?thesis using assms(1) by (metis empty_iff list.set(1) set_sort)
next
  case (Cons y ys)
  have s: "set (sort_key k xs) = set xs" "sorted (map k (sort_key k xs))" by simp_all
  then have "y \<in> set xs" "x \<in> set (y # ys)" "\<forall>z \<in> set ys. k y \<le> k z" using Cons assms(1) by auto
  then have "y = x" using assms(2) [of y] by (cases "y = x") auto
  with Cons show ?thesis by blast
qed


lemma candidates_first:
  assumes q: "q \<in> set (wf_runs t)" "waiting_run now q"
    and first: "\<And>r. r \<in> set (wf_runs t) \<Longrightarrow> waiting_run now r \<Longrightarrow> r \<noteq> q \<Longrightarrow> rn_created q < rn_created r"
  shows "\<exists>wids. candidates now limit t = rn_workflow q # wids"
proof -
  let ?rows = "filter (waiting_run now) (wf_runs t)"
  let ?k = "\<lambda>wid. Min (rn_created ` {r \<in> set ?rows. rn_workflow r = wid})"
  have mine: "?k (rn_workflow q) \<le> rn_created q" using q by (intro Min_le) auto
  have "rn_created q < ?k wid" if wid: "wid \<in> rn_workflow ` set ?rows" "wid \<noteq> rn_workflow q" for wid
  proof (subst Min_gr_iff)
    show "finite (rn_created ` {r \<in> set ?rows. rn_workflow r = wid})" by simp
    show "rn_created ` {r \<in> set ?rows. rn_workflow r = wid} \<noteq> {}" using wid(1) by auto
    show "\<forall>c \<in> rn_created ` {r \<in> set ?rows. rn_workflow r = wid}. rn_created q < c" using wid(2) first by auto
  qed
  with mine have "?k (rn_workflow q) < ?k wid" if "wid \<in> rn_workflow ` set ?rows" "wid \<noteq> rn_workflow q" for wid
    using that by fastforce
  moreover have "rn_workflow q \<in> set (remdups (map rn_workflow ?rows))" using q by simp
  ultimately obtain ys where "sort_key ?k (remdups (map rn_workflow ?rows)) = rn_workflow q # ys"
    using sort_key_first [of "rn_workflow q" "remdups (map rn_workflow ?rows)" ?k] by auto
  then show ?thesis by (simp add: candidates_def Let_def take_Cons' )
qed

lemma queued_rows_first:
  assumes q: "q \<in> set (wf_runs t)" "waiting_run now q"
    and first: "\<And>r. r \<in> set (wf_runs t) \<Longrightarrow> waiting_run now r \<Longrightarrow> r \<noteq> q \<Longrightarrow> rn_created q < rn_created r"
  shows "\<exists>rs. queued_rows (\<lambda>_. True) now (rn_workflow q) (max 50 n) t = q # rs"
proof -
  let ?xs = "sort_key rn_id (filter (\<lambda>r. waiting_run now r \<and> True) (runs_of (rn_workflow q) t))"
  have "q \<in> set ?xs" "\<And>y. y \<in> set ?xs \<Longrightarrow> y \<noteq> q \<Longrightarrow> rn_created q < rn_created y"
    using q first by (auto simp: runs_of_def)
  from sort_key_first [of q ?xs rn_created, OF this] show ?thesis by (auto simp: queued_rows_def take_Cons')
qed

text \<open>
  C20. The oldest run is served: when a worker is free, no row is locked by another scheduler and
  the workflow of the oldest waiting run has a free slot, claiming succeeds and leases that run,
  however many runs wait for other workflows.
\<close>

theorem oldest_run_is_claimed:
  assumes "1 \<le> limit" "\<And>n i. sd_free S n i"
    and "distinct (map rn_id (wf_runs (committed_tables s)))"
    and "\<And>r. r \<in> set (wf_runs (committed_tables s)) \<Longrightarrow> traceable r"
    and "q \<in> set (wf_runs (committed_tables s))" "waiting_run (claim_time D s) q"
    and "\<And>r. r \<in> set (wf_runs (committed_tables s)) \<Longrightarrow> waiting_run (claim_time D s) r \<Longrightarrow> r \<noteq> q \<Longrightarrow>
           rn_created q < rn_created r"
    and "find_definition (rn_workflow q) (committed_tables s) = Some w"
    and "0 < slots (workflow_policy H w (committed_tables s)) limit
           (occupied (claim_time D s) (rn_workflow q) (committed_tables s))"
  shows "\<exists>token cs s'. claim_runs H S D limit s = (Inr ((rn_id q, token) # cs), s')"
proof -
  define now where "now = claim_time D s"
  define s0 where "s0 = s\<lparr>wf_tick := Suc (wf_tick s), wf_world := (wf_world s)\<lparr>w_session := rollback (w_session (wf_world s))\<rparr>\<rparr>"
  have t0: "tables s0 = committed_tables s" by (simp add: s0_def state_of_simps)
  obtain wids where c: "candidates now limit (tables s0) = rn_workflow q # wids"
    using candidates_first [OF assms(5,6,7)] by (auto simp: t0 now_def)
  define p where "p = workflow_policy H w (tables s0)"
  define avail where "avail = slots p limit (occupied now (rn_workflow q) (tables s0))"
  obtain s1 where t1: "tables s1 = tables s0" and one: "claim_workflow H S D now limit (rn_workflow q) [] s0 =
      claim_rows S D now p (min limit avail) avail 0
        (queued_rows (\<lambda>_. True) now (rn_workflow q) (max 50 (min 512 (limit * 16))) (tables s0)) [] s1"
    using claim_workflow_unlocked [where S = S and wid = "rn_workflow q" and s = s0 and w = w and H = H
        and limit = limit and cs = "[]" and now = now and D = D] assms(2,8)
    by (auto simp: t0 p_def avail_def)
  obtain rs where rs: "queued_rows (\<lambda>_. True) now (rn_workflow q) (max 50 (min 512 (limit * 16))) (tables s0) = q # rs"
    using queued_rows_first [OF assms(5,6,7)] by (auto simp: t0 now_def)
  have d0: "distinct (map rn_id (wf_runs (tables s0)))" using assms(3) t0 by simp
  have tr0: "r \<in> set (wf_runs (tables s0)) \<Longrightarrow> traceable r" for r using assms(4) t0 by simp
  obtain cs1 s2 where w1: "claim_workflow H S D now limit (rn_workflow q) [] s0 = (Inr cs1, s2)"
    using claim_workflow_ok [of S s0 H D now limit "rn_workflow q" "[]"] assms(2) tr0 by blast
  have avail: "0 < avail" using assms(9) by (simp add: avail_def p_def t0 now_def)
  have dr: "distinct (map rn_id (q # rs))" using queued_rows_props(2) [OF d0] rs by metis
  obtain m where m: "min limit avail = Suc m" using assms(1) avail by (cases "min limit avail") simp_all
  from claim_rows_effect [OF w1 [unfolded one rs] dr min.cobounded2]
  have "map fst cs1 = map rn_id (take (min limit avail) (q # rs))" by auto
  then have "\<exists>token ds. cs1 = (rn_id q, token) # ds" unfolding m by (cases cs1) auto
  then obtain token ds where cs1: "cs1 = (rn_id q, token) # ds" by blast
  from claim_workflow_turn [OF w1 d0] obtain new X where eff: "runs_only (claim_effect S now new X) s0 s2" by blast
  have "distinct (map rn_id (wf_runs (tables s2)))" using eff d0 by (simp add: runs_only_def comp_def)
  moreover have "r \<in> set (wf_runs (tables s2)) \<Longrightarrow> traceable r" for r
    using eff tr0 by (auto simp: runs_only_def traceable_effect)
  ultimately obtain more s3 where "claim_workflows H S D now limit wids cs1 s2 = (Inr (cs1 @ more), s3)"
    using claim_workflows_ok [of S s2 H D now limit wids cs1] assms(2) by blast
  then have "claim_workflows H S D now limit (rn_workflow q # wids) [] s0 = (Inr (cs1 @ more), s3)"
    using w1 assms(1) by simp
  then have "\<exists>s'. claim_runs H S D limit s = (Inr (cs1 @ more), s')"
    using assms(1) c
    by (simp add: claim_runs_def bind_act_def draw_def reads_def transaction_def rollback_all_def commit_all_def
        now_def claim_time_def s0_def)
  then show ?thesis unfolding cs1 by auto
qed

subsection \<open>A sample claim\<close>

definition sample_scheduler :: scheduler where
  "sample_scheduler = \<lparr>sd_lease = 300, sd_workers = 1, sd_free = (\<lambda>n i. True), sd_updated = (\<lambda>n r. rn_created r)\<rparr>"

text \<open>Two queued runs of a workflow that runs one at a time and drops the rest.\<close>

definition sample_queue :: "nat wf_state" where
  "sample_queue = sample_state ((sample_wf_tables (JObj []) [])\<lparr>
     wf_versions := [(sample_version (JObj []))\<lparr>wv_snapshot := Some (JObj [(''concurrency'',
       JObj [(''max_concurrent_runs'', JInt 1), (''overflow_policy'', JStr ''drop'')])])\<rparr>],
     wf_runs := [sample_run\<lparr>rn_id := ''r2'', rn_created := 5\<rparr>, sample_run]\<rparr>)"

lemma sample_queue_policy:
  "workflow_policy sample_host sample_definition (committed_tables sample_queue) = \<lparr>cc_limit = 1, cc_overflow = Drop_Overflow\<rparr>"
  by code_simp

lemma sample_queue_claim:
  "case claim_runs sample_host sample_scheduler sample_draws 1 sample_queue of
     (Inr cs, s') \<Rightarrow> map fst cs = [''r''] \<and> map (\<lambda>r. (rn_id r, rn_workflow r, rn_status r)) (wf_runs (committed_tables s'))
         = [(''r2'', ''w'', Run_Cancelled), (''r'', ''w'', Run_Queued)]
   | _ \<Rightarrow> False"
  by code_simp

lemma sample_queue_facts:
  "distinct (map rn_id (wf_runs (committed_tables sample_queue)))"
  "find_definition ''w'' (committed_tables sample_queue) = Some sample_definition"
  "claim_time sample_draws sample_queue = 1000"
  "occupied 1000 ''w'' (committed_tables sample_queue) = 0"
  "wf_runs (committed_tables sample_queue) = [sample_run\<lparr>rn_id := ''r2'', rn_created := 5\<rparr>, sample_run]"
  by (simp_all add: sample_queue_def sample_wf_tables_def sample_run_def find_definition_def sample_definition_def
      claim_time_def sample_draws_def occupied_def occupies_def runs_of_def unleased_def)

lemma sample_queue_claimE:
  obtains cs s' where "claim_runs sample_host sample_scheduler sample_draws 1 sample_queue = (Inr cs, s')"
    "map (\<lambda>r. (rn_id r, rn_workflow r, rn_status r)) (wf_runs (committed_tables s'))
      = [(''r2'', ''w'', Run_Cancelled), (''r'', ''w'', Run_Queued)]"
  using sample_queue_claim by (auto split: prod.splits sum.splits)

theorem claims_respect_limits_witness:
  "\<exists>cs s'. claim_runs sample_host sample_scheduler sample_draws 1 sample_queue = (Inr cs, s')
     \<and> length cs \<le> 1 \<and> occupied 1000 ''w'' (committed_tables s') \<le> 1"
proof -
  obtain cs s' where c: "claim_runs sample_host sample_scheduler sample_draws 1 sample_queue = (Inr cs, s')"
    by (rule sample_queue_claimE)
  from claims_respect_limits [OF c _ sample_queue_facts(1,2)] show ?thesis
    using c by (simp add: sample_queue_policy sample_queue_facts sample_scheduler_def)
qed

lemma suppressed_runs_are_excess_witness:
  "\<exists>cs s'. claim_runs sample_host sample_scheduler sample_draws 1 sample_queue = (Inr cs, s')
     \<and> nat 1 \<le> length (filter (\<lambda>q. waiting_run 1000 q \<and> rn_created q \<le> 5 \<and> rn_id q \<noteq> ''r2'')
          (runs_of ''w'' (committed_tables sample_queue)))"
proof -
  obtain cs s' where c: "claim_runs sample_host sample_scheduler sample_draws 1 sample_queue = (Inr cs, s')"
    and st: "map (\<lambda>r. (rn_id r, rn_workflow r, rn_status r)) (wf_runs (committed_tables s'))
      = [(''r2'', ''w'', Run_Cancelled), (''r'', ''w'', Run_Queued)]"
    by (rule sample_queue_claimE)
  define r where "r = sample_run\<lparr>rn_id := ''r2'', rn_created := 5\<rparr>"
  have r: "r \<in> set (wf_runs (committed_tables sample_queue))" "rn_status r = Run_Queued" "rn_workflow r = ''w''"
    "rn_id r = ''r2''" "rn_created r = 5"
    by (simp_all add: sample_queue_facts r_def sample_run_def)
  from st obtain r' q where "wf_runs (committed_tables s') = [r', q]" "rn_id r' = ''r2''"
    "rn_workflow r' = ''w''" "rn_status r' = Run_Cancelled"
    by (auto simp: map_eq_Cons_conv)
  then have r': "r' \<in> set (wf_runs (committed_tables s'))" "rn_id r' = rn_id r"
    "rn_workflow r' = rn_workflow r" "rn_status r' \<noteq> rn_status r"
    by (simp_all add: r)
  from suppressed_runs_are_excess [OF c sample_queue_facts(1) r(1) r'] c show ?thesis
    by (auto simp: r sample_queue_facts sample_queue_policy)
qed

theorem oldest_run_is_claimed_witness:
  "\<exists>token cs s'. claim_runs sample_host sample_scheduler sample_draws 1 sample_queue = (Inr ((''r'', token) # cs), s')"
proof -
  have "\<exists>token cs s'. claim_runs sample_host sample_scheduler sample_draws 1 sample_queue
      = (Inr ((rn_id sample_run, token) # cs), s')"
    by (rule oldest_run_is_claimed [where w = sample_definition])
      (auto simp: sample_queue_facts sample_scheduler_def traceable_def sample_run_def waiting_run_def unleased_def
        sample_queue_policy slots_def)
  then show ?thesis by (simp add: sample_run_def)
qed

subsection \<open>The policy\<close>

definition policy_ok :: "concurrency \<Rightarrow> bool" where
  "policy_ok p = (0 \<le> cc_limit p \<and> cc_limit p \<le> MAX_CONCURRENT_RUNS \<and> (cc_limit p = 0 \<longrightarrow> cc_overflow p = Queue_Overflow))"

lemma policy_limit_bounds: "policy_limit kvs = Inr n \<Longrightarrow> 0 \<le> n \<and> n \<le> MAX_CONCURRENT_RUNS"
  by (auto simp: policy_limit_def Let_def split: json.splits sum.splits if_splits option.splits)

lemma normalize_policy_ok: "normalize_concurrency_policy H v = Inr p \<Longrightarrow> policy_ok p"
  by (auto simp: normalize_concurrency_policy_def policy_ok_def DEFAULT_CONCURRENCY_POLICY_def MAX_CONCURRENT_RUNS_def Let_def
      bind_result_Inr_iff split: json.splits if_splits dest!: policy_limit_bounds)

lemma normalize_policy_json:
  assumes "policy_ok p"
  shows "normalize_concurrency_policy H (JObj (policy_json p)) = Inr p"
proof -
  have l: "policy_limit (policy_json p) = Inr (cc_limit p)"
    using assms by (simp add: policy_limit_def policy_json_def obj_get_def py_int_def policy_ok_def)
  have s: "py_lower (py_strip (overflow_text Queue_Overflow)) = overflow_text Queue_Overflow"
    "py_lower (py_strip (overflow_text Drop_Overflow)) = overflow_text Drop_Overflow" by code_simp+
  have o: "policy_overflow H (policy_json p) = Inr (cc_overflow p)"
    by (cases "cc_overflow p") (use s in
      \<open>simp_all add: policy_overflow_def policy_json_def get_or_def get_or_null_def obj_get_def truthy_def\<close>)
  show ?thesis
    using assms l o
    by (cases p) (auto simp: normalize_concurrency_policy_def policy_json_def [of p] policy_json_def Let_def policy_ok_def)
qed

text \<open>
  C26. A concurrency policy is well formed and canonical: what is accepted has a limit from 0 to 64
  and queues when there is no limit; written into a snapshot and read back it is the same policy; and
  whatever a snapshot holds, the policy read from it is well formed.
\<close>

theorem concurrency_policy_is_canonical:
  assumes "normalize_concurrency_policy H v = Inr p"
  shows "policy_ok p \<and> normalize_concurrency_policy H (JObj (policy_json p)) = Inr p
    \<and> policy_from_snapshot H (JObj [(''concurrency'', JObj (policy_json p))]) = p
    \<and> policy_ok (policy_from_snapshot H snapshot)"
proof -
  have "policy_ok DEFAULT_CONCURRENCY_POLICY" by (simp add: policy_ok_def DEFAULT_CONCURRENCY_POLICY_def MAX_CONCURRENT_RUNS_def)
  then have "policy_ok (policy_from_snapshot H snapshot)"
    by (auto simp: policy_from_snapshot_def normalize_policy_ok split: json.split sum.split)
  with normalize_policy_ok [OF assms] normalize_policy_json [OF normalize_policy_ok [OF assms], of H] show ?thesis
    by (simp add: policy_from_snapshot_def get_or_null_def obj_get_def)
qed

theorem concurrency_policy_is_canonical_witness:
  "policy_from_snapshot sample_host (JObj [(''concurrency'', JObj [(''max_concurrent_runs'', JInt 3),
     (''overflow_policy'', JStr ''drop'')])]) = \<lparr>cc_limit = 3, cc_overflow = Drop_Overflow\<rparr>"
proof -
  have n: "normalize_concurrency_policy sample_host (JObj [(''max_concurrent_runs'', JStr '' 3 ''), (''overflow_policy'', JStr ''DROP'')])
      = Inr \<lparr>cc_limit = 3, cc_overflow = Drop_Overflow\<rparr>" by code_simp
  from concurrency_policy_is_canonical [OF n] show ?thesis by (simp add: policy_json_def)
qed

end
