(* ===== verification/Wf_Lifecycle.thy ===== *)
theory Wf_Lifecycle
  imports Wf_Runs Wf_Claims
begin

text \<open>
  The dispatcher and the engine together: the life of a run under any sequence of dispatcher
  operations and executions. A fact about the tables that survives the updates of runs which are
  not terminal is an invariant of all of them.
\<close>

subsection \<open>Invariants of the dispatcher\<close>

lemma yields_reads_from:
  "(\<And>t. P t \<Longrightarrow> T (h t)) \<Longrightarrow> yields (on_data P) T (reads h)"
  by (auto simp: yields_def reads_def on_data_iff)

lemma yields_transaction [act_rules]:
  assumes "yields (on_data P) T m"
  shows "yields (on_data P) T (transaction m)"
  unfolding yields_def transaction_def
proof (intro allI impI)
  fix s :: "'a wf_state" assume s: "on_data P s"
  define s0 where "s0 = snd (rollback_all s)"
  have "on_data P s0" unfolding s0_def by (rule yieldsD [OF data_rollback s])
  then have m: "on_data P (snd (m s0))" "\<And>x. fst (m s0) = Inr x \<Longrightarrow> T x"
    using assms by (simp_all add: yields_def)
  obtain r s1 where e: "m s0 = (r, s1)" by fastforce
  have s1: "on_data P (snd (commit_all s1))" "on_data P (snd (rollback_all s1))"
    using yieldsD [OF data_commit] yieldsD [OF data_rollback] m(1) e by fastforce+
  have "rollback_all s = (Inr (), s0)" by (simp add: s0_def rollback_all_def)
  with e s1 m(2) show "on_data P (snd (bind_act rollback_all (\<lambda>_ s. case m s of
        (Inr x, s') \<Rightarrow> bind_act commit_all (\<lambda>_. ret x) s'
      | (Inl e, s') \<Rightarrow> bind_act rollback_all (\<lambda>_. raise e) s') s)) \<and>
    (\<forall>x. fst (bind_act rollback_all (\<lambda>_ s. case m s of
        (Inr x, s') \<Rightarrow> bind_act commit_all (\<lambda>_. ret x) s'
      | (Inl e, s') \<Rightarrow> bind_act rollback_all (\<lambda>_. raise e) s') s) = Inr x \<longrightarrow> T x)"
    by (cases r) (simp_all add: bind_act_def commit_all_def rollback_all_def)
qed

lemma yields_for_each:
  "(\<And>x. x \<in> set xs \<Longrightarrow> yields I (\<lambda>_. True) (f x)) \<Longrightarrow> yields I (\<lambda>_. True) (for_each f xs)"
  by (induction xs) (auto intro!: act_rules)

text \<open>A fact that survives the updates of the runs \<open>touch\<close>, which are all that are not terminal.\<close>

locale run_table_frame = table_frame P for P :: "'x wf_tables \<Rightarrow> bool" +
  fixes touch :: "ident \<Rightarrow> bool"
  assumes attempts: "P t \<Longrightarrow> P (t\<lparr>wf_attempts := c\<rparr>)"
    and run: "touch i \<Longrightarrow> (\<And>r. rn_id (u r) = rn_id r) \<Longrightarrow> P t \<Longrightarrow> P (set_run i u t)"
    and active: "P t \<Longrightarrow> r \<in> set (wf_runs t) \<Longrightarrow> \<not> terminal (rn_status r) \<Longrightarrow> touch (rn_id r)"
begin

lemma set_run_rule:
  "touch i \<Longrightarrow> (\<And>r. rn_id (u r) = rn_id r) \<Longrightarrow> yields (on_data P) (\<lambda>_. True) (put (set_run i u))"
  by (rule data_put) (rule run)

lemma set_attempt_rule: "yields (on_data P) (\<lambda>_. True) (put (set_attempt i u))"
  by (rule data_put) (simp add: set_attempt_def attempts)

lemma select_bind:
  assumes "\<And>t r. r \<in> set (h t) \<Longrightarrow> r \<in> set (wf_runs t) \<and> \<not> terminal (rn_status r)"
    and "\<And>rs. (\<And>r. r \<in> set rs \<Longrightarrow> touch (rn_id r)) \<Longrightarrow> yields (on_data P) U (f rs)"
  shows "yields (on_data P) U (bind_act (reads h) f)"
proof (rule yields_bind [where T = "\<lambda>rs. \<forall>r \<in> set rs. touch (rn_id r)"])
  show "yields (on_data P) (\<lambda>rs. \<forall>r \<in> set rs. touch (rn_id r)) (reads h)"
    by (rule yields_reads_from) (use assms(1) active in blast)
qed (use assms(2) in blast)

lemma select_one_bind:
  assumes "\<And>t r. h t = Some r \<Longrightarrow> r \<in> set (wf_runs t) \<and> rn_id r = i"
    and "yields (on_data P) U (f None)"
    and "\<And>r. (\<not> terminal (rn_status r) \<Longrightarrow> touch i) \<Longrightarrow> yields (on_data P) U (f (Some r))"
  shows "yields (on_data P) U (bind_act (reads h) f)"
proof (rule yields_bind [where T = "\<lambda>x. \<forall>r. x = Some r \<longrightarrow> \<not> terminal (rn_status r) \<longrightarrow> touch i"])
  show "yields (on_data P) (\<lambda>x. \<forall>r. x = Some r \<longrightarrow> \<not> terminal (rn_status r) \<longrightarrow> touch i) (reads h)"
    by (rule yields_reads_from) (use assms(1) active in blast)
  show "yields (on_data P) U (f x)" if "\<forall>r. x = Some r \<longrightarrow> \<not> terminal (rn_status r) \<longrightarrow> touch i" for x
    using that assms(2,3) by (cases x) simp_all
qed

lemma release_frame: "yields (on_data P) (\<lambda>_. True) (release_waiting S D)"
proof -
  have one: "yields (on_data P) (\<lambda>_. True) (\<lambda>st. if released now (kt_approvals (kernel_tables_of st)) (tables st) r
          then put (set_run (rn_id r) (\<lambda>r. r\<lparr>rn_status := Run_Queued\<rparr>)) st else (Inr (), st))"
    if "touch (rn_id r)" for r now
    using set_run_rule [OF that, of "\<lambda>r. r\<lparr>rn_status := Run_Queued\<rparr>"] by (simp add: yields_def)
  show ?thesis
    unfolding release_waiting_def
    by (intro yields_bind_any [OF data_draw] yields_transaction select_bind yields_for_each one TrueI)
      (auto simp: terminal_def dest!: in_set_takeD)
qed

lemma orphan_frame: "touch i \<Longrightarrow> yields (on_data P) (\<lambda>_. True) (orphan_run D i code m a)"
  unfolding orphan_run_def
  by (intro rules set_run_rule set_attempt_rule; simp)

lemma mark_orphaned_frame: "yields (on_data P) (\<lambda>_. True) (mark_orphaned S D)"
  unfolding mark_orphaned_def
  by (intro yields_bind_any [OF data_draw] yields_transaction select_bind yields_for_each orphan_frame TrueI)
    (auto simp: terminal_def dest!: in_set_takeD)

lemma cancelled_frame: "yields (on_data P) (\<lambda>_. True) (handle_cancelled_worker D i token)"
  unfolding handle_cancelled_worker_def
  by (intro yields_transaction select_one_bind [where i = i])
    (auto simp: terminal_def intro!: rules set_run_rule orphan_frame dest!: find_SomeD)

lemma heartbeat_frame: "yields (on_data P) (\<lambda>_. True) (heartbeat S D i token)"
  unfolding heartbeat_def
proof (intro yields_transaction yields_bind [where T = "\<lambda>f. f \<noteq> None \<longrightarrow> touch i"] yields_reads_from)
  fix f assume f: "f \<noteq> None \<longrightarrow> touch i"
  show "yields (on_data P) (\<lambda>_. True) (case f of None \<Rightarrow> ret False
     | Some _ \<Rightarrow> bind_act (draw (now_at D)) (\<lambda>now.
         bind_act (put (set_run i (\<lambda>r. r\<lparr>rn_until := Some (now + seconds (sd_lease S))\<rparr>))) (\<lambda>_. ret True)))"
    using f by (cases f) (auto intro!: rules set_run_rule)
qed (auto simp: terminal_def dest!: find_SomeD dest: active)

lemma dispatch_failure_frame: "yields (on_data P) (\<lambda>_. True) (mark_dispatch_failure D i e token)"
  unfolding mark_dispatch_failure_def
  by (intro yields_transaction select_one_bind [where i = i])
    (auto intro!: rules set_run_rule dest!: find_SomeD)

lemma lease_frame: "touch i \<Longrightarrow> yields (on_data P) (\<lambda>_. True) (lease_run S D now i)"
  unfolding lease_run_def by (intro act_rules TrueI set_run_rule) simp_all

lemma claim_rows_frame:
  "(\<And>r. r \<in> set rows \<Longrightarrow> touch (rn_id r)) \<Longrightarrow>
   yields (on_data P) (\<lambda>_. True) (claim_rows S D now p budget available index rows cs)"
proof (induction rows arbitrary: index cs)
  case (Cons r rs)
  then show ?case
    unfolding claim_rows.simps suppress_overflow_run_def
    by (intro rules lease_frame set_run_rule Cons.IH; simp)
qed (simp add: act_rules)

lemma claim_workflow_frame: "yields (on_data P) (\<lambda>_. True) (claim_workflow H S D now limit wid cs)"
proof -
  have q: "r \<in> set (queued_rows free now wid n t) \<Longrightarrow> r \<in> set (wf_runs t) \<and> \<not> terminal (rn_status r)"
    for r free n and t :: "'x wf_tables"
    by (auto simp: queued_rows_def runs_of_def waiting_run_def terminal_def dest!: in_set_takeD)
  note look = yields_bind_any [OF data_draw] yields_bind_any [OF yields_reads(1)]
  show ?thesis
    unfolding claim_workflow_def Let_def
    by (rule look(1), rule TrueI, rule look(2), rule TrueI, rule yields_cases, rule yields_atoms, rule TrueI,
        rule yields_if, rule yields_atoms, rule TrueI, (rule look(2), rule TrueI)+, rule look(1), rule TrueI,
        rule select_bind, erule q, rule claim_rows_frame)
qed

lemma claim_workflows_frame: "yields (on_data P) (\<lambda>_. True) (claim_workflows H S D now limit wids cs)"
  by (induction wids arbitrary: cs) (auto intro!: yields_atoms yields_bind_any claim_workflow_frame)

lemma claim_runs_frame: "yields (on_data P) (\<lambda>_. True) (claim_runs H S D limit)"
  unfolding claim_runs_def by (intro act_rules TrueI claim_workflows_frame)

end

text \<open>With firing schedules and queueing runs, which add rows with new ids.\<close>

locale dispatcher_frame = run_table_frame P touch for P :: "'x wf_tables \<Rightarrow> bool" and touch +
  fixes fresh :: "ident \<Rightarrow> bool"
  assumes schedules: "P t \<Longrightarrow> P (t\<lparr>wf_schedules := a\<rparr>)"
    and definitions: "P t \<Longrightarrow> P (t\<lparr>wf_definitions := b\<rparr>)"
    and insert_run: "fresh (rn_id r) \<Longrightarrow> P t \<Longrightarrow> P (t\<lparr>wf_runs := wf_runs t @ [r]\<rparr>)"
begin

lemma queue_frame:
  assumes "\<And>n. fresh (id_at D n)"
  shows "yields (on_data P) (\<lambda>_. True) (queue_workflow_run H D w kind payload initiator dedupe scheduled)"
proof -
  have add: "yields (on_data P) (\<lambda>_. True) (put (\<lambda>t. t\<lparr>wf_runs := wf_runs t @ [r]\<rparr>))" if "fresh (rn_id r)" for r
    using that by (intro data_put insert_run)
  show ?thesis
    unfolding queue_workflow_run_def Let_def
    by (rule yields_bind_any, rule yields_reads, rule TrueI, rule yields_cases, rule yields_atoms,
        (rule yields_if, rule yields_atoms)+, rule yields_bind [where T = fresh], rule data_draw, rule assms)
      (intro rules add; simp)
qed

lemma schedule_rules:
  "yields (on_data P) (\<lambda>_. True) (put (set_schedule sid f))"
  "yields (on_data P) (\<lambda>_. True) (put (advance_schedule sc scheduled upcoming))"
  by (auto intro!: data_put simp: set_schedule_def set_definition_def advance_schedule_def Let_def schedules definitions)

lemma fire_frame:
  assumes "\<And>n. fresh (id_at D n)"
  shows "yields (on_data P) (\<lambda>_. True) (fire_schedule H D sid)"
  unfolding fire_schedule_def Let_def
  by (auto intro!: rules schedule_rules queue_frame assms split: option.split)

lemma enqueue_frame:
  assumes "\<And>n. fresh (id_at D n)"
  shows "yields (on_data P) (\<lambda>_. True) (enqueue_due H S D)"
  unfolding enqueue_due_def
  by (intro rules yields_transaction yields_for_each fire_frame schedule_rules assms)

lemma tick_frame:
  assumes "\<And>n. fresh (id_at D n)"
  shows "yields (on_data P) (\<lambda>_. True) (concurrent_tick H S D active)"
  unfolding concurrent_tick_def tick_def Let_def
  by (intro rules release_frame mark_orphaned_frame enqueue_frame claim_runs_frame assms)

end

subsection \<open>The life of a run\<close>

interpretation stays: dispatcher_frame "\<lambda>t. terminal st \<and> run_has j st (wf_runs t)" "\<lambda>i. i \<noteq> j" "\<lambda>i. i \<noteq> j" for j st
proof
  fix i and u :: "wf_run \<Rightarrow> wf_run" and t :: "'a wf_tables"
  assume "i \<noteq> j" "\<And>r. rn_id (u r) = rn_id r" "terminal st \<and> run_has j st (wf_runs t)"
  then show "terminal st \<and> run_has j st (wf_runs (set_run i u t))"
    by (simp add: set_run_def run_has_other)
next
  fix t :: "'a wf_tables" and r
  assume "terminal st \<and> run_has j st (wf_runs t)" "r \<in> set (wf_runs t)" "\<not> terminal (rn_status r)"
  then show "rn_id r \<noteq> j" by (auto dest: run_has_member)
qed (auto simp: run_has_def)

lemma run_has_update:
  assumes "\<exists>st. run_has j st rs" "\<And>r. rn_id (u r) = rn_id r"
  shows "\<exists>st. run_has j st (update_where (\<lambda>r. rn_id r = i) u rs)"
proof -
  have "filter (\<lambda>q. rn_id q = j) (update_where (\<lambda>r. rn_id r = i) u rs)
    = update_where (\<lambda>r. rn_id r = i) u (filter (\<lambda>q. rn_id q = j) rs)"
    using assms(2) by (induction rs) auto
  with assms(1) show ?thesis by (auto simp: run_has_def)
qed

interpretation there: dispatcher_frame "\<lambda>t. \<exists>st. run_has j st (wf_runs t)" "\<lambda>i. True" "\<lambda>i. i \<noteq> j" for j
  by unfold_locales (auto simp: set_run_def intro: run_has_update, auto simp: run_has_def)

interpretation runs_there: execution_frame "\<lambda>t. \<exists>st. run_has j st (wf_runs t)" i "\<lambda>u. \<forall>r. rn_id (u r) = rn_id r" for i j
  by unfold_locales (auto simp: set_run_def calm_def intro: run_has_update)

definition ignore :: "('s, 'a) act \<Rightarrow> ('s, unit) act" where
  "ignore m = bind_act m (\<lambda>_. ret ())"

text \<open>The operations on runs, each of which opens a session of its own.\<close>

inductive dispatch_op :: "host \<Rightarrow> 'x wf_env \<Rightarrow> scheduler \<Rightarrow> draws \<Rightarrow> ('x, unit) wact \<Rightarrow> bool"
  for H E S D where
  queue: "dispatch_op H E S D (ignore (transaction (queue_workflow_run H D w kind payload initiator dedupe scheduled)))"
| tick: "dispatch_op H E S D (ignore (concurrent_tick H S D active))"
| release: "dispatch_op H E S D (release_waiting S D)"
| orphan: "dispatch_op H E S D (mark_orphaned S D)"
| fire: "dispatch_op H E S D (enqueue_due H S D)"
| claim: "dispatch_op H E S D (ignore (claim_runs H S D limit))"
| work: "dispatch_op H E S D (execute_claimed_run H E D rid token)"
| stop: "dispatch_op H E S D (handle_cancelled_worker D rid token)"
| beat: "dispatch_op H E S D (ignore (heartbeat S D rid token))"

inductive dispatch_step :: "host \<Rightarrow> 'x wf_env \<Rightarrow> scheduler \<Rightarrow> draws \<Rightarrow> 'x wf_state \<Rightarrow> 'x wf_state \<Rightarrow> bool"
  for H E S D where
  step: "dispatch_op H E S D m \<Longrightarrow> dispatch_step H E S D s (snd (bind_act rollback_all (\<lambda>_. m) s))"

definition run_status_of :: "'x wf_state \<Rightarrow> ident \<Rightarrow> run_status option" where
  "run_status_of s j = (case filter (\<lambda>r. rn_id r = j) (wf_runs (committed_tables s)) of
     [r] \<Rightarrow> Some (rn_status r) | _ \<Rightarrow> None)"

lemma run_status_iff: "run_status_of s j = Some st \<longleftrightarrow> run_has j st (wf_runs (committed_tables s))"
  by (auto simp: run_status_of_def run_has_def split: list.split)

lemma step_keeps:
  assumes "dispatch_step H E S D s s'" "P (committed_tables s)"
    and "\<And>m. dispatch_op H E S D m \<Longrightarrow> yields (on_data P) (\<lambda>_. True) m"
  shows "P (committed_tables s')"
  using assms(1)
proof cases
  case (step m)
  have "on_data P (snd (rollback_all s))"
    using assms(2) by (simp add: on_data_iff rollback_all_def state_of_simps)
  then have "on_data P (snd (m (snd (rollback_all s))))" by (rule yieldsD [OF assms(3) [OF step(2)]])
  then show ?thesis unfolding step(1) by (simp add: bind_act_def rollback_all_def on_data_iff)
qed

lemma work_frame:
  assumes "yields (on_data P) (\<lambda>_. True) (execute_run H E D rid (Some token))"
    and "\<And>e. yields (on_data P) (\<lambda>_. True) (mark_dispatch_failure D rid e (Some token))"
  shows "yields (on_data P) (\<lambda>_. True) (execute_claimed_run H E D rid token)"
  unfolding yields_def execute_claimed_run_def
proof (intro allI impI conjI TrueI)
  fix s :: "'a wf_state" assume s: "on_data P s"
  let ?m = "transaction (bind_act (reads (\<lambda>t. find (\<lambda>r. rn_id r = rid \<and> rn_token r = Some token
             \<and> rn_status r = Run_Queued) (wf_runs t))) (\<lambda>mine.
         case mine of None \<Rightarrow> ret () | Some _ \<Rightarrow> execute_run H E D rid (Some token)))"
  have "yields (on_data P) (\<lambda>_. True) ?m" by (intro act_rules TrueI assms(1))
  then have "on_data P (snd (?m s))" using s by (rule yieldsD)
  then show "on_data P (snd (case ?m s of (Inr x, s') \<Rightarrow> (Inr x, s')
     | (Inl e, s') \<Rightarrow> mark_dispatch_failure D rid e (Some token) s'))"
    using yieldsD [OF assms(2)] by (auto split: prod.split sum.split)
qed

text \<open>The engines leave runs alone but their own, and new ids are none of \<open>K\<close>.\<close>

definition dispatch_ok :: "'x wf_env \<Rightarrow> draws \<Rightarrow> ident set \<Rightarrow> bool" where
  "dispatch_ok E D K = (spares_runs (en_personal E) \<and> spares_runs (en_workspace E) \<and> outside_calm D
     \<and> (\<forall>n. id_at D n \<notin> K))"

lemma op_keeps_terminal:
  assumes "dispatch_ok E D K" "j \<in> K" "dispatch_op H E S D m"
  shows "yields (on_data (\<lambda>t. terminal st \<and> run_has j st (wf_runs t))) (\<lambda>_. True) m"
proof -
  have new: "id_at D n \<noteq> j" for n using assms(1,2) by (auto simp: dispatch_ok_def)
  have run: "yields (on_data (\<lambda>t. terminal st \<and> run_has j st (wf_runs t))) (\<lambda>_. True) (execute_run H E D rid token)"
    for rid token
    using execute_run_keeps_terminal [of E D st j H rid token] assms(1)
    by (cases "terminal st") (auto simp: dispatch_ok_def yields_def on_data_iff)
  show ?thesis
    using assms(3)
    by cases (auto simp: ignore_def intro!: act_rules stays.queue_frame stays.tick_frame stays.release_frame
        stays.mark_orphaned_frame stays.enqueue_frame stays.claim_runs_frame stays.cancelled_frame
        stays.heartbeat_frame stays.dispatch_failure_frame work_frame new run)
qed

lemma op_keeps_row:
  assumes "dispatch_ok E D K" "j \<in> K" "dispatch_op H E S D m"
  shows "yields (on_data (\<lambda>t. \<exists>st. run_has j st (wf_runs t))) (\<lambda>_. True) m"
proof -
  have new: "id_at D n \<noteq> j" for n using assms(1,2) by (auto simp: dispatch_ok_def)
  have run: "yields (on_data (\<lambda>t. \<exists>st. run_has j st (wf_runs t))) (\<lambda>_. True) (execute_run H E D rid token)"
    for rid token
    using assms(1) by (intro runs_there.execute_run_frame spares_runs_keep [where P = "\<lambda>rs. \<exists>st. run_has j st rs"])
      (simp_all add: dispatch_ok_def)
  show ?thesis
    using assms(3)
    by cases (auto simp: ignore_def intro!: act_rules there.queue_frame there.tick_frame there.release_frame
        there.mark_orphaned_frame there.enqueue_frame there.claim_runs_frame there.cancelled_frame
        there.heartbeat_frame there.dispatch_failure_frame work_frame new run)
qed

interpretation run_life: lifecycle "\<lambda>s s'. dispatch_ok E D K \<and> dispatch_step H E S D s s'"
  "\<lambda>s j. if j \<in> K then run_status_of s j else None" "\<lambda>a b. \<not> terminal a" for H E S D K
proof
  fix s s' :: "'a wf_state" and j a
  assume "dispatch_ok E D K \<and> dispatch_step H E S D s s'" and a: "(if j \<in> K then run_status_of s j else None) = Some a"
  then have ok: "dispatch_ok E D K" and st: "dispatch_step H E S D s s'" and j: "j \<in> K"
    and s: "run_has j a (wf_runs (committed_tables s))"
    by (auto simp: run_status_iff split: if_splits)
  show "\<exists>b. (if j \<in> K then run_status_of s' j else None) = Some b \<and> (b = a \<or> \<not> terminal a)"
  proof (cases "terminal a")
    case True
    have "terminal a \<and> run_has j a (wf_runs (committed_tables s'))"
      by (rule step_keeps [OF st, where P = "\<lambda>t. terminal a \<and> run_has j a (wf_runs t)"])
        (simp add: s True, rule op_keeps_terminal [OF ok j])
    with j show ?thesis by (simp add: run_status_iff)
  next
    case False
    have "\<exists>b. run_has j b (wf_runs (committed_tables s'))"
      by (rule step_keeps [OF st, where P = "\<lambda>t. \<exists>b. run_has j b (wf_runs t)"])
        (rule exI, rule s, rule op_keeps_row [OF ok j])
    with j False show ?thesis by (simp add: run_status_iff)
  qed
qed


definition sample_orphaned :: "nat wf_state" where
  "sample_orphaned = sample_state ((sample_wf_tables (JObj []) [])\<lparr>wf_runs := [sample_run\<lparr>rn_status := Run_Orphaned\<rparr>]\<rparr>)"

lemma sample_dispatch_ok: "dispatch_ok sample_wf_env sample_draws {''r''}"
proof -
  have "replicate n (CHR ''x'') \<noteq> ''r''" for n by (cases n) simp_all
  then show ?thesis
    by (simp add: dispatch_ok_def spares_runs_def sample_wf_env_def sample_wf_kernel_def sample_wf_provider_def
        outside_calm_def calm_def refresh_row_def sample_draws_def)
qed


end
