(* ===== verification/Wf_Firing.thy ===== *)
theory Wf_Firing
  imports Wf_Lifecycle
begin

text \<open>
  Firing due schedules. The tick fires all due schedules in one transaction, before it claims runs;
  what a schedule that cannot be advanced does to the others follows from that.
\<close>

subsection \<open>A schedule that has no next time\<close>

text \<open>
  The earliest schedule is due, enabled like its workflow, not leased or locked, and its next time
  is refused.
\<close>

definition stuck_schedule :: "host \<Rightarrow> scheduler \<Rightarrow> draws \<Rightarrow> wf_schedule \<Rightarrow> wf_schedule list \<Rightarrow> wf_definition list \<Rightarrow> bool" where
  "stuck_schedule H S D sc scs ws = (\<exists>due w e. sc_next sc = Some due \<and> sc_enabled sc \<and> sc_until sc = None
     \<and> find (\<lambda>x. sc_id x = sc_id sc) scs = Some sc \<and> (\<forall>n. due \<le> now_at D n \<and> sd_free S n (sc_id sc))
     \<and> (\<forall>x \<in> set scs. x \<noteq> sc \<longrightarrow> (\<forall>n. sc_next x = Some n \<longrightarrow> due < n))
     \<and> find (\<lambda>x. wd_id x = sc_workflow sc) ws = Some w \<and> wd_status w = ''enabled''
     \<and> next_schedule_time H (sc_spec sc) due = Inl e)"

lemma due_first:
  assumes "find (\<lambda>x. sc_id x = sc_id sc) (wf_schedules t) = Some sc" "sc_next sc = Some due" "sc_enabled sc"
    and "sc_until sc = None" "due \<le> now" "free (sc_id sc)"
    and "\<And>x n. x \<in> set (wf_schedules t) \<Longrightarrow> x \<noteq> sc \<Longrightarrow> sc_next x = Some n \<Longrightarrow> due < n"
  shows "\<exists>rest. due_schedules free now t = sc_id sc # rest"
proof -
  let ?xs = "filter (\<lambda>s. sc_enabled s \<and> (case sc_next s of None \<Rightarrow> False | Some n \<Rightarrow> n \<le> now)
     \<and> (case sc_until s of None \<Rightarrow> True | Some u \<Rightarrow> u < now) \<and> free (sc_id s)) (wf_schedules t)"
  have "sc \<in> set ?xs" using assms(1-6) by (auto dest: find_SomeD)
  moreover have "the (sc_next sc) < the (sc_next y)" if "y \<in> set ?xs" "y \<noteq> sc" for y
    using that assms(2,7) by (auto split: option.splits)
  ultimately obtain ys where "sort_key (\<lambda>s. the (sc_next s)) ?xs = sc # ys"
    using sort_key_first [of sc ?xs "\<lambda>s. the (sc_next s)"] by blast
  then show ?thesis by (simp add: due_schedules_def take_Cons')
qed

lemma for_each_put:
  "\<exists>s'. for_each (\<lambda>i. put (f i)) xs s = (Inr (), s') \<and> tables s' = fold f xs (tables s)
     \<and> committed_tables s' = committed_tables s"
proof (induction xs arbitrary: s)
  case (Cons x xs)
  have "put (f x) s = (Inr (), on_tables (f x) s)" by (simp add: put_def)
  moreover have "tables (on_tables (f x) s) = f x (tables s)" "committed_tables (on_tables (f x) s) = committed_tables s"
    by (simp_all add: state_of_simps)
  ultimately show ?case using Cons.IH [of "on_tables (f x) s"] by auto
qed simp

lemma fold_set_schedule:
  assumes "\<And>r. sc_id (u r) = sc_id r \<and> sc_next (u r) = sc_next r \<and> sc_spec (u r) = sc_spec r
      \<and> sc_workflow (u r) = sc_workflow r" "find_schedule i t = Some sc"
  shows "\<exists>sc'. find_schedule i (fold (\<lambda>j. set_schedule j u) xs t) = Some sc' \<and> sc_next sc' = sc_next sc
      \<and> sc_spec sc' = sc_spec sc \<and> sc_workflow sc' = sc_workflow sc"
    and "wf_definitions (fold (\<lambda>j. set_schedule j u) xs t) = wf_definitions t"
proof -
  show "\<exists>sc'. find_schedule i (fold (\<lambda>j. set_schedule j u) xs t) = Some sc' \<and> sc_next sc' = sc_next sc
      \<and> sc_spec sc' = sc_spec sc \<and> sc_workflow sc' = sc_workflow sc"
    using assms(2)
  proof (induction xs arbitrary: t sc)
    case (Cons j xs)
    have "find_schedule i (set_schedule j u t) = Some (if sc_id sc = j then u sc else sc)"
      using Cons.prems find_update_where [of sc_id u i] assms(1)
      by (simp add: find_schedule_def set_schedule_def)
    from Cons.IH [OF this] show ?case using assms(1) [of sc] by (auto split: if_splits)
  qed simp
  show "wf_definitions (fold (\<lambda>j. set_schedule j u) xs t) = wf_definitions t"
    by (induction xs arbitrary: t) (simp_all add: set_schedule_def)
qed

lemma enqueue_stuck:
  assumes "stuck_schedule H S D sc (wf_schedules (committed_tables s)) (wf_definitions (committed_tables s))"
  shows "\<exists>e s'. enqueue_due H S D s = (Inl e, s') \<and> committed_tables s' = committed_tables s"
proof -
  obtain due w e where st: "sc_next sc = Some due" "sc_enabled sc" "sc_until sc = None"
    "find (\<lambda>x. sc_id x = sc_id sc) (wf_schedules (committed_tables s)) = Some sc"
    "\<And>n. due \<le> now_at D n" "\<And>n. sd_free S n (sc_id sc)"
    "\<And>x n. x \<in> set (wf_schedules (committed_tables s)) \<Longrightarrow> x \<noteq> sc \<Longrightarrow> sc_next x = Some n \<Longrightarrow> due < n"
    "find (\<lambda>x. wd_id x = sc_workflow sc) (wf_definitions (committed_tables s)) = Some w"
    "wd_status w = ''enabled''" "next_schedule_time H (sc_spec sc) due = Inl e"
    using assms unfolding stuck_schedule_def by blast
  define n where "n = wf_tick s"
  define now where "now = now_at D n"
  define s0 where "s0 = snd (rollback_all (s\<lparr>wf_tick := Suc (Suc n)\<rparr>))\<lparr>wf_tick := Suc (Suc (Suc n))\<rparr>"
  have t0: "tables s0 = committed_tables s" "committed_tables s0 = committed_tables s"
    by (simp_all add: s0_def rollback_all_def state_of_simps)
  obtain rest where due: "due_schedules (sd_free S (Suc (Suc n))) now (committed_tables s) = sc_id sc # rest"
    using due_first [where sc = sc and free = "sd_free S (Suc (Suc n))" and now = now and due = due, OF st(4,1,2,3)]
      st(5-7) unfolding now_def by blast
  let ?u = "\<lambda>r. r\<lparr>sc_token := Some (id_at D (Suc n)), sc_until := Some (now + seconds (sd_lease S))\<rparr>"
  obtain s1 where s1: "for_each (\<lambda>i. put (set_schedule i ?u)) (sc_id sc # rest) s0 = (Inr (), s1)"
    "tables s1 = fold (\<lambda>i. set_schedule i ?u) (sc_id sc # rest) (tables s0)" "committed_tables s1 = committed_tables s"
    using for_each_put [of "\<lambda>i. set_schedule i ?u" "sc_id sc # rest" s0] t0(2) by auto
  have f: "find_schedule (sc_id sc) (tables s0) = Some sc" using st(4) t0(1) by (simp add: find_schedule_def)
  obtain sc' where sc': "find_schedule (sc_id sc) (tables s1) = Some sc'" "sc_next sc' = Some due"
    "sc_spec sc' = sc_spec sc" "sc_workflow sc' = sc_workflow sc"
    using fold_set_schedule(1) [of ?u, OF _ f, of "sc_id sc # rest"] st(1) unfolding s1(2) by auto
  have d: "find_definition (sc_workflow sc) (tables s1) = Some w"
    using fold_set_schedule(2) [of ?u "sc_id sc" "tables s0" sc "sc_id sc # rest"] f st(8) t0(1)
    unfolding s1(2) by (simp add: find_definition_def)
  have fire: "fire_schedule H D (sc_id sc) s1 = (Inl e, s1)"
    using sc' d st(9,10) by (simp add: fire_schedule_def bind_act_def fetch_def reads_def)
  have "enqueue_due H S D s = (Inl e, snd (rollback_all s1))"
    unfolding enqueue_due_def transaction_def
    using due t0(1) s1(1) fire
    by (simp add: bind_act_def draw_def reads_def rollback_all_def s0_def n_def [symmetric] now_def)
  then show ?thesis using s1(3) by (simp add: rollback_all_def state_of_simps)
qed

interpretation still: run_table_frame "\<lambda>t. wf_schedules t = X \<and> wf_definitions t = Y" "\<lambda>_. True" for X Y
  by unfold_locales (auto simp: set_run_def)

text \<open>The dispatcher's loop: the outcomes of its ticks, whose exceptions it only records.\<close>

fun dispatch_loop :: "host \<Rightarrow> scheduler \<Rightarrow> draws \<Rightarrow> nat list \<Rightarrow> 'x wf_state \<Rightarrow> claims result list" where
  "dispatch_loop H S D [] s = []"
| "dispatch_loop H S D (active # rest) s =
     (case bind_act rollback_all (\<lambda>_. concurrent_tick H S D active) s of
        (r, s') \<Rightarrow> r # dispatch_loop H S D rest s')"

lemma tick_stuck:
  fixes s :: "'x wf_state"
  assumes "stuck_schedule H S D sc (wf_schedules (committed_tables s)) (wf_definitions (committed_tables s))"
  shows "\<exists>e s'. bind_act rollback_all (\<lambda>_. concurrent_tick H S D active) s = (Inl e, s')
    \<and> wf_schedules (committed_tables s') = wf_schedules (committed_tables s)
    \<and> wf_definitions (committed_tables s') = wf_definitions (committed_tables s)"
proof -
  define P where "P = (\<lambda>t :: 'x wf_tables. wf_schedules t = wf_schedules (committed_tables s)
      \<and> wf_definitions t = wf_definitions (committed_tables s))"
  define s0 where "s0 = snd (rollback_all s)"
  have r0: "rollback_all s = (Inr (), s0)" by (simp add: s0_def rollback_all_def)
  have p0: "on_data P s0" by (simp add: s0_def rollback_all_def on_data_iff P_def state_of_simps)
  obtain r1 s1 where r: "release_waiting S D s0 = (r1, s1)" by fastforce
  have p1: "on_data P s1" using yieldsD [OF still.release_frame p0 [unfolded P_def]] r unfolding P_def by (metis snd_conv)
  obtain r2 s2 where m: "mark_orphaned S D s1 = (r2, s2)" by fastforce
  have p2: "on_data P s2" using yieldsD [OF still.mark_orphaned_frame p1 [unfolded P_def]] m unfolding P_def by (metis snd_conv)
  have "stuck_schedule H S D sc (wf_schedules (committed_tables s2)) (wf_definitions (committed_tables s2))"
    using assms p2 by (simp add: on_data_iff P_def)
  from enqueue_stuck [OF this] obtain e s3 where q: "enqueue_due H S D s2 = (Inl e, s3)"
    "committed_tables s3 = committed_tables s2" by blast
  have "\<exists>e s'. concurrent_tick H S D active s0 = (Inl e, s') \<and> P (committed_tables s')"
    using r m q p1 p2
    by (cases r1; cases r2) (auto simp: concurrent_tick_def tick_def bind_act_def on_data_iff)
  then show ?thesis using r0 by (auto simp: bind_act_def P_def)
qed

text \<open>
  One schedule stops them all: once the earliest due schedule has no next time, every tick of
  the dispatcher fails, so no run of any workflow is claimed any more.
\<close>

lemma stuck_schedule_stops_dispatch:
  assumes "stuck_schedule H S D sc (wf_schedules (committed_tables s)) (wf_definitions (committed_tables s))"
  shows "list_all (\<lambda>r. \<exists>e. r = Inl e) (dispatch_loop H S D actives s)"
  using assms
proof (induction actives arbitrary: s)
  case (Cons a as)
  from tick_stuck [OF Cons.prems, of a] obtain e s' where
    "bind_act rollback_all (\<lambda>_. concurrent_tick H S D a) s = (Inl e, s')"
    "wf_schedules (committed_tables s') = wf_schedules (committed_tables s)"
    "wf_definitions (committed_tables s') = wf_definitions (committed_tables s)" by blast
  with Cons show ?case by simp
qed simp

subsection \<open>The leap day\<close>

definition leap_day :: json where
  "leap_day = JObj [(''type'', JStr ''cron''), (''expression'', JStr ''0 0 29 2 *'')]"

lemma leap_day_valid: "validate_schedule sample_host leap_day = Inr (Some (Cron ''UTC'' ''0 0 29 2 *''))"
  by code_simp

definition leap_fields :: cron_fields where
  "leap_fields = \<lparr>cron_minute = [0], cron_hour = [0], cron_day = [29], cron_month = [2],
     cron_weekday = [0, 1, 2, 3, 4, 5, 6, 0], cron_day_any = False, cron_weekday_any = True\<rparr>"

lemma leap_fields: "parse_cron ''0 0 29 2 *'' = Inr leap_fields"
  by code_simp

lemma cron_match_fields:
  "cron_matches w f \<Longrightarrow> cron_weekday_any f \<Longrightarrow> wall_minute w \<in> set (cron_minute f) \<and> wall_hour w \<in> set (cron_hour f)
    \<and> fst (month_day (wall_day w)) \<in> set (cron_month f) \<and> snd (month_day (wall_day w)) \<in> set (cron_day f)"
  by (auto simp: cron_matches_def Let_def split: if_splits)

lemma leap_matches:
  assumes "cron_matches w leap_fields"
  shows "wall_minute w = 0" "wall_hour w = 0" "month_day (wall_day w) = (2, 29)"
  using cron_match_fields [OF assms] by (simp_all add: leap_fields_def prod_eq_iff)

text \<open>Between 1 June 2027, day 20970, and 2 March 2029 there is one leap day, day 21243.\<close>

lemma one_leap_day:
  assumes "20970 \<le> d" "d \<le> 21611" "month_day d = (2, 29)"
  shows "d = 21243"
proof -
  define e where "e = d - 11017"
  have e: "9953 \<le> e" "e \<le> 10594" "d + 719468 = e + 5 * 146097" using assms by (simp_all add: e_def)
  have m: "(d + 719468) mod 146097 = e" unfolding e(3) mod_mult_self1 using e(1,2) by simp
  have z: "e div 36524 = 0" "e div 146096 = 0" using e(1,2) by simp_all
  define y where "y = (e - e div 1460) div 365"
  define doy where "doy = e - (365 * y + y div 4 - y div 100)"
  define mp where "mp = (5 * doy + 2) div 153"
  have md: "month_day d = (if mp < 10 then mp + 3 else mp - 9, doy - (153 * mp + 2) div 5 + 1)"
    unfolding month_day_def Let_def m z mp_def doy_def y_def add_0_right diff_0_right by (rule refl)
  have q: "6 \<le> e div 1460" "e div 1460 \<le> 7" using e(1,2) by linarith+
  have y: "27 \<le> y" "y \<le> 29" unfolding y_def using q e(1,2) by linarith+
  then have yq: "6 \<le> y div 4" "y div 4 \<le> 7" "y div 100 = 0" by linarith+
  have y3: "y = 27 \<or> y = 28 \<or> y = 29" using y by linarith
  have "365 * y \<le> e - e div 1460" unfolding y_def by simp
  then have "0 \<le> doy" unfolding doy_def using y3 q e(1) yq by (elim disjE) linarith+
  then have "0 \<le> mp" by (simp add: mp_def)
  then have "mp = 11" using assms(3) md by (simp split: if_splits)
  then have "doy = 365" using assms(3) md by simp
  then have s: "e = 365 + 365 * y + y div 4" by (simp add: doy_def yq)
  show ?thesis using y3
  proof (elim disjE)
    assume "y = 27"
    with s show ?thesis by (simp add: e_def)
  next
    assume "y = 28"
    with s have "e = 10592" by simp
    with \<open>y = 28\<close> show ?thesis by (simp add: y_def)
  next
    assume "y = 29"
    with s e(2) show ?thesis by simp
  qed
qed

lemma wall_midnight: "wall_minute w = 0 \<Longrightarrow> wall_hour w = 0 \<Longrightarrow> w mod minute_length = 0 \<Longrightarrow> w = wall_day w * day_length"
proof -
  assume a: "wall_minute w = 0" "wall_hour w = 0" "w mod minute_length = 0"
  have "w mod day_length < 60 * minute_length"
    using a(2) div_bounds(2) [of "60 * minute_length" "w mod day_length"] by (simp add: wall_hour_def minute_length_def)
  moreover have "0 \<le> w mod day_length" by (simp add: day_length_def)
  moreover have "w mod day_length mod (60 * minute_length) = w mod (60 * minute_length)"
    by (rule mod_mod_cancel) (simp add: day_length_def minute_length_def)
  ultimately have h: "w mod day_length = w mod (60 * minute_length)" by simp
  have "w mod (60 * minute_length) < minute_length"
    using a(1) div_bounds(2) [of minute_length "w mod (60 * minute_length)"] by (simp add: wall_minute_def minute_length_def)
  moreover have "0 \<le> w mod (60 * minute_length)" by (simp add: minute_length_def)
  moreover have "w mod (60 * minute_length) mod minute_length = w mod minute_length"
    by (rule mod_mod_cancel) simp
  ultimately have "w mod day_length = 0" using a(3) h by simp
  then show ?thesis unfolding wall_day_def by auto
qed

definition before_leap_day :: time where
  "before_leap_day = 1811808000000000"

definition the_leap_day :: time where
  "the_leap_day = 1835395200000000"

lemma leap_search:
  assumes "base mod minute_length = 0" "20970 * day_length \<le> base" "base + 527040 * minute_length < 21612 * day_length"
    and "1 \<le> k" "k \<le> 527040" "cron_matches (base + k * minute_length) leap_fields"
  shows "base + k * minute_length = the_leap_day"
proof -
  define w where "w = base + k * minute_length"
  have w: "wall_minute w = 0" "wall_hour w = 0" "month_day (wall_day w) = (2, 29)"
    using leap_matches [OF assms(6)] by (simp_all add: w_def)
  have "w mod minute_length = 0" using assms(1) by (simp add: w_def)
  then have d: "wall_day w * day_length = w" by (rule wall_midnight [OF w(1,2), symmetric])
  have "20970 * day_length < w" "w < 21612 * day_length"
    using assms(2-5) by (simp_all add: w_def minute_length_def day_length_def)
  then have "20970 * day_length < wall_day w * day_length" "wall_day w * day_length < 21612 * day_length"
    by (simp_all only: d)
  then have "20970 < wall_day w" "wall_day w < 21612"
    unfolding mult_less_cancel_right_disj by (simp_all add: day_length_def)
  then have "20970 \<le> wall_day w" "wall_day w \<le> 21611" by simp_all
  from one_leap_day [OF this w(3)] have "w = 21243 * day_length" using d by (simp only:)
  then show ?thesis by (simp add: w_def the_leap_day_def day_length_def)
qed

lemma leap_next:
  "next_schedule_time sample_host leap_day t = (case next_cron_wall leap_fields t of
     None \<Rightarrow> Inl (WorkflowSpecError ''Cron schedule did not produce a time within one year'') | Some w \<Rightarrow> Inr (Some w))"
  unfolding next_schedule_time_valid [OF leap_day_valid]
  by (simp add: next_of_def leap_fields sample_host_def split: option.splits)

lemma leap_minutes:
  "before_leap_day div minute_length * minute_length = before_leap_day" "before_leap_day mod minute_length = 0"
  "the_leap_day div minute_length * minute_length = the_leap_day" "the_leap_day mod minute_length = 0"
  by (simp_all add: before_leap_day_def the_leap_day_def minute_length_def)

lemma leap_day_found: "next_cron_wall leap_fields before_leap_day = Some the_leap_day"
proof (cases "next_cron_wall leap_fields before_leap_day")
  case None
  with next_cron_wall_spec [of before_leap_day leap_fields]
  have "\<not> cron_matches (before_leap_day + 393120 * minute_length) leap_fields" by (simp add: leap_minutes)
  moreover have "cron_matches the_leap_day leap_fields" by code_simp
  ultimately show ?thesis by (simp add: before_leap_day_def the_leap_day_def minute_length_def)
next
  case (Some w)
  with next_cron_wall_spec [of before_leap_day leap_fields]
  obtain k where "1 \<le> k" "k \<le> 527040" "w = before_leap_day + k * minute_length" "cron_matches w leap_fields"
    by (auto simp: leap_minutes)
  with leap_search [of before_leap_day k] Some show ?thesis
    by (simp add: leap_minutes before_leap_day_def day_length_def minute_length_def)
qed

lemma leap_day_last: "next_cron_wall leap_fields the_leap_day = None"
proof (rule ccontr)
  assume "next_cron_wall leap_fields the_leap_day \<noteq> None"
  then obtain w where "next_cron_wall leap_fields the_leap_day = Some w" by blast
  with next_cron_wall_spec [of the_leap_day leap_fields] obtain k where
    "1 \<le> k" "k \<le> 527040" "w = the_leap_day + k * minute_length" "cron_matches w leap_fields"
    by (auto simp: leap_minutes)
  with leap_search [of the_leap_day k] show False
    by (simp add: leap_minutes the_leap_day_def day_length_def minute_length_def)
qed

text \<open>
  Such a schedule is accepted by the validator: the cron expression for 29 February has a next
  time from June 2027, but none from that leap day on, because the next one is beyond the search.
\<close>

lemma leap_day_schedule_gets_stuck:
  "validate_schedule sample_host leap_day = Inr (Some (Cron ''UTC'' ''0 0 29 2 *''))
   \<and> next_schedule_time sample_host leap_day before_leap_day = Inr (Some the_leap_day)
   \<and> (\<exists>e. next_schedule_time sample_host leap_day the_leap_day = Inl e)"
  using leap_day_valid by (simp add: leap_next leap_day_found leap_day_last)

definition leap_schedule :: wf_schedule where
  "leap_schedule = \<lparr>sc_id = ''s'', sc_workflow = ''w'', sc_type = ''cron'', sc_spec = leap_day, sc_timezone = ''UTC'',
     sc_enabled = True, sc_next = Some the_leap_day, sc_last = None, sc_token = None, sc_until = None\<rparr>"

definition leap_state :: "nat wf_state" where
  "leap_state = sample_state ((sample_wf_tables (JObj []) [])\<lparr>wf_schedules := [leap_schedule]\<rparr>)"

lemma stuck_schedule_stops_dispatch_witness:
  "list_all (\<lambda>r. \<exists>e. r = Inl e) (dispatch_loop sample_host sample_scheduler
     (sample_draws\<lparr>now_at := (\<lambda>n. the_leap_day)\<rparr>) [0, 0, 0] leap_state)"
  by (rule stuck_schedule_stops_dispatch [where sc = leap_schedule])
    (auto simp: stuck_schedule_def leap_next leap_day_last leap_state_def leap_schedule_def sample_wf_tables_def
       sample_draws_def sample_scheduler_def sample_definition_def)

end
