(* ===== verification/Wf_Triggers.thy ===== *)
theory Wf_Triggers
  imports Wf_Scheduler
begin

text \<open>
  packages/workflow/triggers.py: the dispatcher that turns kernel events into workflow runs. One
  cursor row marks the last event that was handled, by its time and id; a tick handles the batch of
  events after it and advances the cursor in the transaction that queues the runs.
\<close>

subsection \<open>Event patterns\<close>

fun contains_text :: "string \<Rightarrow> string \<Rightarrow> bool" where
  "contains_text p [] = (p = [])"
| "contains_text p (c # cs) = (starts_with p (c # cs) \<or> contains_text p cs)"

definition wildcard_pattern :: "string \<Rightarrow> string result" where
  "wildcard_pattern pattern =
     (if ends_with ''.*'' pattern then
        let stem = take (length pattern - 2) pattern in
        if stem = [] \<or> list_ex (\<lambda>part. part = []) (split_on (CHR ''.'') stem) then
          Inl (ValueError ''Event wildcard pattern is invalid'')
        else Inr (stem @ ''.*'')
      else if CHR ''*'' \<in> set pattern then Inl (ValueError ''Only a trailing .* wildcard is supported'')
      else Inr pattern)"

definition normalize_event_pattern :: "string \<Rightarrow> string result" where
  "normalize_event_pattern value =
     (let pattern = py_lower (py_strip value) in
      if pattern = [] \<or> 160 < length pattern then
        Inl (ValueError ''Event pattern is required and must be at most 160 characters'')
      else if pattern = ''*'' then Inr pattern
      else bind_result (wildcard_pattern pattern) (\<lambda>pattern.
        if contains_text ''..'' pattern \<or> starts_with ''.'' pattern \<or> ends_with ''.'' pattern then
          Inl (ValueError ''Event pattern is invalid'')
        else if pattern = ''workflow.*'' \<or> starts_with ''workflow.'' pattern then
          Inl (ValueError ''workflow.* lifecycle events cannot be workflow triggers'')
        else Inr pattern))"

definition event_matches_pattern :: "string \<Rightarrow> string \<Rightarrow> bool result" where
  "event_matches_pattern kind pattern =
     (let kind = py_lower (py_strip kind) in
      bind_result (normalize_event_pattern pattern) (\<lambda>pattern. Inr (
        if starts_with ''workflow.'' kind then False
        else if pattern = ''*'' then True
        else if ends_with ''.*'' pattern then starts_with (take (length pattern - 1) pattern) kind
        else kind = pattern)))"

subsection \<open>The envelope of an event\<close>

text \<open>The kernel and the tracer write the payload column with \<open>json.dumps\<close>, so it always decodes.\<close>

definition event_payload :: "kernel_event \<Rightarrow> (string \<times> json) list" where
  "event_payload e = (case ke_payload e of JObj kvs \<Rightarrow> kvs | _ \<Rightarrow> [])"

definition event_envelope :: "host \<Rightarrow> kernel_event \<Rightarrow> (string \<times> json) list" where
  "event_envelope H e =
     [(''id'', JStr (ke_id e)), (''type'', JStr (ke_type e)), (''scope_kind'', JStr (scope_value (ke_scope e))),
      (''workspace_id'', opt_json (ke_workspace e)), (''owner_user_id'', opt_json (ke_owner e)),
      (''principal_id'', opt_json (ke_principal e)), (''actor_type'', JStr (ke_actor_type e)),
      (''actor_id'', opt_json (ke_actor e)), (''initiator_principal_id'', opt_json (ke_initiator e)),
      (''executor_principal_id'', JStr (ke_executor e)), (''capability_id'', opt_json (ke_capability e)),
      (''resource_type'', opt_json (ke_resource_type e)), (''resource_id'', opt_json (ke_resource e)),
      (''payload'', JObj (event_payload e)), (''created_at'', JStr (iso_format H (ke_created e))),
      (''correlation_id'', get_or ''workflow_correlation_id'' (JStr (ke_id e)) (event_payload e)),
      (''causation_id'', get_or_null ''workflow_causation_id'' (event_payload e))]"

text \<open>The condition column may hold what is not JSON; only the spec's own error means no match.\<close>

definition condition_matches :: "host \<Rightarrow> json option \<Rightarrow> (string \<times> json) list \<Rightarrow> bool result" where
  "condition_matches H raw envelope = (case raw of
       None \<Rightarrow> Inr False
     | Some v \<Rightarrow>
         if \<not> truthy v then Inr True
         else (case v of
             JObj _ \<Rightarrow> (case evaluate_condition H (JObj [(''event'', JObj envelope)]) v of
                 Inl (WorkflowSpecError _) \<Rightarrow> Inr False
               | r \<Rightarrow> r)
           | _ \<Rightarrow> Inr False))"

subsection \<open>The dispatcher\<close>

record event_dispatcher =
  ed_batch :: nat
  ed_depth :: int
  ed_free :: "nat \<Rightarrow> bool"

definition set_cursor :: "time \<Rightarrow> ident \<Rightarrow> 'x wf_tables \<Rightarrow> 'x wf_tables" where
  "set_cursor created eid t =
     t\<lparr>wf_cursors := update_where (\<lambda>c. cu_id c = ''kernel'') (\<lambda>c. c\<lparr>cu_created := Some created, cu_event := Some eid\<rparr>)
        (wf_cursors t)\<rparr>"

text \<open>The order in which events are handled: by time, and by id at the same time.\<close>

definition event_pos :: "kernel_event \<Rightarrow> time \<times> ident" where
  "event_pos e = (ke_created e, ke_id e)"

definition event_after :: "time \<Rightarrow> ident option \<Rightarrow> kernel_event \<Rightarrow> bool" where
  "event_after created eid e =
     (created < ke_created e \<or> ke_created e = created \<and> (case eid of None \<Rightarrow> [] | Some i \<Rightarrow> i) < ke_id e)"

definition event_batch :: "nat \<Rightarrow> time \<Rightarrow> ident option \<Rightarrow> kernel_event list \<Rightarrow> kernel_event list" where
  "event_batch n created eid events =
     take n (sort_key ke_created (sort_key ke_id (filter (event_after created eid) events)))"

text \<open>The enabled triggers of the enabled workflows in the event's own scope.\<close>

definition in_event_scope :: "kernel_event \<Rightarrow> wf_definition \<Rightarrow> bool" where
  "in_event_scope e w =
     (wd_status w = ''enabled'' \<and> wd_scope w = scope_value (ke_scope e)
      \<and> (case ke_scope e of
           Personal \<Rightarrow> present (ke_owner e) \<and> wd_workspace w = None \<and> wd_owner w = ke_owner e
         | Workspace \<Rightarrow> present (ke_workspace e) \<and> wd_workspace w = ke_workspace e))"

definition triggers_for_event :: "kernel_event \<Rightarrow> 'x wf_tables \<Rightarrow> (wf_trigger \<times> wf_definition) list" where
  "triggers_for_event e t = List.map_filter (\<lambda>tg.
       if \<not> tg_enabled tg then None
       else (case find_definition (tg_workflow tg) t of
           None \<Rightarrow> None
         | Some w \<Rightarrow> if in_event_scope e w then Some (tg, w) else None))
     (sort_key tg_created (wf_triggers t))"

definition event_key :: "ident \<Rightarrow> ident \<Rightarrow> string" where
  "event_key tid eid = ''event:'' @ tid @ '':'' @ eid"

definition fire_trigger ::
  "host \<Rightarrow> draws \<Rightarrow> int \<Rightarrow> kernel_event \<Rightarrow> wf_trigger \<times> wf_definition \<Rightarrow> ('x, nat) wact" where
  "fire_trigger H D depth e p =
     (let (tg, w) = p; envelope = event_envelope H e; key = event_key (tg_id tg) (ke_id e) in
      bind_act (lift (event_matches_pattern (ke_type e) (tg_pattern tg))) (\<lambda>matches.
      if \<not> matches then ret 0 else
      bind_act (lift (condition_matches H (tg_condition tg) envelope)) (\<lambda>holds.
      if \<not> holds then ret 0 else
      bind_act (reads (\<lambda>t. key \<in> rn_dedupe ` set (wf_runs t))) (\<lambda>existing.
      if existing then ret 0 else
      bind_act (queue_workflow_run H D w ''event''
         [(''event'', JObj envelope), (''trigger_id'', JStr (tg_id tg)), (''depth'', JInt (depth + 1))]
         None (Some key) None) (\<lambda>_. ret 1)))))"

text \<open>The runs queued for one element after the other, counted.\<close>

fun counting :: "('a \<Rightarrow> ('s, nat) act) \<Rightarrow> 'a list \<Rightarrow> ('s, nat) act" where
  "counting f [] = ret 0"
| "counting f (x # xs) = bind_act (f x) (\<lambda>m. bind_act (counting f xs) (\<lambda>n. ret (m + n)))"

definition event_depth :: "kernel_event \<Rightarrow> int result" where
  "event_depth e = bind_result (py_int (get_or ''workflow_depth'' (JInt 0) (event_payload e))) (\<lambda>n. Inr (max 0 n))"

definition dispatch_event :: "host \<Rightarrow> event_dispatcher \<Rightarrow> draws \<Rightarrow> kernel_event \<Rightarrow> ('x, nat) wact" where
  "dispatch_event H E D e =
     bind_act (lift (event_depth e)) (\<lambda>depth.
     bind_act (if depth < ed_depth E \<and> \<not> starts_with ''workflow.'' (ke_type e)
         then bind_act (reads (triggers_for_event e)) (counting (fire_trigger H D depth e))
         else ret 0) (\<lambda>n.
     bind_act (put (set_cursor (ke_created e) (ke_id e))) (\<lambda>_. ret n)))"

definition event_tick :: "host \<Rightarrow> event_dispatcher \<Rightarrow> draws \<Rightarrow> ('x, nat) wact" where
  "event_tick H E D = transaction (
     bind_act (draw (ed_free E)) (\<lambda>free.
     bind_act (reads (\<lambda>t. find (\<lambda>c. cu_id c = ''kernel'') (wf_cursors t))) (\<lambda>found.
     case found of
       None \<Rightarrow> ret 0
     | Some c \<Rightarrow>
         if \<not> free then ret 0
         else (case cu_created c of
             None \<Rightarrow> bind_act (draw (now_at D)) (\<lambda>now.
               bind_act (put (set_cursor now [])) (\<lambda>_. bind_act commit_all (\<lambda>_. ret 0)))
           | Some created \<Rightarrow>
               (\<lambda>s. let events = event_batch (ed_batch E) created (cu_event c) (kt_events (kernel_tables_of s)) in
                  if events = [] then (Inr 0, s)
                  else bind_act (counting (dispatch_event H E D) events) (\<lambda>n.
                    bind_act commit_all (\<lambda>_. ret n)) s)))))"

end
