(* ===== verification/Wf_Provider.thy ===== *)
theory Wf_Provider
  imports Wf_Triggers
begin

text \<open>
  packages/workflow/provider.py: the capabilities through which people and agents define, run and
  inspect workflows. Each handler reads and writes the workflow tables in the session of the kernel
  execution that calls it. The columns \<open>created_at\<close> and \<open>updated_at\<close> of definitions, versions,
  triggers and attempts are maintained by the session and are read by nothing but the listings: they
  are drawn, like the clock, and so is the status of the two dispatchers of this process.
\<close>

record stamps =
  st_created :: "ident \<Rightarrow> time"
  st_updated :: "ident \<Rightarrow> time"
  st_runtime :: "(string \<times> json) list"

type_synonym arguments = "(string \<times> json) list"

subsection \<open>Arguments and scope\<close>

definition arg :: "string \<Rightarrow> arguments \<Rightarrow> json result" where
  "arg k args = (case obj_get k args of None \<Rightarrow> Inl (KeyError k) | Some v \<Rightarrow> Inr v)"

definition arg_text :: "host \<Rightarrow> string \<Rightarrow> arguments \<Rightarrow> string result" where
  "arg_text H k args = bind_result (arg k args) (\<lambda>v. Inr (py_str H v))"

definition row_limit :: "int \<Rightarrow> int \<Rightarrow> arguments \<Rightarrow> nat result" where
  "row_limit usual most args =
     bind_result (py_int (get_or ''limit'' (JInt usual) args)) (\<lambda>n. Inr (nat (clamp 1 most n)))"

definition latest :: "nat \<Rightarrow> ('a \<Rightarrow> time) \<Rightarrow> 'a list \<Rightarrow> 'a list" where
  "latest n f xs = take n (sort_key (\<lambda>x. - f x) xs)"

definition definition_in_scope :: "exec_context \<Rightarrow> wf_definition \<Rightarrow> bool" where
  "definition_in_scope c w = (case ctx_scope c of
       Personal \<Rightarrow> wd_scope w = ''personal'' \<and> wd_workspace w = None \<and> wd_owner w = user_id c
     | Workspace \<Rightarrow> wd_scope w = ''workspace'' \<and> wd_workspace w = workspace_id c)"

definition run_in_scope :: "exec_context \<Rightarrow> wf_run \<Rightarrow> bool" where
  "run_in_scope c r = (case ctx_scope c of
       Personal \<Rightarrow> rn_scope r = ''personal'' \<and> rn_workspace r = None \<and> rn_authority r = user_id c
     | Workspace \<Rightarrow> rn_scope r = ''workspace'' \<and> rn_workspace r = workspace_id c)"

definition trace_in_scope :: "exec_context \<Rightarrow> wf_trace \<Rightarrow> bool" where
  "trace_in_scope c e = (case ctx_scope c of
       Personal \<Rightarrow> te_scope e = Personal \<and> te_workspace e = None \<and> te_owner e = user_id c
     | Workspace \<Rightarrow> te_scope e = Workspace \<and> te_workspace e = workspace_id c)"

subsection \<open>What is shown of a row\<close>

fun run_status_text :: "run_status \<Rightarrow> string" where
  "run_status_text Run_Queued = ''queued''"
| "run_status_text Run_Running = ''running''"
| "run_status_text Run_Waiting = ''waiting''"
| "run_status_text Run_Waiting_Approval = ''waiting_approval''"
| "run_status_text Run_Completed = ''completed''"
| "run_status_text Run_Completed_With_Errors = ''completed_with_errors''"
| "run_status_text Run_Failed = ''failed''"
| "run_status_text Run_Cancelled = ''cancelled''"
| "run_status_text Run_Orphaned = ''orphaned''"

fun attempt_status_text :: "attempt_status \<Rightarrow> string" where
  "attempt_status_text Attempt_Running = ''running''"
| "attempt_status_text Attempt_Waiting_Approval = ''waiting_approval''"
| "attempt_status_text Attempt_Completed = ''completed''"
| "attempt_status_text Attempt_Failed = ''failed''"
| "attempt_status_text Attempt_Orphaned = ''orphaned''"
| "attempt_status_text Attempt_Cancelled = ''cancelled''"

definition workflow_json :: "host \<Rightarrow> stamps \<Rightarrow> wf_definition \<Rightarrow> wf_schedule option \<Rightarrow> (string \<times> json) list" where
  "workflow_json H st w sched =
     [(''id'', JStr (wd_id w)), (''scope_kind'', JStr (wd_scope w)), (''workspace_id'', opt_json (wd_workspace w)),
      (''name'', JStr (wd_name w)), (''description'', JStr (wd_description w)), (''status'', JStr (wd_status w)),
      (''owner_user_id'', opt_json (wd_owner w)), (''current_version'', JInt (wd_version w)),
      (''schedule'', case sched of None \<Rightarrow> JNull | Some s \<Rightarrow> sc_spec s),
      (''schedule_enabled'', JBool (case sched of None \<Rightarrow> False | Some s \<Rightarrow> sc_enabled s)),
      (''next_run_at'', time_text H (Option.bind sched sc_next)),
      (''created_at'', JStr (iso_format H (st_created st (wd_id w)))),
      (''updated_at'', JStr (iso_format H (st_updated st (wd_id w))))]"

definition version_head :: "host \<Rightarrow> stamps \<Rightarrow> wf_version \<Rightarrow> (string \<times> json) list" where
  "version_head H st v =
     [(''id'', JStr (wv_id v)), (''workflow_id'', JStr (wv_workflow v)), (''version'', JInt (wv_version v)),
      (''created_by_user_id'', opt_json (wv_created_by v)),
      (''created_at'', JStr (iso_format H (st_created st (wv_id v))))]"

definition version_json :: "host \<Rightarrow> stamps \<Rightarrow> wf_version \<Rightarrow> (string \<times> json) list" where
  "version_json H st v = version_head H st v
     @ [(''spec'', loads (wv_spec v) (JObj [])), (''snapshot'', loads (wv_snapshot v) (JObj []))]"

definition version_summary :: "host \<Rightarrow> stamps \<Rightarrow> wf_version \<Rightarrow> json result" where
  "version_summary H st v = (case loads (wv_snapshot v) (JObj []) of
       JObj kvs \<Rightarrow> Inr (JObj (version_head H st v @ [(''name'', get_or_null ''name'' kvs),
         (''status'', get_or_null ''status'' kvs), (''schedule'', get_or_null ''schedule'' kvs)]))
     | _ \<Rightarrow> Inl (OtherError ''the snapshot has no attribute get''))"

definition run_json :: "host \<Rightarrow> wf_run \<Rightarrow> (string \<times> json) list" where
  "run_json H r =
     [(''id'', JStr (rn_id r)), (''workflow_id'', JStr (rn_workflow r)), (''workflow_version_id'', JStr (rn_version r)),
      (''scope_kind'', JStr (rn_scope r)), (''workspace_id'', opt_json (rn_workspace r)),
      (''authority_user_id'', opt_json (rn_authority r)), (''initiated_by_user_id'', opt_json (rn_initiator r)),
      (''status'', JStr (run_status_text (rn_status r))), (''trigger_type'', JStr (rn_trigger_type r)),
      (''trigger'', JObj (rn_trigger r)), (''current_step_key'', opt_json (rn_step r)),
      (''error_code'', opt_json (rn_error_code r)), (''error_message'', opt_json (rn_error r)),
      (''scheduled_for'', time_text H (rn_scheduled r)), (''created_at'', JStr (iso_format H (rn_created r))),
      (''started_at'', time_text H (rn_started r)), (''finished_at'', time_text H (rn_finished r))]"

definition attempt_json :: "host \<Rightarrow> stamps \<Rightarrow> wf_attempt \<Rightarrow> json" where
  "attempt_json H st a = JObj
     [(''id'', JStr (sa_id a)), (''attempt'', JInt (sa_attempt a)), (''capability_id'', JStr (sa_capability a)),
      (''status'', JStr (attempt_status_text (sa_status a))), (''request_id'', JStr (sa_request a)),
      (''kernel_run_id'', opt_json (sa_kernel_run a)), (''approval_id'', opt_json (sa_approval a)),
      (''arguments'', JObj (sa_arguments a)), (''result'', JObj (sa_result a)),
      (''error_code'', opt_json (sa_error_code a)), (''error_message'', opt_json (sa_error a)),
      (''started_at'', JStr (iso_format H (sa_started a))), (''finished_at'', time_text H (sa_finished a)),
      (''created_at'', JStr (iso_format H (st_created st (sa_id a))))]"

definition step_run_json :: "host \<Rightarrow> stamps \<Rightarrow> wf_attempt list \<Rightarrow> wf_step_run \<Rightarrow> json" where
  "step_run_json H st attempts r = JObj
     [(''id'', JStr (sr_id r)), (''step_key'', JStr (sr_key r)), (''step_order'', JInt (int (sr_order r))),
      (''kind'', JStr (sr_kind r)), (''capability_id'', opt_json (sr_capability r)),
      (''status'', JStr (step_status_text (sr_status r))), (''attempt'', JInt (sr_attempt r)),
      (''request_id'', opt_json (sr_request r)), (''kernel_run_id'', opt_json (sr_kernel_run r)),
      (''approval_id'', opt_json (sr_approval r)), (''arguments'', JObj (sr_arguments r)),
      (''result'', JObj (sr_result r)), (''error_code'', opt_json (sr_error_code r)),
      (''error_message'', opt_json (sr_error r)), (''wait_until'', time_text H (sr_wait_until r)),
      (''started_at'', time_text H (sr_started r)), (''finished_at'', time_text H (sr_finished r)),
      (''attempts'', JArr (map (attempt_json H st) attempts))]"

definition trigger_json :: "host \<Rightarrow> stamps \<Rightarrow> wf_trigger \<Rightarrow> json" where
  "trigger_json H st g = JObj
     [(''id'', JStr (tg_id g)), (''workflow_id'', JStr (tg_workflow g)), (''event_pattern'', JStr (tg_pattern g)),
      (''condition'', loads (tg_condition g) (JObj [])), (''enabled'', JBool (tg_enabled g)),
      (''created_by_user_id'', opt_json (tg_created_by g)), (''created_at'', JStr (iso_format H (tg_created g))),
      (''updated_at'', JStr (iso_format H (st_updated st (tg_id g))))]"

definition trace_json :: "host \<Rightarrow> bool \<Rightarrow> wf_trace \<Rightarrow> json" where
  "trace_json H scoped e = JObj
     ([(''id'', JStr (te_id e))] @ (if scoped then [(''scope_kind'', JStr (scope_value (te_scope e)))] else [])
      @ [(''event_type'', JStr (te_type e)), (''workflow_id'', JStr (te_workflow e)),
      (''workflow_run_id'', opt_json (te_run e)), (''step_run_id'', opt_json (te_step e)),
      (''step_attempt_id'', opt_json (te_attempt e)), (''capability_id'', opt_json (te_capability e)),
      (''kernel_run_id'', opt_json (te_kernel_run e)), (''approval_id'', opt_json (te_approval e)),
      (''actor_type'', JStr (te_actor_type e)), (''actor_id'', opt_json (te_actor e)), (''payload'', te_payload e),
      (''created_at'', JStr (iso_format H (te_created e)))])"

definition answer :: "(string \<times> json) list \<Rightarrow> (string \<times> ident) option \<Rightarrow> (string \<times> json) list \<Rightarrow> execution_result" where
  "answer value resource event = \<lparr>xr_value = value, xr_resource_type = map_option fst resource,
     xr_resource_id = map_option snd resource, xr_event = event\<rparr>"

subsection \<open>Reading\<close>

type_synonym ('x) wf_handler = "('x, execution_result) wact"

definition schedule_of :: "ident \<Rightarrow> 'x wf_tables \<Rightarrow> wf_schedule option" where
  "schedule_of wid t = find (\<lambda>s. sc_workflow s = wid) (wf_schedules t)"

definition version_of :: "ident \<Rightarrow> int \<Rightarrow> 'x wf_tables \<Rightarrow> wf_version option" where
  "version_of wid n t = find (\<lambda>v. wv_workflow v = wid \<and> wv_version v = n) (wf_versions t)"

definition the_row :: "('x wf_tables \<Rightarrow> 'a option) \<Rightarrow> exn \<Rightarrow> ('x, 'a) wact" where
  "the_row g e = bind_act (reads g) (\<lambda>x. case x of None \<Rightarrow> raise e | Some r \<Rightarrow> ret r)"

definition the_workflow :: "exec_context \<Rightarrow> ident \<Rightarrow> ('x, wf_definition) wact" where
  "the_workflow c wid = the_row (\<lambda>t. find (\<lambda>w. wd_id w = wid \<and> definition_in_scope c w) (wf_definitions t))
     (LookupError ''Workflow is unavailable in this authority scope'')"

definition the_run :: "exec_context \<Rightarrow> ident \<Rightarrow> ('x, wf_run) wact" where
  "the_run c rid = the_row (\<lambda>t. find (\<lambda>r. rn_id r = rid \<and> run_in_scope c r) (wf_runs t))
     (LookupError ''Workflow run is unavailable in this authority scope'')"

text \<open>The listings, for the rows that satisfy \<open>p\<close>.\<close>

definition list_where :: "host \<Rightarrow> (nat \<Rightarrow> stamps) \<Rightarrow> (wf_definition \<Rightarrow> bool) \<Rightarrow> arguments \<Rightarrow> 'x wf_handler" where
  "list_where H T p args =
     bind_act (lift (row_limit 100 200 args)) (\<lambda>n.
     bind_act (draw T) (\<lambda>st.
     bind_act (reads (\<lambda>t. map (\<lambda>w. (w, schedule_of (wd_id w) t)) (latest n (\<lambda>w. st_updated st (wd_id w))
        (filter (\<lambda>w. p w \<and> (truthy (get_or_null ''include_archived'' args) \<or> wd_status w \<noteq> ''archived''))
          (wf_definitions t))))) (\<lambda>rows.
     ret (answer [(''workflows'', JArr (map (\<lambda>(w, s). JObj (workflow_json H st w s)) rows))] None []))))"

definition list_workflows :: "host \<Rightarrow> (nat \<Rightarrow> stamps) \<Rightarrow> exec_context \<Rightarrow> arguments \<Rightarrow> 'x wf_handler" where
  "list_workflows H T c args = list_where H T (definition_in_scope c) args"

definition opt_version :: "host \<Rightarrow> stamps \<Rightarrow> wf_version option \<Rightarrow> json" where
  "opt_version H st v = (case v of None \<Rightarrow> JNull | Some x \<Rightarrow> JObj (version_json H st x))"

definition get_workflow :: "host \<Rightarrow> (nat \<Rightarrow> stamps) \<Rightarrow> exec_context \<Rightarrow> arguments \<Rightarrow> 'x wf_handler" where
  "get_workflow H T c args =
     bind_act (lift (arg_text H ''workflow_id'' args)) (\<lambda>wid.
     bind_act (the_workflow c wid) (\<lambda>w.
     bind_act (draw T) (\<lambda>st.
     bind_act (reads (\<lambda>t. (version_of (wd_id w) (wd_version w) t, schedule_of (wd_id w) t,
       sort_key tg_created (filter (\<lambda>g. tg_workflow g = wd_id w) (wf_triggers t)),
       latest 20 rn_created (filter (\<lambda>r. rn_workflow r = wd_id w) (wf_runs t))))) (\<lambda>(v, s, gs, rs).
     ret (answer [(''workflow'', JObj (workflow_json H st w s)), (''version'', opt_version H st v),
        (''event_triggers'', JArr (map (trigger_json H st) gs)), (''recent_runs'', JArr (map (\<lambda>r. JObj (run_json H r)) rs))]
        (Some (''workflow'', wd_id w)) [])))))"

definition list_versions :: "host \<Rightarrow> (nat \<Rightarrow> stamps) \<Rightarrow> exec_context \<Rightarrow> arguments \<Rightarrow> 'x wf_handler" where
  "list_versions H T c args =
     bind_act (lift (arg_text H ''workflow_id'' args)) (\<lambda>wid.
     bind_act (the_workflow c wid) (\<lambda>w.
     bind_act (lift (row_limit 100 200 args)) (\<lambda>n.
     bind_act (draw T) (\<lambda>st.
     bind_act (reads (\<lambda>t. latest n wv_version (filter (\<lambda>v. wv_workflow v = wd_id w) (wf_versions t)))) (\<lambda>vs.
     bind_act (lift (sequence_result (version_summary H st) vs)) (\<lambda>js.
     ret (answer [(''versions'', JArr js)] (Some (''workflow'', wd_id w)) [])))))))"

definition get_version :: "host \<Rightarrow> (nat \<Rightarrow> stamps) \<Rightarrow> exec_context \<Rightarrow> arguments \<Rightarrow> 'x wf_handler" where
  "get_version H T c args =
     bind_act (lift (arg_text H ''workflow_id'' args)) (\<lambda>wid.
     bind_act (the_workflow c wid) (\<lambda>w.
     bind_act (lift (bind_result (arg ''version'' args) py_int)) (\<lambda>n.
     bind_act (the_row (version_of (wd_id w) n) (LookupError ''Workflow version is unavailable'')) (\<lambda>v.
     bind_act (draw T) (\<lambda>st.
     ret (answer [(''version'', JObj (version_json H st v))] (Some (''workflow_version'', wv_id v)) []))))))"

definition list_triggers :: "host \<Rightarrow> (nat \<Rightarrow> stamps) \<Rightarrow> exec_context \<Rightarrow> arguments \<Rightarrow> 'x wf_handler" where
  "list_triggers H T c args =
     bind_act (lift (arg_text H ''workflow_id'' args)) (\<lambda>wid.
     bind_act (the_workflow c wid) (\<lambda>w.
     bind_act (draw T) (\<lambda>st.
     bind_act (reads (\<lambda>t. sort_key tg_created (filter (\<lambda>g. tg_workflow g = wd_id w) (wf_triggers t)))) (\<lambda>gs.
     ret (answer [(''triggers'', JArr (map (trigger_json H st) gs))] (Some (''workflow'', wd_id w)) [])))))"

text \<open>
  The listings of runs and of the trace restrict to one workflow, and the trace to one run, when the
  argument is given; the row must be one that \<open>find\<close> gives.
\<close>

definition only_if :: "bool \<Rightarrow> ('s, 'a) act \<Rightarrow> ('s, 'a option) act" where
  "only_if b m = (if b then bind_act m (\<lambda>x. ret (Some x)) else ret None)"

definition list_runs_where ::
  "host \<Rightarrow> (ident \<Rightarrow> ('x, wf_definition) wact) \<Rightarrow> (wf_run \<Rightarrow> bool) \<Rightarrow> arguments \<Rightarrow> 'x wf_handler" where
  "list_runs_where H the_wf p args =
     (let wid = get_or_null ''workflow_id'' args; st = get_or_null ''status'' args in
      bind_act (only_if (truthy wid) (the_wf (py_str H wid))) (\<lambda>w.
      bind_act (lift (row_limit 100 200 args)) (\<lambda>n.
      bind_act (reads (\<lambda>t. latest n rn_created (filter (\<lambda>r. p r
          \<and> (case w of None \<Rightarrow> True | Some x \<Rightarrow> rn_workflow r = wd_id x)
          \<and> (truthy st \<longrightarrow> run_status_text (rn_status r) = py_str H st)) (wf_runs t)))) (\<lambda>rows.
      ret (answer [(''runs'', JArr (map (\<lambda>r. JObj (run_json H r)) rows))] None [])))))"

definition list_runs :: "host \<Rightarrow> exec_context \<Rightarrow> arguments \<Rightarrow> 'x wf_handler" where
  "list_runs H c args = list_runs_where H (the_workflow c) (run_in_scope c) args"

definition get_run :: "host \<Rightarrow> (nat \<Rightarrow> stamps) \<Rightarrow> exec_context \<Rightarrow> arguments \<Rightarrow> 'x wf_handler" where
  "get_run H T c args =
     bind_act (lift (arg_text H ''run_id'' args)) (\<lambda>rid.
     bind_act (the_run c rid) (\<lambda>r.
     bind_act (draw T) (\<lambda>st.
     bind_act (reads (\<lambda>t. (find_version (rn_version r) t, sort_key sr_order (filter (\<lambda>x. sr_run x = rn_id r) (wf_steps t)),
       sort_key sa_attempt (filter (\<lambda>a. sa_run a = rn_id r) (wf_attempts t))))) (\<lambda>(v, steps, attempts).
     ret (answer [(''run'', JObj (run_json H r)), (''version'', opt_version H st v),
        (''steps'', JArr (map (\<lambda>x. step_run_json H st (filter (\<lambda>a. sa_step a = sr_id x) attempts) x) steps)),
        (''result'', JObj (rn_result r))] (Some (''workflow_run'', rn_id r)) [])))))"

definition trace_where ::
  "host \<Rightarrow> bool \<Rightarrow> (ident \<Rightarrow> ('x, wf_definition) wact) \<Rightarrow> (ident \<Rightarrow> ('x, wf_run) wact) \<Rightarrow>
   ('x wf_tables \<Rightarrow> wf_trace \<Rightarrow> bool) \<Rightarrow> arguments \<Rightarrow> 'x wf_handler" where
  "trace_where H scoped the_wf the_rn p args =
     (let wid = get_or_null ''workflow_id'' args; rid = get_or_null ''run_id'' args in
      bind_act (only_if (truthy wid) (the_wf (py_str H wid))) (\<lambda>w.
      bind_act (only_if (truthy rid) (the_rn (py_str H rid))) (\<lambda>r.
      bind_act (lift (row_limit 200 500 args)) (\<lambda>n.
      bind_act (reads (\<lambda>t. latest n te_created (filter (\<lambda>e. p t e
          \<and> (case w of None \<Rightarrow> True | Some x \<Rightarrow> te_workflow e = wd_id x)
          \<and> (case r of None \<Rightarrow> True | Some x \<Rightarrow> te_run e = Some (rn_id x))) (wf_traces t)))) (\<lambda>rows.
      ret (answer [(''events'', JArr (map (trace_json H scoped) rows))] None []))))))"

definition list_trace :: "host \<Rightarrow> exec_context \<Rightarrow> arguments \<Rightarrow> 'x wf_handler" where
  "list_trace H c args = trace_where H True (the_workflow c) (the_run c) (\<lambda>t. trace_in_scope c) args"

fun occurrences :: "host \<Rightarrow> json \<Rightarrow> nat \<Rightarrow> time \<Rightarrow> json list result" where
  "occurrences H spec 0 cursor = Inr []"
| "occurrences H spec (Suc n) cursor =
     bind_result (next_schedule_time H spec cursor) (\<lambda>upcoming. case upcoming of
       None \<Rightarrow> Inr []
     | Some u \<Rightarrow> bind_result (occurrences H spec n u) (\<lambda>rest. Inr (JStr (iso_format H u) # rest)))"

definition preview_schedule :: "host \<Rightarrow> draws \<Rightarrow> arguments \<Rightarrow> 'x wf_handler" where
  "preview_schedule H D args =
     bind_act (lift (bind_result (arg ''schedule'' args) (validate_schedule H))) (\<lambda>found. case found of
       None \<Rightarrow> ret (answer [(''schedule'', JNull), (''occurrences'', JArr [])] None [])
     | Some s \<Rightarrow>
         bind_act (lift (py_int (get_or ''count'' (JInt 5) args))) (\<lambda>n.
         bind_act (draw (now_at D)) (\<lambda>now.
         bind_act (lift (occurrences H (schedule_json s) (nat (clamp 1 20 n)) (now - seconds 1))) (\<lambda>times.
         ret (answer [(''schedule'', schedule_json s), (''occurrences'', JArr times)] None [])))))"

definition runtime_status :: "(nat \<Rightarrow> stamps) \<Rightarrow> 'x wf_handler" where
  "runtime_status T = bind_act (draw T) (\<lambda>st. ret (answer (st_runtime st) None []))"

subsection \<open>Defining workflows\<close>

definition snapshot :: "string \<Rightarrow> string \<Rightarrow> json \<Rightarrow> json \<Rightarrow> string \<Rightarrow> json" where
  "snapshot name description spec sched status = JObj [(''name'', JStr name), (''description'', JStr description),
     (''spec'', spec), (''schedule'', sched), (''status'', JStr status)]"

text \<open>When an enabled schedule is due next; the search starts a second before now.\<close>

definition future_schedule_time :: "host \<Rightarrow> time \<Rightarrow> json \<Rightarrow> bool \<Rightarrow> time option result" where
  "future_schedule_time H now spec enabled =
     (if \<not> truthy spec \<or> \<not> enabled then Inr None
      else bind_result (next_schedule_time H spec (now - seconds 1)) (\<lambda>upcoming. case upcoming of
          None \<Rightarrow> Inl (ValueError ''Enabled schedule has no future occurrence'')
        | Some u \<Rightarrow> Inr (Some u)))"

definition text_at :: "string \<Rightarrow> string \<Rightarrow> json \<Rightarrow> string" where
  "text_at k usual v = (case v of
       JObj kvs \<Rightarrow> (case obj_get k kvs of Some (JStr s) \<Rightarrow> s | _ \<Rightarrow> usual)
     | _ \<Rightarrow> usual)"

definition new_schedule :: "ident \<Rightarrow> ident \<Rightarrow> json \<Rightarrow> bool \<Rightarrow> time option \<Rightarrow> wf_schedule" where
  "new_schedule sid wid spec enabled upcoming = \<lparr>sc_id = sid, sc_workflow = wid, sc_type = text_at ''type'' [] spec,
     sc_spec = sort_keys spec, sc_timezone = text_at ''timezone'' ''UTC'' spec, sc_enabled = enabled, sc_next = upcoming,
     sc_last = None, sc_token = None, sc_until = None\<rparr>"

definition add_version ::
  "draws \<Rightarrow> exec_context \<Rightarrow> ident \<Rightarrow> int \<Rightarrow> json option \<Rightarrow> json option \<Rightarrow> ('x, wf_version) wact" where
  "add_version D c wid n spec snap =
     bind_act (draw (id_at D)) (\<lambda>vid.
     let v = \<lparr>wv_id = vid, wv_workflow = wid, wv_version = n, wv_spec = spec, wv_snapshot = snap, wv_created_by = user_id c\<rparr> in
     bind_act (put (\<lambda>t. t\<lparr>wf_versions := wf_versions t @ [v]\<rparr>)) (\<lambda>_. ret v))"

text \<open>The trace event of something a person did to a workflow.\<close>

definition human_event :: "exec_context \<Rightarrow> ident \<Rightarrow> ident option \<Rightarrow> string \<Rightarrow> (string \<times> json) list \<Rightarrow> wf_event" where
  "human_event c wid owner kind payload = (wf_event_of (workspace_id c) wid kind payload)
     \<lparr>ev_actor_type := ''human'', ev_actor := user_id c, ev_owner := owner, ev_principal := principal_id c\<rparr>"

text \<open>What is checked before anything is written: the name, the steps, the schedule and the switch.\<close>

definition schedule_or_null :: "schedule option \<Rightarrow> json" where
  "schedule_or_null s = (case s of None \<Rightarrow> JNull | Some x \<Rightarrow> schedule_json x)"

definition create_draft :: "host \<Rightarrow> arguments \<Rightarrow> (string \<times> json \<times> json \<times> bool) result" where
  "create_draft H args =
     bind_result (arg_text H ''name'' args) (\<lambda>raw.
     let name = py_strip raw in
     if name = [] then Inl (ValueError ''Workflow name is required'') else
     bind_result (bind_result (arg ''spec'' args) (validate_workflow_spec H)) (\<lambda>steps.
     bind_result (validate_schedule H (get_or_null ''schedule'' args)) (\<lambda>sched.
     Inr (name, spec_json steps, schedule_or_null sched, truthy (get_or_null ''enabled'' args)))))"

definition create_workflow :: "host \<Rightarrow> draws \<Rightarrow> (nat \<Rightarrow> stamps) \<Rightarrow> exec_context \<Rightarrow> arguments \<Rightarrow> 'x wf_handler" where
  "create_workflow H D T c args =
     bind_act (lift (create_draft H args)) (\<lambda>(name, spec, sched, enabled).
     bind_act (draw (now_at D)) (\<lambda>now.
     bind_act (lift (future_schedule_time H now sched enabled)) (\<lambda>upcoming.
     let description = str_or H [] ''description'' args; status = (if enabled then ''enabled'' else ''disabled'') in
     bind_act (draw (id_at D)) (\<lambda>wid.
     let w = \<lparr>wd_id = wid, wd_scope = scope_value (ctx_scope c), wd_workspace = workspace_id c, wd_owner = user_id c,
       wd_name = name, wd_description = description, wd_status = status, wd_version = 1\<rparr> in
     bind_act (put (\<lambda>t. t\<lparr>wf_definitions := wf_definitions t @ [w]\<rparr>)) (\<lambda>_.
     bind_act (add_version D c wid 1 (Some (sort_keys spec))
       (Some (sort_keys (snapshot name description spec sched status)))) (\<lambda>v.
     bind_act (if truthy sched then bind_act (draw (id_at D)) (\<lambda>sid.
         put (\<lambda>t. t\<lparr>wf_schedules := wf_schedules t @ [new_schedule sid wid sched enabled upcoming]\<rparr>)) else ret ()) (\<lambda>_.
     bind_act (record_workflow_event D (human_event c wid (user_id c) ''workflow.created''
       [(''scope_kind'', JStr (wd_scope w)), (''version'', JInt 1), (''version_id'', JStr (wv_id v)),
        (''enabled'', JBool enabled), (''schedule_type'', JStr (text_at ''type'' ''manual'' sched))])) (\<lambda>_.
     bind_act (draw T) (\<lambda>st.
     bind_act (reads (schedule_of wid)) (\<lambda>s.
     ret (answer [(''workflow'', JObj (workflow_json H st w s)), (''version'', JObj (version_json H st v))]
       (Some (''workflow'', wid)) [(''workflow_id'', JStr wid), (''workflow_version_id'', JStr (wv_id v))])))))))))))"

text \<open>An edit: the new name, description, spec and schedule, and which of them changed.\<close>

record wf_edit =
  we_name :: string
  we_description :: string
  we_spec :: json
  we_schedule :: json
  we_changed :: "string list"

definition edit_name :: "host \<Rightarrow> arguments \<Rightarrow> wf_edit \<Rightarrow> wf_edit result" where
  "edit_name H args e =
     (let v = get_or_null ''name'' args; candidate = py_strip (py_str H v) in
      if v = JNull then Inr e
      else if candidate = [] then Inl (ValueError ''Workflow name cannot be empty'')
      else if candidate = we_name e then Inr e
      else Inr (e\<lparr>we_name := candidate, we_changed := we_changed e @ [''name'']\<rparr>))"

definition edit_description :: "host \<Rightarrow> arguments \<Rightarrow> wf_edit \<Rightarrow> wf_edit" where
  "edit_description H args e =
     (let v = get_or_null ''description'' args; candidate = py_str H v in
      if v = JNull \<or> candidate = we_description e then e
      else e\<lparr>we_description := candidate, we_changed := we_changed e @ [''description'']\<rparr>)"

definition edit_spec :: "host \<Rightarrow> arguments \<Rightarrow> wf_edit \<Rightarrow> wf_edit result" where
  "edit_spec H args e =
     (let v = get_or_null ''spec'' args in
      if v = JNull then Inr e
      else bind_result (validate_workflow_spec H v) (\<lambda>steps.
        if py_eq (spec_json steps) (we_spec e) then Inr e
        else Inr (e\<lparr>we_spec := spec_json steps, we_changed := we_changed e @ [''spec'']\<rparr>)))"

definition edit_schedule :: "host \<Rightarrow> arguments \<Rightarrow> wf_edit \<Rightarrow> wf_edit result" where
  "edit_schedule H args e =
     (case obj_get ''schedule'' args of
        None \<Rightarrow> Inr e
      | Some v \<Rightarrow> bind_result (validate_schedule H v) (\<lambda>s.
          if py_eq (schedule_or_null s) (we_schedule e) then Inr e
          else Inr (e\<lparr>we_schedule := schedule_or_null s, we_changed := we_changed e @ [''schedule'']\<rparr>)))"

definition edit_of :: "host \<Rightarrow> arguments \<Rightarrow> wf_definition \<Rightarrow> wf_version \<Rightarrow> wf_schedule option \<Rightarrow> wf_edit result" where
  "edit_of H args w v s =
     bind_result (edit_name H args \<lparr>we_name = wd_name w, we_description = wd_description w,
       we_spec = loads (wv_spec v) (JObj []), we_schedule = (case s of None \<Rightarrow> JNull | Some x \<Rightarrow> sc_spec x),
       we_changed = []\<rparr>) (\<lambda>e.
     bind_result (edit_spec H args (edit_description H args e)) (\<lambda>e.
     edit_schedule H args e))"

definition drop_schedule :: "ident \<Rightarrow> 'x wf_tables \<Rightarrow> 'x wf_tables" where
  "drop_schedule sid t = t\<lparr>wf_schedules := filter (\<lambda>s. sc_id s \<noteq> sid) (wf_schedules t)\<rparr>"

definition write_schedule ::
  "draws \<Rightarrow> wf_definition \<Rightarrow> wf_schedule option \<Rightarrow> json \<Rightarrow> time option \<Rightarrow> ('x, unit) wact" where
  "write_schedule D w s spec upcoming = (case s of
       None \<Rightarrow> if spec = JNull then ret () else bind_act (draw (id_at D)) (\<lambda>sid.
         put (\<lambda>t. t\<lparr>wf_schedules := wf_schedules t
           @ [new_schedule sid (wd_id w) spec (wd_status w = ''enabled'') upcoming]\<rparr>))
     | Some x \<Rightarrow>
         if spec = JNull then put (drop_schedule (sc_id x))
         else put (set_schedule (sc_id x) (\<lambda>r. r\<lparr>sc_type := text_at ''type'' [] spec, sc_spec := sort_keys spec,
           sc_timezone := text_at ''timezone'' ''UTC'' spec, sc_enabled := (wd_status w = ''enabled''),
           sc_next := upcoming\<rparr>)))"

definition strings_arr :: "string list \<Rightarrow> json" where
  "strings_arr xs = JArr (map JStr xs)"

definition write_edit ::
  "host \<Rightarrow> draws \<Rightarrow> (nat \<Rightarrow> stamps) \<Rightarrow> exec_context \<Rightarrow> wf_definition \<Rightarrow> wf_version \<Rightarrow> wf_schedule option \<Rightarrow>
   wf_edit \<Rightarrow> 'x wf_handler" where
  "write_edit H D T c w old s e =
     bind_act (draw (now_at D)) (\<lambda>now.
     bind_act (lift (future_schedule_time H now (we_schedule e) (wd_status w = ''enabled''))) (\<lambda>upcoming.
     bind_act (put (set_definition (wd_id w) (\<lambda>r. r\<lparr>wd_name := we_name e, wd_description := we_description e\<rparr>))) (\<lambda>_.
     bind_act (if ''schedule'' \<in> set (we_changed e) then write_schedule D w s (we_schedule e) upcoming else ret ()) (\<lambda>_.
     let n = wd_version w + 1 in
     bind_act (put (set_definition (wd_id w) (\<lambda>r. r\<lparr>wd_version := n\<rparr>))) (\<lambda>_.
     bind_act (add_version D c (wd_id w) n (Some (sort_keys (we_spec e)))
       (Some (sort_keys (snapshot (we_name e) (we_description e) (we_spec e) (we_schedule e) (wd_status w))))) (\<lambda>v.
     bind_act (record_workflow_event D (human_event c (wd_id w) (wd_owner w) ''workflow.updated''
       [(''version'', JInt n), (''version_id'', JStr (wv_id v)), (''previous_version_id'', JStr (wv_id old)),
        (''changed'', strings_arr (we_changed e))])) (\<lambda>_.
     bind_act (draw T) (\<lambda>st.
     bind_act (fetch (find_definition (wd_id w))) (\<lambda>w'.
     bind_act (reads (schedule_of (wd_id w))) (\<lambda>s'.
     ret (answer [(''workflow'', JObj (workflow_json H st w' s')), (''version'', JObj (version_json H st v)),
        (''changed'', strings_arr (we_changed e))] (Some (''workflow'', wd_id w))
        [(''workflow_id'', JStr (wd_id w)), (''workflow_version_id'', JStr (wv_id v))])))))))))))"

definition update_workflow :: "host \<Rightarrow> draws \<Rightarrow> (nat \<Rightarrow> stamps) \<Rightarrow> exec_context \<Rightarrow> arguments \<Rightarrow> 'x wf_handler" where
  "update_workflow H D T c args =
     bind_act (lift (arg_text H ''workflow_id'' args)) (\<lambda>wid.
     bind_act (the_workflow c wid) (\<lambda>w.
     if wd_status w = ''archived'' then raise (ValueError ''Archived workflow cannot be edited'') else
     bind_act (the_row (version_of (wd_id w) (wd_version w)) (RuntimeError ''Current workflow version is unavailable'')) (\<lambda>v.
     bind_act (reads (schedule_of (wd_id w))) (\<lambda>s.
     bind_act (lift (edit_of H args w v s)) (\<lambda>e.
     if we_changed e = [] then bind_act (draw T) (\<lambda>st.
       ret (answer [(''workflow'', JObj (workflow_json H st w s)), (''version'', JObj (version_json H st v)),
         (''changed'', JArr [])] (Some (''workflow'', wd_id w)) []))
     else write_edit H D T c w v s e)))))"

subsection \<open>Switching workflows on and off\<close>

definition switch_schedule :: "wf_schedule option \<Rightarrow> bool \<Rightarrow> time option \<Rightarrow> ('x, unit) wact" where
  "switch_schedule s enabled upcoming = (case s of
       None \<Rightarrow> ret ()
     | Some x \<Rightarrow> put (set_schedule (sc_id x) (\<lambda>r. r\<lparr>sc_enabled := enabled, sc_next := upcoming\<rparr>)))"

definition switched ::
  "host \<Rightarrow> draws \<Rightarrow> (nat \<Rightarrow> stamps) \<Rightarrow> exec_context \<Rightarrow> wf_definition \<Rightarrow> string \<Rightarrow> (string \<times> json) list \<Rightarrow> 'x wf_handler" where
  "switched H D T c w kind payload =
     bind_act (record_workflow_event D (human_event c (wd_id w) (wd_owner w) kind payload)) (\<lambda>_.
     bind_act (draw T) (\<lambda>st.
     bind_act (fetch (find_definition (wd_id w))) (\<lambda>w'.
     bind_act (reads (schedule_of (wd_id w))) (\<lambda>s.
     ret (answer [(''workflow'', JObj (workflow_json H st w' s))] (Some (''workflow'', wd_id w)) [])))))"

definition enable_workflow :: "host \<Rightarrow> draws \<Rightarrow> (nat \<Rightarrow> stamps) \<Rightarrow> exec_context \<Rightarrow> arguments \<Rightarrow> 'x wf_handler" where
  "enable_workflow H D T c args =
     bind_act (lift (arg_text H ''workflow_id'' args)) (\<lambda>wid.
     bind_act (the_workflow c wid) (\<lambda>w.
     if wd_status w = ''archived'' then raise (ValueError ''Archived workflow cannot be enabled'') else
     bind_act (reads (schedule_of (wd_id w))) (\<lambda>s.
     bind_act (draw (now_at D)) (\<lambda>now.
     bind_act (lift (case s of None \<Rightarrow> Inr None | Some x \<Rightarrow> future_schedule_time H now (sc_spec x) True)) (\<lambda>upcoming.
     bind_act (put (set_definition (wd_id w) (\<lambda>r. r\<lparr>wd_status := ''enabled''\<rparr>))) (\<lambda>_.
     bind_act (switch_schedule s True upcoming) (\<lambda>_.
     switched H D T c w ''workflow.enabled'' [(''next_run_at'', time_text H upcoming)])))))))"

definition disable_workflow :: "host \<Rightarrow> draws \<Rightarrow> (nat \<Rightarrow> stamps) \<Rightarrow> exec_context \<Rightarrow> arguments \<Rightarrow> 'x wf_handler" where
  "disable_workflow H D T c args =
     bind_act (lift (arg_text H ''workflow_id'' args)) (\<lambda>wid.
     bind_act (the_workflow c wid) (\<lambda>w.
     bind_act (if wd_status w = ''archived'' then ret ()
       else put (set_definition (wd_id w) (\<lambda>r. r\<lparr>wd_status := ''disabled''\<rparr>))) (\<lambda>_.
     bind_act (reads (schedule_of (wd_id w))) (\<lambda>s.
     bind_act (switch_schedule s False None) (\<lambda>_.
     switched H D T c w ''workflow.disabled'' [])))))"

definition archive_workflow :: "host \<Rightarrow> draws \<Rightarrow> (nat \<Rightarrow> stamps) \<Rightarrow> exec_context \<Rightarrow> arguments \<Rightarrow> 'x wf_handler" where
  "archive_workflow H D T c args =
     bind_act (lift (arg_text H ''workflow_id'' args)) (\<lambda>wid.
     bind_act (the_workflow c wid) (\<lambda>w.
     bind_act (put (set_definition (wd_id w) (\<lambda>r. r\<lparr>wd_status := ''archived''\<rparr>))) (\<lambda>_.
     bind_act (reads (schedule_of (wd_id w))) (\<lambda>s.
     bind_act (switch_schedule s False None) (\<lambda>_.
     switched H D T c w ''workflow.archived'' [])))))"

subsection \<open>Triggers\<close>

definition create_trigger :: "host \<Rightarrow> draws \<Rightarrow> (nat \<Rightarrow> stamps) \<Rightarrow> exec_context \<Rightarrow> arguments \<Rightarrow> 'x wf_handler" where
  "create_trigger H D T c args =
     bind_act (lift (arg_text H ''workflow_id'' args)) (\<lambda>wid.
     bind_act (the_workflow c wid) (\<lambda>w.
     if wd_status w = ''archived'' then raise (ValueError ''Archived workflow cannot receive triggers'') else
     bind_act (lift (bind_result (arg_text H ''event_pattern'' args) normalize_event_pattern)) (\<lambda>pattern.
     let condition = get_or ''condition'' (JObj []) args in
     bind_act (lift (if truthy condition then validate_condition H condition else Inr ())) (\<lambda>_.
     bind_act (reads (\<lambda>t. list_ex (\<lambda>g. tg_workflow g = wd_id w \<and> tg_pattern g = pattern) (wf_triggers t))) (\<lambda>existing.
     if existing then raise (ValueError ''Workflow already has this event pattern'') else
     bind_act (draw (id_at D)) (\<lambda>gid.
     bind_act (draw (now_at D)) (\<lambda>created.
     let g = \<lparr>tg_id = gid, tg_workflow = wd_id w, tg_pattern = pattern, tg_condition = Some (sort_keys condition),
       tg_enabled = True, tg_created_by = user_id c, tg_created = created\<rparr> in
     bind_act (put (\<lambda>t. t\<lparr>wf_triggers := wf_triggers t @ [g]\<rparr>)) (\<lambda>_.
     bind_act (record_workflow_event D (human_event c (wd_id w) (wd_owner w) ''workflow.trigger.created''
       [(''trigger_id'', JStr gid), (''event_pattern'', JStr pattern), (''condition_present'', JBool (truthy condition))])) (\<lambda>_.
     bind_act (draw T) (\<lambda>st.
     ret (answer [(''trigger'', trigger_json H st g)] (Some (''workflow_trigger'', gid)) [])))))))))))"

definition find_trigger :: "ident \<Rightarrow> 'x wf_tables \<Rightarrow> wf_trigger option" where
  "find_trigger i t = find (\<lambda>g. tg_id g = i) (wf_triggers t)"

definition delete_trigger :: "host \<Rightarrow> draws \<Rightarrow> exec_context \<Rightarrow> arguments \<Rightarrow> 'x wf_handler" where
  "delete_trigger H D c args =
     bind_act (lift (arg_text H ''trigger_id'' args)) (\<lambda>gid.
     bind_act (the_row (find_trigger gid) (LookupError ''Workflow trigger is unavailable'')) (\<lambda>g.
     bind_act (the_workflow c (tg_workflow g)) (\<lambda>w.
     bind_act (put (\<lambda>t. t\<lparr>wf_triggers := filter (\<lambda>x. tg_id x \<noteq> tg_id g) (wf_triggers t)\<rparr>)) (\<lambda>_.
     bind_act (record_workflow_event D (human_event c (wd_id w) (wd_owner w) ''workflow.trigger.deleted''
       [(''trigger_id'', JStr (tg_id g)), (''event_pattern'', JStr (tg_pattern g))])) (\<lambda>_.
     ret (answer [(''deleted'', JBool True), (''trigger_id'', JStr (tg_id g))] (Some (''workflow'', wd_id w)) []))))))"

subsection \<open>Runs\<close>

definition start_run :: "host \<Rightarrow> draws \<Rightarrow> exec_context \<Rightarrow> arguments \<Rightarrow> 'x wf_handler" where
  "start_run H D c args =
     bind_act (lift (arg_text H ''workflow_id'' args)) (\<lambda>wid.
     bind_act (the_workflow c wid) (\<lambda>w.
     if wd_status w = ''archived'' then raise (ValueError ''Archived workflow cannot run'') else
     bind_act (queue_workflow_run H D w ''manual''
       (case get_or_null ''trigger'' args of JObj kvs \<Rightarrow> kvs | _ \<Rightarrow> []) (user_id c) None None) (\<lambda>rid.
     bind_act (fetch (find_run rid)) (\<lambda>r.
     ret (answer [(''run'', JObj (run_json H r))] (Some (''workflow_run'', rn_id r))
       [(''workflow_id'', JStr (wd_id w)), (''workflow_run_id'', JStr (rn_id r))])))))"

definition cancelled_run :: "time \<Rightarrow> wf_run \<Rightarrow> wf_run" where
  "cancelled_run now r = r\<lparr>rn_status := Run_Cancelled, rn_finished := Some now, rn_token := None, rn_until := None\<rparr>"

text \<open>The step that a waiting run waits in is cancelled with it, and so is the step's attempt.\<close>

definition cancel_step :: "time \<Rightarrow> wf_run \<Rightarrow> wf_step_run \<Rightarrow> ('x, wf_attempt option) wact" where
  "cancel_step now run st =
     (if rn_status run \<notin> {Run_Waiting, Run_Waiting_Approval} then ret None else
      bind_act (put (set_step (sr_id st) (\<lambda>r. r\<lparr>sr_status := Step_Cancelled, sr_finished := Some now\<rparr>))) (\<lambda>_.
      if sr_kind st \<noteq> ''action'' then ret None else
      bind_act (reads (current_attempt st)) (\<lambda>found. case found of
        None \<Rightarrow> ret None
      | Some a \<Rightarrow> bind_act (put (set_attempt (sa_id a) (\<lambda>x. x\<lparr>sa_status := Attempt_Cancelled, sa_finished := Some now\<rparr>)))
          (\<lambda>_. ret (Some a)))))"

definition waiting_step :: "wf_run \<Rightarrow> 'x wf_tables \<Rightarrow> wf_step_run option" where
  "waiting_step run t = (if \<not> present (rn_step run) then None
     else find (\<lambda>r. sr_run r = rn_id run \<and> Some (sr_key r) = rn_step run) (wf_steps t))"

definition cancel_event ::
  "exec_context \<Rightarrow> wf_run \<Rightarrow> wf_step_run option \<Rightarrow> wf_attempt option \<Rightarrow> wf_event" where
  "cancel_event c run st a = (human_event c (rn_workflow run) (rn_authority run) ''workflow.run.cancelled''
     [(''previous_status'', JStr (run_status_text (rn_status run))), (''current_step_key'', opt_json (rn_step run))])
     \<lparr>ev_run := Some (rn_id run), ev_step := map_option sr_id st, ev_attempt := map_option sa_id a,
      ev_capability := Option.bind st sr_capability, ev_kernel_run := Option.bind st sr_kernel_run,
      ev_approval := Option.bind st sr_approval\<rparr>"

definition cancel_run :: "host \<Rightarrow> draws \<Rightarrow> exec_context \<Rightarrow> arguments \<Rightarrow> 'x wf_handler" where
  "cancel_run H D c args =
     bind_act (lift (arg_text H ''run_id'' args)) (\<lambda>rid.
     bind_act (the_run c rid) (\<lambda>run.
     bind_act (if terminal (rn_status run) then ret () else
       bind_act (draw (now_at D)) (\<lambda>now.
       bind_act (put (set_run (rn_id run) (cancelled_run now))) (\<lambda>_.
       bind_act (reads (waiting_step run)) (\<lambda>st.
       bind_act (case st of None \<Rightarrow> ret None | Some x \<Rightarrow> cancel_step now run x) (\<lambda>a.
       record_workflow_event D (cancel_event c run st a)))))) (\<lambda>_.
     bind_act (fetch (find_run (rn_id run))) (\<lambda>r.
     ret (answer [(''run'', JObj (run_json H r))] (Some (''workflow_run'', rn_id run)) [])))))"

definition reset_step :: "wf_step_run \<Rightarrow> wf_step_run" where
  "reset_step r = r\<lparr>sr_status := Step_Pending, sr_request := None, sr_kernel_run := None, sr_approval := None,
     sr_arguments := [], sr_result := [], sr_error_code := None, sr_error := None, sr_finished := None\<rparr>"

definition requeued_run :: "wf_run \<Rightarrow> wf_run" where
  "requeued_run r = r\<lparr>rn_status := Run_Queued, rn_error_code := None, rn_error := None, rn_finished := None,
     rn_token := None, rn_until := None\<rparr>"

definition failed_step :: "wf_run \<Rightarrow> 'x wf_tables \<Rightarrow> wf_step_run option" where
  "failed_step run t = (case sort_key (\<lambda>r. - int (sr_order r))
       (filter (\<lambda>r. sr_run r = rn_id run \<and> sr_status r = Step_Failed) (wf_steps t)) of
     [] \<Rightarrow> None | r # _ \<Rightarrow> Some r)"

definition retry_run :: "host \<Rightarrow> draws \<Rightarrow> exec_context \<Rightarrow> arguments \<Rightarrow> 'x wf_handler" where
  "retry_run H D c args =
     bind_act (lift (arg_text H ''run_id'' args)) (\<lambda>rid.
     bind_act (the_run c rid) (\<lambda>run.
     if rn_status run \<noteq> Run_Failed then
       raise (ValueError ''Only failed workflow runs can be retried; orphaned runs require manual reconciliation'') else
     bind_act (reads (failed_step run)) (\<lambda>st.
     bind_act (case st of None \<Rightarrow> ret () | Some x \<Rightarrow> put (set_step (sr_id x) reset_step)) (\<lambda>_.
     bind_act (put (set_run (rn_id run) requeued_run)) (\<lambda>_.
     bind_act (record_workflow_event D ((human_event c (rn_workflow run) (rn_authority run) ''workflow.run.retry_requested''
       [(''step_key'', opt_json (map_option sr_key st)),
        (''next_attempt'', case st of None \<Rightarrow> JNull | Some x \<Rightarrow> JInt (sr_attempt x + 1))])
       \<lparr>ev_run := Some (rn_id run), ev_step := map_option sr_id st\<rparr>)) (\<lambda>_.
     bind_act (fetch (find_run (rn_id run))) (\<lambda>r.
     ret (answer [(''run'', JObj (run_json H r))] (Some (''workflow_run'', rn_id run)) []))))))))"

subsection \<open>The provider\<close>

definition wf_handlers ::
  "host \<Rightarrow> draws \<Rightarrow> (nat \<Rightarrow> stamps) \<Rightarrow> exec_context \<Rightarrow> arguments \<Rightarrow> (string \<times> 'x wf_handler) list" where
  "wf_handlers H D T c args =
     [(''workflow.list'', list_workflows H T c args), (''workflow.get'', get_workflow H T c args),
      (''workflow.version.list'', list_versions H T c args), (''workflow.version.get'', get_version H T c args),
      (''workflow.create'', create_workflow H D T c args), (''workflow.update'', update_workflow H D T c args),
      (''workflow.enable'', enable_workflow H D T c args), (''workflow.disable'', disable_workflow H D T c args),
      (''workflow.archive'', archive_workflow H D T c args), (''workflow.trigger.list'', list_triggers H T c args),
      (''workflow.trigger.create'', create_trigger H D T c args), (''workflow.trigger.delete'', delete_trigger H D c args),
      (''workflow.run.start'', start_run H D c args), (''workflow.run.list'', list_runs H c args),
      (''workflow.run.get'', get_run H T c args), (''workflow.run.cancel'', cancel_run H D c args),
      (''workflow.run.retry'', retry_run H D c args), (''workflow.trace'', list_trace H c args),
      (''workflow.schedule.preview'', preview_schedule H D args), (''workflow.runtime.status'', runtime_status T)]"

definition provider_execute ::
  "host \<Rightarrow> draws \<Rightarrow> (nat \<Rightarrow> stamps) \<Rightarrow> exec_context \<Rightarrow> string \<Rightarrow> arguments \<Rightarrow> 'x wf_handler" where
  "provider_execute H D T c cap args =
     (if \<not> present (user_id c) then raise (PermissionError ''Workflow authority requires an Operly user'')
      else if ctx_scope c = Workspace \<and> \<not> present (workspace_id c) then
        raise (PermissionError ''Workspace workflow requires Workspace authority'')
      else (case map_of (wf_handlers H D T c args) cap of
          None \<Rightarrow> raise (LookupError ''Workflow capability is not implemented'')
        | Some handler \<Rightarrow> handler))"

end
