(* ===== verification/Wf_Access.thy ===== *)
theory Wf_Access
  imports Wf_Provider Wf_Concurrency
begin

text \<open>
  packages/workflow/access.py and the provider of packages/workflow/concurrency.py: around the
  handlers of the universal provider, what a member of a workspace who is not its owner may reach,
  and the concurrency policy that create and update carry into the version's snapshot.
\<close>

subsection \<open>A member's own workflows\<close>

definition validate_mutation_input :: "host \<Rightarrow> string \<Rightarrow> arguments \<Rightarrow> unit result" where
  "validate_mutation_input H cap args =
     (if cap = ''workflow.create'' then
        if py_strip (str_or H [] ''name'' args) = [] then Inl (ValueError ''Workflow name is required'') else Inr ()
      else if cap = ''workflow.update'' \<and> get_or_null ''name'' args \<noteq> JNull then
        if py_strip (py_str H (get_or_null ''name'' args)) = [] then Inl (ValueError ''Workflow name cannot be empty'')
        else Inr ()
      else Inr ())"

definition owns_workflow :: "exec_context \<Rightarrow> wf_definition \<Rightarrow> bool" where
  "owns_workflow c w = (wd_scope w = ''workspace'' \<and> wd_workspace w = workspace_id c \<and> wd_owner w = user_id c)"

definition owns_run :: "exec_context \<Rightarrow> wf_run \<Rightarrow> bool" where
  "owns_run c r = (rn_scope r = ''workspace'' \<and> rn_workspace r = workspace_id c \<and> rn_authority r = user_id c)"

definition owned_workflow :: "exec_context \<Rightarrow> ident \<Rightarrow> ('x, wf_definition) wact" where
  "owned_workflow c wid = the_row (\<lambda>t. find (\<lambda>w. wd_id w = wid \<and> owns_workflow c w) (wf_definitions t))
     (PermissionError ''A non-owner may only access their own workflows'')"

definition owned_run :: "exec_context \<Rightarrow> ident \<Rightarrow> ('x, wf_run) wact" where
  "owned_run c rid = the_row (\<lambda>t. find (\<lambda>r. rn_id r = rid \<and> owns_run c r) (wf_runs t))
     (PermissionError ''A non-owner may only access their own workflow runs'')"

definition delegated_list :: "host \<Rightarrow> (nat \<Rightarrow> stamps) \<Rightarrow> exec_context \<Rightarrow> arguments \<Rightarrow> 'x wf_handler" where
  "delegated_list H T c args = list_where H T (owns_workflow c) args"

definition delegated_get :: "host \<Rightarrow> (nat \<Rightarrow> stamps) \<Rightarrow> exec_context \<Rightarrow> arguments \<Rightarrow> 'x wf_handler" where
  "delegated_get H T c args =
     bind_act (owned_workflow c (str_or H [] ''workflow_id'' args)) (\<lambda>w.
     bind_act (draw T) (\<lambda>st.
     bind_act (reads (\<lambda>t. (version_of (wd_id w) (wd_version w) t, schedule_of (wd_id w) t,
       latest 20 rn_created (filter (\<lambda>r. rn_workflow r = wd_id w \<and> rn_scope r = ''workspace'' \<and> rn_authority r = user_id c)
         (wf_runs t))))) (\<lambda>(v, s, rs).
     ret (answer [(''workflow'', JObj (workflow_json H st w s)), (''version'', opt_version H st v),
        (''recent_runs'', JArr (map (\<lambda>r. JObj (run_json H r)) rs))] (Some (''workflow'', wd_id w)) []))))"

text \<open>Here a limit that is no number is refused before the workflow is looked up.\<close>

definition delegated_run_list :: "host \<Rightarrow> exec_context \<Rightarrow> arguments \<Rightarrow> 'x wf_handler" where
  "delegated_run_list H c args = bind_act (lift (row_limit 100 200 args)) (\<lambda>_. list_runs_where H (owned_workflow c) (owns_run c) args)"

text \<open>The trace of own workflows: events of no run or of own runs.\<close>

definition own_trace :: "exec_context \<Rightarrow> 'x wf_tables \<Rightarrow> wf_trace \<Rightarrow> bool" where
  "own_trace c t e = (te_scope e = Workspace \<and> te_workspace e = workspace_id c
     \<and> te_workflow e \<in> wd_id ` set (filter (owns_workflow c) (wf_definitions t))
     \<and> (case te_run e of None \<Rightarrow> True | Some i \<Rightarrow> i \<in> rn_id ` set (filter (owns_run c) (wf_runs t))))"

definition delegated_trace :: "host \<Rightarrow> exec_context \<Rightarrow> arguments \<Rightarrow> 'x wf_handler" where
  "delegated_trace H c args = bind_act (lift (row_limit 200 500 args)) (\<lambda>_.
     trace_where H False (owned_workflow c) (owned_run c) (own_trace c) args)"

definition workflow_scoped :: "string list" where
  "workflow_scoped = [''workflow.version.list'', ''workflow.version.get'', ''workflow.update'', ''workflow.enable'',
     ''workflow.disable'', ''workflow.archive'', ''workflow.trigger.list'', ''workflow.trigger.create'', ''workflow.run.start'']"

definition run_scoped :: "string list" where
  "run_scoped = [''workflow.run.get'', ''workflow.run.cancel'', ''workflow.run.retry'']"

text \<open>The row that the capability names must be the member's own.\<close>

definition check_owned :: "host \<Rightarrow> exec_context \<Rightarrow> string \<Rightarrow> arguments \<Rightarrow> ('x, unit) wact" where
  "check_owned H c cap args =
     (if cap \<in> set workflow_scoped then
        bind_act (owned_workflow c (str_or H [] ''workflow_id'' args)) (\<lambda>_. ret ())
      else if cap \<in> set run_scoped then bind_act (owned_run c (str_or H [] ''run_id'' args)) (\<lambda>_. ret ())
      else if cap = ''workflow.trigger.delete'' then
        bind_act (the_row (find_trigger (str_or H [] ''trigger_id'' args)) (LookupError ''Workflow trigger is unavailable'')) (\<lambda>g.
        bind_act (owned_workflow c (tg_workflow g)) (\<lambda>_. ret ()))
      else ret ())"

definition is_root :: "exec_context \<Rightarrow> bool" where
  "is_root c = (ctx_scope c = Personal \<or> role c = ''owner'')"

definition access_execute ::
  "host \<Rightarrow> draws \<Rightarrow> (nat \<Rightarrow> stamps) \<Rightarrow> exec_context \<Rightarrow> string \<Rightarrow> arguments \<Rightarrow> 'x wf_handler" where
  "access_execute H D T c cap args =
     bind_act (lift (validate_mutation_input H cap args)) (\<lambda>_.
     if is_root c then provider_execute H D T c cap args
     else if \<not> present (user_id c) then raise (PermissionError ''Delegated Workflow authority requires an Operly user'')
     else if cap = ''workflow.list'' then delegated_list H T c args
     else if cap = ''workflow.get'' then delegated_get H T c args
     else if cap = ''workflow.run.list'' then delegated_run_list H c args
     else if cap = ''workflow.trace'' then delegated_trace H c args
     else bind_act (check_owned H c cap args) (\<lambda>_. provider_execute H D T c cap args))"

subsection \<open>The concurrency policy of a version\<close>

definition authorized_workflow :: "exec_context \<Rightarrow> ident \<Rightarrow> ('x, wf_definition) wact" where
  "authorized_workflow c wid = (if is_root c then the_workflow c wid else owned_workflow c wid)"

definition current_version :: "ident \<Rightarrow> ('x, wf_version) wact" where
  "current_version wid =
     bind_act (fetch (find_definition wid)) (\<lambda>w.
     the_row (version_of wid (wd_version w)) (RuntimeError ''Current workflow version is unavailable''))"

text \<open>The snapshot with the policy in it.\<close>

definition with_policy :: "concurrency \<Rightarrow> json option \<Rightarrow> json" where
  "with_policy p snap = sort_keys (JObj (obj_set ''concurrency'' (JObj (policy_json p))
     (case loads snap (JObj []) of JObj kvs \<Rightarrow> kvs | _ \<Rightarrow> [])))"

definition set_version :: "ident \<Rightarrow> (wf_version \<Rightarrow> wf_version) \<Rightarrow> 'x wf_tables \<Rightarrow> 'x wf_tables" where
  "set_version i f t = t\<lparr>wf_versions := update_where (\<lambda>v. wv_id v = i) f (wf_versions t)\<rparr>"

definition store_current_policy :: "ident \<Rightarrow> concurrency \<Rightarrow> ('x, wf_version) wact" where
  "store_current_policy wid p =
     bind_act (current_version wid) (\<lambda>v.
     bind_act (put (set_version (wv_id v) (\<lambda>x. x\<lparr>wv_snapshot := Some (with_policy p (wv_snapshot v))\<rparr>))) (\<lambda>_.
     ret (v\<lparr>wv_snapshot := Some (with_policy p (wv_snapshot v))\<rparr>)))"

definition concurrency_only_version ::
  "draws \<Rightarrow> exec_context \<Rightarrow> ident \<Rightarrow> concurrency \<Rightarrow> ('x, wf_version \<times> wf_version) wact" where
  "concurrency_only_version D c wid p =
     bind_act (current_version wid) (\<lambda>old.
     bind_act (fetch (find_definition wid)) (\<lambda>w.
     bind_act (put (set_definition wid (\<lambda>r. r\<lparr>wd_version := wd_version w + 1\<rparr>))) (\<lambda>_.
     bind_act (add_version D c wid (wd_version w + 1) (wv_spec old) (Some (with_policy p (wv_snapshot old)))) (\<lambda>v.
     ret (old, v)))))"

text \<open>\<open>value[k]\<close> replaced when it is an object.\<close>

definition on_item :: "string \<Rightarrow> ((string \<times> json) list \<Rightarrow> (string \<times> json) list) \<Rightarrow> (string \<times> json) list \<Rightarrow> (string \<times> json) list" where
  "on_item k f value = (case get_or_null k value of JObj kvs \<Rightarrow> obj_set k (JObj (f kvs)) value | _ \<Rightarrow> value)"

definition policy_value :: "concurrency \<Rightarrow> json" where
  "policy_value p = JObj (policy_json p)"

definition shown_snapshot :: "(string \<times> json) list \<Rightarrow> json" where
  "shown_snapshot value = (case get_or_null ''version'' value of JObj v \<Rightarrow> get_or_null ''snapshot'' v | _ \<Rightarrow> JNull)"

definition decorate :: "concurrency \<Rightarrow> (string \<times> json) list \<Rightarrow> (string \<times> json) list" where
  "decorate p value = on_item ''workflow'' (obj_set ''concurrency'' (policy_value p))
     (on_item ''version'' (on_item ''snapshot'' (obj_set ''concurrency'' (policy_value p))) value)"

definition add_changed :: "(string \<times> json) list \<Rightarrow> (string \<times> json) list" where
  "add_changed value = (case get_or_null ''changed'' value of
       JArr xs \<Rightarrow> if JStr ''concurrency'' \<in> set xs then value else obj_set ''changed'' (JArr (xs @ [JStr ''concurrency''])) value
     | _ \<Rightarrow> value)"

text \<open>The policy that the arguments of create or update ask for, when they name one.\<close>

definition requested_policy :: "host \<Rightarrow> string \<Rightarrow> arguments \<Rightarrow> concurrency option result" where
  "requested_policy H cap args =
     (if cap \<notin> {''workflow.create'', ''workflow.update''} then Inr None
      else (case obj_get ''concurrency'' args of
          None \<Rightarrow> Inr None
        | Some v \<Rightarrow> bind_result (normalize_concurrency_policy H v) (\<lambda>p. Inr (Some p))))"

definition policy_event :: "exec_context \<Rightarrow> wf_definition \<Rightarrow> wf_version \<Rightarrow> concurrency \<Rightarrow> wf_event" where
  "policy_event c w v p = human_event c (wd_id w) (wd_owner w) ''workflow.concurrency.updated''
     [(''workflow_version'', JInt (wd_version w)), (''workflow_version_id'', JStr (wv_id v)),
      (''max_concurrent_runs'', JInt (cc_limit p)), (''overflow_policy'', JStr (overflow_text (cc_overflow p)))]"

text \<open>The update of nothing but the policy: a version of its own.\<close>

definition policy_update ::
  "host \<Rightarrow> draws \<Rightarrow> (nat \<Rightarrow> stamps) \<Rightarrow> exec_context \<Rightarrow> ident \<Rightarrow> concurrency \<Rightarrow> execution_result \<Rightarrow>
   ('x, wf_version \<times> execution_result) wact" where
  "policy_update H D T c wid p x =
     bind_act (concurrency_only_version D c wid p) (\<lambda>(old, v).
     bind_act (fetch (find_definition wid)) (\<lambda>w.
     bind_act (draw T) (\<lambda>st.
     bind_act (record_workflow_event D (human_event c wid (wd_owner w) ''workflow.updated''
       [(''version'', JInt (wd_version w)), (''version_id'', JStr (wv_id v)), (''previous_version_id'', JStr (wv_id old)),
        (''changed'', JArr [JStr ''concurrency''])])) (\<lambda>_.
     ret (v, x\<lparr>xr_value := decorate p (on_item ''workflow'' (obj_set ''current_version'' (JInt (wd_version w)))
          (obj_set ''changed'' (JArr [JStr ''concurrency'']) (obj_set ''version'' (JObj (version_json H st v)) (xr_value x)))),
        xr_event := [(''workflow_id'', JStr wid), (''workflow_version_id'', JStr (wv_id v))]\<rparr>)))))"

text \<open>
  After create or update: \<open>before\<close> is the policy and the version's number before an update. The result
  of these handlers always names the workflow.
\<close>

definition store_policy ::
  "host \<Rightarrow> draws \<Rightarrow> (nat \<Rightarrow> stamps) \<Rightarrow> exec_context \<Rightarrow> (concurrency \<times> int) option \<Rightarrow> concurrency option \<Rightarrow>
   ident \<Rightarrow> execution_result \<Rightarrow> 'x wf_handler" where
  "store_policy H D T c before requested wid x =
     (let previous = (case before of None \<Rightarrow> DEFAULT_CONCURRENCY_POLICY | Some (p, _) \<Rightarrow> p);
          policy = (case requested of None \<Rightarrow> previous | Some p \<Rightarrow> p);
          changed = (requested \<noteq> None \<and> policy \<noteq> previous) in
      bind_act (fetch (find_definition wid)) (\<lambda>w.
      let same = (case before of None \<Rightarrow> False | Some (_, n) \<Rightarrow> wd_version w = n) in
      bind_act
        (if same \<and> changed then policy_update H D T c wid policy x
         else bind_act (if same then current_version wid else store_current_policy wid policy) (\<lambda>v.
           ret (v, x\<lparr>xr_value := decorate policy (if changed then add_changed (xr_value x) else xr_value x)\<rparr>))) (\<lambda>(v, x').
      bind_act (fetch (find_definition wid)) (\<lambda>w'.
      bind_act (if changed \<or> before = None \<and> requested \<noteq> None
        then record_workflow_event D (policy_event c w' v policy) else ret ()) (\<lambda>_.
      ret x')))))"

definition without_policy :: "arguments \<Rightarrow> arguments" where
  "without_policy args = filter (\<lambda>(k, _). k \<noteq> ''concurrency'') args"

text \<open>The policy and the version of the workflow that an update names, whose row is locked.\<close>

definition before_update :: "host \<Rightarrow> exec_context \<Rightarrow> arguments \<Rightarrow> ('x, ident \<times> concurrency \<times> int) wact" where
  "before_update H c args =
     bind_act (authorized_workflow c (str_or H [] ''workflow_id'' args)) (\<lambda>w.
     bind_act (the_row (find_definition (wd_id w)) (LookupError ''Workflow is unavailable'')) (\<lambda>locked.
     bind_act (current_version (wd_id locked)) (\<lambda>v.
     ret (wd_id locked, policy_from_snapshot H (loads (wv_snapshot v) (JObj [])), wd_version locked))))"

definition workflow_execute ::
  "host \<Rightarrow> draws \<Rightarrow> (nat \<Rightarrow> stamps) \<Rightarrow> exec_context \<Rightarrow> string \<Rightarrow> arguments \<Rightarrow> 'x wf_handler" where
  "workflow_execute H D T c cap args =
     bind_act (lift (requested_policy H cap args)) (\<lambda>requested.
     if cap = ''workflow.update'' then
       bind_act (before_update H c args) (\<lambda>(wid, p, n).
       bind_act (access_execute H D T c cap (without_policy args)) (\<lambda>x.
       store_policy H D T c (Some (p, n)) requested wid x))
     else bind_act (access_execute H D T c cap (without_policy args)) (\<lambda>x.
       if cap = ''workflow.create'' then
         bind_act (authorized_workflow c (text_or_empty (xr_resource_id x))) (\<lambda>w.
         bind_act (the_row (find_definition (wd_id w)) (LookupError ''Workflow is unavailable'')) (\<lambda>locked.
         store_policy H D T c None requested (wd_id locked) x))
       else if cap = ''workflow.get'' then
         ret (x\<lparr>xr_value := decorate (policy_from_snapshot H (shown_snapshot (xr_value x))) (xr_value x)\<rparr>)
       else if cap = ''workflow.version.get'' then
         ret (x\<lparr>xr_value := on_item ''version'' (on_item ''snapshot''
           (\<lambda>snap. obj_set ''concurrency'' (policy_value (policy_from_snapshot H (JObj snap))) snap)) (xr_value x)\<rparr>)
       else ret x))"

end
