(* ===== verification/Wf_Change.thy ===== *)
theory Wf_Change
  imports Wf_Access
begin

text \<open>
  What the workflow provider promises, as an abstract specification: the changes that a principal can
  make to the workflow tables, as a relation between the tables before and after. The trace, which
  records every change, is left out.
\<close>

definition wf_rows :: "'x wf_state \<Rightarrow> 'x wf_tables" where
  "wf_rows s = (tables s)\<lparr>wf_traces := []\<rparr>"

text \<open>The workflows and runs that a principal may reach: all of the scope, or a member's own.\<close>

definition reaches :: "exec_context \<Rightarrow> wf_definition \<Rightarrow> bool" where
  "reaches c w = (definition_in_scope c w \<and> (is_root c \<or> wd_owner w = user_id c))"

definition reaches_run :: "exec_context \<Rightarrow> wf_run \<Rightarrow> bool" where
  "reaches_run c r = (run_in_scope c r \<and> (is_root c \<or> rn_authority r = user_id c))"

subsection \<open>Well-formed tables\<close>

definition used_ids :: "'x wf_tables \<Rightarrow> ident set" where
  "used_ids t = wd_id ` set (wf_definitions t) \<union> wv_id ` set (wf_versions t) \<union> wv_workflow ` set (wf_versions t)
     \<union> sc_id ` set (wf_schedules t) \<union> sc_workflow ` set (wf_schedules t) \<union> tg_id ` set (wf_triggers t)
     \<union> tg_workflow ` set (wf_triggers t) \<union> rn_id ` set (wf_runs t) \<union> rn_workflow ` set (wf_runs t)
     \<union> sr_id ` set (wf_steps t) \<union> sr_run ` set (wf_steps t) \<union> sa_id ` set (wf_attempts t)"

text \<open>The primary keys, and the unique constraints on schedules and versions.\<close>

definition keyed :: "'x wf_tables \<Rightarrow> bool" where
  "keyed t = (distinct (map wd_id (wf_definitions t)) \<and> distinct (map wv_id (wf_versions t))
     \<and> distinct (map (\<lambda>v. (wv_workflow v, wv_version v)) (wf_versions t))
     \<and> distinct (map sc_id (wf_schedules t)) \<and> distinct (map sc_workflow (wf_schedules t))
     \<and> distinct (map tg_id (wf_triggers t)) \<and> distinct (map rn_id (wf_runs t))
     \<and> distinct (map sr_id (wf_steps t)) \<and> distinct (map sa_id (wf_attempts t)) \<and> [] \<notin> used_ids t)"

text \<open>A workflow's versions are numbered up to the current one, which exists.\<close>

definition numbered :: "'x wf_tables \<Rightarrow> bool" where
  "numbered t = (\<forall>w \<in> set (wf_definitions t).
     (\<exists>v \<in> set (wf_versions t). wv_workflow v = wd_id w \<and> wv_version v = wd_version w)
     \<and> (\<forall>v \<in> set (wf_versions t). wv_workflow v = wd_id w \<longrightarrow> 1 \<le> wv_version v \<and> wv_version v \<le> wd_version w))"

text \<open>A schedule that is on belongs to an enabled workflow and has a next time.\<close>

definition sound :: "string \<Rightarrow> wf_schedule \<Rightarrow> bool" where
  "sound status s = (truthy (sc_spec s) \<and> (sc_enabled s \<longrightarrow> status = ''enabled'' \<and> sc_next s \<noteq> None))"

definition scheduled :: "'x wf_tables \<Rightarrow> bool" where
  "scheduled t = (\<forall>s \<in> set (wf_schedules t). \<forall>w \<in> set (wf_definitions t).
     sc_workflow s = wd_id w \<longrightarrow> sound (wd_status w) s)"

definition wf_ok :: "'x wf_tables \<Rightarrow> bool" where
  "wf_ok t = (keyed t \<and> numbered t \<and> scheduled t)"

subsection \<open>The changes\<close>

text \<open>The schedules after a change to the one of workflow \<open>wid\<close>, which then satisfies \<open>P\<close>.\<close>

definition reschedules :: "ident \<Rightarrow> (wf_schedule \<Rightarrow> bool) \<Rightarrow> wf_schedule list \<Rightarrow> wf_schedule list \<Rightarrow> bool" where
  "reschedules wid P old new =
     (filter (\<lambda>s. sc_workflow s \<noteq> wid) new = filter (\<lambda>s. sc_workflow s \<noteq> wid) old
      \<and> distinct (map sc_id new) \<and> distinct (map sc_workflow new) \<and> [] \<notin> sc_id ` set new
      \<and> (\<forall>s \<in> set new. sc_workflow s = wid \<longrightarrow> P s))"

definition own_step :: "wf_run \<Rightarrow> wf_step_run \<Rightarrow> bool" where
  "own_step run st = (sr_run st = rn_id run)"

inductive wf_change :: "exec_context \<Rightarrow> 'x wf_tables \<Rightarrow> 'x wf_tables \<Rightarrow> bool" for c t where
  unchanged: "wf_change c t t"
| created: "reaches c w \<Longrightarrow> wd_owner w = user_id c \<Longrightarrow> wd_version w = 1 \<Longrightarrow> wd_status w \<in> {''enabled'', ''disabled''} \<Longrightarrow>
    wd_id w \<notin> used_ids t \<Longrightarrow> wd_id w \<noteq> [] \<Longrightarrow>
    wv_workflow v = wd_id w \<Longrightarrow> wv_version v = 1 \<Longrightarrow> wv_id v \<notin> used_ids t \<Longrightarrow> wv_id v \<noteq> [] \<Longrightarrow>
    reschedules (wd_id w) (sound (wd_status w)) (wf_schedules t) ss \<Longrightarrow>
    wf_change c t (t\<lparr>wf_definitions := wf_definitions t @ [w], wf_versions := wf_versions t @ [v], wf_schedules := ss\<rparr>)"
| edited: "w \<in> set (wf_definitions t) \<Longrightarrow> reaches c w \<Longrightarrow> wd_status w \<noteq> ''archived'' \<Longrightarrow>
    wv_workflow v = wd_id w \<Longrightarrow> wv_version v = wd_version w + 1 \<Longrightarrow> wv_id v \<notin> used_ids t \<Longrightarrow> wv_id v \<noteq> [] \<Longrightarrow>
    reschedules (wd_id w) (sound (wd_status w)) (wf_schedules t) ss \<Longrightarrow>
    wf_change c t (t\<lparr>wf_definitions := update_where (\<lambda>r. wd_id r = wd_id w)
        (\<lambda>r. r\<lparr>wd_name := name, wd_description := description, wd_version := wd_version w + 1\<rparr>) (wf_definitions t),
      wf_versions := wf_versions t @ [v], wf_schedules := ss\<rparr>)"
| switched: "w \<in> set (wf_definitions t) \<Longrightarrow> reaches c w \<Longrightarrow> (wd_status w = ''archived'' \<longrightarrow> status = ''archived'') \<Longrightarrow>
    reschedules (wd_id w) (sound status) (wf_schedules t) ss \<Longrightarrow>
    wf_change c t (t\<lparr>wf_definitions := update_where (\<lambda>r. wd_id r = wd_id w) (\<lambda>r. r\<lparr>wd_status := status\<rparr>) (wf_definitions t),
      wf_schedules := ss\<rparr>)"
| subscribed: "w \<in> set (wf_definitions t) \<Longrightarrow> reaches c w \<Longrightarrow> wd_status w \<noteq> ''archived'' \<Longrightarrow>
    tg_workflow g = wd_id w \<Longrightarrow> tg_id g \<notin> used_ids t \<Longrightarrow> tg_id g \<noteq> [] \<Longrightarrow> normalize_event_pattern (tg_pattern g) = Inr (tg_pattern g) \<Longrightarrow>
    (\<And>h. h \<in> set (wf_triggers t) \<Longrightarrow> tg_workflow h = wd_id w \<Longrightarrow> tg_pattern h \<noteq> tg_pattern g) \<Longrightarrow>
    wf_change c t (t\<lparr>wf_triggers := wf_triggers t @ [g]\<rparr>)"
| unsubscribed: "g \<in> set (wf_triggers t) \<Longrightarrow> w \<in> set (wf_definitions t) \<Longrightarrow> reaches c w \<Longrightarrow> tg_workflow g = wd_id w \<Longrightarrow>
    wf_change c t (t\<lparr>wf_triggers := filter (\<lambda>x. tg_id x \<noteq> tg_id g) (wf_triggers t)\<rparr>)"
| queued: "w \<in> set (wf_definitions t) \<Longrightarrow> reaches c w \<Longrightarrow> wd_status w \<noteq> ''archived'' \<Longrightarrow>
    rn_workflow r = wd_id w \<Longrightarrow> rn_status r = Run_Queued \<Longrightarrow> rn_authority r = user_id c \<Longrightarrow> reaches_run c r \<Longrightarrow>
    rn_id r \<notin> used_ids t \<Longrightarrow> rn_id r \<noteq> [] \<Longrightarrow>
    wf_change c t (t\<lparr>wf_runs := wf_runs t @ [r]\<rparr>)"
| cancelled: "run \<in> set (wf_runs t) \<Longrightarrow> reaches_run c run \<Longrightarrow> \<not> terminal (rn_status run) \<Longrightarrow>
    (\<And>st. st \<in> sts \<Longrightarrow> st \<in> set (wf_steps t) \<and> own_step run st) \<Longrightarrow>
    (\<And>a. a \<in> ats \<Longrightarrow> a \<in> set (wf_attempts t) \<and> sa_step a \<in> sr_id ` sts) \<Longrightarrow>
    wf_change c t (t\<lparr>wf_runs := update_where (\<lambda>r. rn_id r = rn_id run) (cancelled_run now) (wf_runs t),
      wf_steps := update_where (\<lambda>x. sr_id x \<in> sr_id ` sts) (\<lambda>x. x\<lparr>sr_status := Step_Cancelled, sr_finished := Some now\<rparr>) (wf_steps t),
      wf_attempts := update_where (\<lambda>x. sa_id x \<in> sa_id ` ats) (\<lambda>x. x\<lparr>sa_status := Attempt_Cancelled, sa_finished := Some now\<rparr>) (wf_attempts t)\<rparr>)"
| retried: "run \<in> set (wf_runs t) \<Longrightarrow> reaches_run c run \<Longrightarrow> rn_status run = Run_Failed \<Longrightarrow>
    (\<And>st. st \<in> sts \<Longrightarrow> st \<in> set (wf_steps t) \<and> own_step run st \<and> sr_status st = Step_Failed) \<Longrightarrow>
    wf_change c t (t\<lparr>wf_runs := update_where (\<lambda>r. rn_id r = rn_id run) requeued_run (wf_runs t),
      wf_steps := update_where (\<lambda>x. sr_id x \<in> sr_id ` sts) reset_step (wf_steps t)\<rparr>)"

end
