(* ===== verification/Wf_Rows.thy ===== *)
theory Wf_Rows
  imports Wf_Change Wf_Outcomes
begin

text \<open>
  How the actions of the workflow provider act on the rows that the abstract specification of its
  changes speaks of, and the ways in which they set, drop and add the schedule of a workflow.
\<close>

subsection \<open>Successful actions\<close>

definition traceless :: "('x wf_tables \<Rightarrow> 'x wf_tables) \<Rightarrow> bool" where
  "traceless f = (\<forall>t. f (t\<lparr>wf_traces := []\<rparr>) = (f t)\<lparr>wf_traces := []\<rparr>)"

lemma traceless_ops [simp]:
  "traceless (set_definition i f)" "traceless (set_schedule i g)" "traceless (drop_schedule i)"
  "traceless (set_run i h)" "traceless (set_step i k)" "traceless (set_attempt i l)" "traceless (set_version i m)"
  "traceless (\<lambda>t. t\<lparr>wf_definitions := wf_definitions t @ ds\<rparr>)" "traceless (\<lambda>t. t\<lparr>wf_versions := wf_versions t @ vs\<rparr>)"
  "traceless (\<lambda>t. t\<lparr>wf_schedules := wf_schedules t @ ss\<rparr>)" "traceless (\<lambda>t. t\<lparr>wf_triggers := wf_triggers t @ gs\<rparr>)"
  "traceless (\<lambda>t. t\<lparr>wf_triggers := filter p (wf_triggers t)\<rparr>)" "traceless (\<lambda>t. t\<lparr>wf_runs := wf_runs t @ rs\<rparr>)"
  by (simp_all add: traceless_def set_definition_def set_schedule_def drop_schedule_def set_run_def set_step_def
      set_attempt_def set_version_def)

lemma wf_rows_simps [simp]:
  "wf_rows (s\<lparr>wf_tick := n\<rparr>) = wf_rows s"
  "traceless f \<Longrightarrow> wf_rows (on_tables f s) = f (wf_rows s)"
  by (simp add: wf_rows_def tables_def kernel_tables_of_def) (simp add: wf_rows_def traceless_def)

lemma rows_fields:
  "wf_definitions (tables s) = wf_definitions (wf_rows s)" "wf_versions (tables s) = wf_versions (wf_rows s)"
  "wf_schedules (tables s) = wf_schedules (wf_rows s)" "wf_triggers (tables s) = wf_triggers (wf_rows s)"
  "wf_runs (tables s) = wf_runs (wf_rows s)" "wf_steps (tables s) = wf_steps (wf_rows s)"
  "wf_attempts (tables s) = wf_attempts (wf_rows s)"
  by (simp_all add: wf_rows_def)

lemma rows_finds [simp]:
  "schedule_of i (tables s) = schedule_of i (wf_rows s)" "version_of i n (tables s) = version_of i n (wf_rows s)"
  "find_definition i (tables s) = find_definition i (wf_rows s)" "find_run i (tables s) = find_run i (wf_rows s)"
  "find_trigger i (tables s) = find_trigger i (wf_rows s)" "waiting_step r (tables s) = waiting_step r (wf_rows s)"
  "failed_step r (tables s) = failed_step r (wf_rows s)" "current_attempt st (tables s) = current_attempt st (wf_rows s)"
  by (simp_all add: schedule_of_def version_of_def find_definition_def find_run_def find_trigger_def waiting_step_def
      failed_step_def current_attempt_def rows_fields)

lemma act_Inr:
  "draw d s = (Inr x, s') \<longleftrightarrow> x = d (wf_tick s) \<and> s' = s\<lparr>wf_tick := Suc (wf_tick s)\<rparr>"
  "put f s = (Inr u, s') \<longleftrightarrow> s' = on_tables f s"
  "reads g s = (Inr y, s') \<longleftrightarrow> y = g (tables s) \<and> s' = s"
  "fetch k s = (Inr z, s') \<longleftrightarrow> k (tables s) = Some z \<and> s' = s"
  "the_row k e s = (Inr z, s') \<longleftrightarrow> k (tables s) = Some z \<and> s' = s"
  by (auto simp: draw_def put_def reads_def fetch_def the_row_def bind_act_def split: option.splits)

lemma act_run:
  "bind_act (draw d) k s = k (d (wf_tick s)) (s\<lparr>wf_tick := Suc (wf_tick s)\<rparr>)"
  "bind_act (put f) l s = l () (on_tables f s)"
  "bind_act (reads g) m s = m (g (tables s)) s"
  by (simp_all add: bind_act_def draw_def put_def reads_def)

lemma bind_assoc: "bind_act (bind_act m f) g = bind_act m (\<lambda>x. bind_act (f x) g)"
  by (rule ext) (auto simp: bind_act_def split: prod.splits sum.splits)

lemma record_rows: "record_workflow_event D e s = (Inr u, s') \<Longrightarrow> wf_rows s' = wf_rows s"
  by (auto simp: record_workflow_event_def bind_act_Inr_iff act_Inr wf_rows_def tables_def kernel_tables_of_def
      on_kernel_def session_simps split: if_splits)

lemma keeps_rows [simp]: "transp (\<lambda>s s'. wf_rows s' = wf_rows s)" "reflp (\<lambda>s s'. wf_rows s' = wf_rows s)"
  by (auto intro: transpI reflpI)

lemma the_workflow_Inr:
  "the_workflow c wid s = (Inr w, s') \<longleftrightarrow>
   find (\<lambda>w. wd_id w = wid \<and> definition_in_scope c w) (wf_definitions (wf_rows s)) = Some w \<and> s' = s"
  by (simp add: the_workflow_def act_Inr rows_fields)

lemma the_run_Inr:
  "the_run c rid s = (Inr r, s') \<longleftrightarrow>
   find (\<lambda>r. rn_id r = rid \<and> run_in_scope c r) (wf_runs (wf_rows s)) = Some r \<and> s' = s"
  by (simp add: the_run_def act_Inr rows_fields)

subsection \<open>The schedule of a workflow\<close>

lemma schedule_of_unique:
  assumes "keyed t" "schedule_of wid t = Some x"
  shows "x \<in> set (wf_schedules t) \<and> sc_workflow x = wid \<and>
    (\<forall>y \<in> set (wf_schedules t). (sc_id y = sc_id x \<longleftrightarrow> y = x) \<and> (sc_workflow y = wid \<longleftrightarrow> y = x))"
proof -
  have "x \<in> set (wf_schedules t)" "sc_workflow x = wid" using assms(2) by (auto simp: schedule_of_def dest: find_SomeD)
  moreover have "inj_on sc_id (set (wf_schedules t))" "inj_on sc_workflow (set (wf_schedules t))"
    using assms(1) by (simp_all add: keyed_def distinct_map)
  ultimately show ?thesis by (auto dest: inj_onD)
qed

lemma filter_update_none:
  "(\<And>x. x \<in> set xs \<Longrightarrow> p x \<Longrightarrow> \<not> q x) \<Longrightarrow> (\<And>x. q x \<Longrightarrow> x \<in> set xs \<Longrightarrow> p (f x) = p x) \<Longrightarrow>
   filter p (update_where q f xs) = filter p xs"
  by (induction xs) auto

lemma reschedules_none:
  assumes "keyed t" "schedule_of wid t = None"
  shows "reschedules wid P (wf_schedules t) (wf_schedules t)"
proof -
  have "[] \<notin> sc_id ` set (wf_schedules t)" using assms(1) by (auto simp: keyed_def used_ids_def)
  with assms show ?thesis
    by (auto simp: reschedules_def keyed_def schedule_of_def find_None_iff_all)
qed

lemma reschedules_set:
  assumes "keyed t" "schedule_of wid t = Some x" "\<And>r. sc_id (f r) = sc_id r" "\<And>r. sc_workflow (f r) = sc_workflow r"
    and "P (f x)"
  shows "reschedules wid P (wf_schedules t) (update_where (\<lambda>r. sc_id r = sc_id x) f (wf_schedules t))"
proof -
  note u = schedule_of_unique [OF assms(1,2)]
  have "filter (\<lambda>s. sc_workflow s \<noteq> wid) (update_where (\<lambda>r. sc_id r = sc_id x) f (wf_schedules t))
      = filter (\<lambda>s. sc_workflow s \<noteq> wid) (wf_schedules t)"
    using u assms(4) by (intro filter_update_none) auto
  moreover have "[] \<notin> sc_id ` set (wf_schedules t)" using assms(1) by (auto simp: keyed_def used_ids_def)
  then have "[] \<notin> sc_id ` set (update_where (\<lambda>r. sc_id r = sc_id x) f (wf_schedules t))"
    using map_update_where [of sc_id f, OF assms(3)] by (metis list.set_map)
  ultimately show ?thesis
    using assms u by (auto simp: reschedules_def row_simps keyed_def)
qed

lemma reschedules_drop:
  assumes "keyed t" "schedule_of wid t = Some x"
  shows "reschedules wid P (wf_schedules t) (filter (\<lambda>s. sc_id s \<noteq> sc_id x) (wf_schedules t))"
proof -
  note u = schedule_of_unique [OF assms]
  have "filter (\<lambda>s. sc_id s \<noteq> sc_id x \<and> sc_workflow s \<noteq> wid) (wf_schedules t)
      = filter (\<lambda>s. sc_workflow s \<noteq> wid) (wf_schedules t)"
    using u by (intro filter_cong) auto
  moreover have "[] \<notin> sc_id ` set (wf_schedules t)" using assms(1) by (auto simp: keyed_def used_ids_def)
  ultimately show ?thesis
    using assms u by (auto simp: reschedules_def keyed_def distinct_map_filter conj_commute)
qed

lemma reschedules_add:
  assumes "keyed t" "schedule_of (sc_workflow x) t = None" "sc_id x \<notin> used_ids t" "sc_id x \<noteq> []" "P x"
  shows "reschedules (sc_workflow x) P (wf_schedules t) (wf_schedules t @ [x])"
proof -
  have "\<forall>s \<in> set (wf_schedules t). sc_workflow s \<noteq> sc_workflow x \<and> sc_id s \<noteq> sc_id x"
    using assms(2,3) by (simp add: schedule_of_def find_None_iff_all used_ids_def) (metis imageI)
  moreover have "[] \<notin> sc_id ` set (wf_schedules t)" using assms(1) by (auto simp: keyed_def used_ids_def)
  moreover have "distinct (map sc_id (wf_schedules t))" "distinct (map sc_workflow (wf_schedules t))"
    using assms(1) by (simp_all add: keyed_def)
  ultimately show ?thesis
    using assms(4,5) by (auto simp: reschedules_def)
qed

lemma truthy_sort_keys [simp]: "truthy (sort_keys v) = truthy v"
proof -
  have "sort_key fst ys = [] \<longleftrightarrow> ys = []" for ys :: "(string \<times> json) list" by (metis length_0_conv length_sort)
  then show ?thesis by (cases v) (simp_all add: truthy_def)
qed

lemma future_schedule_sound:
  assumes "future_schedule_time H now spec (status = ''enabled'') = Inr upcoming" "truthy spec"
    and "sc_spec s = spec \<or> sc_spec s = sort_keys spec" "sc_enabled s = (status = ''enabled'')" "sc_next s = upcoming"
  shows "sound status s"
proof -
  have "truthy (sc_spec s)" using assms(2,3) by auto
  moreover have "status = ''enabled'' \<Longrightarrow> upcoming \<noteq> None"
    using assms(1,2) by (auto simp: future_schedule_time_def bind_result_Inr_iff split: option.splits)
  ultimately show ?thesis using assms(4,5) by (simp add: sound_def)
qed

end
