(* ===== verification/Wf_Fanout.thy ===== *)
theory Wf_Fanout
  imports Wf_Triggers Wf_Claims
begin

text \<open>
  What the event dispatcher does: the patterns it stores, the runs a tick adds and where the cursor
  is after it, and the events it does not handle.
\<close>

subsection \<open>Patterns\<close>

lemma wildcard_pattern_same: "wildcard_pattern p = Inr q \<Longrightarrow> q = p"
  by (auto simp: wildcard_pattern_def Let_def ends_with_def suffix_def split: if_splits)

lemma normalize_event_pattern_same: "normalize_event_pattern p = Inr q \<Longrightarrow> q = py_lower (py_strip p)"
  by (auto simp: normalize_event_pattern_def Let_def bind_result_Inr_iff split: if_splits dest!: wildcard_pattern_same)

text \<open>
  A stored event pattern is in normal form: normalizing it again gives the same pattern, which
  is at most 160 characters, is not a lifecycle pattern, and matches the same events as the text it
  was entered as.
\<close>

lemma event_pattern_is_normal:
  assumes "normalize_event_pattern p = Inr q"
  shows "normalize_event_pattern q = Inr q \<and> q \<noteq> [] \<and> length q \<le> 160 \<and> \<not> starts_with ''workflow.'' q
    \<and> (\<forall>kind. event_matches_pattern kind q = event_matches_pattern kind p)"
proof -
  have q: "q = py_lower (py_strip p)" by (rule normalize_event_pattern_same [OF assms])
  have "normalize_event_pattern q = Inr q"
    using assms unfolding q normalize_event_pattern_def by (simp add: py_strip_lower_strip)
  with assms show ?thesis
    by (auto simp: event_matches_pattern_def Let_def)
      (auto simp: normalize_event_pattern_def Let_def bind_result_Inr_iff q [symmetric] starts_with_def
        split: if_splits dest!: wildcard_pattern_same)
qed

subsection \<open>Queueing for an event\<close>

text \<open>
  What the dispatcher does to the working tables: \<open>n\<close> runs that satisfy \<open>Q\<close> are added, the keys
  \<open>K\<close> are present afterwards, and the cursors change by \<open>g\<close>.
\<close>

definition run_keys :: "'x wf_tables \<Rightarrow> string set" where
  "run_keys t = rn_dedupe ` set (wf_runs t)"

definition fanned :: "(wf_run \<Rightarrow> bool) \<Rightarrow> string set \<Rightarrow> (wf_cursor list \<Rightarrow> wf_cursor list) \<Rightarrow> nat \<Rightarrow>
    'x wf_state \<Rightarrow> 'x wf_state \<Rightarrow> bool" where
  "fanned Q K g n s s' = (\<exists>new. wf_runs (tables s') = wf_runs (tables s) @ new \<and> length new = n
     \<and> (\<forall>r \<in> set new. Q r) \<and> run_keys (tables s') = run_keys (tables s) \<union> K
     \<and> (distinct (map rn_dedupe (wf_runs (tables s))) \<longrightarrow> distinct (map rn_dedupe (wf_runs (tables s'))))
     \<and> wf_definitions (tables s') = wf_definitions (tables s) \<and> wf_triggers (tables s') = wf_triggers (tables s)
     \<and> wf_cursors (tables s') = g (wf_cursors (tables s))
     \<and> committed (w_session (wf_world s')) = committed (w_session (wf_world s)))"

lemma fanned_refl: "fanned Q {} (\<lambda>x. x) 0 s s" by (simp add: fanned_def)

lemma fanned_trans:
  assumes "fanned Q K g m s t" "fanned Q L h n t u" "M = K \<union> L" "\<And>x. k x = h (g x)" "p = m + n"
  shows "fanned Q M k p s u"
  using assms by (auto simp: fanned_def run_keys_def)

lemma record_fanned: "record_workflow_event D e s = (Inr x, s') \<Longrightarrow> fanned Q {} (\<lambda>x. x) 0 s s'"
  by (auto simp: record_workflow_event_def bind_act_def draw_def state_of_simps fanned_def run_keys_def split: if_splits)

lemma queue_fanned:
  assumes "queue_workflow_run H D w kind payload initiator (Some key) scheduled s = (Inr rid, s')" "key \<noteq> []"
    and "key \<notin> run_keys (tables s)"
    and "\<And>r. rn_dedupe r = key \<Longrightarrow> rn_workflow r = wd_id w \<Longrightarrow> rn_trigger_type r = kind \<Longrightarrow> rn_trigger r = stored payload \<Longrightarrow>
      rn_status r = Run_Queued \<Longrightarrow> rn_authority r = opt_or initiator (wd_owner w) \<Longrightarrow> rn_workspace r = wd_workspace w \<Longrightarrow> Q r"
  shows "fanned Q {key} (\<lambda>x. x) 1 s s'"
proof -
  from assms(1,2) obtain v i1 i2 c s1 s2 s3 ev r y z where
    d: "draw (id_at D) s = (Inr i1, s1)" "draw (id_at D) s1 = (Inr i2, s2)" "draw (now_at D) s2 = (Inr c, s3)"
    and rec: "record_workflow_event D ev (on_tables (\<lambda>t. t\<lparr>wf_runs := wf_runs t @ [r]\<rparr>) s3) = (Inr y, s')"
    and r: "rn_dedupe r = key" "rn_workflow r = wd_id w" "rn_trigger_type r = kind"
      "rn_trigger r = stored payload" "rn_status r = Run_Queued" "rn_authority r = opt_or initiator (wd_owner w)"
      "rn_workspace r = wd_workspace w"
    by (auto simp: queue_workflow_run_def bind_act_Inr_iff reads_def present_def put_def Let_def split: option.splits if_splits)
  have "fanned Q {key} (\<lambda>x. x) 1 s (on_tables (\<lambda>t. t\<lparr>wf_runs := wf_runs t @ [r]\<rparr>) s3)"
    using d assms(3,4) r by (auto simp: draw_def fanned_def run_keys_def state_of_simps)
  from fanned_trans [OF this record_fanned [OF rec]] show ?thesis by simp
qed

subsection \<open>Triggers and events\<close>

definition event_run :: "host \<Rightarrow> int \<Rightarrow> kernel_event \<Rightarrow> wf_trigger \<times> wf_definition \<Rightarrow> wf_run \<Rightarrow> bool" where
  "event_run H depth e p r = (rn_dedupe r = event_key (tg_id (fst p)) (ke_id e) \<and> rn_workflow r = wd_id (snd p)
     \<and> rn_status r = Run_Queued \<and> rn_authority r = wd_owner (snd p) \<and> rn_workspace r = wd_workspace (snd p)
     \<and> rn_trigger r = stored [(''event'', JObj (event_envelope H e)), (''trigger_id'', JStr (tg_id (fst p))),
         (''depth'', JInt (depth + 1))])"

definition trigger_matches :: "host \<Rightarrow> kernel_event \<Rightarrow> wf_trigger \<Rightarrow> bool" where
  "trigger_matches H e tg = (event_matches_pattern (ke_type e) (tg_pattern tg) = Inr True
     \<and> condition_matches H (tg_condition tg) (event_envelope H e) = Inr True)"

lemma fire_fanned:
  assumes "fire_trigger H D depth e p s = (Inr n, s')"
    and "\<And>r. trigger_matches H e (fst p) \<Longrightarrow> event_run H depth e p r \<Longrightarrow> Q r"
  shows "fanned Q (if trigger_matches H e (fst p) then {event_key (tg_id (fst p)) (ke_id e)} else {}) (\<lambda>x. x) n s s'"
proof (cases "trigger_matches H e (fst p) \<and> event_key (tg_id (fst p)) (ke_id e) \<notin> run_keys (tables s)")
  case True
  define key where "key = event_key (tg_id (fst p)) (ke_id e)"
  from True assms(1) obtain rid where n: "n = 1" and "queue_workflow_run H D (snd p) ''event''
      [(''event'', JObj (event_envelope H e)), (''trigger_id'', JStr (tg_id (fst p))), (''depth'', JInt (depth + 1))]
      None (Some key) None s = (Inr rid, s')"
    by (auto simp: fire_trigger_def Let_def trigger_matches_def bind_act_Inr_iff reads_def run_keys_def key_def split: prod.splits)
  moreover have "key \<noteq> []" by (simp add: key_def event_key_def)
  moreover have "Q r" if "rn_dedupe r = key" "rn_workflow r = wd_id (snd p)" "rn_trigger_type r = ''event''"
    "rn_trigger r = stored [(''event'', JObj (event_envelope H e)), (''trigger_id'', JStr (tg_id (fst p))),
       (''depth'', JInt (depth + 1))]" "rn_status r = Run_Queued" "rn_authority r = opt_or None (wd_owner (snd p))"
    "rn_workspace r = wd_workspace (snd p)" for r
    using that True assms(2) by (simp add: event_run_def key_def opt_or_def present_def)
  ultimately have "fanned Q {key} (\<lambda>x. x) 1 s s'" using True by (intro queue_fanned) (auto simp: key_def)
  then show ?thesis using True n by (simp add: key_def)
next
  case False
  with assms(1) have "n = 0 \<and> s' = s"
    by (auto simp: fire_trigger_def Let_def trigger_matches_def bind_act_Inr_iff reads_def run_keys_def split: prod.splits if_splits)
  with False show ?thesis by (auto simp: fanned_def)
qed

lemma counting_fanned:
  assumes "counting f xs s = (Inr n, s')" "I (wf_definitions (tables s)) (wf_triggers (tables s))"
    and "\<And>x m t u. x \<in> set xs \<Longrightarrow> f x t = (Inr m, u) \<Longrightarrow> I (wf_definitions (tables t)) (wf_triggers (tables t)) \<Longrightarrow>
      fanned Q (k x) (g x) m t u"
  shows "fanned Q (\<Union>(k ` set xs)) (fold g xs) n s s'"
  using assms
proof (induction xs arbitrary: n s)
  case Nil
  then show ?case by (simp add: fanned_def)
next
  case (Cons x xs)
  from Cons.prems(1) obtain m l t where f: "f x s = (Inr m, t)" "counting f xs t = (Inr l, s')" "n = m + l"
    by (auto simp: bind_act_Inr_iff)
  have a: "fanned Q (k x) (g x) m s t" using Cons.prems(3) [OF _ f(1) Cons.prems(2)] by simp
  then have "wf_definitions (tables t) = wf_definitions (tables s) \<and> wf_triggers (tables t) = wf_triggers (tables s)"
    unfolding fanned_def by blast
  then have "I (wf_definitions (tables t)) (wf_triggers (tables t))" using Cons.prems(2) by simp
  from fanned_trans [OF a Cons.IH [OF f(2) this Cons.prems(3)]] f(3) show ?case by simp
qed

text \<open>The triggers an event fires, among the triggers and workflows of the tables.\<close>

definition fires :: "host \<Rightarrow> event_dispatcher \<Rightarrow> kernel_event \<Rightarrow> bool" where
  "fires H E e = (\<not> starts_with ''workflow.'' (ke_type e)
     \<and> (case event_depth e of Inr d \<Rightarrow> d < ed_depth E | Inl _ \<Rightarrow> False))"

definition fired :: "host \<Rightarrow> event_dispatcher \<Rightarrow> 'x wf_tables \<Rightarrow> kernel_event \<Rightarrow> (wf_trigger \<times> wf_definition) set" where
  "fired H E t e = (if fires H E e then {p \<in> set (triggers_for_event e t). trigger_matches H e (fst p)} else {})"

definition event_keys :: "host \<Rightarrow> event_dispatcher \<Rightarrow> 'x wf_tables \<Rightarrow> kernel_event \<Rightarrow> string set" where
  "event_keys H E t e = (\<lambda>p. event_key (tg_id (fst p)) (ke_id e)) ` fired H E t e"

definition event_queued :: "host \<Rightarrow> event_dispatcher \<Rightarrow> 'x wf_tables \<Rightarrow> kernel_event \<Rightarrow> wf_run \<Rightarrow> bool" where
  "event_queued H E t e r = (\<exists>p \<in> fired H E t e. \<exists>d. 0 \<le> d \<and> d < ed_depth E \<and> event_depth e = Inr d \<and> event_run H d e p r)"

definition moved :: "kernel_event \<Rightarrow> wf_cursor list \<Rightarrow> wf_cursor list" where
  "moved e = update_where (\<lambda>c. cu_id c = ''kernel'') (\<lambda>c. c\<lparr>cu_created := Some (ke_created e), cu_event := Some (ke_id e)\<rparr>)"

lemma event_depth_nonneg: "event_depth e = Inr d \<Longrightarrow> 0 \<le> d"
  by (auto simp: event_depth_def bind_result_Inr_iff)

lemma triggers_for_event_cong:
  "wf_definitions t = wf_definitions u \<Longrightarrow> wf_triggers t = wf_triggers u \<Longrightarrow> triggers_for_event e t = triggers_for_event e u"
  unfolding triggers_for_event_def find_definition_def by (simp only:)

lemma dispatch_event_fanned:
  fixes s :: "'x wf_state" and t :: "'x wf_tables"
  assumes "dispatch_event H E D e s = (Inr n, s')"
    and "wf_definitions (tables s) = wf_definitions t" "wf_triggers (tables s) = wf_triggers t"
    and "\<And>r. event_queued H E t e r \<Longrightarrow> Q r"
  shows "fanned Q (event_keys H E t e) (moved e) n s s'"
proof -
  from assms(1) obtain d s1 where d: "event_depth e = Inr d"
    and c: "(if d < ed_depth E \<and> \<not> starts_with ''workflow.'' (ke_type e)
         then bind_act (reads (triggers_for_event e)) (counting (fire_trigger H D d e)) else ret 0) s = (Inr n, s1)"
    and p: "s' = on_tables (set_cursor (ke_created e) (ke_id e)) s1"
    by (auto simp: dispatch_event_def bind_act_Inr_iff put_def)
  have set: "fanned Q {} (moved e) 0 s1 s'"
    by (simp add: p fanned_def run_keys_def state_of_simps set_cursor_def moved_def)
  have "fanned Q (event_keys H E t e) (\<lambda>x. x) n s s1"
  proof (cases "fires H E e")
    case True
    let ?ps = "triggers_for_event e t"
    let ?k = "\<lambda>p. if trigger_matches H e (fst p) then {event_key (tg_id (fst p)) (ke_id e)} else {}"
    have "counting (fire_trigger H D d e) ?ps s = (Inr n, s1)"
      using c True d triggers_for_event_cong [OF assms(2,3), of e] by (simp add: fires_def bind_act_def reads_def)
    then have "fanned Q (\<Union>(?k ` set ?ps)) (fold (\<lambda>_ x. x) ?ps) n s s1"
    proof (rule counting_fanned [where I = "\<lambda>_ _. True" and k = ?k and g = "\<lambda>_ x. x"])
      fix p m and v u :: "'x wf_state" assume x: "p \<in> set ?ps" "fire_trigger H D d e p v = (Inr m, u)"
      have "Q r" if "trigger_matches H e (fst p)" "event_run H d e p r" for r
        by (rule assms(4), unfold event_queued_def, rule bexI [of _ p], rule exI [of _ d])
          (use that True d x(1) event_depth_nonneg [OF d] in \<open>simp_all add: fired_def fires_def\<close>)
      with fire_fanned [OF x(2)] show "fanned Q (?k p) (\<lambda>x. x) m v u" by blast
    qed simp
    moreover have "\<Union>(?k ` set ?ps) = event_keys H E t e" using True by (auto simp: event_keys_def fired_def)
    moreover have id: "fold (\<lambda>_ x. x) ps = (\<lambda>x. x)" for ps by (induction ps) auto
    ultimately show ?thesis unfolding id by (simp only:)
  next
    case False
    with c d have "n = 0 \<and> s1 = s" by (auto simp: fires_def split: if_splits)
    with False show ?thesis by (simp add: event_keys_def fired_def fanned_refl)
  qed
  from fanned_trans [OF this set] show ?thesis by simp
qed

subsection \<open>A tick\<close>

definition kernel_cursor :: "'x wf_tables \<Rightarrow> wf_cursor option" where
  "kernel_cursor t = find (\<lambda>c. cu_id c = ''kernel'') (wf_cursors t)"

lemma fold_moved: "es \<noteq> [] \<Longrightarrow> fold moved es cs = moved (last es) cs"
proof (induction es rule: rev_induct)
  case (snoc e es)
  have "moved e (moved f cs) = moved e cs" for f by (simp add: moved_def update_where_def)
  with snoc show ?case by (cases es) simp_all
qed simp

lemma find_moved: "find (\<lambda>c. cu_id c = ''kernel'') (moved e cs)
  = map_option (\<lambda>c. c\<lparr>cu_created := Some (ke_created e), cu_event := Some (ke_id e)\<rparr>) (find (\<lambda>c. cu_id c = ''kernel'') cs)"
  unfolding moved_def
  by (subst find_update_where) (auto dest: find_SomeD simp: option.map_comp intro!: option.map_cong0 split: option.splits)

definition pending_batch :: "event_dispatcher \<Rightarrow> time \<Rightarrow> wf_cursor \<Rightarrow> 'x wf_state \<Rightarrow> kernel_event list" where
  "pending_batch E created c s =
     event_batch (ed_batch E) created (cu_event c) (kt_events (committed (w_session (wf_world s))))"

lemma transaction_run:
  assumes "transaction m s = (r, s')"
  shows "(\<exists>x u. m (snd (rollback_all s)) = (Inr x, u) \<and> r = Inr x \<and> s' = snd (commit_all u))
    \<or> (\<exists>e u. m (snd (rollback_all s)) = (Inl e, u) \<and> r = Inl e \<and> s' = snd (rollback_all u))"
  using assms by (auto simp: transaction_def bind_act_def rollback_all_def commit_all_def split: prod.splits sum.splits)

lemma event_tick_ok:
  fixes s :: "'x wf_state"
  assumes "event_tick H E D s = (Inr n, s')" "kernel_cursor (committed_tables s) = Some c" "cu_created c = Some created"
    and "ed_free E (wf_tick s)" "pending_batch E created c s \<noteq> []"
  shows "\<exists>s0 s1. tables s0 = committed_tables s \<and> counting (dispatch_event H E D) (pending_batch E created c s) s0 = (Inr n, s1)
    \<and> committed_tables s' = tables s1"
proof -
  define s0 where "s0 = (snd (rollback_all s))\<lparr>wf_tick := Suc (wf_tick s)\<rparr>"
  have s0: "tables s0 = committed_tables s" by (simp add: s0_def rollback_all_def state_of_simps)
  have d: "bind_act (draw (ed_free E)) f (snd (rollback_all s)) = f (ed_free E (wf_tick s)) s0" for f :: "bool \<Rightarrow> ('x, nat) wact"
    by (simp add: bind_act_def draw_def s0_def rollback_all_def)
  have k: "kt_events (kernel_tables_of s0) = kt_events (committed (w_session (wf_world s)))"
    by (simp add: s0_def rollback_all_def state_of_simps)
  from transaction_run [OF assms(1) [unfolded event_tick_def]] assms(2-5) obtain u where
    "bind_act (counting (dispatch_event H E D) (pending_batch E created c s)) (\<lambda>n. bind_act commit_all (\<lambda>_. ret n)) s0 = (Inr n, u)"
    "s' = snd (commit_all u)"
    by (auto simp: d reads_def s0 kernel_cursor_def k pending_batch_def Let_def bind_act_simps(2))
  then obtain s1 where "counting (dispatch_event H E D) (pending_batch E created c s) s0 = (Inr n, s1)"
    "committed_tables s' = tables s1"
    by (auto simp: bind_act_Inr_iff commit_all_def state_of_simps)
  with s0 show ?thesis by blast
qed

lemma event_tick_fanned:
  assumes "event_tick H E D s = (Inr n, s')" "kernel_cursor (committed_tables s) = Some c" "cu_created c = Some created"
    and "ed_free E (wf_tick s)" "pending_batch E created c s \<noteq> []"
  shows "\<exists>s0 s1. tables s0 = committed_tables s \<and> tables s1 = committed_tables s'
    \<and> fanned (\<lambda>r. \<exists>e \<in> set (pending_batch E created c s). event_queued H E (committed_tables s) e r)
        (\<Union>(event_keys H E (committed_tables s) ` set (pending_batch E created c s)))
        (moved (last (pending_batch E created c s))) n s0 s1"
proof -
  let ?es = "pending_batch E created c s" and ?t = "committed_tables s"
  obtain s0 s1 where t: "tables s0 = ?t" "tables s1 = committed_tables s'"
    and c: "counting (dispatch_event H E D) ?es s0 = (Inr n, s1)"
    using event_tick_ok [OF assms] by metis
  let ?I = "\<lambda>ds ts. ds = wf_definitions ?t \<and> ts = wf_triggers ?t"
  have "fanned (\<lambda>r. \<exists>e \<in> set ?es. event_queued H E ?t e r) (\<Union>(event_keys H E ?t ` set ?es)) (fold moved ?es) n s0 s1"
    by (rule counting_fanned [OF c, where I = ?I]) (auto simp: t intro: dispatch_event_fanned)
  with t show ?thesis unfolding fold_moved [OF assms(5)] by blast
qed

lemma event_tick_idle:
  assumes "event_tick H E D s = (Inr n, s')" "kernel_cursor (committed_tables s) = Some c" "cu_created c = Some created"
    and "\<not> ed_free E (wf_tick s) \<or> pending_batch E created c s = []"
  shows "n = 0 \<and> committed_tables s' = committed_tables s"
  using transaction_run [OF assms(1) [unfolded event_tick_def]] assms(2-4)
  by (auto simp: bind_act_def draw_def reads_def rollback_all_def commit_all_def state_of_simps kernel_cursor_def
      pending_batch_def Let_def split: if_splits)

subsection \<open>A tick refines the handling of its batch\<close>

text \<open>
  The abstract dispatcher: the keys of the runs that exist and the position of the cursor. To
  handle an event is to have the keys of all triggers it fires and to move to its position.
\<close>

type_synonym dispatched = "string set \<times> (time option \<times> ident option) option"

definition dispatched :: "'x wf_tables \<Rightarrow> dispatched" where
  "dispatched t = (run_keys t, map_option (\<lambda>c. (cu_created c, cu_event c)) (kernel_cursor t))"

definition handle_event :: "host \<Rightarrow> event_dispatcher \<Rightarrow> 'x wf_tables \<Rightarrow> kernel_event \<Rightarrow> dispatched \<Rightarrow> dispatched" where
  "handle_event H E t e d = (fst d \<union> event_keys H E t e, Some (Some (ke_created e), Some (ke_id e)))"

lemma fold_handle:
  "fold (handle_event H E t) es d = (fst d \<union> \<Union>(event_keys H E t ` set es),
     if es = [] then snd d else Some (Some (ke_created (last es)), Some (ke_id (last es))))"
  by (induction es arbitrary: d) (auto simp: handle_event_def)

text \<open>
  C22. A tick refines the abstract dispatcher: when it succeeds it has handled its batch, which is
  the first events after the cursor in the order of time and id; it reports the number of runs it
  added, and keys that were unique are still unique.
\<close>

theorem event_tick_refines:
  assumes "event_tick H E D s = (Inr n, s')" "kernel_cursor (committed_tables s) = Some c" "cu_created c = Some created"
    and "ed_free E (wf_tick s)"
  shows "dispatched (committed_tables s')
      = fold (handle_event H E (committed_tables s)) (pending_batch E created c s) (dispatched (committed_tables s))
    \<and> length (wf_runs (committed_tables s')) = length (wf_runs (committed_tables s)) + n
    \<and> (distinct (map rn_dedupe (wf_runs (committed_tables s))) \<longrightarrow> distinct (map rn_dedupe (wf_runs (committed_tables s'))))"
proof (cases "pending_batch E created c s = []")
  case True
  with event_tick_idle [OF assms(1-3)] show ?thesis by (simp add: fold_handle)
next
  case False
  from event_tick_fanned [OF assms False] obtain s0 s1 where t: "tables s0 = committed_tables s" "tables s1 = committed_tables s'"
    and f: "fanned (\<lambda>r. \<exists>e \<in> set (pending_batch E created c s). event_queued H E (committed_tables s) e r)
        (\<Union>(event_keys H E (committed_tables s) ` set (pending_batch E created c s)))
        (moved (last (pending_batch E created c s))) n s0 s1" by blast
  from f have cur: "kernel_cursor (committed_tables s') = map_option (\<lambda>x. x\<lparr>cu_created := Some (ke_created (last (pending_batch E created c s))),
      cu_event := Some (ke_id (last (pending_batch E created c s)))\<rparr>) (kernel_cursor (committed_tables s))"
    unfolding kernel_cursor_def fanned_def by (metis t find_moved)
  from f show ?thesis unfolding fanned_def t
    using cur assms(2) False by (auto simp: dispatched_def fold_handle)
qed

text \<open>
  C23. Only what is entitled starts: every run that a tick adds is for an event after the cursor
  that is no workflow lifecycle event, and for an enabled trigger that matches it, of an enabled
  workflow of the event's own workspace or owner; it runs under that workflow's owner and is at most
  as deep in a chain of events as the dispatcher's bound.
\<close>

theorem event_runs_are_entitled:
  assumes "event_tick H E D s = (Inr n, s')" "kernel_cursor (committed_tables s) = Some c" "cu_created c = Some created"
    and "r \<in> set (wf_runs (committed_tables s'))" "r \<notin> set (wf_runs (committed_tables s))"
  shows "\<exists>e \<in> set (kt_events (committed (w_session (wf_world s)))). \<exists>tg \<in> set (wf_triggers (committed_tables s)). \<exists>w depth.
      event_after created (cu_event c) e \<and> \<not> starts_with ''workflow.'' (ke_type e)
    \<and> tg_enabled tg \<and> trigger_matches H e tg
    \<and> find_definition (tg_workflow tg) (committed_tables s) = Some w \<and> in_event_scope e w
    \<and> rn_workflow r = wd_id w \<and> rn_authority r = wd_owner w
    \<and> obj_get ''depth'' (rn_trigger r) = Some (JInt depth) \<and> 1 \<le> depth \<and> depth \<le> ed_depth E"
proof -
  have "committed_tables s' \<noteq> committed_tables s" using assms(4,5) by metis
  then have idle: "ed_free E (wf_tick s)" "pending_batch E created c s \<noteq> []"
    using event_tick_idle [OF assms(1-3)] by blast+
  let ?es = "pending_batch E created c s" and ?t = "committed_tables s"
  from event_tick_fanned [OF assms(1-3) idle] obtain new where
    "wf_runs (committed_tables s') = wf_runs ?t @ new" "\<forall>r \<in> set new. \<exists>e \<in> set ?es. event_queued H E ?t e r"
    unfolding fanned_def by metis
  with assms(4,5) obtain e where e: "e \<in> set ?es" "event_queued H E ?t e r" by auto
  from e(1) have a: "e \<in> set (kt_events (committed (w_session (wf_world s))))" "event_after created (cu_event c) e"
    by (auto simp: pending_batch_def event_batch_def dest!: in_set_takeD)
  from e(2) obtain tg w d where f: "(tg, w) \<in> fired H E ?t e" and d: "0 \<le> d" "d < ed_depth E" and r: "event_run H d e (tg, w) r"
    by (auto simp: event_queued_def)
  from f have g: "fires H E e" "trigger_matches H e tg" "tg \<in> set (wf_triggers ?t)" "tg_enabled tg"
      "find_definition (tg_workflow tg) ?t = Some w" "in_event_scope e w"
    by (auto simp: fired_def triggers_for_event_def List.map_filter_def split: if_splits option.splits)
  have "obj_get ''depth'' (rn_trigger r) = Some (JInt (d + 1))"
    using r by (simp add: event_run_def stored_def obj_get_def)
  with a g d r show ?thesis
    by (intro bexI [of _ e] bexI [of _ tg] exI [of _ w] exI [of _ "d + 1"]) (auto simp: fires_def event_run_def)
qed

subsection \<open>Events that are not handled\<close>

text \<open>Only the tick commits: what an event does up to an exception leaves the committed state alone.\<close>

definition same_committed :: "'x wf_state \<Rightarrow> 'x wf_state \<Rightarrow> bool" where
  "same_committed s s' = (committed (w_session (wf_world s')) = committed (w_session (wf_world s)))"

lemma transp_committed: "transp same_committed"
  by (simp add: same_committed_def transp_def)

lemma uncommitted_atoms:
  "keeps same_committed (draw f)" "keeps same_committed (reads g)" "keeps same_committed (put h)"
  "keeps same_committed (modify (on_kernel k))" "keeps same_committed (ret x)" "keeps same_committed (raise e)"
  "keeps same_committed (lift r)"
  by (simp_all add: keeps_def same_committed_def draw_def reads_def put_def state_of_simps)

lemma uncommitted_cases:
  "keeps same_committed a \<Longrightarrow> keeps same_committed b \<Longrightarrow> keeps same_committed (if c then a else b)"
  "keeps same_committed a \<Longrightarrow> (\<And>x. keeps same_committed (f x)) \<Longrightarrow> keeps same_committed (case v of None \<Rightarrow> a | Some x \<Rightarrow> f x)"
  by (auto split: option.split)

lemmas uncommitted = keeps_bind [OF _ _ transp_committed] uncommitted_atoms uncommitted_cases

lemma counting_uncommitted: "(\<And>x. keeps same_committed (f x)) \<Longrightarrow> keeps same_committed (counting f xs)"
  by (induction xs) (auto intro!: uncommitted)

lemma dispatch_uncommitted: "keeps same_committed (dispatch_event H E D e)"
  unfolding dispatch_event_def fire_trigger_def queue_workflow_run_def record_workflow_event_def Let_def
  by (intro uncommitted counting_uncommitted) (auto intro!: uncommitted split: prod.split)

lemma event_tick_fails:
  fixes s :: "'x wf_state"
  assumes "event_tick H E D s = (Inl err, s')"
  shows "same_committed s s'"
proof -
  have c: "committed (w_session (wf_world t)) = committed (w_session (wf_world u))"
    if "counting (dispatch_event H E D) es u = (r, t)" for es r and u t :: "'x wf_state"
    using counting_uncommitted [of "dispatch_event H E D" es, OF dispatch_uncommitted] that
    unfolding keeps_def same_committed_def by (metis snd_conv)
  show ?thesis
    using transaction_run [OF assms [unfolded event_tick_def]]
    by (auto simp: bind_act_def draw_def reads_def rollback_all_def commit_all_def put_def state_of_simps Let_def same_committed_def
        split: option.splits if_splits prod.splits sum.splits dest!: c)
qed

text \<open>
  Ticks among other transactions, seen from an event \<open>e\<close>: the others leave the cursor alone and
  queue no run for \<open>e\<close>, the ids of events contain no colon, and only \<open>e\<close> has the id of \<open>e\<close>.
\<close>

inductive around_event :: "host \<Rightarrow> event_dispatcher \<Rightarrow> kernel_event \<Rightarrow> 'x wf_state \<Rightarrow> 'x wf_state \<Rightarrow> bool"
  for H E e where
  tick: "\<forall>e' \<in> set (kt_events (committed (w_session (wf_world s)))). CHR '':'' \<notin> set (ke_id e') \<and> (ke_id e' = ke_id e \<longrightarrow> e' = e)
    \<Longrightarrow> around_event H E e s (snd (event_tick H E D s))"
| other: "kernel_cursor (committed_tables s') = kernel_cursor (committed_tables s)
    \<Longrightarrow> \<forall>tid. event_key tid (ke_id e) \<in> run_keys (committed_tables s') \<longrightarrow> event_key tid (ke_id e) \<in> run_keys (committed_tables s)
    \<Longrightarrow> around_event H E e s s'"

text \<open>An event that the cursor has passed and that has no run.\<close>

definition passed_over :: "kernel_event \<Rightarrow> 'x wf_tables \<Rightarrow> bool" where
  "passed_over e t = ((\<exists>c created. kernel_cursor t = Some c \<and> cu_created c = Some created \<and> \<not> event_after created (cu_event c) e)
     \<and> (\<forall>tid. event_key tid (ke_id e) \<notin> run_keys t))"

lemma event_key_id:
  assumes "event_key a i = event_key b j" "CHR '':'' \<notin> set i" "CHR '':'' \<notin> set j"
  shows "i = j"
proof -
  have "a @ [CHR '':''] @ i = b @ [CHR '':''] @ j" using assms(1) by (simp add: event_key_def)
  then have "rev i @ CHR '':'' # rev a = rev j @ CHR '':'' # rev b"
    by (metis append.assoc append_Cons append_Nil rev_append rev_singleton_conv rev_swap)
  moreover have "takeWhile (\<lambda>c. c \<noteq> CHR '':'') (rev k @ CHR '':'' # z) = rev k" if "CHR '':'' \<notin> set k" for k z
    using that by (subst takeWhile_append2) auto
  ultimately have "rev i = rev j" using assms(2,3) by metis
  then show ?thesis by simp
qed

lemma batch_last_after:
  assumes "e' \<in> set (pending_batch E created c s)" "\<not> event_after created (cu_event c) e"
  shows "\<not> event_after (ke_created (last (pending_batch E created c s))) (Some (ke_id (last (pending_batch E created c s)))) e"
proof -
  have "last (pending_batch E created c s) \<in> set (pending_batch E created c s)" using assms(1) by (cases "pending_batch E created c s") auto
  then have "event_after created (cu_event c) (last (pending_batch E created c s))"
    by (auto simp: pending_batch_def event_batch_def dest!: in_set_takeD)
  with assms(2) show ?thesis by (auto simp: event_after_def)
qed

lemma passed_over_step:
  assumes "around_event H E e s s'" "passed_over e (committed_tables s)" "CHR '':'' \<notin> set (ke_id e)"
  shows "passed_over e (committed_tables s')"
  using assms(1)
proof cases
  case (tick D)
  obtain r s1 where r: "event_tick H E D s = (r, s1)" by fastforce
  obtain c created where c: "kernel_cursor (committed_tables s) = Some c" "cu_created c = Some created"
    "\<not> event_after created (cu_event c) e" using assms(2) by (auto simp: passed_over_def)
  show ?thesis
  proof (cases r)
    case (Inl err)
    with event_tick_fails r tick(1) assms(2) show ?thesis by (fastforce simp: same_committed_def committed_tables_def)
  next
    case (Inr n)
    let ?es = "pending_batch E created c s" and ?t = "committed_tables s"
    have ok: "event_tick H E D s = (Inr n, s')" using r Inr tick(1) by simp
    show ?thesis
    proof (cases "ed_free E (wf_tick s) \<and> ?es \<noteq> []")
      case False
      with event_tick_idle [OF ok c(1,2)] assms(2) show ?thesis by simp
    next
      case True
      then obtain s2 s3 where t: "tables s2 = ?t" "tables s3 = committed_tables s'" and
        f: "fanned (\<lambda>r. \<exists>e \<in> set ?es. event_queued H E ?t e r) (\<Union>(event_keys H E ?t ` set ?es)) (moved (last ?es)) n s2 s3"
        using event_tick_fanned [OF ok c(1,2)] by blast
      have "kernel_cursor (committed_tables s') = Some (c\<lparr>cu_created := Some (ke_created (last ?es)), cu_event := Some (ke_id (last ?es))\<rparr>)"
        using f c(1) unfolding fanned_def t kernel_cursor_def by (metis find_moved option.simps(9))
      moreover have "\<not> event_after (ke_created (last ?es)) (Some (ke_id (last ?es))) e"
        using True batch_last_after [OF _ c(3)] by (metis last_in_set)
      moreover have "event_key tid (ke_id e) \<notin> event_keys H E ?t e'" if e': "e' \<in> set ?es" for tid e'
      proof
        assume "event_key tid (ke_id e) \<in> event_keys H E ?t e'"
        then obtain tid' where k: "event_key tid (ke_id e) = event_key tid' (ke_id e')" by (auto simp: event_keys_def)
        from e' have m: "e' \<in> set (kt_events (committed (w_session (wf_world s))))" "event_after created (cu_event c) e'"
          by (auto simp: pending_batch_def event_batch_def dest!: in_set_takeD)
        with tick(2) event_key_id [OF k assms(3)] have "e' = e" by auto
        with m(2) c(3) show False by simp
      qed
      ultimately show ?thesis
        using f assms(2) unfolding fanned_def t passed_over_def by auto
    qed
  qed
next
  case other
  with assms(2) show ?thesis by (auto simp: passed_over_def)
qed

text \<open>
  C24. A late event is lost: an event that is committed when the cursor has already passed its time,
  because its transaction was slower than a later one, never starts a workflow, whatever ticks and
  other transactions follow.
\<close>

theorem late_event_is_lost:
  assumes "(around_event H E e)\<^sup>*\<^sup>* s s'" "passed_over e (committed_tables s)" "CHR '':'' \<notin> set (ke_id e)"
  shows "event_key tid (ke_id e) \<notin> rn_dedupe ` set (wf_runs (committed_tables s'))"
proof -
  from assms(1) have "passed_over e (committed_tables s')"
    by induction (use assms(2,3) passed_over_step in blast)+
  then show ?thesis by (simp add: passed_over_def run_keys_def)
qed

subsection \<open>An event that cannot be handled\<close>

fun event_loop :: "host \<Rightarrow> event_dispatcher \<Rightarrow> draws list \<Rightarrow> 'x wf_state \<Rightarrow> nat result list" where
  "event_loop H E [] s = []"
| "event_loop H E (D # Ds) s = (case event_tick H E D s of (r, s') \<Rightarrow> r # event_loop H E Ds s')"

lemma counting_stuck:
  assumes "x \<in> set xs" "\<And>s. \<exists>e s'. f x s = (Inl e, s')"
  shows "\<exists>e s'. counting f xs s = (Inl e, s')"
  using assms(1)
proof (induction xs arbitrary: s)
  case (Cons y ys)
  obtain r t where y: "f y s = (r, t)" by fastforce
  show ?case
  proof (cases r)
    case (Inr m)
    with assms(2) [of s] y Cons.prems have "x \<in> set ys" by auto
    from Cons.IH [OF this, of t] obtain e u where "counting f ys t = (Inl e, u)" by blast
    with y Inr show ?thesis by (simp add: bind_act_def)
  qed (simp add: y bind_act_def)
qed simp


subsection \<open>Sample events\<close>

definition sample_event :: kernel_event where
  "sample_event = \<lparr>ke_id = ''e1'', ke_created = 20, ke_type = ''task.created'', ke_scope = Workspace, ke_workspace = Some ''t'',
     ke_owner = None, ke_principal = None, ke_actor_type = ''human'', ke_actor = None, ke_initiator = None,
     ke_executor = ''operly:kernel'', ke_capability = None, ke_resource_type = None, ke_resource = None,
     ke_payload = JObj [(''n'', JInt 1)]\<rparr>"

definition late_event :: kernel_event where
  "late_event = sample_event\<lparr>ke_id := ''e0'', ke_created := 5\<rparr>"

definition poison_event :: kernel_event where
  "poison_event = sample_event\<lparr>ke_payload := JObj [(''workflow_depth'', JStr ''deep'')]\<rparr>"

definition sample_trigger :: wf_trigger where
  "sample_trigger = \<lparr>tg_id = ''g'', tg_workflow = ''w'', tg_pattern = ''task.*'', tg_condition = Some (JObj []),
     tg_enabled = True, tg_created_by = None, tg_created = 0\<rparr>"

definition sample_dispatcher :: event_dispatcher where
  "sample_dispatcher = \<lparr>ed_batch = 100, ed_depth = 8, ed_free = (\<lambda>n. True)\<rparr>"

definition event_state :: "kernel_event list \<Rightarrow> nat wf_state" where
  "event_state es =
     (let t = (sample_kernel_tables ((sample_wf_tables (JObj []) [])\<lparr>wf_triggers := [sample_trigger],
          wf_cursors := [\<lparr>cu_id = ''kernel'', cu_created = Some 10, cu_event = Some ''e''\<rparr>]\<rparr>))\<lparr>kt_events := es\<rparr>
      in \<lparr>wf_world = \<lparr>w_session = \<lparr>committed = t, working = t\<rparr>, w_calls = []\<rparr>, wf_tick = 0\<rparr>)"

lemma event_state_facts:
  "kernel_cursor (committed_tables (event_state es)) = Some \<lparr>cu_id = ''kernel'', cu_created = Some 10, cu_event = Some ''e''\<rparr>"
  "kt_events (committed (w_session (wf_world (event_state es)))) = es"
  "wf_runs (committed_tables (event_state es)) = [sample_run]"
  by (simp_all add: event_state_def Let_def kernel_cursor_def committed_tables_def sample_kernel_tables_def sample_wf_tables_def)

lemma sample_event_tick:
  "case event_tick sample_host sample_dispatcher sample_draws (event_state [sample_event]) of
     (Inr n, s') \<Rightarrow> n = 1 \<and> map rn_dedupe (wf_runs (committed_tables s')) = [''k'', ''event:g:e1'']
   | _ \<Rightarrow> False"
  by code_simp

lemma sample_event_tickE:
  obtains s' where "event_tick sample_host sample_dispatcher sample_draws (event_state [sample_event]) = (Inr 1, s')"
    "map rn_dedupe (wf_runs (committed_tables s')) = [''k'', ''event:g:e1'']"
  using sample_event_tick by (auto split: prod.splits sum.splits)

lemma event_pattern_is_normal_witness:
  "normalize_event_pattern '' Task.* '' = Inr ''task.*'' \<and> normalize_event_pattern ''task.*'' = Inr ''task.*''"
proof -
  have n: "normalize_event_pattern '' Task.* '' = Inr ''task.*''" by code_simp
  from event_pattern_is_normal [OF n] n show ?thesis by blast
qed

theorem event_tick_refines_witness:
  "\<exists>s' :: nat wf_state. fst (dispatched (committed_tables s')) = {''k'', ''event:g:e1''}
     \<and> length (wf_runs (committed_tables s')) = 2"
proof -
  obtain s' where t: "event_tick sample_host sample_dispatcher sample_draws (event_state [sample_event]) = (Inr 1, s')"
    "map rn_dedupe (wf_runs (committed_tables s')) = [''k'', ''event:g:e1'']" by (rule sample_event_tickE)
  from t(2) have "fst (dispatched (committed_tables s')) = {''k'', ''event:g:e1''}"
    unfolding dispatched_def run_keys_def fst_conv set_map [symmetric] by simp
  with event_tick_refines [OF t(1) event_state_facts(1)] show ?thesis
    by (intro exI [of _ s']) (simp add: event_state_facts sample_dispatcher_def)
qed

theorem event_runs_are_entitled_witness:
  "\<exists>(s' :: nat wf_state) r tg. r \<in> set (wf_runs (committed_tables s')) \<and> rn_dedupe r = ''event:g:e1''
     \<and> trigger_matches sample_host sample_event tg"
proof -
  obtain s' where t: "event_tick sample_host sample_dispatcher sample_draws (event_state [sample_event]) = (Inr 1, s')"
    "map rn_dedupe (wf_runs (committed_tables s')) = [''k'', ''event:g:e1'']" by (rule sample_event_tickE)
  from t(2) obtain a r where r: "wf_runs (committed_tables s') = [a, r]" "rn_dedupe r = ''event:g:e1''"
    by (auto simp: map_eq_Cons_conv)
  have "r \<in> set (wf_runs (committed_tables s'))" "r \<notin> set (wf_runs (committed_tables (event_state [sample_event])))"
    using r by (auto simp: event_state_facts sample_run_def)
  from event_runs_are_entitled [OF t(1) event_state_facts(1) _ this] obtain tg where "trigger_matches sample_host sample_event tg"
    by (auto simp: event_state_facts)
  with r show ?thesis by (intro exI [of _ s'] exI [of _ r] exI [of _ tg]) simp
qed

theorem late_event_is_lost_witness:
  "event_key ''g'' ''e0'' \<notin> rn_dedupe ` set (wf_runs (committed_tables
     (snd (event_tick sample_host sample_dispatcher sample_draws (event_state [late_event, sample_event])))))"
proof -
  have "around_event sample_host sample_dispatcher late_event (event_state [late_event, sample_event])
      (snd (event_tick sample_host sample_dispatcher sample_draws (event_state [late_event, sample_event])))"
    by (rule around_event.tick) (simp add: event_state_facts late_event_def sample_event_def)
  moreover have "passed_over late_event (committed_tables (event_state [late_event, sample_event]))"
    by (simp add: passed_over_def event_state_facts event_after_def late_event_def sample_event_def run_keys_def
        sample_run_def event_key_def)
  ultimately have "event_key ''g'' (ke_id late_event) \<notin> rn_dedupe ` set (wf_runs (committed_tables
     (snd (event_tick sample_host sample_dispatcher sample_draws (event_state [late_event, sample_event])))))"
    by (intro late_event_is_lost [OF r_into_rtranclp]) (simp_all add: late_event_def sample_event_def)
  then show ?thesis by (simp add: late_event_def)
qed


end
