(* ===== verification/Wf_Handlers.thy ===== *)
theory Wf_Handlers
  imports Wf_Rows Wf_Fanout
begin

text \<open>
  Each handler of the universal workflow provider, when it succeeds, makes one of the changes of the
  abstract specification, if the workflow or run that its arguments name is one the principal reaches.
\<close>

subsection \<open>The handlers\<close>

definition fresh_draws :: "draws \<Rightarrow> 'x wf_tables \<Rightarrow> bool" where
  "fresh_draws D t = (\<forall>n. id_at D n \<notin> used_ids t \<and> id_at D n \<noteq> [])"

definition granted :: "host \<Rightarrow> exec_context \<Rightarrow> arguments \<Rightarrow> 'x wf_tables \<Rightarrow> bool" where
  "granted H c args t = (\<forall>w \<in> set (wf_definitions t).
     arg_text H ''workflow_id'' args = Inr (wd_id w) \<longrightarrow> definition_in_scope c w \<longrightarrow> reaches c w)"

lemma granted_workflow:
  assumes "granted H c args t" "arg_text H ''workflow_id'' args = Inr wid"
    and "find (\<lambda>w. wd_id w = wid \<and> definition_in_scope c w) (wf_definitions t) = Some w"
  shows "w \<in> set (wf_definitions t)" "wd_id w = wid" "reaches c w"
  using assms find_SomeD [OF assms(3)] by (auto simp: granted_def)

lemmas handler_Inr = bind_act_Inr_iff act_Inr the_workflow_Inr the_run_Inr

lemma switched_rows: "switched H D T c w kind payload s = (Inr x, s') \<Longrightarrow> wf_rows s' = wf_rows s"
  by (auto simp: switched_def handler_Inr dest!: record_rows)

lemma switch_schedule_rows:
  "switch_schedule sched enabled upcoming s = (Inr u, s') \<Longrightarrow> wf_rows s' = (case sched of None \<Rightarrow> wf_rows s
     | Some x \<Rightarrow> set_schedule (sc_id x) (\<lambda>r. r\<lparr>sc_enabled := enabled, sc_next := upcoming\<rparr>) (wf_rows s))"
  by (auto simp: switch_schedule_def act_Inr split: option.splits)

lemma switch_change:
  assumes "keyed t" "w \<in> set (wf_definitions t)" "reaches c w" "wd_status w = ''archived'' \<longrightarrow> status = ''archived''"
    and "\<And>x. schedule_of (wd_id w) t = Some x \<Longrightarrow> sound status (x\<lparr>sc_enabled := enabled, sc_next := upcoming\<rparr>)"
  shows "wf_change c t (case schedule_of (wd_id w) t of None \<Rightarrow> set_definition (wd_id w) (\<lambda>r. r\<lparr>wd_status := status\<rparr>) t
     | Some x \<Rightarrow> set_schedule (sc_id x) (\<lambda>r. r\<lparr>sc_enabled := enabled, sc_next := upcoming\<rparr>)
         (set_definition (wd_id w) (\<lambda>r. r\<lparr>wd_status := status\<rparr>) t))"
proof (cases "schedule_of (wd_id w) t")
  case None
  from wf_change.switched [OF assms(2-4) reschedules_none [OF assms(1) None]] show ?thesis
    by (simp add: None set_definition_def)
next
  case (Some x)
  have "reschedules (wd_id w) (sound status) (wf_schedules t)
      (update_where (\<lambda>r. sc_id r = sc_id x) (\<lambda>r. r\<lparr>sc_enabled := enabled, sc_next := upcoming\<rparr>) (wf_schedules t))"
    by (rule reschedules_set [OF assms(1) Some]) (simp_all add: assms(5) Some)
  from wf_change.switched [OF assms(2-4) this] show ?thesis
    by (simp add: Some set_definition_def set_schedule_def)
qed

lemma schedule_of_set_definition [simp]: "schedule_of i (set_definition j f t) = schedule_of i t"
  by (simp add: schedule_of_def set_definition_def)

lemma scheduled_truthy:
  "scheduled t \<Longrightarrow> w \<in> set (wf_definitions t) \<Longrightarrow> schedule_of (wd_id w) t = Some x \<Longrightarrow> truthy (sc_spec x)"
  by (auto simp: scheduled_def schedule_of_def sound_def dest!: find_SomeD)

lemma set_definition_same:
  assumes "keyed t" "w \<in> set (wf_definitions t)" "f w = w"
  shows "set_definition (wd_id w) f t = t"
proof -
  have "update_where (\<lambda>r. wd_id r = wd_id w) f (wf_definitions t) = wf_definitions t"
    unfolding update_where_def using assms by (intro map_idI) (auto simp: keyed_def distinct_map dest: inj_onD)
  then show ?thesis by (simp add: set_definition_def)
qed

lemma enable_change:
  assumes "enable_workflow H D T c args s = (Inr x, s')" "wf_ok (wf_rows s)" "granted H c args (wf_rows s)"
  shows "wf_change c (wf_rows s) (wf_rows s')"
proof -
  let ?t = "wf_rows s"
  from assms(1) obtain wid w now upcoming where a: "arg_text H ''workflow_id'' args = Inr wid"
      "find (\<lambda>w. wd_id w = wid \<and> definition_in_scope c w) (wf_definitions ?t) = Some w" "wd_status w \<noteq> ''archived''"
    and up: "(case schedule_of (wd_id w) ?t of None \<Rightarrow> Inr None
      | Some x \<Rightarrow> future_schedule_time H now (sc_spec x) True) = Inr upcoming"
    and r: "wf_rows s' = (case schedule_of (wd_id w) ?t of None \<Rightarrow> set_definition (wd_id w) (\<lambda>r. r\<lparr>wd_status := ''enabled''\<rparr>) ?t
     | Some x \<Rightarrow> set_schedule (sc_id x) (\<lambda>r. r\<lparr>sc_enabled := True, sc_next := upcoming\<rparr>)
         (set_definition (wd_id w) (\<lambda>r. r\<lparr>wd_status := ''enabled''\<rparr>) ?t))"
    by (auto simp: enable_workflow_def handler_Inr split: if_splits option.splits dest!: switched_rows switch_schedule_rows)
  note g = granted_workflow [OF assms(3) a(1,2)]
  have "sound ''enabled'' (x\<lparr>sc_enabled := True, sc_next := upcoming\<rparr>)" if "schedule_of (wd_id w) ?t = Some x" for x
    by (rule future_schedule_sound [of H now "sc_spec x"])
      (use up that scheduled_truthy [OF _ g(1) that] assms(2) in \<open>simp_all add: wf_ok_def\<close>)
  from switch_change [OF _ g(1,3) _ this] a(3) assms(2) show ?thesis unfolding r by (simp add: wf_ok_def)
qed

lemma switched_off:
  assumes "wf_ok t" "w \<in> set (wf_definitions t)" "reaches c w" "wd_status w = ''archived'' \<longrightarrow> status = ''archived''"
  shows "wf_change c t (case schedule_of (wd_id w) t of None \<Rightarrow> set_definition (wd_id w) (\<lambda>r. r\<lparr>wd_status := status\<rparr>) t
     | Some x \<Rightarrow> set_schedule (sc_id x) (\<lambda>r. r\<lparr>sc_enabled := False, sc_next := None\<rparr>)
         (set_definition (wd_id w) (\<lambda>r. r\<lparr>wd_status := status\<rparr>) t))"
  using assms by (intro switch_change) (auto simp: wf_ok_def sound_def dest: scheduled_truthy)

lemma disable_change:
  assumes "disable_workflow H D T c args s = (Inr x, s')" "wf_ok (wf_rows s)" "granted H c args (wf_rows s)"
  shows "wf_change c (wf_rows s) (wf_rows s')"
proof -
  let ?t = "wf_rows s"
  from assms(1) obtain wid w status where a: "arg_text H ''workflow_id'' args = Inr wid"
      "find (\<lambda>w. wd_id w = wid \<and> definition_in_scope c w) (wf_definitions ?t) = Some w"
      "status = (if wd_status w = ''archived'' then ''archived'' else ''disabled'')"
    and r: "wf_rows s' = (case schedule_of (wd_id w) ?t of
        None \<Rightarrow> if wd_status w = ''archived'' then ?t else set_definition (wd_id w) (\<lambda>r. r\<lparr>wd_status := status\<rparr>) ?t
      | Some x \<Rightarrow> set_schedule (sc_id x) (\<lambda>r. r\<lparr>sc_enabled := False, sc_next := None\<rparr>)
         (if wd_status w = ''archived'' then ?t else set_definition (wd_id w) (\<lambda>r. r\<lparr>wd_status := status\<rparr>) ?t))"
    by (auto simp: disable_workflow_def handler_Inr split: if_splits option.splits dest!: switched_rows switch_schedule_rows)
  note g = granted_workflow [OF assms(3) a(1,2)]
  have "set_definition (wd_id w) (\<lambda>r. r\<lparr>wd_status := status\<rparr>) ?t = ?t" if "wd_status w = ''archived''"
    by (rule set_definition_same [OF _ g(1)]) (use assms(2) that a(3) in \<open>auto simp: wf_ok_def\<close>)
  with switched_off [OF assms(2) g(1,3), of status] a(3) show ?thesis unfolding r by (auto split: option.splits)
qed

lemma archive_change:
  assumes "archive_workflow H D T c args s = (Inr x, s')" "wf_ok (wf_rows s)" "granted H c args (wf_rows s)"
  shows "wf_change c (wf_rows s) (wf_rows s')"
proof -
  let ?t = "wf_rows s"
  from assms(1) obtain wid w where a: "arg_text H ''workflow_id'' args = Inr wid"
      "find (\<lambda>w. wd_id w = wid \<and> definition_in_scope c w) (wf_definitions ?t) = Some w"
    and r: "wf_rows s' = (case schedule_of (wd_id w) ?t of None \<Rightarrow> set_definition (wd_id w) (\<lambda>r. r\<lparr>wd_status := ''archived''\<rparr>) ?t
     | Some x \<Rightarrow> set_schedule (sc_id x) (\<lambda>r. r\<lparr>sc_enabled := False, sc_next := None\<rparr>)
         (set_definition (wd_id w) (\<lambda>r. r\<lparr>wd_status := ''archived''\<rparr>) ?t))"
    by (auto simp: archive_workflow_def handler_Inr split: option.splits dest!: switched_rows switch_schedule_rows)
  note g = granted_workflow [OF assms(3) a(1,2)]
  from switched_off [OF assms(2) g(1,3), of "''archived''"] show ?thesis unfolding r by simp
qed

lemma event_pattern_normal: "normalize_event_pattern p = Inr q \<Longrightarrow> normalize_event_pattern q = Inr q"
  using normalize_event_pattern_same [of p q] unfolding normalize_event_pattern_def by (simp add: py_strip_lower_strip)


lemma create_trigger_change:
  assumes "create_trigger H D T c args s = (Inr x, s')" "granted H c args (wf_rows s)" "fresh_draws D (wf_rows s)"
  shows "wf_change c (wf_rows s) (wf_rows s')"
proof -
  let ?t = "wf_rows s"
  from assms(1) obtain wid w raw pattern n created condition where a: "arg_text H ''workflow_id'' args = Inr wid"
      "find (\<lambda>w. wd_id w = wid \<and> definition_in_scope c w) (wf_definitions ?t) = Some w" "wd_status w \<noteq> ''archived''"
    and p: "normalize_event_pattern raw = Inr pattern"
      "\<not> list_ex (\<lambda>g. tg_workflow g = wd_id w \<and> tg_pattern g = pattern) (wf_triggers ?t)"
    and r: "wf_rows s' = ?t\<lparr>wf_triggers := wf_triggers ?t @ [\<lparr>tg_id = id_at D n, tg_workflow = wd_id w, tg_pattern = pattern,
       tg_condition = condition, tg_enabled = True, tg_created_by = user_id c, tg_created = created\<rparr>]\<rparr>"
    by (auto simp: create_trigger_def handler_Inr Let_def bind_result_Inr_iff rows_fields split: if_splits dest!: record_rows)
  note g = granted_workflow [OF assms(2) a(1,2)]
  have "normalize_event_pattern pattern = Inr pattern" using event_pattern_normal [OF p(1)] .
  with g(1,3) a(3) p(2) assms(3) show ?thesis
    unfolding r by (intro wf_change.subscribed [of w]) (auto simp: fresh_draws_def list_ex_iff)
qed

lemma delete_trigger_change:
  assumes "delete_trigger H D c args s = (Inr x, s')"
    and "\<And>g w. g \<in> set (wf_triggers (wf_rows s)) \<Longrightarrow> arg_text H ''trigger_id'' args = Inr (tg_id g) \<Longrightarrow>
      w \<in> set (wf_definitions (wf_rows s)) \<Longrightarrow> wd_id w = tg_workflow g \<Longrightarrow> definition_in_scope c w \<Longrightarrow> reaches c w"
  shows "wf_change c (wf_rows s) (wf_rows s')"
proof -
  let ?t = "wf_rows s"
  from assms(1) obtain gid g w where a: "arg_text H ''trigger_id'' args = Inr gid" "find_trigger gid ?t = Some g"
      "find (\<lambda>w. wd_id w = tg_workflow g \<and> definition_in_scope c w) (wf_definitions ?t) = Some w"
    and r: "wf_rows s' = ?t\<lparr>wf_triggers := filter (\<lambda>x. tg_id x \<noteq> tg_id g) (wf_triggers ?t)\<rparr>"
    by (auto simp: delete_trigger_def handler_Inr dest!: record_rows)
  have g: "g \<in> set (wf_triggers ?t)" "tg_id g = gid" using a(2) by (auto simp: find_trigger_def dest: find_SomeD)
  have w: "w \<in> set (wf_definitions ?t)" "wd_id w = tg_workflow g" "definition_in_scope c w"
    using find_SomeD [OF a(3)] by auto
  show ?thesis
    unfolding r by (rule wf_change.unsubscribed [OF g(1) w(1)]) (use assms(2) g w a(1) in auto)
qed

lemma queue_rows:
  assumes "queue_workflow_run H D w kind payload (Some u) None sched s = (Inr rid, s')" "u \<noteq> []"
  obtains r where "wf_rows s' = (wf_rows s)\<lparr>wf_runs := wf_runs (wf_rows s) @ [r]\<rparr>" "rn_id r = rid"
    "rn_workflow r = wd_id w" "rn_scope r = or_workspace (wd_scope w)" "rn_workspace r = wd_workspace w"
    "rn_authority r = Some u" "rn_status r = Run_Queued" "\<exists>n. rid = id_at D n"
  using assms
  by (auto simp: queue_workflow_run_def handler_Inr Let_def opt_or_def rows_fields split: if_splits option.splits dest!: record_rows)
    (erule that; force)+

lemma start_run_change:
  assumes "start_run H D c args s = (Inr x, s')" "granted H c args (wf_rows s)" "fresh_draws D (wf_rows s)"
    and "present (user_id c)"
  shows "wf_change c (wf_rows s) (wf_rows s')"
proof -
  let ?t = "wf_rows s"
  obtain u where u: "user_id c = Some u" "u \<noteq> []" using assms(4) by (cases "user_id c") auto
  from assms(1) obtain wid w payload rid s1 where a: "arg_text H ''workflow_id'' args = Inr wid"
      "find (\<lambda>w. wd_id w = wid \<and> definition_in_scope c w) (wf_definitions ?t) = Some w" "wd_status w \<noteq> ''archived''"
    and q: "queue_workflow_run H D w ''manual'' payload (Some u) None None s = (Inr rid, s1)" and s1: "wf_rows s' = wf_rows s1"
    by (auto simp: start_run_def handler_Inr u split: if_splits)
  note g = granted_workflow [OF assms(2) a(1,2)]
  from q u(2) obtain r where r: "wf_rows s1 = ?t\<lparr>wf_runs := wf_runs ?t @ [r]\<rparr>" "rn_id r = rid"
    "rn_workflow r = wd_id w" "rn_scope r = or_workspace (wd_scope w)" "rn_workspace r = wd_workspace w"
    "rn_authority r = Some u" "rn_status r = Run_Queued" "\<exists>n. rid = id_at D n" by (rule queue_rows)
  have "reaches_run c r"
    using g(3) r u(1) by (auto simp: reaches_def reaches_run_def definition_in_scope_def run_in_scope_def or_workspace_def
        split: scope_kind.splits)
  moreover have "rid \<notin> used_ids ?t" "rid \<noteq> []" using r(8) assms(3) by (auto simp: fresh_draws_def)
  ultimately show ?thesis
    using g(1,3) a(3) r(2-7) unfolding s1 r(1) by (intro wf_change.queued [of w]) (simp_all add: u)
qed

subsection \<open>Runs\<close>

definition granted_run :: "host \<Rightarrow> exec_context \<Rightarrow> arguments \<Rightarrow> 'x wf_tables \<Rightarrow> bool" where
  "granted_run H c args t = (\<forall>r \<in> set (wf_runs t).
     arg_text H ''run_id'' args = Inr (rn_id r) \<longrightarrow> run_in_scope c r \<longrightarrow> reaches_run c r)"

lemma granted_runD:
  assumes "granted_run H c args t" "arg_text H ''run_id'' args = Inr rid"
    and "find (\<lambda>r. rn_id r = rid \<and> run_in_scope c r) (wf_runs t) = Some r"
  shows "r \<in> set (wf_runs t)" "rn_id r = rid" "reaches_run c r"
  using assms find_SomeD [OF assms(3)] by (auto simp: granted_run_def)

lemma update_where_empty: "update_where (\<lambda>x. k x \<in> k ` {}) f xs = xs" "update_where (\<lambda>_. False) f xs = xs"
  by (simp_all add: update_where_def)

lemma current_attempt_set_step [simp]: "current_attempt st (set_step i f t) = current_attempt st t"
  by (simp add: current_attempt_def set_step_def)

lemma cancel_step_rows:
  assumes "cancel_step now run st s = (Inr a, s')"
  obtains sts ats where "sts \<subseteq> {st}" "\<forall>a \<in> ats. a \<in> set (wf_attempts (wf_rows s)) \<and> sa_step a \<in> sr_id ` sts"
    "wf_rows s' = (wf_rows s)\<lparr>
      wf_steps := update_where (\<lambda>x. sr_id x \<in> sr_id ` sts) (\<lambda>x. x\<lparr>sr_status := Step_Cancelled, sr_finished := Some now\<rparr>) (wf_steps (wf_rows s)),
      wf_attempts := update_where (\<lambda>x. sa_id x \<in> sa_id ` ats) (\<lambda>x. x\<lparr>sa_status := Attempt_Cancelled, sa_finished := Some now\<rparr>) (wf_attempts (wf_rows s))\<rparr>"
proof -
  let ?t = "wf_rows s" and ?f = "\<lambda>x. x\<lparr>sr_status := Step_Cancelled, sr_finished := Some now\<rparr>"
  let ?g = "\<lambda>x. x\<lparr>sa_status := Attempt_Cancelled, sa_finished := Some now\<rparr>"
  have "wf_rows s' = ?t \<or> wf_rows s' = set_step (sr_id st) ?f ?t
    \<or> (\<exists>b \<in> set (wf_attempts ?t). sa_step b = sr_id st \<and> wf_rows s' = set_attempt (sa_id b) ?g (set_step (sr_id st) ?f ?t))"
  proof (cases "rn_status run \<in> {Run_Waiting, Run_Waiting_Approval}")
    case True
    define s1 where "s1 = on_tables (set_step (sr_id st) ?f) s"
    have s1: "wf_rows s1 = set_step (sr_id st) ?f ?t" by (simp add: s1_def)
    have "cancel_step now run st s = (if sr_kind st \<noteq> ''action'' then ret None else
      bind_act (reads (current_attempt st)) (\<lambda>found. case found of
        None \<Rightarrow> ret None
      | Some a \<Rightarrow> bind_act (put (set_attempt (sa_id a) ?g)) (\<lambda>_. ret (Some a)))) s1"
      using True by (simp add: cancel_step_def act_run s1_def)
    with assms have "s' = s1 \<or> (\<exists>b. current_attempt st (wf_rows s1) = Some b \<and> s' = on_tables (set_attempt (sa_id b) ?g) s1)"
      by (cases "current_attempt st (wf_rows s1)") (auto simp: handler_Inr split: if_splits)
    moreover have "b \<in> set (wf_attempts ?t) \<and> sa_step b = sr_id st" if "current_attempt st (wf_rows s1) = Some b" for b
      using that by (auto simp: s1 current_attempt_def set_step_def split: if_splits dest!: find_SomeD)
    ultimately show ?thesis using s1 by auto
  qed (use assms in \<open>simp add: cancel_step_def\<close>)
  then consider "wf_rows s' = ?t" | "wf_rows s' = set_step (sr_id st) ?f ?t"
    | b where "b \<in> set (wf_attempts ?t)" "sa_step b = sr_id st" "wf_rows s' = set_attempt (sa_id b) ?g (set_step (sr_id st) ?f ?t)"
    by blast
  then show ?thesis
  proof cases
    case 1
    show ?thesis by (rule that [of "{}" "{}"]) (simp_all add: 1 update_where_empty)
  next
    case 2
    show ?thesis by (rule that [of "{st}" "{}"]) (simp_all add: 2 update_where_empty set_step_def)
  next
    case (3 b)
    show ?thesis by (rule that [of "{st}" "{b}"]) (simp_all add: 3 set_step_def set_attempt_def)
  qed
qed

lemma cancel_run_change:
  assumes "cancel_run H D c args s = (Inr x, s')" "granted_run H c args (wf_rows s)"
  shows "wf_change c (wf_rows s) (wf_rows s')"
proof -
  let ?t = "wf_rows s"
  from assms(1) obtain rid run s2 where a: "arg_text H ''run_id'' args = Inr rid"
      "find (\<lambda>r. rn_id r = rid \<and> run_in_scope c r) (wf_runs ?t) = Some run" and s': "wf_rows s' = wf_rows s2"
    and m: "(if terminal (rn_status run) then ret () else
       bind_act (draw (now_at D)) (\<lambda>now.
       bind_act (put (set_run (rn_id run) (cancelled_run now))) (\<lambda>_.
       bind_act (reads (waiting_step run)) (\<lambda>st.
       bind_act (case st of None \<Rightarrow> ret None | Some x \<Rightarrow> cancel_step now run x) (\<lambda>a.
       record_workflow_event D (cancel_event c run st a)))))) s = (Inr (), s2)"
    by (auto simp: cancel_run_def bind_act_Inr_iff handler_Inr)
  note g = granted_runD [OF assms(2) a]
  show ?thesis
  proof (cases "terminal (rn_status run)")
    case True
    with m s' show ?thesis by (simp add: wf_change.unchanged)
  next
    case live: False
    define now where "now = now_at D (wf_tick s)"
    define s1 where "s1 = on_tables (set_run (rn_id run) (cancelled_run now)) (s\<lparr>wf_tick := Suc (wf_tick s)\<rparr>)"
    define st where "st = waiting_step run (wf_rows s1)"
    have s1: "wf_rows s1 = set_run (rn_id run) (cancelled_run now) ?t" by (simp add: s1_def)
    have "bind_act (case st of None \<Rightarrow> ret None | Some x \<Rightarrow> cancel_step now run x) (\<lambda>a.
       record_workflow_event D (cancel_event c run st a)) s1 = (Inr (), s2)"
      using m live unfolding now_def s1_def st_def by (simp add: act_run del: tables_on_tables)
    then obtain b s3 where c: "(case st of None \<Rightarrow> ret None | Some y \<Rightarrow> cancel_step now run y) s1 = (Inr b, s3)"
      and s3: "wf_rows s2 = wf_rows s3"
      by (auto simp: bind_act_Inr_iff dest!: record_rows)
    show ?thesis
    proof (cases st)
      case None
      from wf_change.cancelled [OF g(1,3) live, of "{}" "{}" now] show ?thesis
        using s1 c s' s3 None by (simp add: update_where_empty set_run_def)
    next
      case (Some y)
      with c have "cancel_step now run y s1 = (Inr b, s3)" by simp
      then obtain sts ats where e: "sts \<subseteq> {y}" "\<forall>a \<in> ats. a \<in> set (wf_attempts (wf_rows s1)) \<and> sa_step a \<in> sr_id ` sts"
        "wf_rows s3 = (wf_rows s1)\<lparr>
          wf_steps := update_where (\<lambda>x. sr_id x \<in> sr_id ` sts) (\<lambda>x. x\<lparr>sr_status := Step_Cancelled, sr_finished := Some now\<rparr>) (wf_steps (wf_rows s1)),
          wf_attempts := update_where (\<lambda>x. sa_id x \<in> sa_id ` ats) (\<lambda>x. x\<lparr>sa_status := Attempt_Cancelled, sa_finished := Some now\<rparr>) (wf_attempts (wf_rows s1))\<rparr>"
        by (rule cancel_step_rows)
      have y: "y \<in> set (wf_steps ?t) \<and> own_step run y"
        using Some s1 by (auto simp: st_def waiting_step_def own_step_def set_run_def split: if_splits dest!: find_SomeD)
      have "wf_change c ?t (?t\<lparr>wf_runs := update_where (\<lambda>r. rn_id r = rn_id run) (cancelled_run now) (wf_runs ?t),
          wf_steps := update_where (\<lambda>x. sr_id x \<in> sr_id ` sts) (\<lambda>x. x\<lparr>sr_status := Step_Cancelled, sr_finished := Some now\<rparr>) (wf_steps ?t),
          wf_attempts := update_where (\<lambda>x. sa_id x \<in> sa_id ` ats) (\<lambda>x. x\<lparr>sa_status := Attempt_Cancelled, sa_finished := Some now\<rparr>) (wf_attempts ?t)\<rparr>)"
        by (rule wf_change.cancelled [OF g(1,3) live]) (use e(1,2) y s1 in \<open>auto simp: set_run_def\<close>)
      then show ?thesis using e(3) s1 s' s3 by (simp add: set_run_def)
    qed
  qed
qed

lemma steps_runs_commute: "t\<lparr>wf_steps := a, wf_runs := b\<rparr> = t\<lparr>wf_runs := b, wf_steps := a\<rparr>"
  by simp

lemma retry_run_change:
  assumes "retry_run H D c args s = (Inr x, s')" "granted_run H c args (wf_rows s)"
  shows "wf_change c (wf_rows s) (wf_rows s')"
proof -
  let ?t = "wf_rows s"
  from assms(1) obtain rid run where a: "arg_text H ''run_id'' args = Inr rid"
      "find (\<lambda>r. rn_id r = rid \<and> run_in_scope c r) (wf_runs ?t) = Some run" "rn_status run = Run_Failed"
    and r: "wf_rows s' = set_run (rn_id run) requeued_run (case failed_step run ?t of None \<Rightarrow> ?t
       | Some st \<Rightarrow> set_step (sr_id st) reset_step ?t)"
    by (auto simp: retry_run_def handler_Inr split: if_splits option.splits dest!: record_rows)
  note g = granted_runD [OF assms(2) a(1,2)]
  define sts where "sts = (case failed_step run ?t of None \<Rightarrow> {} | Some st \<Rightarrow> {st})"
  have f: "y \<in> set (wf_steps ?t) \<and> own_step run y \<and> sr_status y = Step_Failed" if found: "failed_step run ?t = Some y" for y
  proof -
    let ?xs = "filter (\<lambda>r. sr_run r = rn_id run \<and> sr_status r = Step_Failed) (wf_steps ?t)"
    obtain ys where "sort_key (\<lambda>r. - int (sr_order r)) ?xs = y # ys"
      using found by (cases "sort_key (\<lambda>r. - int (sr_order r)) ?xs") (auto simp: failed_step_def)
    then have "y \<in> set ?xs" by (metis list.set_intros(1) set_sort)
    then show ?thesis by (simp add: own_step_def)
  qed
  have "wf_change c ?t (?t\<lparr>wf_runs := update_where (\<lambda>r. rn_id r = rn_id run) requeued_run (wf_runs ?t),
      wf_steps := update_where (\<lambda>x. sr_id x \<in> sr_id ` sts) reset_step (wf_steps ?t)\<rparr>)"
    by (rule wf_change.retried [OF g(1,3) a(3)]) (use f in \<open>auto simp: sts_def split: option.splits\<close>)
  then show ?thesis
    unfolding r sts_def by (auto simp: set_run_def set_step_def update_where_empty steps_runs_commute split: option.splits)
qed

subsection \<open>Reading\<close>

lemma reads_rows:
  "list_where H T p args s = (Inr x, s') \<Longrightarrow> wf_rows s' = wf_rows s"
  "get_workflow H T c args s = (Inr x, s') \<Longrightarrow> wf_rows s' = wf_rows s"
  "list_versions H T c args s = (Inr x, s') \<Longrightarrow> wf_rows s' = wf_rows s"
  "get_version H T c args s = (Inr x, s') \<Longrightarrow> wf_rows s' = wf_rows s"
  "list_triggers H T c args s = (Inr x, s') \<Longrightarrow> wf_rows s' = wf_rows s"
  "get_run H T c args s = (Inr x, s') \<Longrightarrow> wf_rows s' = wf_rows s"
  "preview_schedule H D args s = (Inr x, s') \<Longrightarrow> wf_rows s' = wf_rows s"
  "runtime_status T s = (Inr x, s') \<Longrightarrow> wf_rows s' = wf_rows s"
  by (auto simp: list_where_def get_workflow_def list_versions_def get_version_def list_triggers_def get_run_def
      preview_schedule_def runtime_status_def handler_Inr split: option.splits)

lemma reader_rows:
  assumes "\<And>i s y s'. f i s = (Inr y, s') \<Longrightarrow> s' = s" "\<And>i s y s'. g i s = (Inr y, s') \<Longrightarrow> s' = s"
  shows "list_runs_where H f p args s = (Inr x, s') \<Longrightarrow> wf_rows s' = wf_rows s"
    "trace_where H b f g q args s = (Inr x, s') \<Longrightarrow> wf_rows s' = wf_rows s"
  by (auto simp: list_runs_where_def trace_where_def only_if_def handler_Inr Let_def split: if_splits dest!: assms)

end
