(* ===== verification/Wf_Edits.thy ===== *)
theory Wf_Edits
  imports Wf_Handlers
begin

text \<open>
  Creating a workflow and editing one: what the two handlers of the universal provider leave in the rows.
\<close>

subsection \<open>Defining and editing\<close>

lemma used_ids_schedules [simp]:
  "used_ids (t\<lparr>wf_definitions := ds, wf_versions := vs\<rparr>) \<supseteq> sc_id ` set (wf_schedules t)"
  by (auto simp: used_ids_def)

lemma new_schedule_simps [simp]:
  "sc_id (new_schedule i wid spec b u) = i" "sc_workflow (new_schedule i wid spec b u) = wid"
  "sc_spec (new_schedule i wid spec b u) = sort_keys spec" "sc_enabled (new_schedule i wid spec b u) = b"
  "sc_next (new_schedule i wid spec b u) = u"
  by (simp_all add: new_schedule_def)

lemma schedule_or_null_truthy [simp]: "truthy (schedule_or_null s) = (s \<noteq> None)" "schedule_or_null s = JNull \<longleftrightarrow> s = None"
  by (auto simp: schedule_or_null_def truthy_def schedule_json_def split: option.split schedule.split)

lemma create_rows:
  assumes "create_workflow H D T c args s = (Inr x, s')" "keyed (wf_rows s)" "fresh_draws D (wf_rows s)"
  obtains w v ss where
    "wf_rows s' = (wf_rows s)\<lparr>wf_definitions := wf_definitions (wf_rows s) @ [w],
       wf_versions := wf_versions (wf_rows s) @ [v], wf_schedules := ss\<rparr>"
    "wd_owner w = user_id c" "wd_scope w = scope_value (ctx_scope c)" "wd_workspace w = workspace_id c" "wd_version w = 1" "wd_status w \<in> {''enabled'', ''disabled''}"
    "wd_id w \<notin> used_ids (wf_rows s)" "wd_id w \<noteq> []"
    "wv_workflow v = wd_id w" "wv_version v = 1" "wv_id v \<notin> used_ids (wf_rows s)" "wv_id v \<noteq> []"
    "reschedules (wd_id w) (sound (wd_status w)) (wf_schedules (wf_rows s)) ss" "xr_resource_id x = Some (wd_id w)"
proof -
  let ?t = "wf_rows s"
  from assms(1) obtain name spec sched enabled where d: "create_draft H args = Inr (name, spec, sched, enabled)"
    by (auto simp: create_workflow_def handler_Inr)
  let ?now = "now_at D (wf_tick s)"
  from assms(1) d obtain upcoming where up: "future_schedule_time H ?now sched enabled = Inr upcoming"
    by (auto simp: create_workflow_def act_run handler_Inr)
  define description where "description = str_or H [] ''description'' args"
  define status where "status = (if enabled then ''enabled'' else ''disabled'')"
  define w where "w = \<lparr>wd_id = id_at D (Suc (wf_tick s)), wd_scope = scope_value (ctx_scope c), wd_workspace = workspace_id c,
       wd_owner = user_id c, wd_name = name, wd_description = description, wd_status = status, wd_version = 1\<rparr>"
  define v where "v = \<lparr>wv_id = id_at D (Suc (Suc (wf_tick s))), wv_workflow = wd_id w, wv_version = 1, wv_spec = Some (sort_keys spec),
       wv_snapshot = Some (sort_keys (snapshot name description spec sched status)), wv_created_by = user_id c\<rparr>"
  let ?add = "\<lambda>sid t. t\<lparr>wf_schedules := wf_schedules t @ [new_schedule sid (wd_id w) sched enabled upcoming]\<rparr>"
  let ?t2 = "?t\<lparr>wf_definitions := wf_definitions ?t @ [w], wf_versions := wf_versions ?t @ [v]\<rparr>"
  have "\<exists>k. wf_rows s' = (if truthy sched then ?add (id_at D k) ?t2 else ?t2) \<and> xr_resource_id x = Some (wd_id w)"
    using assms(1) d up unfolding w_def v_def status_def description_def
    by (cases enabled; cases "truthy sched")
      (auto simp: create_workflow_def handler_Inr add_version_def Let_def answer_def simp del: tables_on_tables(1,2) dest!: record_rows)
  then obtain k where r: "wf_rows s' = (if truthy sched then ?add (id_at D k) ?t2 else ?t2)"
    and x: "xr_resource_id x = Some (wd_id w)" by blast
  have f: "wd_id w \<notin> used_ids ?t" "wd_id w \<noteq> []" "wv_id v \<notin> used_ids ?t" "wv_id v \<noteq> []"
      "id_at D k \<notin> used_ids ?t" "id_at D k \<noteq> []"
    using assms(3) by (auto simp: fresh_draws_def w_def v_def)
  have none: "schedule_of (wd_id w) ?t = None"
    using f(1) by (simp add: schedule_of_def find_None_iff_all used_ids_def) (metis imageI)
  let ?x = "new_schedule (id_at D k) (wd_id w) sched enabled upcoming"
  have "reschedules (sc_workflow ?x) (sound (wd_status w)) (wf_schedules ?t) (wf_schedules ?t @ [?x])" if "truthy sched"
    by (rule reschedules_add [OF assms(2)], simp add: none, simp add: f, simp add: f)
      (rule future_schedule_sound [of H "now_at D (wf_tick s)" sched], use up that in \<open>(cases enabled; simp add: w_def status_def)+\<close>)
  with reschedules_none [OF assms(2) none] show ?thesis
    by (intro that [of "if truthy sched then wf_schedules ?t @ [?x] else wf_schedules ?t" v w])
      (use r f x in \<open>auto simp: w_def v_def status_def\<close>)
qed

lemma write_schedule_rows:
  assumes "write_schedule D w (schedule_of (wd_id w) (wf_rows s)) spec upcoming s = (Inr u, s')"
    and "keyed (wf_rows s)" "fresh_draws D (wf_rows s)" "spec = JNull \<or> truthy spec"
    and "future_schedule_time H now spec (wd_status w = ''enabled'') = Inr upcoming"
  obtains ss where "wf_rows s' = (wf_rows s)\<lparr>wf_schedules := ss\<rparr>"
    "reschedules (wd_id w) (sound (wd_status w)) (wf_schedules (wf_rows s)) ss"
proof (cases "schedule_of (wd_id w) (wf_rows s)")
  case None
  show ?thesis
  proof (cases "spec = JNull")
    case True
    with assms(1) None have "s' = s" by (simp add: write_schedule_def)
    with reschedules_none [OF assms(2) None] show ?thesis by (intro that [of "wf_schedules (wf_rows s)"]) simp_all
  next
    case False
    let ?x = "new_schedule (id_at D (wf_tick s)) (wd_id w) spec (wd_status w = ''enabled'') upcoming"
    have "reschedules (sc_workflow ?x) (sound (wd_status w)) (wf_schedules (wf_rows s)) (wf_schedules (wf_rows s) @ [?x])"
      using assms(3) by (intro reschedules_add [OF assms(2)])
        (auto simp: None fresh_draws_def intro: future_schedule_sound [OF assms(5)] simp: False assms(4) [simplified False, simplified])
    with assms(1) None False show ?thesis by (intro that) (auto simp: write_schedule_def handler_Inr)
  qed
next
  case (Some y)
  show ?thesis
  proof (cases "spec = JNull")
    case True
    with assms(1) Some show ?thesis
      by (intro that [OF _ reschedules_drop [OF assms(2) Some]]) (auto simp: write_schedule_def handler_Inr drop_schedule_def)
  next
    case False
    let ?f = "\<lambda>r. r\<lparr>sc_type := text_at ''type'' [] spec, sc_spec := sort_keys spec,
           sc_timezone := text_at ''timezone'' ''UTC'' spec, sc_enabled := (wd_status w = ''enabled''), sc_next := upcoming\<rparr>"
    have "sound (wd_status w) (?f y)"
      by (rule future_schedule_sound [OF assms(5)]) (use False assms(4) in auto)
    have "reschedules (wd_id w) (sound (wd_status w)) (wf_schedules (wf_rows s))
        (update_where (\<lambda>r. sc_id r = sc_id y) ?f (wf_schedules (wf_rows s)))"
      by (rule reschedules_set [OF assms(2) Some]) (use \<open>sound (wd_status w) (?f y)\<close> in simp_all)
    with assms(1) Some False show ?thesis
      by (intro that) (simp_all add: write_schedule_def act_Inr set_schedule_def)
  qed
qed

lemma reschedules_keep:
  assumes "wf_ok t" "w \<in> set (wf_definitions t)"
  shows "reschedules (wd_id w) (sound (wd_status w)) (wf_schedules t) (wf_schedules t)"
proof -
  have "[] \<notin> sc_id ` set (wf_schedules t)" using assms(1) by (auto simp: wf_ok_def keyed_def used_ids_def)
  with assms show ?thesis by (auto simp: reschedules_def wf_ok_def keyed_def scheduled_def)
qed

lemma edit_parts_schedule:
  "edit_name H args e = Inr e' \<Longrightarrow> we_schedule e' = we_schedule e"
  "we_schedule (edit_description H args e) = we_schedule e"
  "edit_spec H args e = Inr e' \<Longrightarrow> we_schedule e' = we_schedule e"
  by (auto simp: edit_name_def edit_description_def edit_spec_def Let_def bind_result_Inr_iff split: if_splits)

lemma edit_of_schedule:
  assumes "edit_of H args w v sched = Inr e" "\<And>x. sched = Some x \<Longrightarrow> truthy (sc_spec x)"
  shows "we_schedule e = JNull \<or> truthy (we_schedule e)"
proof -
  let ?old = "case sched of None \<Rightarrow> JNull | Some x \<Rightarrow> sc_spec x"
  from assms(1) obtain e1 where "we_schedule e1 = ?old" "edit_schedule H args e1 = Inr e"
    by (auto simp: edit_of_def bind_result_Inr_iff dest!: edit_parts_schedule(1,3) simp: edit_parts_schedule(2))
  moreover have "?old = JNull \<or> truthy ?old" using assms(2) by (auto split: option.split)
  ultimately show ?thesis by (auto simp: edit_schedule_def bind_result_Inr_iff split: option.splits if_splits)
qed

lemma used_ids_set_definition:
  "(\<And>r. wd_id (f r) = wd_id r) \<Longrightarrow> used_ids (set_definition i f t) = used_ids t"
proof -
  assume f: "\<And>r. wd_id (f r) = wd_id r"
  have "wd_id ` set (update_where (\<lambda>r. wd_id r = i) f (wf_definitions t)) = wd_id ` set (wf_definitions t)"
    by (metis f list.set_map map_update_where)
  then show ?thesis by (simp add: used_ids_def set_definition_def)
qed

lemma keyed_set_definition:
  "(\<And>r. wd_id (f r) = wd_id r) \<Longrightarrow> keyed (set_definition i f t) = keyed t"
  by (simp add: keyed_def used_ids_set_definition) (simp add: set_definition_def map_update_where)

lemma fresh_set_definition:
  "(\<And>r. wd_id (f r) = wd_id r) \<Longrightarrow> fresh_draws D (set_definition i f t) = fresh_draws D t"
  by (simp add: fresh_draws_def used_ids_set_definition)

lemma schedules_last:
  "t\<lparr>wf_schedules := ss, wf_definitions := ds, wf_versions := vs\<rparr> = t\<lparr>wf_definitions := ds, wf_versions := vs, wf_schedules := ss\<rparr>"
  by simp

lemma edit_rows:
  assumes "write_edit H D T c w old (schedule_of (wd_id w) (wf_rows s)) e s = (Inr x, s')"
    and "wf_ok (wf_rows s)" "fresh_draws D (wf_rows s)" "w \<in> set (wf_definitions (wf_rows s))"
    and "we_schedule e = JNull \<or> truthy (we_schedule e)"
  obtains name description v ss where
    "wf_rows s' = (wf_rows s)\<lparr>wf_definitions := update_where (\<lambda>r. wd_id r = wd_id w)
        (\<lambda>r. r\<lparr>wd_name := name, wd_description := description, wd_version := wd_version w + 1\<rparr>) (wf_definitions (wf_rows s)),
      wf_versions := wf_versions (wf_rows s) @ [v], wf_schedules := ss\<rparr>"
    "wv_workflow v = wd_id w" "wv_version v = wd_version w + 1" "wv_id v \<notin> used_ids (wf_rows s)" "wv_id v \<noteq> []"
    "reschedules (wd_id w) (sound (wd_status w)) (wf_schedules (wf_rows s)) ss"
    "xr_resource_id x = Some (wd_id w)"
proof -
  let ?t = "wf_rows s"
  let ?rename = "set_definition (wd_id w) (\<lambda>r. r\<lparr>wd_name := we_name e, wd_description := we_description e\<rparr>)"
  let ?bump = "set_definition (wd_id w) (\<lambda>r. r\<lparr>wd_version := wd_version w + 1\<rparr>)"
  let ?v = "\<lambda>i. \<lparr>wv_id = i, wv_workflow = wd_id w, wv_version = wd_version w + 1, wv_spec = Some (sort_keys (we_spec e)),
    wv_snapshot = Some (sort_keys (snapshot (we_name e) (we_description e) (we_spec e) (we_schedule e) (wd_status w))),
    wv_created_by = user_id c\<rparr>"
  let ?s1 = "on_tables ?rename (s\<lparr>wf_tick := Suc (wf_tick s)\<rparr>)"
  from assms(1) obtain upcoming s2 where
      up: "future_schedule_time H (now_at D (wf_tick s)) (we_schedule e) (wd_status w = ''enabled'') = Inr upcoming"
    and ws: "(if ''schedule'' \<in> set (we_changed e)
        then write_schedule D w (schedule_of (wd_id w) ?t) (we_schedule e) upcoming else ret ()) ?s1 = (Inr (), s2)"
    and r: "wf_rows s' = (?bump (wf_rows s2))\<lparr>wf_versions := wf_versions (?bump (wf_rows s2)) @ [?v (id_at D (wf_tick s2))]\<rparr>"
    and x: "xr_resource_id x = Some (wd_id w)"
    by (auto simp: write_edit_def handler_Inr add_version_def Let_def answer_def simp del: tables_on_tables(1,2)
        dest!: record_rows)
  have ok: "keyed ?t" using assms(2) by (simp add: wf_ok_def)
  have s1: "wf_rows ?s1 = ?rename ?t" by simp
  obtain ss where s2: "wf_rows s2 = (?rename ?t)\<lparr>wf_schedules := ss\<rparr>"
    and ss: "reschedules (wd_id w) (sound (wd_status w)) (wf_schedules ?t) ss"
  proof (cases "''schedule'' \<in> set (we_changed e)")
    case True
    with ws have "write_schedule D w (schedule_of (wd_id w) (wf_rows ?s1)) (we_schedule e) upcoming ?s1 = (Inr (), s2)" by simp
    from write_schedule_rows [OF this _ _ assms(5) up] ok assms(3) obtain ss
      where "wf_rows s2 = (wf_rows ?s1)\<lparr>wf_schedules := ss\<rparr>"
        "reschedules (wd_id w) (sound (wd_status w)) (wf_schedules (wf_rows ?s1)) ss"
      unfolding s1 by (auto simp: keyed_set_definition fresh_set_definition)
    with that [of ss] show ?thesis unfolding s1 by (simp add: set_definition_def)
  next
    case False
    with ws have "s2 = ?s1" by simp
    with that [of "wf_schedules ?t"] reschedules_keep [OF assms(2,4)] show ?thesis by (simp add: set_definition_def)
  qed
  have upd: "update_where (\<lambda>r. wd_id r = wd_id w) (\<lambda>r. r\<lparr>wd_version := wd_version w + 1\<rparr>)
      (update_where (\<lambda>r. wd_id r = wd_id w) (\<lambda>r. r\<lparr>wd_name := we_name e, wd_description := we_description e\<rparr>) ds)
    = update_where (\<lambda>r. wd_id r = wd_id w) (\<lambda>r. r\<lparr>wd_name := we_name e, wd_description := we_description e,
        wd_version := wd_version w + 1\<rparr>) ds" for ds
    by (simp add: update_where_def)
  have rows: "wf_rows s' = ?t\<lparr>wf_definitions := update_where (\<lambda>r. wd_id r = wd_id w)
        (\<lambda>r. r\<lparr>wd_name := we_name e, wd_description := we_description e, wd_version := wd_version w + 1\<rparr>) (wf_definitions ?t),
      wf_versions := wf_versions ?t @ [?v (id_at D (wf_tick s2))], wf_schedules := ss\<rparr>"
    unfolding r s2 by (simp add: set_definition_def upd schedules_last)
  show ?thesis
    by (rule that [OF rows _ _ _ _ ss x]) (use assms(3) in \<open>simp_all add: fresh_draws_def\<close>)
qed

lemma update_rows:
  assumes "update_workflow H D T c args s = (Inr x, s')" "wf_ok (wf_rows s)" "fresh_draws D (wf_rows s)"
  obtains w where "arg_text H ''workflow_id'' args = Inr (wd_id w)" "w \<in> set (wf_definitions (wf_rows s))"
    "definition_in_scope c w" "wd_status w \<noteq> ''archived''" "xr_resource_id x = Some (wd_id w)"
    "wf_rows s' = wf_rows s \<or> (\<exists>name description v ss.
      wf_rows s' = (wf_rows s)\<lparr>wf_definitions := update_where (\<lambda>r. wd_id r = wd_id w)
        (\<lambda>r. r\<lparr>wd_name := name, wd_description := description, wd_version := wd_version w + 1\<rparr>) (wf_definitions (wf_rows s)),
      wf_versions := wf_versions (wf_rows s) @ [v], wf_schedules := ss\<rparr> \<and>
      wv_workflow v = wd_id w \<and> wv_version v = wd_version w + 1 \<and> wv_id v \<notin> used_ids (wf_rows s) \<and> wv_id v \<noteq> [] \<and>
      reschedules (wd_id w) (sound (wd_status w)) (wf_schedules (wf_rows s)) ss)"
proof -
  let ?t = "wf_rows s"
  from assms(1) obtain wid w v e where a: "arg_text H ''workflow_id'' args = Inr wid"
      "find (\<lambda>w. wd_id w = wid \<and> definition_in_scope c w) (wf_definitions ?t) = Some w" "wd_status w \<noteq> ''archived''"
    and e: "edit_of H args w v (schedule_of (wd_id w) ?t) = Inr e"
    and k: "(if we_changed e = [] then bind_act (draw T) (\<lambda>st.
       ret (answer [(''workflow'', JObj (workflow_json H st w (schedule_of (wd_id w) ?t))), (''version'', JObj (version_json H st v)),
         (''changed'', JArr [])] (Some (''workflow'', wd_id w)) []))
     else write_edit H D T c w v (schedule_of (wd_id w) ?t) e) s = (Inr x, s')"
    by (auto simp: update_workflow_def handler_Inr split: if_splits)
  have w: "wd_id w = wid" "w \<in> set (wf_definitions ?t)" "definition_in_scope c w" using find_SomeD [OF a(2)] by simp_all
  show ?thesis
  proof (cases "we_changed e = []")
    case True
    with k have "wf_rows s' = ?t" "xr_resource_id x = Some (wd_id w)" by (auto simp: handler_Inr answer_def)
    with that [of w] a w show ?thesis by simp
  next
    case False
    with k have k: "write_edit H D T c w v (schedule_of (wd_id w) ?t) e s = (Inr x, s')" by simp
    have "we_schedule e = JNull \<or> truthy (we_schedule e)"
      by (rule edit_of_schedule [OF e]) (use assms(2) w scheduled_truthy in \<open>auto simp: wf_ok_def\<close>)
    note edited = edit_rows [OF k assms(2,3) w(2) this]
    show ?thesis by (rule edited, rule that [of w]) (use a w in blast)+
  qed
qed

end
