(* ===== verification/Wf_Policies.thy ===== *)
theory Wf_Policies
  imports Wf_Edits
begin

text \<open>
  Around the handlers: what a member must own before a handler runs, and the concurrency policy that create and
  update store in the version they make.
\<close>

subsection \<open>What a member must own\<close>

lemma argument_texts:
  assumes "str_or H [] k args \<noteq> []"
  shows "arg_text H k args = Inr (str_or H [] k args)"
  using assms by (auto simp: str_or_def arg_text_def arg_def get_or_def get_or_null_def py_str_def Let_def
      split: option.splits if_splits)

lemma definition_unique:
  "keyed t \<Longrightarrow> w \<in> set (wf_definitions t) \<Longrightarrow> w' \<in> set (wf_definitions t) \<Longrightarrow> wd_id w = wd_id w' \<Longrightarrow> w = w'"
  by (auto simp: keyed_def distinct_map dest: inj_onD)

lemma run_unique:
  "keyed t \<Longrightarrow> r \<in> set (wf_runs t) \<Longrightarrow> r' \<in> set (wf_runs t) \<Longrightarrow> rn_id r = rn_id r' \<Longrightarrow> r = r'"
  by (auto simp: keyed_def distinct_map dest: inj_onD)

lemma trigger_unique:
  "keyed t \<Longrightarrow> g \<in> set (wf_triggers t) \<Longrightarrow> g' \<in> set (wf_triggers t) \<Longrightarrow> tg_id g = tg_id g' \<Longrightarrow> g = g'"
  by (auto simp: keyed_def distinct_map dest: inj_onD)

lemma keyed_ids:
  "keyed t \<Longrightarrow> w \<in> set (wf_definitions t) \<Longrightarrow> wd_id w \<noteq> []"
  "keyed t \<Longrightarrow> r \<in> set (wf_runs t) \<Longrightarrow> rn_id r \<noteq> []"
  "keyed t \<Longrightarrow> g \<in> set (wf_triggers t) \<Longrightarrow> tg_id g \<noteq> []"
proof -
  assume "keyed t"
  then have "[] \<notin> used_ids t" by (simp add: keyed_def)
  then show "w \<in> set (wf_definitions t) \<Longrightarrow> wd_id w \<noteq> []" "r \<in> set (wf_runs t) \<Longrightarrow> rn_id r \<noteq> []"
      "g \<in> set (wf_triggers t) \<Longrightarrow> tg_id g \<noteq> []"
    unfolding used_ids_def by (metis Un_iff imageI)+
qed

lemma owned_workflow_Inr:
  "owned_workflow c wid s = (Inr w, s') \<longleftrightarrow>
   find (\<lambda>w. wd_id w = wid \<and> owns_workflow c w) (wf_definitions (wf_rows s)) = Some w \<and> s' = s"
  by (simp add: owned_workflow_def act_Inr rows_fields)

lemma owned_run_Inr:
  "owned_run c rid s = (Inr r, s') \<longleftrightarrow>
   find (\<lambda>r. rn_id r = rid \<and> owns_run c r) (wf_runs (wf_rows s)) = Some r \<and> s' = s"
  by (simp add: owned_run_def act_Inr rows_fields)

lemmas access_Inr = handler_Inr owned_workflow_Inr owned_run_Inr

lemma owned_workflow_reach:
  assumes "keyed t" "find (\<lambda>w. wd_id w = wid \<and> owns_workflow c w) (wf_definitions t) = Some w"
    and "v \<in> set (wf_definitions t)" "wd_id v = wid" "definition_in_scope c v"
  shows "reaches c v"
proof -
  from find_SomeD [OF assms(2)] definition_unique [OF assms(1,3), of w] assms(4) have "v = w" "owns_workflow c w" by simp_all
  with assms(5) show ?thesis by (simp add: reaches_def owns_workflow_def)
qed

definition trigger_granted :: "host \<Rightarrow> exec_context \<Rightarrow> arguments \<Rightarrow> 'x wf_tables \<Rightarrow> bool" where
  "trigger_granted H c args t = (\<forall>g \<in> set (wf_triggers t). \<forall>w \<in> set (wf_definitions t).
     arg_text H ''trigger_id'' args = Inr (tg_id g) \<longrightarrow> wd_id w = tg_workflow g \<longrightarrow> definition_in_scope c w \<longrightarrow> reaches c w)"

text \<open>What the capabilities that change something need of the row they name.\<close>

definition cleared :: "host \<Rightarrow> exec_context \<Rightarrow> string \<Rightarrow> arguments \<Rightarrow> 'x wf_tables \<Rightarrow> bool" where
  "cleared H c cap args t =
     ((cap \<in> set workflow_scoped \<longrightarrow> granted H c args t) \<and> (cap \<in> set run_scoped \<longrightarrow> granted_run H c args t)
      \<and> (cap = ''workflow.trigger.delete'' \<longrightarrow> trigger_granted H c args t))"

lemma cleared_root: "is_root c \<Longrightarrow> cleared H c cap args t"
  by (simp add: cleared_def granted_def granted_run_def trigger_granted_def reaches_def reaches_run_def)

lemma check_owned_same: "check_owned H c cap args s = (Inr u, s') \<Longrightarrow> s' = s"
  by (auto simp: check_owned_def access_Inr split: if_splits)

lemma check_owned_cleared:
  assumes "check_owned H c cap args s = (Inr u, s')" "keyed (wf_rows s)"
  shows "cleared H c cap args (wf_rows s)"
proof -
  let ?t = "wf_rows s"
  have granted: "granted H c args ?t" if cap: "cap \<in> set workflow_scoped"
  proof -
    from assms(1) cap obtain w where w: "find (\<lambda>w. wd_id w = str_or H [] ''workflow_id'' args \<and> owns_workflow c w)
        (wf_definitions ?t) = Some w"
      by (auto simp: check_owned_def access_Inr)
    with keyed_ids(1) [OF assms(2)] have "str_or H [] ''workflow_id'' args \<noteq> []" by (auto dest!: find_SomeD)
    from argument_texts [OF this] owned_workflow_reach [OF assms(2) w] show ?thesis by (auto simp: granted_def)
  qed
  have runs: "granted_run H c args ?t" if cap: "cap \<in> set run_scoped"
  proof -
    from cap have "cap \<notin> set workflow_scoped" by (auto simp: run_scoped_def workflow_scoped_def)
    with assms(1) cap obtain r where r: "find (\<lambda>r. rn_id r = str_or H [] ''run_id'' args \<and> owns_run c r) (wf_runs ?t) = Some r"
      by (auto simp: check_owned_def access_Inr)
    note found = find_SomeD [OF r]
    with keyed_ids(2) [OF assms(2)] have "str_or H [] ''run_id'' args \<noteq> []" by auto
    from argument_texts [OF this] show ?thesis
      using found run_unique [OF assms(2), of _ r] by (auto simp: granted_run_def reaches_run_def owns_run_def)
  qed
  have triggers: "trigger_granted H c args ?t" if cap: "cap = ''workflow.trigger.delete''"
  proof -
    from assms(1) cap obtain g w where g: "find_trigger (str_or H [] ''trigger_id'' args) ?t = Some g"
      and w: "find (\<lambda>w. wd_id w = tg_workflow g \<and> owns_workflow c w) (wf_definitions ?t) = Some w"
      by (auto simp: check_owned_def access_Inr workflow_scoped_def run_scoped_def)
    from g have found: "g \<in> set (wf_triggers ?t)" "tg_id g = str_or H [] ''trigger_id'' args"
      by (auto simp: find_trigger_def dest: find_SomeD)
    with keyed_ids(3) [OF assms(2)] have "str_or H [] ''trigger_id'' args \<noteq> []" by auto
    note arg = argument_texts [OF this]
    have "reaches c w'" if "g' \<in> set (wf_triggers ?t)" "w' \<in> set (wf_definitions ?t)"
        "arg_text H ''trigger_id'' args = Inr (tg_id g')" "wd_id w' = tg_workflow g'" "definition_in_scope c w'" for g' w'
    proof -
      have "g' = g" by (rule trigger_unique [OF assms(2) that(1) found(1)]) (use that(3) arg found(2) in simp)
      with owned_workflow_reach [OF assms(2) w that(2)] that(4,5) show ?thesis by simp
    qed
    then show ?thesis by (simp add: trigger_granted_def)
  qed
  from granted runs triggers show ?thesis by (simp add: cleared_def)
qed

subsection \<open>Everything but create and update\<close>

lemma lookups_same:
  "the_workflow c i r = (Inr y, r') \<Longrightarrow> r' = r" "the_run c i r = (Inr z, r') \<Longrightarrow> r' = r"
  "owned_workflow c i r = (Inr y, r') \<Longrightarrow> r' = r" "owned_run c i r = (Inr z, r') \<Longrightarrow> r' = r"
  by (simp_all add: access_Inr)

lemma scoped_rows:
  "list_runs H c args s = (Inr x, s') \<Longrightarrow> wf_rows s' = wf_rows s"
  "list_trace H c args s = (Inr x, s') \<Longrightarrow> wf_rows s' = wf_rows s"
  "delegated_run_list H c args s = (Inr x, s') \<Longrightarrow> wf_rows s' = wf_rows s"
  "delegated_trace H c args s = (Inr x, s') \<Longrightarrow> wf_rows s' = wf_rows s"
  unfolding list_runs_def list_trace_def delegated_run_list_def delegated_trace_def
proof -
  show "list_runs_where H (the_workflow c) (run_in_scope c) args s = (Inr x, s') \<Longrightarrow> wf_rows s' = wf_rows s"
    "trace_where H True (the_workflow c) (the_run c) (\<lambda>t. trace_in_scope c) args s = (Inr x, s') \<Longrightarrow> wf_rows s' = wf_rows s"
    by (erule reader_rows [rotated 2], erule lookups_same, erule lookups_same)+
  have "list_runs_where H (owned_workflow c) (owns_run c) args s = (Inr x, s') \<Longrightarrow> wf_rows s' = wf_rows s"
    "trace_where H False (owned_workflow c) (owned_run c) (own_trace c) args s = (Inr x, s') \<Longrightarrow> wf_rows s' = wf_rows s"
    by (erule reader_rows [rotated 2], erule lookups_same, erule lookups_same)+
  then show "bind_act (lift (row_limit 100 200 args)) (\<lambda>_. list_runs_where H (owned_workflow c) (owns_run c) args) s = (Inr x, s')
      \<Longrightarrow> wf_rows s' = wf_rows s"
    "bind_act (lift (row_limit 200 500 args)) (\<lambda>_. trace_where H False (owned_workflow c) (owned_run c) (own_trace c) args) s
      = (Inr x, s') \<Longrightarrow> wf_rows s' = wf_rows s"
    by (auto simp: access_Inr lift_def)
qed

lemma provider_change:
  assumes "provider_execute H D T c cap args s = (Inr x, s')" "wf_ok (wf_rows s)" "fresh_draws D (wf_rows s)"
    and "cleared H c cap args (wf_rows s)" "cap \<noteq> ''workflow.create''" "cap \<noteq> ''workflow.update''"
  shows "wf_change c (wf_rows s) (wf_rows s')"
proof -
  from assms(1) obtain handler where h: "map_of (wf_handlers H D T c args) cap = Some handler"
    and e: "handler s = (Inr x, s')" and u: "present (user_id c)"
    by (auto simp: provider_execute_def split: if_splits option.splits)
  have keep: "wf_rows s' = wf_rows s \<Longrightarrow> wf_change c (wf_rows s) (wf_rows s')"
    using wf_change.unchanged [of c "wf_rows s"] by simp
  have granted: "cap \<in> set workflow_scoped \<Longrightarrow> granted H c args (wf_rows s)"
    and runs: "cap \<in> set run_scoped \<Longrightarrow> granted_run H c args (wf_rows s)"
    and triggers: "cap = ''workflow.trigger.delete'' \<Longrightarrow> trigger_granted H c args (wf_rows s)"
    using assms(4) by (simp_all add: cleared_def)
  have changes:
    "handler = list_workflows H T c args \<Longrightarrow> ?thesis" "handler = get_workflow H T c args \<Longrightarrow> ?thesis"
    "handler = list_versions H T c args \<Longrightarrow> ?thesis" "handler = get_version H T c args \<Longrightarrow> ?thesis"
    "handler = list_triggers H T c args \<Longrightarrow> ?thesis" "handler = list_runs H c args \<Longrightarrow> ?thesis"
    "handler = get_run H T c args \<Longrightarrow> ?thesis" "handler = list_trace H c args \<Longrightarrow> ?thesis"
    "handler = preview_schedule H D args \<Longrightarrow> ?thesis" "handler = runtime_status T \<Longrightarrow> ?thesis"
    using e by (auto intro!: keep simp: list_workflows_def dest: reads_rows scoped_rows)
  have edits:
    "cap = ''workflow.enable'' \<Longrightarrow> handler = enable_workflow H D T c args \<Longrightarrow> ?thesis"
    "cap = ''workflow.disable'' \<Longrightarrow> handler = disable_workflow H D T c args \<Longrightarrow> ?thesis"
    "cap = ''workflow.archive'' \<Longrightarrow> handler = archive_workflow H D T c args \<Longrightarrow> ?thesis"
    "cap = ''workflow.trigger.create'' \<Longrightarrow> handler = create_trigger H D T c args \<Longrightarrow> ?thesis"
    "cap = ''workflow.run.start'' \<Longrightarrow> handler = start_run H D c args \<Longrightarrow> ?thesis"
    using e granted assms(2,3) u
    by (simp_all add: workflow_scoped_def enable_change disable_change archive_change create_trigger_change start_run_change)
  have run_edits:
    "cap = ''workflow.run.cancel'' \<Longrightarrow> handler = cancel_run H D c args \<Longrightarrow> ?thesis"
    "cap = ''workflow.run.retry'' \<Longrightarrow> handler = retry_run H D c args \<Longrightarrow> ?thesis"
    using e runs by (simp_all add: run_scoped_def cancel_run_change retry_run_change)
  have drop: ?thesis if "cap = ''workflow.trigger.delete''" "handler = delete_trigger H D c args"
    by (rule delete_trigger_change [of H D c args s x]) (use e that triggers in \<open>auto simp: trigger_granted_def\<close>)
  from map_of_SomeD [OF h] show ?thesis
    unfolding wf_handlers_def list.set insert_iff prod.inject empty_iff
    by (elim disjE conjE FalseE)
      ((rule changes, assumption) | (rule edits run_edits drop, assumption, assumption) | (use assms(5,6) in simp))+
qed

subsection \<open>The policy of a version\<close>

lemma access_cases:
  assumes "access_execute H D T c cap args s = (Inr x, s')" "keyed (wf_rows s)"
  obtains (read) "cap \<in> {''workflow.list'', ''workflow.get'', ''workflow.run.list'', ''workflow.trace''}" "wf_rows s' = wf_rows s"
    | (handled) "provider_execute H D T c cap args s = (Inr x, s')" "cleared H c cap args (wf_rows s)"
proof (cases "is_root c")
  case True
  with assms(1) have "provider_execute H D T c cap args s = (Inr x, s')" by (auto simp: access_execute_def access_Inr)
  with True show ?thesis by (intro handled cleared_root)
next
  case False
  with assms(1) consider "cap = ''workflow.list''" "delegated_list H T c args s = (Inr x, s')"
    | "cap = ''workflow.get''" "delegated_get H T c args s = (Inr x, s')"
    | "cap = ''workflow.run.list''" "delegated_run_list H c args s = (Inr x, s')"
    | "cap = ''workflow.trace''" "delegated_trace H c args s = (Inr x, s')"
    | s1 where "check_owned H c cap args s = (Inr (), s1)" "provider_execute H D T c cap args s1 = (Inr x, s')"
    by (auto simp: access_execute_def access_Inr split: if_splits)
  then show ?thesis
  proof cases
    case 5
    with check_owned_same [OF 5(1)] check_owned_cleared [OF 5(1) assms(2)] show ?thesis by (intro handled) simp_all
  qed (auto intro!: read dest: scoped_rows reads_rows simp: delegated_list_def delegated_get_def access_Inr)
qed

lemma find_definition_rows:
  "find_definition i t = find (\<lambda>w. wd_id w = i) (wf_definitions t)"
  by (simp add: find_definition_def)

lemma store_new_rows:
  assumes "store_policy H D T c prior requested wid x s = (Inr x', s')" "find_definition wid (wf_rows s) = Some w"
    and "\<And>p n. prior = Some (p, n) \<Longrightarrow> wd_version w \<noteq> n"
  obtains v snap where "version_of wid (wd_version w) (wf_rows s) = Some v"
    "wf_rows s' = set_version (wv_id v) (\<lambda>x. x\<lparr>wv_snapshot := Some snap\<rparr>) (wf_rows s)"
proof -
  have "(case prior of None \<Rightarrow> False | Some (p, n) \<Rightarrow> wd_version w = n) = False"
    using assms(3) by (auto split: option.split)
  with assms(1,2) show ?thesis
    by (auto simp: store_policy_def Let_def access_Inr store_current_policy_def current_version_def
        simp del: tables_on_tables(1,2) split: if_splits dest!: record_rows intro: that)
qed

lemma policy_update_rows:
  assumes "policy_update H D T c wid p x s = (Inr y, s')" "find_definition wid (wf_rows s) = Some w"
    and "fresh_draws D (wf_rows s)"
  obtains v where "wv_workflow v = wid" "wv_version v = wd_version w + 1" "wv_id v \<notin> used_ids (wf_rows s)" "wv_id v \<noteq> []"
    "wf_rows s' = (set_definition wid (\<lambda>r. r\<lparr>wd_version := wd_version w + 1\<rparr>) (wf_rows s))
       \<lparr>wf_versions := wf_versions (wf_rows s) @ [v]\<rparr>"
proof -
  from assms(1,2) obtain i spec snap where "wf_rows s' =
      (set_definition wid (\<lambda>r. r\<lparr>wd_version := wd_version w + 1\<rparr>) (wf_rows s))
       \<lparr>wf_versions := wf_versions (wf_rows s) @ [\<lparr>wv_id = id_at D i, wv_workflow = wid, wv_version = wd_version w + 1,
          wv_spec = spec, wv_snapshot = snap, wv_created_by = user_id c\<rparr>]\<rparr>"
    by (auto simp: policy_update_def concurrency_only_version_def add_version_def Let_def access_Inr current_version_def
        set_definition_def simp del: tables_on_tables(1,2) dest!: record_rows)
  from that [OF _ _ _ _ this] assms(3) show ?thesis by (simp add: fresh_draws_def)
qed

lemma store_same_rows:
  assumes "store_policy H D T c (Some (p, wd_version w)) requested wid x s = (Inr x', s')"
    and "find_definition wid (wf_rows s) = Some w" "fresh_draws D (wf_rows s)"
  obtains "wf_rows s' = wf_rows s"
    | v where "wv_workflow v = wid" "wv_version v = wd_version w + 1" "wv_id v \<notin> used_ids (wf_rows s)" "wv_id v \<noteq> []"
      "wf_rows s' = (set_definition wid (\<lambda>r. r\<lparr>wd_version := wd_version w + 1\<rparr>) (wf_rows s))
         \<lparr>wf_versions := wf_versions (wf_rows s) @ [v]\<rparr>"
proof -
  from assms(1,2) consider "wf_rows s' = wf_rows s"
    | q y s2 where "policy_update H D T c wid q x s = (Inr y, s2)" "wf_rows s' = wf_rows s2"
    by (auto simp: store_policy_def Let_def access_Inr current_version_def
        simp del: tables_on_tables(1,2) split: if_splits dest!: record_rows)
  then show ?thesis
  proof cases
    case 1 then show ?thesis by (rule that)
  next
    case 2 then show ?thesis by (auto elim!: policy_update_rows [OF _ assms(2,3)] intro: that(2))
  qed
qed

subsection \<open>Create and update with their policy\<close>

lemma fresh_ids:
  assumes "i \<notin> used_ids t"
  shows "w \<in> set (wf_definitions t) \<Longrightarrow> wd_id w \<noteq> i" "v \<in> set (wf_versions t) \<Longrightarrow> wv_id v \<noteq> i"
    "v \<in> set (wf_versions t) \<Longrightarrow> wv_workflow v \<noteq> i" "sch \<in> set (wf_schedules t) \<Longrightarrow> sc_id sch \<noteq> i"
    "sch \<in> set (wf_schedules t) \<Longrightarrow> sc_workflow sch \<noteq> i" "g \<in> set (wf_triggers t) \<Longrightarrow> tg_id g \<noteq> i"
    "g \<in> set (wf_triggers t) \<Longrightarrow> tg_workflow g \<noteq> i" "r \<in> set (wf_runs t) \<Longrightarrow> rn_id r \<noteq> i"
    "r \<in> set (wf_runs t) \<Longrightarrow> rn_workflow r \<noteq> i"
  using assms unfolding used_ids_def by (metis Un_iff imageI)+

lemma update_where_append: "update_where P f (xs @ ys) = update_where P f xs @ update_where P f ys"
  by (simp add: update_where_def)

lemma find_new: "\<forall>x \<in> set xs. \<not> P x \<Longrightarrow> P y \<Longrightarrow> find P (xs @ [y]) = Some y"
  by (induction xs) auto

lemma set_version_new:
  assumes "wv_id v \<notin> used_ids t"
  shows "set_version (wv_id v) f (t\<lparr>wf_definitions := ds, wf_versions := wf_versions t @ [v], wf_schedules := ss\<rparr>)
    = t\<lparr>wf_definitions := ds, wf_versions := wf_versions t @ [f v], wf_schedules := ss\<rparr>"
proof -
  have "update_where (\<lambda>x. wv_id x = wv_id v) f (wf_versions t) = wf_versions t"
    by (rule update_where_none) (use fresh_ids(2) [OF assms] in blast)
  then show ?thesis by (simp add: set_version_def update_where_append)
qed

lemma create_change:
  assumes "create_workflow H D T c args s = (Inr x, s1)" "store_policy H D T c None requested (wd_id w') y s1 = (Inr x', s')"
    and "w' \<in> set (wf_definitions (wf_rows s1))" "xr_resource_id x = Some (wd_id w')"
    and "wf_ok (wf_rows s)" "fresh_draws D (wf_rows s)" "ctx_scope c = Personal \<Longrightarrow> workspace_id c = None"
  shows "wf_change c (wf_rows s) (wf_rows s')"
proof -
  let ?t = "wf_rows s"
  have keyed: "keyed ?t" using assms(5) by (simp add: wf_ok_def)
  from create_rows [OF assms(1) keyed assms(6)] obtain w v ss where
      r: "wf_rows s1 = ?t\<lparr>wf_definitions := wf_definitions ?t @ [w], wf_versions := wf_versions ?t @ [v], wf_schedules := ss\<rparr>"
    and w: "wd_owner w = user_id c" "wd_scope w = scope_value (ctx_scope c)" "wd_workspace w = workspace_id c"
      "wd_version w = 1" "wd_status w \<in> {''enabled'', ''disabled''}" "wd_id w \<notin> used_ids ?t" "wd_id w \<noteq> []"
    and v: "wv_workflow v = wd_id w" "wv_version v = 1" "wv_id v \<notin> used_ids ?t" "wv_id v \<noteq> []"
    and ss: "reschedules (wd_id w) (sound (wd_status w)) (wf_schedules ?t) ss" and x: "xr_resource_id x = Some (wd_id w)"
    by metis
  have id: "wd_id w' = wd_id w" using assms(4) x by simp
  have no: "\<forall>u \<in> set (wf_definitions ?t). wd_id u \<noteq> wd_id w" "\<forall>u \<in> set (wf_versions ?t). wv_workflow u \<noteq> wd_id w"
    using fresh_ids(1,3) [OF w(6)] by blast+
  have find: "find_definition (wd_id w') (wf_rows s1) = Some w"
    using no(1) unfolding r id by (simp add: find_definition_def find_new)
  have "version_of (wd_id w') (wd_version w) (wf_rows s1) = Some v"
    using no(2) w(4) v(1,2) unfolding r id by (simp add: version_of_def find_new)
  with store_new_rows [OF assms(2) find] obtain snap where "wf_rows s' =
      set_version (wv_id v) (\<lambda>x. x\<lparr>wv_snapshot := Some snap\<rparr>) (wf_rows s1)" by auto
  with set_version_new [OF v(3)] have rows: "wf_rows s' = ?t\<lparr>wf_definitions := wf_definitions ?t @ [w],
      wf_versions := wf_versions ?t @ [v\<lparr>wv_snapshot := Some snap\<rparr>], wf_schedules := ss\<rparr>" unfolding r by simp
  have "reaches c w" using w(1-3) assms(7) by (cases "ctx_scope c") (simp_all add: reaches_def definition_in_scope_def)
  from wf_change.created [OF this w(1,4,5,6,7) _ _ _ _ ss, of "v\<lparr>wv_snapshot := Some snap\<rparr>"] v show ?thesis unfolding rows by simp
qed

lemma authorized_reach:
  assumes "authorized_workflow c i s = (Inr w, s')"
  shows "s' = s \<and> w \<in> set (wf_definitions (wf_rows s)) \<and> wd_id w = i \<and> reaches c w"
  using assms
  by (cases "ctx_scope c")
    (auto simp: authorized_workflow_def access_Inr reaches_def owns_workflow_def is_root_def definition_in_scope_def
      split: if_splits dest!: find_SomeD)

lemma find_definition_unique:
  assumes "keyed t" "w \<in> set (wf_definitions t)"
  shows "find_definition (wd_id w) t = Some w"
proof -
  have "find (\<lambda>r. wd_id r = wd_id w) (wf_definitions t) \<noteq> None" using assms(2) by (auto simp: find_None_iff_all)
  then obtain u where u: "find (\<lambda>r. wd_id r = wd_id w) (wf_definitions t) = Some u" by blast
  with definition_unique [OF assms(1) _ assms(2)] have "u = w" by (auto dest: find_SomeD)
  with u show ?thesis by (simp add: find_definition_def)
qed

lemma before_update_reach:
  assumes "before_update H c args s = (Inr (wid, p, n), s')" "keyed (wf_rows s)"
  obtains w where "s' = s" "w \<in> set (wf_definitions (wf_rows s))" "reaches c w" "wid = wd_id w" "n = wd_version w"
    "arg_text H ''workflow_id'' args = Inr (wd_id w)"
proof -
  from assms(1) obtain w locked where w: "authorized_workflow c (str_or H [] ''workflow_id'' args) s = (Inr w, s)"
    and l: "find_definition (wd_id w) (wf_rows s) = Some locked" "wid = wd_id locked" "n = wd_version locked" "s' = s"
    by (auto simp: before_update_def access_Inr current_version_def dest: authorized_reach)
  note r = authorized_reach [OF w]
  with find_definition_unique [OF assms(2), of w] l(1) have "locked = w" by simp
  moreover have "str_or H [] ''workflow_id'' args \<noteq> []" using r keyed_ids(1) [OF assms(2)] by metis
  ultimately show ?thesis using that [of w] r l argument_texts [of H "''workflow_id''" args] by simp
qed

lemma obj_get_filter:
  "k \<noteq> ''concurrency'' \<Longrightarrow> obj_get k (without_policy args) = obj_get k args"
  unfolding without_policy_def by (induction args) (auto simp: obj_get_def)

lemma arg_text_without_policy:
  "k \<noteq> ''concurrency'' \<Longrightarrow> arg_text H k (without_policy args) = arg_text H k args"
  by (simp add: arg_text_def arg_def obj_get_filter)

lemma bump_as_edit:
  assumes "keyed t" "w \<in> set (wf_definitions t)"
  shows "update_where (\<lambda>r. wd_id r = wd_id w) (\<lambda>r. r\<lparr>wd_version := n\<rparr>) (wf_definitions t)
    = update_where (\<lambda>r. wd_id r = wd_id w) (\<lambda>r. r\<lparr>wd_name := wd_name w, wd_description := wd_description w, wd_version := n\<rparr>)
        (wf_definitions t)"
proof -
  have "w\<lparr>wd_version := n\<rparr> = w\<lparr>wd_name := wd_name w, wd_description := wd_description w, wd_version := n\<rparr>"
    by (cases w) simp
  moreover have "x = w" if "x \<in> set (wf_definitions t)" "wd_id x = wd_id w" for x
    by (rule definition_unique [OF assms(1) that(1) assms(2) that(2)])
  ultimately show ?thesis unfolding update_where_def by (intro map_cong) metis+
qed

lemma update_change:
  assumes "update_workflow H D T c args s = (Inr x, s1)"
    and "store_policy H D T c (Some (p, wd_version w)) requested (wd_id w) x s1 = (Inr x', s')"
    and "w \<in> set (wf_definitions (wf_rows s))" "reaches c w" "arg_text H ''workflow_id'' args = Inr (wd_id w)"
    and "wf_ok (wf_rows s)" "fresh_draws D (wf_rows s)"
  shows "wf_change c (wf_rows s) (wf_rows s')"
proof -
  let ?t = "wf_rows s"
  have keyed: "keyed ?t" using assms(6) by (simp add: wf_ok_def)
  obtain w2 where w2: "arg_text H ''workflow_id'' args = Inr (wd_id w2)" "w2 \<in> set (wf_definitions ?t)"
      "wd_status w2 \<noteq> ''archived''"
    and r2: "wf_rows s1 = ?t \<or> (\<exists>name description v ss.
      wf_rows s1 = ?t\<lparr>wf_definitions := update_where (\<lambda>r. wd_id r = wd_id w2)
        (\<lambda>r. r\<lparr>wd_name := name, wd_description := description, wd_version := wd_version w2 + 1\<rparr>) (wf_definitions ?t),
      wf_versions := wf_versions ?t @ [v], wf_schedules := ss\<rparr> \<and>
      wv_workflow v = wd_id w2 \<and> wv_version v = wd_version w2 + 1 \<and> wv_id v \<notin> used_ids ?t \<and> wv_id v \<noteq> [] \<and>
      reschedules (wd_id w2) (sound (wd_status w2)) (wf_schedules ?t) ss)"
    by (rule update_rows [OF assms(1,6,7)])
  have "w2 = w" by (rule definition_unique [OF keyed w2(2) assms(3)]) (use w2(1) assms(5) in simp)
  note w = w2(3) [unfolded this] and rows = r2 [unfolded this]
  from rows show ?thesis
  proof (elim disjE exE conjE)
    assume s1: "wf_rows s1 = ?t"
    have find: "find_definition (wd_id w) (wf_rows s1) = Some w" unfolding s1 by (rule find_definition_unique [OF keyed assms(3)])
    from assms(2) find assms(7) [folded s1] show ?thesis
    proof (rule store_same_rows)
      assume "wf_rows s' = wf_rows s1" with wf_change.unchanged [of c ?t] s1 show ?thesis by simp
    next
      fix v assume v: "wv_workflow v = wd_id w" "wv_version v = wd_version w + 1" "wv_id v \<notin> used_ids (wf_rows s1)" "wv_id v \<noteq> []"
        and s': "wf_rows s' = (set_definition (wd_id w) (\<lambda>r. r\<lparr>wd_version := wd_version w + 1\<rparr>) (wf_rows s1))
           \<lparr>wf_versions := wf_versions (wf_rows s1) @ [v]\<rparr>"
      have "wf_rows s' = ?t\<lparr>wf_definitions := update_where (\<lambda>r. wd_id r = wd_id w) (\<lambda>r. r\<lparr>wd_name := wd_name w,
            wd_description := wd_description w, wd_version := wd_version w + 1\<rparr>) (wf_definitions ?t),
          wf_versions := wf_versions ?t @ [v], wf_schedules := wf_schedules ?t\<rparr>"
        unfolding s' s1 by (simp add: set_definition_def bump_as_edit [OF keyed assms(3)])
      then show ?thesis
        by (simp only:) (rule wf_change.edited [OF assms(3,4) w v(1,2) v(3) [unfolded s1] v(4) reschedules_keep [OF assms(6,3)]])
    qed
  next
    fix name description v ss
    let ?ds = "update_where (\<lambda>r. wd_id r = wd_id w) (\<lambda>r. r\<lparr>wd_name := name, wd_description := description,
        wd_version := wd_version w + 1\<rparr>) (wf_definitions ?t)"
    assume s1: "wf_rows s1 = ?t\<lparr>wf_definitions := ?ds, wf_versions := wf_versions ?t @ [v], wf_schedules := ss\<rparr>"
      and v: "wv_workflow v = wd_id w" "wv_version v = wd_version w + 1" "wv_id v \<notin> used_ids ?t" "wv_id v \<noteq> []"
      and ss: "reschedules (wd_id w) (sound (wd_status w)) (wf_schedules ?t) ss"
    let ?w = "w\<lparr>wd_name := name, wd_description := description, wd_version := wd_version w + 1\<rparr>"
    have "?w \<in> set ?ds" using assms(3) by (force simp: update_where_def)
    moreover have "distinct (map wd_id ?ds)" using keyed by (simp add: keyed_def map_update_where)
    ultimately have "find (\<lambda>r. wd_id r = wd_id w) ?ds = Some ?w"
      using find_distinct_key [of wd_id ?ds ?w] by simp
    then have find: "find_definition (wd_id w) (wf_rows s1) = Some ?w" unfolding s1 by (simp add: find_definition_def)
    have "\<forall>u \<in> set (wf_versions ?t). wv_workflow u = wd_id w \<longrightarrow> wv_version u \<le> wd_version w"
      using assms(3,6) by (auto simp: wf_ok_def numbered_def)
    then have "version_of (wd_id w) (wd_version ?w) (wf_rows s1) = Some v"
      using v(1,2) unfolding s1 by (auto simp: version_of_def intro!: find_new)
    with store_new_rows [OF assms(2) find] obtain snap where
      "wf_rows s' = set_version (wv_id v) (\<lambda>x. x\<lparr>wv_snapshot := Some snap\<rparr>) (wf_rows s1)" by auto
    then have "wf_rows s' = ?t\<lparr>wf_definitions := ?ds, wf_versions := wf_versions ?t @ [v\<lparr>wv_snapshot := Some snap\<rparr>],
        wf_schedules := ss\<rparr>" unfolding s1 by (simp only: set_version_new [OF v(3)])
    with wf_change.edited [OF assms(3,4) w _ _ _ _ ss, of "v\<lparr>wv_snapshot := Some snap\<rparr>" description name] v show ?thesis by simp
  qed
qed

end
