(* ===== verification/Wf_Contract.thy ===== *)
theory Wf_Contract
  imports Wf_Policies Wf_Samples "HOL-Library.Sublist"
begin

text \<open>
  The provider as a whole makes only changes of the abstract specification; what every such change leaves
  alone and keeps well-formed, and so what any history of calls keeps.
\<close>

subsection \<open>The whole provider\<close>

lemma execute_change:
  assumes "workflow_execute H D T c cap args s = (Inr x, s')" "wf_ok (wf_rows s)" "fresh_draws D (wf_rows s)"
    and "ctx_scope c = Personal \<Longrightarrow> workspace_id c = None"
  shows "wf_change c (wf_rows s) (wf_rows s')"
proof -
  have keyed: "keyed (wf_rows s)" using assms(2) by (simp add: wf_ok_def)
  consider (update) "cap = ''workflow.update''" | (create) "cap = ''workflow.create''"
    | (other) "cap \<noteq> ''workflow.update''" "cap \<noteq> ''workflow.create''" by blast
  then show ?thesis
  proof cases
    case update
    from assms(1) obtain wid p n y requested s0 s1 where
        b: "before_update H c args s = (Inr (wid, p, n), s0)"
      and a: "access_execute H D T c cap (without_policy args) s0 = (Inr y, s1)"
      and st: "store_policy H D T c (Some (p, n)) requested wid y s1 = (Inr x, s')"
      by (auto simp: workflow_execute_def update access_Inr)
    obtain w where w: "s0 = s" "w \<in> set (wf_definitions (wf_rows s))" "reaches c w" "wid = wd_id w" "n = wd_version w"
      "arg_text H ''workflow_id'' args = Inr (wd_id w)" by (rule before_update_reach [OF b keyed])
    have "provider_execute H D T c cap (without_policy args) s = (Inr y, s1)"
      by (rule access_cases [OF a [unfolded w(1)] keyed]) (simp_all add: update)
    then have u: "update_workflow H D T c (without_policy args) s = (Inr y, s1)"
      by (auto simp: provider_execute_def wf_handlers_def update split: if_splits)
    show ?thesis
      by (rule update_change [OF u st [unfolded w(4,5)] w(2,3) _ assms(2,3)]) (simp add: arg_text_without_policy w(6))
  next
    case create
    from assms(1) obtain y requested s1 s2 w locked where
        a: "access_execute H D T c cap (without_policy args) s = (Inr y, s1)"
      and w: "authorized_workflow c (text_or_empty (xr_resource_id y)) s1 = (Inr w, s2)"
      and l: "find_definition (wd_id w) (wf_rows s2) = Some locked"
      and st: "store_policy H D T c None requested (wd_id locked) y s2 = (Inr x, s')"
      by (auto simp: workflow_execute_def create access_Inr)
    note reach = authorized_reach [OF w]
    then have s2: "s2 = s1" by simp
    have "provider_execute H D T c cap (without_policy args) s = (Inr y, s1)"
      by (rule access_cases [OF a keyed]) (simp_all add: create)
    then have u: "create_workflow H D T c (without_policy args) s = (Inr y, s1)"
      by (auto simp: provider_execute_def wf_handlers_def create split: if_splits)
    have locked: "locked \<in> set (wf_definitions (wf_rows s1))" "wd_id locked = wd_id w"
      using l by (auto simp: s2 find_definition_def dest: find_SomeD)
    obtain i where "xr_resource_id y = Some i" by (rule create_rows [OF u keyed assms(3)]) blast
    with reach locked(2) have "xr_resource_id y = Some (wd_id locked)" by (simp add: text_or_empty_def)
    from create_change [OF u st [unfolded s2] locked(1) this assms(2-4)] show ?thesis by blast
  next
    case other
    from assms(1) obtain y where a: "access_execute H D T c cap (without_policy args) s = (Inr y, s')"
      by (auto simp: workflow_execute_def other access_Inr split: if_splits)
    show ?thesis
    proof (rule access_cases [OF a keyed])
      assume "wf_rows s' = wf_rows s" with wf_change.unchanged [of c "wf_rows s"] show ?thesis by simp
    next
      assume h: "provider_execute H D T c cap (without_policy args) s = (Inr y, s')"
        "cleared H c cap (without_policy args) (wf_rows s)"
      show ?thesis by (rule provider_change [OF h(1) assms(2,3) h(2) other(2,1)])
    qed
  qed
qed

subsection \<open>What a change leaves alone\<close>

text \<open>The rows of a workflow and of a run.\<close>

definition workflow_part :: "'x wf_tables \<Rightarrow> ident \<Rightarrow> wf_definition list \<times> wf_version list \<times> wf_schedule list \<times> wf_trigger list" where
  "workflow_part t wid = (filter (\<lambda>w. wd_id w = wid) (wf_definitions t), filter (\<lambda>v. wv_workflow v = wid) (wf_versions t),
     filter (\<lambda>s. sc_workflow s = wid) (wf_schedules t), filter (\<lambda>g. tg_workflow g = wid) (wf_triggers t))"

definition run_part :: "'x wf_tables \<Rightarrow> ident \<Rightarrow> wf_run list \<times> wf_step_run list" where
  "run_part t rid = (filter (\<lambda>r. rn_id r = rid) (wf_runs t), filter (\<lambda>x. sr_run x = rid) (wf_steps t))"

lemma filter_update_where:
  "(\<And>x. x \<in> set xs \<Longrightarrow> q x \<Longrightarrow> \<not> p x \<and> \<not> p (f x)) \<Longrightarrow> filter p (update_where q f xs) = filter p xs"
  by (induction xs) auto

lemma reschedules_other:
  assumes "reschedules wid P ss ss'" "i \<noteq> wid"
  shows "filter (\<lambda>s. sc_workflow s = i) ss' = filter (\<lambda>s. sc_workflow s = i) ss"
proof -
  have "filter (\<lambda>s. sc_workflow s = i) xs = filter (\<lambda>s. sc_workflow s = i) (filter (\<lambda>s. sc_workflow s \<noteq> wid) xs)" for xs
    using assms(2) by (auto intro: filter_cong)
  with assms(1) show ?thesis unfolding reschedules_def by metis
qed

lemma change_outside:
  assumes "wf_change c t t'" "keyed t" "w \<in> set (wf_definitions t)" "\<not> reaches c w"
  shows "workflow_part t' (wd_id w) = workflow_part t (wd_id w)"
proof -
  have other: "wd_id u \<noteq> wd_id w" if "u \<in> set (wf_definitions t)" "reaches c u" for u
    using definition_unique [OF assms(2) that(1) assms(3)] that(2) assms(4) by blast
  note new = fresh_ids(1) [OF _ assms(3)]
  have theirs: "tg_workflow x \<noteq> wd_id w" if "x \<in> set (wf_triggers t)" "g \<in> set (wf_triggers t)" "tg_id x = tg_id g"
      "tg_workflow g = wd_id u" "u \<in> set (wf_definitions t)" "reaches c u" for x g u
    using trigger_unique [OF assms(2) that(1-3)] that(4) other [OF that(5,6)] by simp
  from assms(1) show ?thesis
    by cases
      (auto simp: workflow_part_def filter_update_where other other [symmetric] new reschedules_other
        intro!: filter_update_where filter_cong dest: other new theirs)
qed

lemma change_outside_runs:
  assumes "wf_change c t t'" "keyed t" "r \<in> set (wf_runs t)" "\<not> reaches_run c r"
  shows "run_part t' (rn_id r) = run_part t (rn_id r)"
proof -
  have other: "rn_id u \<noteq> rn_id r" if "u \<in> set (wf_runs t)" "reaches_run c u" for u
    using run_unique [OF assms(2) that(1) assms(3)] that(2) assms(4) by blast
  have step: "sr_run x \<noteq> rn_id r" if "x \<in> set (wf_steps t)" "y \<in> set (wf_steps t)" "sr_id x = sr_id y" "own_step u y"
      "u \<in> set (wf_runs t)" "reaches_run c u" for x y u
  proof -
    have "inj_on sr_id (set (wf_steps t))" using assms(2) by (simp add: keyed_def distinct_map)
    with that(1-3) have "x = y" by (auto dest: inj_onD)
    with that(4) other [OF that(5,6)] show ?thesis by (simp add: own_step_def)
  qed
  have runs: "filter (\<lambda>x. rn_id x = rn_id r) (update_where (\<lambda>x. rn_id x = rn_id u) f (wf_runs t))
      = filter (\<lambda>x. rn_id x = rn_id r) (wf_runs t)" if "u \<in> set (wf_runs t)" "reaches_run c u" "\<And>x. rn_id (f x) = rn_id x" for u f
    by (rule filter_update_where) (use other [OF that(1,2)] that(3) in auto)
  have steps: "filter (\<lambda>x. sr_run x = rn_id r) (update_where (\<lambda>x. sr_id x \<in> sr_id ` sts) f (wf_steps t))
      = filter (\<lambda>x. sr_run x = rn_id r) (wf_steps t)" if "u \<in> set (wf_runs t)" "reaches_run c u" "\<And>x. sr_run (f x) = sr_run x"
      "\<And>y. y \<in> sts \<Longrightarrow> y \<in> set (wf_steps t) \<and> own_step u y" for u f sts
  proof (rule filter_update_where)
    fix x assume x: "x \<in> set (wf_steps t)" "sr_id x \<in> sr_id ` sts"
    then obtain y where "y \<in> sts" "sr_id x = sr_id y" by blast
    with step [OF x(1) _ this(2) _ that(1,2)] that(3,4) show "sr_run x \<noteq> rn_id r \<and> sr_run (f x) \<noteq> rn_id r" by simp
  qed
  note new = fresh_ids(8) [OF _ assms(3)]
  from assms(1) show ?thesis
  proof cases
    case (cancelled run sts ats now)
    with runs [of run "cancelled_run now"] steps [of run _ sts] show ?thesis
      by (simp add: run_part_def cancelled_run_def)
  next
    case (retried run sts)
    with runs [of run requeued_run] steps [of run reset_step sts] show ?thesis
      by (simp add: run_part_def requeued_run_def reset_step_def)
  qed (auto simp: run_part_def dest: new)
qed

subsection \<open>Well-formedness is kept\<close>

lemma update_where_same_keys: "(\<And>x. k (f x) = k x) \<Longrightarrow> k ` set (update_where p f xs) = k ` set xs"
  by (metis list.set_map map_update_where)

lemma used_ids_parts:
  "\<lbrakk>wd_id ` set (wf_definitions t') \<subseteq> A; wv_id ` set (wf_versions t') \<subseteq> A; wv_workflow ` set (wf_versions t') \<subseteq> A;
    sc_id ` set (wf_schedules t') \<subseteq> A; sc_workflow ` set (wf_schedules t') \<subseteq> A; tg_id ` set (wf_triggers t') \<subseteq> A;
    tg_workflow ` set (wf_triggers t') \<subseteq> A; rn_id ` set (wf_runs t') \<subseteq> A; rn_workflow ` set (wf_runs t') \<subseteq> A;
    sr_id ` set (wf_steps t') \<subseteq> A; sr_run ` set (wf_steps t') \<subseteq> A; sa_id ` set (wf_attempts t') \<subseteq> A\<rbrakk> \<Longrightarrow> used_ids t' \<subseteq> A"
  by (simp add: used_ids_def)

text \<open>The ids of a table that a change does not touch stay as they are.\<close>

lemma keyed_definitions:
  assumes "keyed t" "distinct (map wd_id ds)" "[] \<notin> wd_id ` set ds"
  shows "keyed (t\<lparr>wf_definitions := ds\<rparr>)"
  using assms by (simp add: keyed_def used_ids_def)

lemma keyed_versions:
  assumes "keyed t" "wv_id v \<notin> wv_id ` set (wf_versions t)" "wv_id v \<noteq> []" "wv_workflow v \<noteq> []"
    and "\<And>u. u \<in> set (wf_versions t) \<Longrightarrow> wv_workflow u = wv_workflow v \<Longrightarrow> wv_version u \<noteq> wv_version v"
  shows "keyed (t\<lparr>wf_versions := wf_versions t @ [v]\<rparr>)"
  using assms(1-4) by (auto simp: keyed_def used_ids_def dest: assms(5))

lemma keyed_triggers:
  assumes "keyed t" "distinct (map tg_id gs)" "[] \<notin> tg_id ` set gs" "[] \<notin> tg_workflow ` set gs"
  shows "keyed (t\<lparr>wf_triggers := gs\<rparr>)"
  using assms by (simp add: keyed_def used_ids_def)

lemma keyed_runs:
  assumes "keyed t" "distinct (map rn_id rs)" "[] \<notin> rn_id ` set rs" "[] \<notin> rn_workflow ` set rs"
  shows "keyed (t\<lparr>wf_runs := rs\<rparr>)"
  using assms by (simp add: keyed_def used_ids_def)

lemma keyed_steps:
  assumes "keyed t" "\<And>x. sr_id (f x) = sr_id x" "\<And>x. sr_run (f x) = sr_run x"
  shows "keyed (t\<lparr>wf_steps := update_where p f (wf_steps t)\<rparr>)"
  using assms(1) update_where_same_keys [where k = sr_id and f = f, OF assms(2)]
    update_where_same_keys [where k = sr_run and f = f, OF assms(3)]
  by (simp add: keyed_def used_ids_def map_update_where assms(2,3))

lemma keyed_attempts:
  assumes "keyed t" "\<And>x. sa_id (f x) = sa_id x"
  shows "keyed (t\<lparr>wf_attempts := update_where p f (wf_attempts t)\<rparr>)"
  using assms(1) update_where_same_keys [where k = sa_id and f = f, OF assms(2)]
  by (simp add: keyed_def used_ids_def map_update_where assms(2))

lemma keyed_update_runs:
  assumes "keyed t" "\<And>x. rn_id (f x) = rn_id x" "\<And>x. rn_workflow (f x) = rn_workflow x"
  shows "keyed (t\<lparr>wf_runs := update_where p f (wf_runs t)\<rparr>)"
  using assms(1) update_where_same_keys [where k = rn_id and f = f, OF assms(2)]
    update_where_same_keys [where k = rn_workflow and f = f, OF assms(3)]
  by (simp add: keyed_def used_ids_def map_update_where assms(2,3))

lemma keyed_update_definitions:
  assumes "keyed t" "\<And>x. wd_id (f x) = wd_id x"
  shows "keyed (t\<lparr>wf_definitions := update_where p f (wf_definitions t)\<rparr>)"
  using assms(1) update_where_same_keys [where k = wd_id and f = f, OF assms(2)]
  by (simp add: keyed_def used_ids_def map_update_where assms(2))

lemma reschedules_old:
  assumes "reschedules wid P old new" "x \<in> set new" "sc_workflow x \<noteq> wid"
  shows "x \<in> set old"
proof -
  have "x \<in> set (filter (\<lambda>s. sc_workflow s \<noteq> wid) old)" using assms(2,3) unfolding assms(1) [unfolded reschedules_def, THEN conjunct1, symmetric] by simp
  then show ?thesis by simp
qed

lemma keyed_schedules:
  assumes "keyed t" "reschedules wid P (wf_schedules t) ss" "wid \<noteq> []"
  shows "keyed (t\<lparr>wf_schedules := ss\<rparr>)"
proof -
  have "[] \<notin> sc_workflow ` set ss"
  proof
    assume "[] \<in> sc_workflow ` set ss"
    then obtain x where x: "x \<in> set ss" "sc_workflow x = []" by auto
    with reschedules_old [OF assms(2) x(1)] assms(3) have "x \<in> set (wf_schedules t)" by simp
    with x(2) have "[] \<in> sc_workflow ` set (wf_schedules t)" by (metis imageI)
    with assms(1) show False by (simp add: keyed_def used_ids_def)
  qed
  with assms(1,2) show ?thesis by (simp add: keyed_def used_ids_def reschedules_def)
qed

lemma numbered_of:
  "numbered t \<Longrightarrow> w \<in> set (wf_definitions t) \<Longrightarrow> v \<in> set (wf_versions t) \<Longrightarrow> wv_workflow v = wd_id w \<Longrightarrow>
   1 \<le> wv_version v \<and> wv_version v \<le> wd_version w"
  by (auto simp: numbered_def)

lemma keyed_lists:
  assumes "keyed t"
  shows "distinct (map wd_id (wf_definitions t))" "[] \<notin> wd_id ` set (wf_definitions t)" "distinct (map tg_id (wf_triggers t))"
    "[] \<notin> tg_id ` set (wf_triggers t)" "[] \<notin> tg_workflow ` set (wf_triggers t)" "distinct (map rn_id (wf_runs t))"
    "[] \<notin> rn_id ` set (wf_runs t)" "[] \<notin> rn_workflow ` set (wf_runs t)"
  using assms by (simp_all add: keyed_def used_ids_def)

lemma change_keyed:
  assumes "wf_change c t t'" "keyed t" "numbered t"
  shows "keyed t'"
  using assms(1)
proof cases
  case (created w v ss)
  have "keyed (t\<lparr>wf_definitions := wf_definitions t @ [w]\<rparr>)"
    by (rule keyed_definitions [OF assms(2)]) (use keyed_lists(1,2) [OF assms(2)] created(6,7) in \<open>simp_all add: used_ids_def\<close>)
  then have "keyed (t\<lparr>wf_definitions := wf_definitions t @ [w]\<rparr>\<lparr>wf_versions := wf_versions (t\<lparr>wf_definitions := wf_definitions t @ [w]\<rparr>) @ [v]\<rparr>)"
    by (rule keyed_versions) (use created(7-11) fresh_ids(3) [OF created(6)] in \<open>auto simp: used_ids_def\<close>)
  from keyed_schedules [OF this, of "wd_id w" _ ss] created show ?thesis by simp
next
  case (edited w v ss description name)
  let ?t = "t\<lparr>wf_definitions := update_where (\<lambda>r. wd_id r = wd_id w)
        (\<lambda>r. r\<lparr>wd_name := name, wd_description := description, wd_version := wd_version w + 1\<rparr>) (wf_definitions t)\<rparr>"
  have id: "wd_id w \<noteq> []" by (rule keyed_ids(1) [OF assms(2) edited(2)])
  have "keyed ?t" by (rule keyed_update_definitions [OF assms(2)]) simp
  then have "keyed (?t\<lparr>wf_versions := wf_versions ?t @ [v]\<rparr>)"
    by (rule keyed_versions) (use edited(5-8) fresh_ids(2) [OF edited(7)] id numbered_of [OF assms(3) edited(2)] in force)+
  from keyed_schedules [OF this, of "wd_id w" _ ss] edited id show ?thesis by simp
next
  case (switched w status ss)
  have id: "wd_id w \<noteq> []" by (rule keyed_ids(1) [OF assms(2) switched(2)])
  have "keyed (t\<lparr>wf_definitions := update_where (\<lambda>r. wd_id r = wd_id w) (\<lambda>r. r\<lparr>wd_status := status\<rparr>) (wf_definitions t)\<rparr>)"
    by (rule keyed_update_definitions [OF assms(2)]) simp
  from keyed_schedules [OF this, of "wd_id w" _ ss] switched id show ?thesis by simp
next
  case (subscribed w g)
  have "wd_id w \<noteq> []" by (rule keyed_ids(1) [OF assms(2) subscribed(2)])
  then show ?thesis unfolding subscribed(1)
    by (intro keyed_triggers [OF assms(2)]) (use keyed_lists [OF assms(2)] subscribed(5-7) in \<open>auto simp: used_ids_def\<close>)
next
  case (unsubscribed g w)
  show ?thesis unfolding unsubscribed(1)
    by (rule keyed_triggers [OF assms(2)]) (use keyed_lists [OF assms(2)] in \<open>auto simp: distinct_map_filter\<close>)
next
  case (queued w r)
  have "wd_id w \<noteq> []" by (rule keyed_ids(1) [OF assms(2) queued(2)])
  then show ?thesis unfolding queued(1)
    by (intro keyed_runs [OF assms(2)]) (use keyed_lists [OF assms(2)] queued(5,9,10) in \<open>auto simp: used_ids_def\<close>)
next
  case (cancelled run sts ats now)
  have "keyed (t\<lparr>wf_runs := update_where (\<lambda>r. rn_id r = rn_id run) (cancelled_run now) (wf_runs t)\<rparr>)"
    by (rule keyed_update_runs [OF assms(2)]) (simp_all add: cancelled_run_def)
  from keyed_attempts [OF keyed_steps [OF this]] show ?thesis unfolding cancelled(1) by simp
next
  case (retried run sts)
  have "keyed (t\<lparr>wf_runs := update_where (\<lambda>r. rn_id r = rn_id run) requeued_run (wf_runs t)\<rparr>)"
    by (rule keyed_update_runs [OF assms(2)]) (simp_all add: requeued_run_def)
  from keyed_steps [OF this] show ?thesis unfolding retried(1) by (simp add: reset_step_def)
qed (simp add: assms(2))

lemma scheduledI:
  assumes "\<And>x u. x \<in> set (wf_schedules t) \<Longrightarrow> u \<in> set (wf_definitions t) \<Longrightarrow> sc_workflow x = wd_id u \<Longrightarrow> sound (wd_status u) x"
  shows "scheduled t"
  using assms by (simp add: scheduled_def)

lemma change_numbered:
  assumes "wf_change c t t'" "keyed t" "numbered t"
  shows "numbered t'"
  using assms(1)
proof cases
  case (created w v ss)
  have "\<forall>u \<in> set (wf_versions t). wv_workflow u \<noteq> wd_id w" using fresh_ids(3) [OF created(6)] by blast
  moreover have "\<forall>u \<in> set (wf_definitions t). wd_id u \<noteq> wd_id w" using fresh_ids(1) [OF created(6)] by blast
  ultimately show ?thesis using assms(3) created(1,4,8,9) by (auto simp: numbered_def)
next
  case (edited w v ss description name)
  have "\<exists>x \<in> set (wf_versions t @ [v]). wv_workflow x = wd_id u \<and> wv_version x = (if wd_id u = wd_id w then wd_version w + 1 else wd_version u)"
      "\<forall>x \<in> set (wf_versions t @ [v]). wv_workflow x = wd_id u \<longrightarrow> 1 \<le> wv_version x
        \<and> wv_version x \<le> (if wd_id u = wd_id w then wd_version w + 1 else wd_version u)"
    if u: "u \<in> set (wf_definitions t)" for u
  proof -
    have same: "wd_id u = wd_id w \<Longrightarrow> u = w" by (rule definition_unique [OF assms(2) u edited(2)])
    obtain y where y: "y \<in> set (wf_versions t)" "wv_workflow y = wd_id w" "wv_version y = wd_version w"
      using assms(3) edited(2) by (auto simp: numbered_def)
    with numbered_of [OF assms(3) edited(2) y(1,2)] have "1 \<le> wd_version w" by simp
    then show "\<forall>x \<in> set (wf_versions t @ [v]). wv_workflow x = wd_id u \<longrightarrow> 1 \<le> wv_version x
        \<and> wv_version x \<le> (if wd_id u = wd_id w then wd_version w + 1 else wd_version u)"
      using same numbered_of [OF assms(3) u] edited(5,6) by force
    show "\<exists>x \<in> set (wf_versions t @ [v]). wv_workflow x = wd_id u \<and> wv_version x = (if wd_id u = wd_id w then wd_version w + 1 else wd_version u)"
      using u assms(3) edited(5,6) by (auto simp: numbered_def)
  qed
  note bounds = this
  show ?thesis
  proof (unfold numbered_def, rule ballI)
    fix u' assume "u' \<in> set (wf_definitions t')"
    then obtain u where u: "u \<in> set (wf_definitions t)" "wd_id u' = wd_id u"
        "wd_version u' = (if wd_id u = wd_id w then wd_version w + 1 else wd_version u)"
      by (auto simp: edited(1) update_where_def)
    have "wf_versions t' = wf_versions t @ [v]" by (simp add: edited(1))
    with bounds [OF u(1)] show "(\<exists>v \<in> set (wf_versions t'). wv_workflow v = wd_id u' \<and> wv_version v = wd_version u')
        \<and> (\<forall>v \<in> set (wf_versions t'). wv_workflow v = wd_id u' \<longrightarrow> 1 \<le> wv_version v \<and> wv_version v \<le> wd_version u')"
      unfolding u(2,3) by (simp only:)
  qed
next
  case (switched w status ss)
  show ?thesis
  proof (unfold numbered_def, rule ballI)
    fix u' assume "u' \<in> set (wf_definitions t')"
    then obtain u where u: "u \<in> set (wf_definitions t)" "wd_id u' = wd_id u" "wd_version u' = wd_version u"
      by (auto simp: switched(1) update_where_def)
    have "wf_versions t' = wf_versions t" by (simp add: switched(1))
    with u assms(3) show "(\<exists>v \<in> set (wf_versions t'). wv_workflow v = wd_id u' \<and> wv_version v = wd_version u')
        \<and> (\<forall>v \<in> set (wf_versions t'). wv_workflow v = wd_id u' \<longrightarrow> 1 \<le> wv_version v \<and> wv_version v \<le> wd_version u')"
      unfolding numbered_def by simp
  qed
qed (use assms(3) in \<open>auto simp: numbered_def\<close>)

lemma change_scheduled:
  assumes "wf_change c t t'" "keyed t" "scheduled t"
  shows "scheduled t'"
proof -
  have others: "sound (wd_status u) x" if "reschedules wid P (wf_schedules t) ss" "x \<in> set ss" "sc_workflow x \<noteq> wid"
      "sc_workflow x = wd_id u" "u \<in> set (wf_definitions t)" for wid P ss x u
    using reschedules_old [OF that(1-3)] that(4,5) assms(3) by (auto simp: scheduled_def)
  have own: "P x" if "reschedules wid P (wf_schedules t) ss" "x \<in> set ss" "sc_workflow x = wid" for wid P ss x
    using that by (simp add: reschedules_def)
  from assms(1) show ?thesis
  proof cases
    case (created w v ss)
    have "u = w" if "u \<in> set (wf_definitions t @ [w])" "wd_id u = wd_id w" for u using fresh_ids(1) [OF created(6)] that by auto
    then show ?thesis unfolding created(1)
      by (intro scheduledI) (use others [OF created(12)] own [OF created(12)] in \<open>simp, metis\<close>)
  next
    case (edited w v ss description name)
    have same: "wd_id u = wd_id w \<Longrightarrow> u = w" if "u \<in> set (wf_definitions t)" for u
      by (rule definition_unique [OF assms(2) that edited(2)])
    show ?thesis
    proof (rule scheduledI)
      fix x u assume a: "x \<in> set (wf_schedules t')" "u \<in> set (wf_definitions t')" "sc_workflow x = wd_id u"
      have "x \<in> set ss" using a(1) by (simp add: edited(1))
      moreover from a(2) obtain u' where "u' \<in> set (wf_definitions t)" "wd_id u = wd_id u'" "wd_status u = wd_status u'"
        by (auto simp: edited(1) update_where_def)
      moreover note a(3)
      ultimately show "sound (wd_status u) x"
        using same others [OF edited(9), of x u'] own [OF edited(9), of x] by (cases "wd_id u' = wd_id w") auto
    qed
  next
    case (switched w status ss)
    have same: "wd_id u = wd_id w \<Longrightarrow> u = w" if "u \<in> set (wf_definitions t)" for u
      by (rule definition_unique [OF assms(2) that switched(2)])
    show ?thesis
    proof (rule scheduledI)
      fix x u assume a: "x \<in> set (wf_schedules t')" "u \<in> set (wf_definitions t')" "sc_workflow x = wd_id u"
      have x: "x \<in> set ss" using a(1) by (simp add: switched(1))
      from a(2) obtain u' where "u' \<in> set (wf_definitions t)" "wd_id u = wd_id u'"
          "wd_status u = (if wd_id u' = wd_id w then status else wd_status u')"
        by (auto simp: switched(1) update_where_def)
      with x a(3) show "sound (wd_status u) x"
        using others [OF switched(5), of x u'] own [OF switched(5), of x] by (cases "wd_id u' = wd_id w") auto
    qed
  qed (use assms(3) in \<open>auto simp: scheduled_def\<close>)
qed

lemma change_ok: "wf_change c t t' \<Longrightarrow> wf_ok t \<Longrightarrow> wf_ok t'"
  using change_keyed change_numbered change_scheduled unfolding wf_ok_def by blast

lemma change_keeps:
  "wf_change c t t' \<Longrightarrow> prefix (wf_versions t) (wf_versions t')"
  "wf_change c t t' \<Longrightarrow> prefix (map wd_id (wf_definitions t)) (map wd_id (wf_definitions t'))"
  by (erule wf_change.cases; simp add: map_update_where prefix_def)+

subsection \<open>The contract of the provider\<close>

text \<open>
  Calls of the provider in any order, by anyone: a call that is refused leaves the rows as they are,
  because the kernel rolls the session back.
\<close>

inductive provider_step :: "host \<Rightarrow> (nat \<Rightarrow> stamps) \<Rightarrow> 'x wf_state \<Rightarrow> 'x wf_state \<Rightarrow> bool" for H T where
  answered: "workflow_execute H D T c cap args s = (Inr x, s') \<Longrightarrow> fresh_draws D (wf_rows s) \<Longrightarrow>
    (ctx_scope c = Personal \<longrightarrow> workspace_id c = None) \<Longrightarrow> provider_step H T s s'"
| refused: "workflow_execute H D T c cap args s = (Inl e, s1) \<Longrightarrow> wf_rows s' = wf_rows s \<Longrightarrow> provider_step H T s s'"

lemma provider_step_keeps:
  assumes "provider_step H T s s'" "wf_ok (wf_rows s)"
  shows "wf_ok (wf_rows s') \<and> prefix (wf_versions (wf_rows s)) (wf_versions (wf_rows s'))
    \<and> prefix (map wd_id (wf_definitions (wf_rows s))) (map wd_id (wf_definitions (wf_rows s')))"
  using assms
proof cases
  case (answered D c cap args x)
  have "wf_change c (wf_rows s) (wf_rows s')"
    by (rule execute_change [OF answered(1) assms(2) answered(2)]) (use answered(3) in blast)
  then show ?thesis using change_ok [OF _ assms(2)] change_keeps by blast
qed (use assms(2) in simp)

definition sample_head :: exec_context where
  "sample_head = \<lparr>workspace_id = Some ''t'', user_id = Some ''u'', membership_id = Some ''m'',
     role = ''owner'', permissions = {}, channel = ''web'', ctx_surface = WorkspaceShared,
     conversation_id = None, metadata = [], ctx_scope = Workspace, focus_workspace_id = Some ''t'',
     principal_id = Some ''user:u'', workspace_mode = ''full'', ctx_delegation = None\<rparr>"

definition sample_ids :: draws where
  "sample_ids = sample_draws\<lparr>id_at := (\<lambda>n. CHR ''y'' # replicate n (CHR ''x''))\<rparr>"

definition sample_stamps :: "nat \<Rightarrow> stamps" where
  "sample_stamps n = \<lparr>st_created = (\<lambda>i. 0), st_updated = (\<lambda>i. 0), st_runtime = []\<rparr>"

lemma sample_rows:
  "wf_rows (sample_wf spec []) = sample_wf_tables spec []"
  by (simp add: wf_rows_def sample_wf_tables_def)

lemma sample_rows_ok: "wf_ok (sample_wf_tables spec [])"
  by (simp add: wf_ok_def keyed_def numbered_def scheduled_def used_ids_def sample_wf_tables_def sample_definition_def
      sample_version_def sample_run_def)

lemma sample_rows_fresh: "fresh_draws sample_ids (sample_wf_tables spec [])"
  by (simp add: fresh_draws_def used_ids_def sample_wf_tables_def sample_definition_def sample_version_def sample_run_def
      sample_ids_def)

lemma sample_archived:
  "case workflow_execute sample_host sample_ids sample_stamps sample_head ''workflow.archive''
     [(''workflow_id'', JStr ''w'')] (sample_wf JNull []) of
     (Inl e, s') \<Rightarrow> False
   | (Inr x, s') \<Rightarrow> map wd_status (wf_definitions (wf_rows s')) = [''archived'']"
  by code_simp

text \<open>
  C27. The provider of the workflow capabilities, with the member access and the concurrency policy around its
  handlers, refines the abstract specification of its changes. Whatever capability, arguments and
  principal it is called with, a call that is answered makes one of the specified changes to the
  rows and leaves them well-formed: keys are unique, each workflow's versions are numbered up to
  its current one, which exists, and a schedule that is on belongs to an enabled workflow and has a
  next time. The ids it draws are new, and a personal principal has no workspace.
\<close>
theorem provider_refines_changes:
  assumes "workflow_execute H D T c cap args s = (Inr x, s')" "wf_ok (wf_rows s)" "fresh_draws D (wf_rows s)"
    and "ctx_scope c = Personal \<Longrightarrow> workspace_id c = None"
  shows "wf_change c (wf_rows s) (wf_rows s') \<and> wf_ok (wf_rows s')"
  using execute_change [OF assms] change_ok assms(2) by blast

theorem provider_refines_changes_witness:
  "\<exists>x s'. workflow_execute sample_host sample_ids sample_stamps sample_head ''workflow.archive''
     [(''workflow_id'', JStr ''w'')] (sample_wf JNull []) = (Inr x, s')
   \<and> map wd_status (wf_definitions (wf_rows s')) = [''archived'']
   \<and> wf_change sample_head (sample_wf_tables JNull []) (wf_rows s') \<and> wf_ok (wf_rows s')"
proof -
  obtain x s' where e: "workflow_execute sample_host sample_ids sample_stamps sample_head ''workflow.archive''
     [(''workflow_id'', JStr ''w'')] (sample_wf JNull []) = (Inr x, s')"
    "map wd_status (wf_definitions (wf_rows s')) = [''archived'']"
    using sample_archived by (auto split: prod.splits sum.splits)
  from provider_refines_changes [OF e(1)] e show ?thesis
    by (simp add: sample_rows sample_rows_ok sample_rows_fresh) (simp add: sample_head_def)
qed

text \<open>
  C28. Nobody changes what they do not reach. A workflow in another scope, and for a member who is not the
  owner of the workspace also the workflow of somebody else, keeps its row, its versions, its
  schedule and its triggers through every call that is answered; a run that the principal does not
  reach keeps its row and the rows of its steps.
\<close>
theorem provider_stays_in_reach:
  assumes "workflow_execute H D T c cap args s = (Inr x, s')" "wf_ok (wf_rows s)" "fresh_draws D (wf_rows s)"
    and "ctx_scope c = Personal \<Longrightarrow> workspace_id c = None"
  shows "(\<forall>w \<in> set (wf_definitions (wf_rows s)). \<not> reaches c w \<longrightarrow>
      workflow_part (wf_rows s') (wd_id w) = workflow_part (wf_rows s) (wd_id w))
    \<and> (\<forall>r \<in> set (wf_runs (wf_rows s)). \<not> reaches_run c r \<longrightarrow>
      run_part (wf_rows s') (rn_id r) = run_part (wf_rows s) (rn_id r))"
  using change_outside [OF execute_change [OF assms]] change_outside_runs [OF execute_change [OF assms]] assms(2)
  unfolding wf_ok_def by blast

text \<open>A member who does not own the workspace, and has one workflow of their own in it.\<close>

definition sample_other :: wf_definition where
  "sample_other = sample_definition\<lparr>wd_id := ''o'', wd_owner := Some ''v''\<rparr>"

definition sample_colleague :: exec_context where
  "sample_colleague = sample_head\<lparr>user_id := Some ''v'', role := ''member''\<rparr>"

definition two_workflows :: "nat wf_tables" where
  "two_workflows = (sample_wf_tables JNull [])\<lparr>wf_definitions := [sample_definition, sample_other],
     wf_versions := [sample_version JNull, (sample_version JNull)\<lparr>wv_id := ''ov'', wv_workflow := ''o''\<rparr>]\<rparr>"

lemma two_workflows_ok: "wf_rows (sample_state two_workflows) = two_workflows" "wf_ok two_workflows"
  "fresh_draws sample_ids two_workflows"
  by (simp_all add: wf_rows_def two_workflows_def wf_ok_def keyed_def numbered_def scheduled_def used_ids_def
      sample_wf_tables_def sample_definition_def sample_version_def sample_run_def sample_other_def fresh_draws_def sample_ids_def)

lemma colleague_archives:
  "case workflow_execute sample_host sample_ids sample_stamps sample_colleague ''workflow.archive''
     [(''workflow_id'', JStr ''o'')] (sample_state two_workflows) of
     (Inl e, s') \<Rightarrow> False
   | (Inr x, s') \<Rightarrow> map wd_status (wf_definitions (wf_rows s')) = [''enabled'', ''archived'']"
  by code_simp

theorem provider_stays_in_reach_witness:
  "\<exists>x s'. workflow_execute sample_host sample_ids sample_stamps sample_colleague ''workflow.archive''
     [(''workflow_id'', JStr ''o'')] (sample_state two_workflows) = (Inr x, s')
   \<and> map wd_status (wf_definitions (wf_rows s')) = [''enabled'', ''archived'']
   \<and> workflow_part (wf_rows s') ''w'' = workflow_part two_workflows ''w''"
proof -
  obtain x s' where e: "workflow_execute sample_host sample_ids sample_stamps sample_colleague ''workflow.archive''
     [(''workflow_id'', JStr ''o'')] (sample_state two_workflows) = (Inr x, s')"
    "map wd_status (wf_definitions (wf_rows s')) = [''enabled'', ''archived'']"
    using colleague_archives by (auto split: prod.splits sum.splits)
  have "sample_definition \<in> set (wf_definitions two_workflows)" "\<not> reaches sample_colleague sample_definition" "wd_id sample_definition = ''w''"
    by (simp_all add: two_workflows_def reaches_def is_root_def sample_colleague_def sample_head_def sample_definition_def)
  with provider_stays_in_reach [OF e(1)] have "workflow_part (wf_rows s') ''w'' = workflow_part two_workflows ''w''"
    unfolding two_workflows_ok(1) using two_workflows_ok by (auto simp: sample_colleague_def sample_head_def)
  with e show ?thesis by (intro exI conjI)
qed

text \<open>
  C29. The history of a workflow is immutable: through any calls of the provider by anyone, refused ones
  among them, the versions that exist stay as they are and new ones are only added after them, no
  definition is ever removed, so an archived workflow keeps its row, and the rows stay well-formed.
\<close>
theorem version_history_is_immutable:
  assumes "(provider_step H T)\<^sup>*\<^sup>* s s'" "wf_ok (wf_rows s)"
  shows "prefix (wf_versions (wf_rows s)) (wf_versions (wf_rows s'))
    \<and> prefix (map wd_id (wf_definitions (wf_rows s))) (map wd_id (wf_definitions (wf_rows s'))) \<and> wf_ok (wf_rows s')"
  using assms
proof (induction rule: rtranclp_induct)
  case (step s1 s2)
  with provider_step_keeps [OF step(2)] show ?case by (meson prefix_order.trans)
qed simp

theorem version_history_is_immutable_witness:
  "\<exists>s'. (provider_step sample_host sample_stamps)\<^sup>*\<^sup>* (sample_state two_workflows) s'
   \<and> map wd_status (wf_definitions (wf_rows s')) = [''enabled'', ''archived''] \<and> prefix (wf_versions two_workflows) (wf_versions (wf_rows s'))"
proof -
  obtain x s' where e: "workflow_execute sample_host sample_ids sample_stamps sample_colleague ''workflow.archive''
     [(''workflow_id'', JStr ''o'')] (sample_state two_workflows) = (Inr x, s')"
    "map wd_status (wf_definitions (wf_rows s')) = [''enabled'', ''archived'']"
    using colleague_archives by (auto split: prod.splits sum.splits)
  have "provider_step sample_host sample_stamps (sample_state two_workflows) s'"
    by (rule provider_step.answered [OF e(1)])
      (simp_all add: two_workflows_ok, simp add: sample_colleague_def sample_head_def)
  then have r: "(provider_step sample_host sample_stamps)\<^sup>*\<^sup>* (sample_state two_workflows) s'" by blast
  from version_history_is_immutable [OF r] two_workflows_ok e(2) r show ?thesis by auto
qed

end
