(* ===== verification/Agent_Plans.thy ===== *)
theory Agent_Plans
  imports Kernel_Runtime
begin

text \<open>
  packages/agent_runtime/contracts.py and the tables of packages/database/agent_runtime_models.py:
  budgets, plans and results of agent runs, with the checks their constructors make, and the rows
  that keep a run, its steps and the attempts of a step.
\<close>

subsection \<open>Plans\<close>

record agent_budget =
  bu_steps :: int
  bu_mutations :: int

definition make_budget :: "int \<Rightarrow> int \<Rightarrow> agent_budget result" where
  "make_budget steps mutations =
     (if \<not> (1 \<le> steps \<and> steps \<le> 128) then Inl (ValueError ''max_steps must be between 1 and 128'')
      else if \<not> (0 \<le> mutations \<and> mutations \<le> 64) then Inl (ValueError ''max_mutations must be between 0 and 64'')
      else Inr \<lparr>bu_steps = steps, bu_mutations = mutations\<rparr>)"

record plan_step =
  ps_id :: string
  ps_capability :: string
  ps_arguments :: "(string \<times> json) list"
  ps_approval :: "ident option"

text \<open>\<open>str(value or "").strip() or None\<close> on an optional text.\<close>

definition strip_or_none :: "string option \<Rightarrow> string option" where
  "strip_or_none v = (let s = py_strip (text_or_empty v) in if s = [] then None else Some s)"

definition make_plan_step :: "string \<Rightarrow> string \<Rightarrow> (string \<times> json) list \<Rightarrow> ident option \<Rightarrow> plan_step result" where
  "make_plan_step sid cap args approval =
     (let step = py_strip sid; capability = py_strip cap; given = strip_or_none approval in
      if step = [] \<or> 120 < length step then Inl (ValueError ''step_id must contain 1-120 characters'')
      else if capability = [] \<or> 200 < length capability then Inl (ValueError ''capability_id must contain 1-200 characters'')
      else if given \<noteq> None \<and> 36 < length (the given) then Inl (ValueError ''approval_id must be at most 36 characters'')
      else Inr \<lparr>ps_id = step, ps_capability = capability, ps_arguments = args, ps_approval = given\<rparr>)"

record agent_plan =
  pl_run :: ident
  pl_goal :: string
  pl_steps :: "plan_step list"
  pl_budget :: agent_budget

definition make_plan :: "ident \<Rightarrow> string \<Rightarrow> plan_step list \<Rightarrow> agent_budget \<Rightarrow> agent_plan result" where
  "make_plan rid goal steps budget =
     (let run = py_strip rid; aim = py_strip goal in
      if run = [] \<or> 120 < length run then Inl (ValueError ''run_id must contain 1-120 characters'')
      else if aim = [] \<or> 12000 < length aim then Inl (ValueError ''goal must contain 1-12000 characters'')
      else if steps = [] then Inl (ValueError ''Agent plan must contain at least one step'')
      else if \<not> distinct (map ps_id steps) then Inl (ValueError ''Agent plan step_id values must be unique'')
      else Inr \<lparr>pl_run = run, pl_goal = aim, pl_steps = steps, pl_budget = budget\<rparr>)"

text \<open>
  The identity of a step's mutation: the same for every execution of the step, and bounded.
\<close>

definition stable_step_request_id :: "host \<Rightarrow> ident \<Rightarrow> string \<Rightarrow> string" where
  "stable_step_request_id H rid sid = ''agent-step:'' @ sha256_hex H (py_strip rid @ [CHR 0x00] @ py_strip sid)"

subsection \<open>Statuses and results\<close>

datatype agent_run_status =
    Agent_Queued
  | Agent_Running
  | Agent_Waiting_Approval
  | Agent_Completed
  | Agent_Failed
  | Agent_Cancelled
  | Agent_Budget_Exhausted
  | Agent_Uncertain

datatype agent_step_status =
    Plan_Pending
  | Plan_Completed
  | Plan_Waiting_Approval
  | Plan_Failed
  | Plan_Cancelled
  | Plan_Uncertain

fun agent_run_text :: "agent_run_status \<Rightarrow> string" where
  "agent_run_text Agent_Queued = ''queued''"
| "agent_run_text Agent_Running = ''running''"
| "agent_run_text Agent_Waiting_Approval = ''waiting_approval''"
| "agent_run_text Agent_Completed = ''completed''"
| "agent_run_text Agent_Failed = ''failed''"
| "agent_run_text Agent_Cancelled = ''cancelled''"
| "agent_run_text Agent_Budget_Exhausted = ''budget_exhausted''"
| "agent_run_text Agent_Uncertain = ''execution_uncertain''"

fun agent_step_text :: "agent_step_status \<Rightarrow> string" where
  "agent_step_text Plan_Pending = ''pending''"
| "agent_step_text Plan_Completed = ''completed''"
| "agent_step_text Plan_Waiting_Approval = ''waiting_approval''"
| "agent_step_text Plan_Failed = ''failed''"
| "agent_step_text Plan_Cancelled = ''cancelled''"
| "agent_step_text Plan_Uncertain = ''execution_uncertain''"

record step_result =
  ss_step :: string
  ss_capability :: string
  ss_request :: string
  ss_status :: agent_step_status
  ss_kernel_run :: "ident option"
  ss_result :: "(string \<times> json) list option"
  ss_approval :: "ident option"
  ss_code :: "string option"
  ss_error :: "string option"

record agent_result =
  ar_run_id :: ident
  ar_outcome :: agent_run_status
  ar_records :: "step_result list"
  ar_next :: "string option"
  ar_needs :: "ident option"
  ar_code :: "string option"
  ar_error :: "string option"

definition agent_done :: "agent_result \<Rightarrow> bool" where
  "agent_done r = (ar_outcome r \<in> {Agent_Completed, Agent_Failed, Agent_Cancelled, Agent_Budget_Exhausted, Agent_Uncertain})"

subsection \<open>Rows\<close>

text \<open>
  A column that holds JSON text is \<open>None\<close> when the text is not JSON. \<open>created_at\<close> and \<open>updated_at\<close>
  are maintained and read by nothing here, and are left out.
\<close>

record agent_run =
  ag_id :: ident
  ag_scope :: string
  ag_workspace :: "ident option"
  ag_owner :: "ident option"
  ag_authority :: "ident option"
  ag_principal :: string
  ag_conversation :: "ident option"
  ag_channel :: string
  ag_surface :: string
  ag_goal :: string
  ag_plan :: json
  ag_budget :: "json option"
  ag_status :: agent_run_status
  ag_step :: "string option"
  ag_cancel :: bool
  ag_token :: "string option"
  ag_until :: "time option"
  ag_code :: "string option"
  ag_error :: "string option"
  ag_result :: "(string \<times> json) list"
  ag_started :: "time option"
  ag_finished :: "time option"

record agent_step =
  as_id :: ident
  as_run :: ident
  as_step :: string
  as_order :: nat
  as_capability :: string
  as_arguments :: "json option"
  as_request :: string
  as_status :: agent_step_status
  as_attempts :: int
  as_kernel_run :: "ident option"
  as_approval :: "ident option"
  as_result :: "(string \<times> json) list"
  as_code :: "string option"
  as_error :: "string option"
  as_started :: "time option"
  as_finished :: "time option"

record agent_attempt =
  aa_id :: ident
  aa_run :: ident
  aa_step :: ident
  aa_attempt :: int
  aa_capability :: string
  aa_request :: string
  aa_status :: agent_step_status
  aa_kernel_run :: "ident option"
  aa_approval :: "ident option"
  aa_arguments :: "json option"
  aa_result :: "(string \<times> json) list"
  aa_code :: "string option"
  aa_error :: "string option"
  aa_finished :: time

record 'x agent_tables =
  at_runs :: "agent_run list"
  at_steps :: "agent_step list"
  at_attempts :: "agent_attempt list"
  at_authority :: authority_db
  at_data :: 'x

end
