(* ===== verification/Agent_Store.thy ===== *)
theory Agent_Store
  imports Agent_Plans
begin

text \<open>
  packages/agent_runtime/store.py: the operations on the rows of agent runs. The state is the session
  of the kernel with the agent tables as its data, and the run that the session has loaded: the
  session's identity map gives the loaded object again for every later load of the row, also with a
  row lock, and a rollback forgets it, while a statement on columns sees the row as it is.
\<close>

subsection \<open>State and actions\<close>

text \<open>
  What is read from outside, by the number of the reading: the clock, fresh ids, what one kernel
  execution draws, what other sessions have committed to the run and to the tables of people and
  workspaces, and how the heartbeats of the lease went while a capability ran.
\<close>

datatype beat = Beat | Beat_Fails

record agent_draws =
  dr_now :: "nat \<Rightarrow> time"
  dr_id :: "nat \<Rightarrow> ident"
  dr_kernel :: "nat \<Rightarrow> fresh"
  dr_outside :: "nat \<Rightarrow> agent_run \<Rightarrow> agent_run"
  dr_authority :: "nat \<Rightarrow> authority_db \<Rightarrow> authority_db"
  dr_beats :: "nat \<Rightarrow> beat list"
  dr_cancel :: "nat \<Rightarrow> bool"

record 'x agent_state =
  ax_world :: "'x agent_tables world"
  ax_seen :: "agent_run option"
  ax_expired :: bool
  ax_tick :: nat

type_synonym ('x, 'a) aact = "('x agent_state, 'a) act"

definition take_draw :: "(nat \<Rightarrow> 'a) \<Rightarrow> ('x, 'a) aact" where
  "take_draw f s = (Inr (f (ax_tick s)), s\<lparr>ax_tick := Suc (ax_tick s)\<rparr>)"

definition agent_tables_of :: "'x agent_state \<Rightarrow> 'x agent_tables" where
  "agent_tables_of s = kt_data (working (w_session (ax_world s)))"

definition on_agent_data :: "('x agent_tables \<Rightarrow> 'x agent_tables) \<Rightarrow> 'x agent_tables kernel_tables \<Rightarrow> 'x agent_tables kernel_tables" where
  "on_agent_data f t = t\<lparr>kt_data := f (kt_data t)\<rparr>"

definition on_agent :: "('x agent_tables \<Rightarrow> 'x agent_tables) \<Rightarrow> 'x agent_state \<Rightarrow> 'x agent_state" where
  "on_agent f s = s\<lparr>ax_world := (ax_world s)\<lparr>w_session := on_working (on_agent_data f) (w_session (ax_world s))\<rparr>\<rparr>"

text \<open>What another session has committed is in the database and seen by the next statement.\<close>

definition on_both :: "('x agent_tables \<Rightarrow> 'x agent_tables) \<Rightarrow> 'x agent_state \<Rightarrow> 'x agent_state" where
  "on_both f s = s\<lparr>ax_world := (ax_world s)\<lparr>w_session :=
     \<lparr>committed = on_agent_data f (committed (w_session (ax_world s))), working = on_agent_data f (working (w_session (ax_world s)))\<rparr>\<rparr>\<rparr>"

definition change :: "('x agent_tables \<Rightarrow> 'x agent_tables) \<Rightarrow> ('x, unit) aact" where
  "change f = modify (on_agent f)"

definition look :: "('x agent_tables \<Rightarrow> 'a) \<Rightarrow> ('x, 'a) aact" where
  "look g s = (Inr (g (agent_tables_of s)), s)"

definition commit_agent :: "('x, unit) aact" where
  "commit_agent = modify (\<lambda>s. s\<lparr>ax_world := (ax_world s)\<lparr>w_session := commit (w_session (ax_world s))\<rparr>\<rparr>)"

definition rollback_agent :: "('x, unit) aact" where
  "rollback_agent = modify (\<lambda>s. s\<lparr>ax_world := (ax_world s)\<lparr>w_session := rollback (w_session (ax_world s))\<rparr>, ax_seen := None, ax_expired := True\<rparr>)"

definition find_agent_run :: "ident \<Rightarrow> 'x agent_tables \<Rightarrow> agent_run option" where
  "find_agent_run i t = find (\<lambda>r. ag_id r = i) (at_runs t)"

definition set_agent_run :: "ident \<Rightarrow> (agent_run \<Rightarrow> agent_run) \<Rightarrow> 'x agent_tables \<Rightarrow> 'x agent_tables" where
  "set_agent_run i f t = t\<lparr>at_runs := update_where (\<lambda>r. ag_id r = i) f (at_runs t)\<rparr>"

definition set_agent_step :: "ident \<Rightarrow> (agent_step \<Rightarrow> agent_step) \<Rightarrow> 'x agent_tables \<Rightarrow> 'x agent_tables" where
  "set_agent_step i f t = t\<lparr>at_steps := update_where (\<lambda>r. as_id r = i) f (at_steps t)\<rparr>"

text \<open>A write of some columns: to the row, and to the loaded object when it is this row.\<close>

definition seen_too :: "ident \<Rightarrow> (agent_run \<Rightarrow> agent_run) \<Rightarrow> agent_run option \<Rightarrow> agent_run option" where
  "seen_too i f r = map_option (\<lambda>x. if ag_id x = i then f x else x) r"

definition write_run :: "ident \<Rightarrow> (agent_run \<Rightarrow> agent_run) \<Rightarrow> ('x, unit) aact" where
  "write_run i f = modify (\<lambda>s. (on_agent (set_agent_run i f) s)\<lparr>ax_seen := seen_too i f (ax_seen s)\<rparr>)"

definition keep_id :: "(agent_run \<Rightarrow> agent_run) \<Rightarrow> agent_run \<Rightarrow> agent_run" where
  "keep_id f r = (f r)\<lparr>ag_id := ag_id r\<rparr>"

definition others_write :: "agent_draws \<Rightarrow> ident \<Rightarrow> ('x, unit) aact" where
  "others_write D rid = bind_act (take_draw (dr_outside D)) (\<lambda>f. modify (on_both (set_agent_run rid (keep_id f))))"

text \<open>\<open>db.get\<close> and a select of the row, with or without a lock.\<close>

definition load_run :: "ident \<Rightarrow> ('x, agent_run option) aact" where
  "load_run rid s = (case ax_seen s of
       Some r \<Rightarrow> if ag_id r = rid then (Inr (Some r), s)
         else (Inr (find_agent_run rid (agent_tables_of s)), s\<lparr>ax_seen := find_agent_run rid (agent_tables_of s)\<rparr>)
     | None \<Rightarrow> (Inr (find_agent_run rid (agent_tables_of s)), s\<lparr>ax_seen := find_agent_run rid (agent_tables_of s)\<rparr>))"

definition lock_run :: "agent_draws \<Rightarrow> ident \<Rightarrow> ('x, agent_run option) aact" where
  "lock_run D rid = bind_act (others_write D rid) (\<lambda>_. load_run rid)"

subsection \<open>Creating and loading\<close>

definition terminal_status :: "agent_run_status \<Rightarrow> bool" where
  "terminal_status st = (st \<in> {Agent_Completed, Agent_Failed, Agent_Cancelled, Agent_Budget_Exhausted, Agent_Uncertain})"

fun allowed_transition :: "agent_run_status \<Rightarrow> agent_run_status \<Rightarrow> bool" where
  "allowed_transition Agent_Queued st = (st \<in> {Agent_Running, Agent_Cancelled})"
| "allowed_transition Agent_Running st = (st \<in> {Agent_Waiting_Approval, Agent_Completed, Agent_Failed, Agent_Cancelled,
     Agent_Budget_Exhausted, Agent_Uncertain})"
| "allowed_transition Agent_Waiting_Approval st = (st \<in> {Agent_Queued, Agent_Cancelled})"
| "allowed_transition _ st = False"

definition json_text :: "(string \<times> json) list \<Rightarrow> json" where
  "json_text kvs = sort_keys (JObj kvs)"

text \<open>What a JSON object column holds after a write.\<close>

definition kept :: "(string \<times> json) list \<Rightarrow> (string \<times> json) list" where
  "kept kvs = (case json_text kvs of JObj r \<Rightarrow> r | _ \<Rightarrow> [])"

definition object_json :: "json option \<Rightarrow> string \<Rightarrow> (string \<times> json) list result" where
  "object_json raw label = (case raw of
       None \<Rightarrow> Inl (AgentRunStateError (''Stored '' @ label @ '' is invalid JSON''))
     | Some (JObj kvs) \<Rightarrow> Inr kvs
     | Some _ \<Rightarrow> Inl (AgentRunStateError (''Stored '' @ label @ '' must be a JSON object'')))"

definition plan_step_json :: "plan_step \<Rightarrow> json" where
  "plan_step_json st = JObj [(''step_id'', JStr (ps_id st)), (''capability_id'', JStr (ps_capability st)),
     (''arguments'', JObj (ps_arguments st)), (''approval_id'', opt_json (ps_approval st))]"

definition plan_json :: "agent_plan \<Rightarrow> json" where
  "plan_json p = json_text [(''run_id'', JStr (pl_run p)), (''goal'', JStr (pl_goal p)), (''steps'', JArr (map plan_step_json (pl_steps p)))]"

definition budget_json :: "agent_plan \<Rightarrow> json" where
  "budget_json p = json_text [(''max_steps'', JInt (bu_steps (pl_budget p))), (''max_mutations'', JInt (bu_mutations (pl_budget p)))]"

definition scope_values :: "exec_context \<Rightarrow> (string \<times> ident option \<times> ident option) result" where
  "scope_values c =
     (if \<not> present (principal_id c) then Inl (AgentRunStateError ''Agent runs require a resolved principal_id'')
      else if \<not> present (user_id c) then Inl (AgentRunStateError ''Initial agent runtime supports authenticated users only'')
      else if is_guest_workspace c then
        Inl (AgentRunStateError ''Guest Workspace agent runs require durable external-installation provenance'')
      else if ctx_scope c = Personal then
        if ctx_surface c \<noteq> PersonalPrivate then
          Inl (AgentRunStateError ''Initial Personal agent runs require the trusted personal-private surface'')
        else Inr (''personal'', None, user_id c)
      else if \<not> present (workspace_id c) then Inl (AgentRunStateError ''Workspace agent runs require a workspace_id'')
      else if ctx_surface c \<notin> {WorkspacePrivate, WorkspaceShared} then
        Inl (AgentRunStateError ''Delegated/external Workspace surfaces require durable delegation provenance'')
      else Inr (''workspace'', workspace_id c, None))"

definition context_matches_run :: "exec_context \<Rightarrow> agent_run \<Rightarrow> bool" where
  "context_matches_run c r =
     (if text_or_empty (principal_id c) \<noteq> ag_principal r then False
      else if ag_scope r = ''personal'' then
        ctx_scope c = Personal \<and> user_id c = ag_owner r \<and> workspace_id c = None
      else ctx_scope c = Workspace \<and> workspace_id c = ag_workspace r \<and> \<not> is_guest_workspace c)"

definition new_run :: "exec_context \<Rightarrow> agent_plan \<Rightarrow> string \<times> ident option \<times> ident option \<Rightarrow> agent_run" where
  "new_run c p scope = \<lparr>ag_id = pl_run p, ag_scope = fst scope, ag_workspace = fst (snd scope), ag_owner = snd (snd scope),
     ag_authority = user_id c, ag_principal = text_or_empty (principal_id c), ag_conversation = conversation_id c,
     ag_channel = take 40 (channel_or_unknown (channel c)), ag_surface = surface_value (ctx_surface c), ag_goal = pl_goal p,
     ag_plan = plan_json p, ag_budget = Some (budget_json p), ag_status = Agent_Queued, ag_step = None, ag_cancel = False,
     ag_token = None, ag_until = None, ag_code = None, ag_error = None, ag_result = [], ag_started = None, ag_finished = None\<rparr>"

definition new_step :: "host \<Rightarrow> agent_plan \<Rightarrow> ident \<Rightarrow> nat \<Rightarrow> plan_step \<Rightarrow> agent_step" where
  "new_step H p sid order st = \<lparr>as_id = sid, as_run = pl_run p, as_step = ps_id st, as_order = order,
     as_capability = ps_capability st, as_arguments = Some (json_text (ps_arguments st)),
     as_request = stable_step_request_id H (pl_run p) (ps_id st), as_status = Plan_Pending, as_attempts = 0,
     as_kernel_run = None, as_approval = ps_approval st, as_result = [], as_code = None, as_error = None,
     as_started = None, as_finished = None\<rparr>"

fun add_steps :: "host \<Rightarrow> agent_draws \<Rightarrow> agent_plan \<Rightarrow> nat \<Rightarrow> plan_step list \<Rightarrow> ('x, unit) aact" where
  "add_steps H D p n [] = ret ()"
| "add_steps H D p n (st # sts) =
     bind_act (take_draw (dr_id D)) (\<lambda>sid.
     bind_act (change (\<lambda>t. t\<lparr>at_steps := at_steps t @ [new_step H p sid n st]\<rparr>)) (\<lambda>_.
     add_steps H D p (Suc n) sts))"

definition create_run :: "host \<Rightarrow> agent_draws \<Rightarrow> exec_context \<Rightarrow> agent_plan \<Rightarrow> ('x, agent_run) aact" where
  "create_run H D c p =
     bind_act (load_run (pl_run p)) (\<lambda>found.
     if found \<noteq> None then raise (AgentRunStateError ''Agent run_id already exists'') else
     bind_act (lift (scope_values c)) (\<lambda>scope.
     let row = new_run c p scope in
     bind_act (change (\<lambda>t. t\<lparr>at_runs := at_runs t @ [row]\<rparr>)) (\<lambda>_.
     bind_act (modify (\<lambda>s. s\<lparr>ax_seen := Some row\<rparr>)) (\<lambda>_.
     bind_act (add_steps H D p 0 (pl_steps p)) (\<lambda>_.
     ret row)))))"

definition steps_of_run :: "ident \<Rightarrow> 'x agent_tables \<Rightarrow> agent_step list" where
  "steps_of_run rid t = sort_key as_order (filter (\<lambda>s. as_run s = rid) (at_steps t))"

definition list_steps :: "ident \<Rightarrow> ('x, agent_step list) aact" where
  "list_steps rid = bind_act (modify (\<lambda>s. s\<lparr>ax_expired := False\<rparr>)) (\<lambda>_. look (steps_of_run rid))"

definition load_step :: "agent_step \<Rightarrow> plan_step result" where
  "load_step st =
     bind_result (object_json (as_arguments st) (''step '' @ as_step st @ '' arguments'')) (\<lambda>args.
     make_plan_step (as_step st) (as_capability st) args (as_approval st))"

text \<open>Only the errors of the contracts are translated; one about stored JSON passes.\<close>

definition contract_error :: "exn \<Rightarrow> exn" where
  "contract_error e = (case e of
       ValueError _ \<Rightarrow> AgentRunStateError ''Stored agent plan violates runtime contracts''
     | TypeError _ \<Rightarrow> AgentRunStateError ''Stored agent plan violates runtime contracts''
     | _ \<Rightarrow> e)"

definition rebuild_plan :: "agent_run \<Rightarrow> (string \<times> json) list \<Rightarrow> agent_step list \<Rightarrow> agent_plan result" where
  "rebuild_plan r budget steps =
     bind_result (py_int (case obj_get ''max_steps'' budget of None \<Rightarrow> JInt 0 | Some v \<Rightarrow> v)) (\<lambda>n.
     bind_result (py_int (case obj_get ''max_mutations'' budget of None \<Rightarrow> JInt (-1) | Some v \<Rightarrow> v)) (\<lambda>m.
     bind_result (make_budget n m) (\<lambda>b.
     bind_result (sequence_result load_step steps) (\<lambda>sts.
     make_plan (ag_id r) (ag_goal r) sts b))))"

definition load_plan :: "ident \<Rightarrow> ('x, agent_plan) aact" where
  "load_plan rid =
     bind_act (load_run rid) (\<lambda>found. case found of
       None \<Rightarrow> raise (AgentRunStateError ''Agent run does not exist'')
     | Some r \<Rightarrow>
         bind_act (lift (object_json (ag_budget r) ''agent budget'')) (\<lambda>budget.
         bind_act (list_steps rid) (\<lambda>steps.
         if steps = [] then raise (AgentRunStateError ''Durable agent run has no steps'')
         else lift (case rebuild_plan r budget steps of Inl e \<Rightarrow> Inl (contract_error e) | Inr p \<Rightarrow> Inr p))))"

definition get_run_for_context :: "exec_context \<Rightarrow> ident \<Rightarrow> ('x, agent_run option) aact" where
  "get_run_for_context c rid = bind_act (load_run rid) (\<lambda>found. case found of
       None \<Rightarrow> ret None
     | Some r \<Rightarrow> ret (if context_matches_run c r then Some r else None))"

subsection \<open>Cancelling\<close>

definition live_lease :: "time \<Rightarrow> agent_run \<Rightarrow> bool" where
  "live_lease now r = (present (ag_token r) \<and> (case ag_until r of None \<Rightarrow> False | Some u \<Rightarrow> now < u))"

text \<open>The columns that the request writes, decided by the loaded row.\<close>

definition request_cancel :: "time \<Rightarrow> agent_run \<Rightarrow> agent_run \<Rightarrow> agent_run" where
  "request_cancel now r =
     (if ag_status r \<in> {Agent_Queued, Agent_Waiting_Approval} \<or> ag_status r = Agent_Running \<and> \<not> live_lease now r
      then (\<lambda>x. x\<lparr>ag_status := Agent_Cancelled, ag_cancel := True, ag_token := None, ag_until := None, ag_finished := Some now\<rparr>)
      else (\<lambda>x. x\<lparr>ag_cancel := True\<rparr>))"

definition request_cancellation :: "agent_draws \<Rightarrow> exec_context \<Rightarrow> ident \<Rightarrow> ('x, agent_run) aact" where
  "request_cancellation D c rid =
     bind_act (lock_run D rid) (\<lambda>found. case found of
       None \<Rightarrow> raise (AgentRunStateError ''Agent run is unavailable in this authority scope'')
     | Some r \<Rightarrow>
         if \<not> context_matches_run c r then raise (AgentRunStateError ''Agent run is unavailable in this authority scope'')
         else if terminal_status (ag_status r) then ret r
         else bind_act (take_draw (dr_now D)) (\<lambda>now.
           bind_act (write_run rid (request_cancel now r)) (\<lambda>_.
           ret (request_cancel now r r))))"

definition cancellation_requested :: "agent_draws \<Rightarrow> ident \<Rightarrow> ('x, bool) aact" where
  "cancellation_requested D rid =
     bind_act (others_write D rid) (\<lambda>_.
     bind_act (look (find_agent_run rid)) (\<lambda>found. case found of
       None \<Rightarrow> raise (AgentRunStateError ''Agent run does not exist'')
     | Some r \<Rightarrow> ret (ag_cancel r)))"

subsection \<open>The lease\<close>

definition lease_token_ok :: "string \<Rightarrow> int \<Rightarrow> string result" where
  "lease_token_ok token lease =
     (let t = py_strip token in
      if t = [] \<or> 80 < length t then Inl (ValueError ''lease_token must contain 1-80 characters'')
      else if \<not> (5 \<le> lease \<and> lease \<le> 900) then Inl (ValueError ''lease_seconds must be between 5 and 900'')
      else Inr t)"

definition claimable_run :: "string \<Rightarrow> time \<Rightarrow> agent_run \<Rightarrow> bool" where
  "claimable_run token now r =
     (ag_status r \<in> {Agent_Queued, Agent_Running} \<and> (\<not> ag_cancel r \<or> ag_status r = Agent_Running)
      \<and> ((case ag_until r of None \<Rightarrow> True | Some u \<Rightarrow> u < now) \<or> ag_token r = Some token))"

definition claimed_run :: "string \<Rightarrow> time \<Rightarrow> int \<Rightarrow> agent_run \<Rightarrow> agent_run" where
  "claimed_run token now lease r = r\<lparr>ag_status := Agent_Running, ag_token := Some token, ag_until := Some (now + seconds lease),
     ag_started := (case ag_started r of None \<Rightarrow> Some now | Some x \<Rightarrow> Some x)\<rparr>"

text \<open>An update of the rows with the id that satisfy \<open>p\<close>; the answer is whether there was one.\<close>

definition update_run :: "ident \<Rightarrow> (agent_run \<Rightarrow> bool) \<Rightarrow> (agent_run \<Rightarrow> agent_run) \<Rightarrow> ('x, bool) aact" where
  "update_run rid p f =
     bind_act (look (find_agent_run rid)) (\<lambda>found. case found of
       None \<Rightarrow> ret False
     | Some r \<Rightarrow> if p r then bind_act (write_run rid f) (\<lambda>_. ret True) else ret False)"

definition claim_run :: "agent_draws \<Rightarrow> ident \<Rightarrow> string \<Rightarrow> int \<Rightarrow> ('x, agent_run option) aact" where
  "claim_run D rid token lease =
     bind_act (lift (lease_token_ok token lease)) (\<lambda>t.
     bind_act (take_draw (dr_now D)) (\<lambda>now.
     bind_act (others_write D rid) (\<lambda>_.
     bind_act (update_run rid (claimable_run t now) (claimed_run t now lease)) (\<lambda>ok.
     if \<not> ok then ret None else load_run rid))))"

definition holds_lease :: "string \<Rightarrow> agent_run \<Rightarrow> bool" where
  "holds_lease token r = (ag_status r = Agent_Running \<and> ag_token r = Some token)"

definition renewed_run :: "time \<Rightarrow> int \<Rightarrow> agent_run \<Rightarrow> agent_run" where
  "renewed_run now lease r = r\<lparr>ag_until := Some (now + seconds lease)\<rparr>"

definition renew_run_lease :: "agent_draws \<Rightarrow> ident \<Rightarrow> string \<Rightarrow> int \<Rightarrow> ('x, bool) aact" where
  "renew_run_lease D rid token lease =
     bind_act (lift (lease_token_ok token lease)) (\<lambda>t.
     bind_act (take_draw (dr_now D)) (\<lambda>now.
     bind_act (others_write D rid) (\<lambda>_.
     update_run rid (holds_lease t) (renewed_run now lease))))"

definition without_lease :: "agent_run \<Rightarrow> agent_run" where
  "without_lease r = r\<lparr>ag_token := None, ag_until := None\<rparr>"

definition release_run_lease :: "agent_draws \<Rightarrow> ident \<Rightarrow> string \<Rightarrow> ('x, bool) aact" where
  "release_run_lease D rid token =
     bind_act (others_write D rid) (\<lambda>_.
     update_run rid (\<lambda>r. ag_token r = Some (py_strip token)) without_lease)"

subsection \<open>Transitions\<close>

definition some_text :: "string option \<Rightarrow> string option" where
  "some_text v = (if present v then v else None)"

definition moved_run ::
  "time \<Rightarrow> agent_run_status \<Rightarrow> string option \<Rightarrow> string option \<Rightarrow> string option \<Rightarrow> (string \<times> json) list option \<Rightarrow>
   agent_run \<Rightarrow> agent_run" where
  "moved_run now target step code message result r =
     (let r1 = r\<lparr>ag_status := target, ag_step := step, ag_code := code, ag_error := some_text message,
            ag_result := (case result of None \<Rightarrow> ag_result r | Some v \<Rightarrow> kept v)\<rparr>;
          r2 = (if target = Agent_Waiting_Approval \<or> terminal_status target then without_lease r1 else r1) in
      if terminal_status target then r2\<lparr>ag_finished := Some now\<rparr> else r2)"

definition transition_run ::
  "agent_draws \<Rightarrow> ident \<Rightarrow> agent_run_status \<Rightarrow> string option \<Rightarrow> string option \<Rightarrow> string option \<Rightarrow>
   (string \<times> json) list option \<Rightarrow> ('x, agent_run) aact" where
  "transition_run D rid target step code message result =
     bind_act (lock_run D rid) (\<lambda>found. case found of
       None \<Rightarrow> raise (AgentRunStateError ''Agent run does not exist'')
     | Some r \<Rightarrow>
         if \<not> allowed_transition (ag_status r) target then
           raise (AgentRunStateError (''Invalid agent run transition: '' @ agent_run_text (ag_status r) @ '' -> '' @ agent_run_text target))
         else bind_act (take_draw (dr_now D)) (\<lambda>now.
           bind_act (write_run rid (moved_run now target step code message result)) (\<lambda>_.
           ret (moved_run now target step code message result r))))"

definition find_agent_step :: "ident \<Rightarrow> string \<Rightarrow> 'x agent_tables \<Rightarrow> agent_step option" where
  "find_agent_step rid sid t = find (\<lambda>s. as_run s = rid \<and> as_step s = sid) (at_steps t)"

definition approved_step :: "ident \<Rightarrow> agent_step \<Rightarrow> agent_step" where
  "approved_step approval st = st\<lparr>as_approval := Some approval, as_status := Plan_Pending, as_code := None, as_error := None\<rparr>"

definition queued_again :: "agent_run \<Rightarrow> agent_run" where
  "queued_again r = r\<lparr>ag_status := Agent_Queued, ag_token := None, ag_until := None, ag_code := None, ag_error := None\<rparr>"

definition queue_after_approval :: "agent_draws \<Rightarrow> exec_context \<Rightarrow> ident \<Rightarrow> string \<Rightarrow> ('x, agent_run) aact" where
  "queue_after_approval D c rid approval =
     (let given = py_strip approval in
      if given = [] \<or> 36 < length given then raise (ValueError ''approval_id must contain 1-36 characters'') else
      bind_act (lock_run D rid) (\<lambda>found. case found of
        None \<Rightarrow> raise (AgentRunStateError ''Agent run is unavailable in this authority scope'')
      | Some r \<Rightarrow>
          if \<not> context_matches_run c r then raise (AgentRunStateError ''Agent run is unavailable in this authority scope'')
          else if ag_cancel r then raise (AgentRunStateError ''Cancelled agent run cannot resume'')
          else if ag_status r \<noteq> Agent_Waiting_Approval \<or> \<not> present (ag_step r) then
            raise (AgentRunStateError ''Agent run is not waiting for approval'')
          else bind_act (look (find_agent_step rid (text_or_empty (ag_step r)))) (\<lambda>step. case step of
              None \<Rightarrow> raise (AgentRunStateError ''Approval-waiting agent step is unavailable'')
            | Some st \<Rightarrow>
                if as_status st \<noteq> Plan_Waiting_Approval then
                  raise (AgentRunStateError ''Approval-waiting agent step is unavailable'')
                else bind_act (change (set_agent_step (as_id st) (approved_step given))) (\<lambda>_.
                  bind_act (write_run rid queued_again) (\<lambda>_.
                  ret (queued_again r))))))"

definition result_items :: "step_result \<Rightarrow> (string \<times> json) list" where
  "result_items x = kept (case ss_result x of None \<Rightarrow> [] | Some v \<Rightarrow> v)"

definition new_agent_attempt :: "ident \<Rightarrow> time \<Rightarrow> agent_step \<Rightarrow> step_result \<Rightarrow> agent_attempt" where
  "new_agent_attempt i now st x = \<lparr>aa_id = i, aa_run = as_run st, aa_step = as_id st, aa_attempt = as_attempts st + 1,
     aa_capability = as_capability st, aa_request = as_request st, aa_status = ss_status x, aa_kernel_run = ss_kernel_run x,
     aa_approval = ss_approval x, aa_arguments = as_arguments st, aa_result = result_items x, aa_code = ss_code x,
     aa_error = ss_error x, aa_finished = now\<rparr>"

definition recorded_step :: "time \<Rightarrow> step_result \<Rightarrow> agent_step \<Rightarrow> agent_step" where
  "recorded_step now x st = st\<lparr>as_attempts := as_attempts st + 1, as_status := ss_status x, as_kernel_run := ss_kernel_run x,
     as_approval := ss_approval x, as_result := result_items x, as_code := ss_code x, as_error := ss_error x,
     as_started := (case as_started st of None \<Rightarrow> Some now | Some u \<Rightarrow> Some u),
     as_finished := (if ss_status x \<in> {Plan_Completed, Plan_Failed, Plan_Cancelled, Plan_Uncertain} then Some now else None)\<rparr>"

definition record_step_result :: "agent_draws \<Rightarrow> ident \<Rightarrow> step_result \<Rightarrow> ('x, agent_step) aact" where
  "record_step_result D rid x =
     bind_act (look (find_agent_step rid (ss_step x))) (\<lambda>found. case found of
       None \<Rightarrow> raise (AgentRunStateError ''Agent step does not exist'')
     | Some st \<Rightarrow>
         if as_capability st \<noteq> ss_capability x \<or> as_request st \<noteq> ss_request x then
           raise (AgentRunStateError ''Agent step result does not match durable step identity'')
         else bind_act (take_draw (dr_now D)) (\<lambda>now.
           bind_act (take_draw (dr_id D)) (\<lambda>aid.
           bind_act (change (\<lambda>t. (set_agent_step (as_id st) (recorded_step now x) t)
             \<lparr>at_attempts := at_attempts t @ [new_agent_attempt aid now st x]\<rparr>)) (\<lambda>_.
           ret (recorded_step now x st)))))"

end
