(* ===== verification/Agent_Runtime.thy ===== *)
theory Agent_Runtime
  imports Agent_Store
begin

text \<open>
  packages/agent_runtime/runtime.py: an agent step is executed only by the kernel, under the one
  request identity of the step, and what the kernel answers is read as the result of the step. A plan
  is checked against its budget before its first step.
\<close>

record 'x agent_env =
  ae_kernel :: "'x agent_tables kernel_env"
  ae_enabled :: bool

definition require_enabled :: "'x agent_env \<Rightarrow> ('x, unit) aact" where
  "require_enabled E = (if ae_enabled E then ret () else raise (AgentRuntimeDisabled ''Agent runtime is disabled''))"

subsection \<open>The budget\<close>

fun count_mutations :: "registry \<Rightarrow> plan_step list \<Rightarrow> int result" where
  "count_mutations reg [] = Inr 0"
| "count_mutations reg (st # sts) =
     bind_result (get_spec reg (ps_capability st)) (\<lambda>spec.
     bind_result (count_mutations reg sts) (\<lambda>n.
     Inr (if cs_risk spec = Read_Only then n else n + 1)))"

text \<open>Why a plan may not run, if it may not.\<close>

definition preflight_plan :: "'x agent_env \<Rightarrow> agent_plan \<Rightarrow> string option" where
  "preflight_plan E p =
     (let n = int (length (pl_steps p)); b = pl_budget p in
      if bu_steps b < n then
        Some (''Plan contains '' @ int_str n @ '' steps but the budget allows '' @ int_str (bu_steps b))
      else (case count_mutations (en_registry (ae_kernel E)) (pl_steps p) of
          Inl e \<Rightarrow> Some (''Plan references an unknown capability: '' @ exn_message e)
        | Inr m \<Rightarrow>
            if bu_mutations b < m then
              Some (''Plan contains '' @ int_str m @ '' mutating steps but the budget allows '' @ int_str (bu_mutations b))
            else None))"

subsection \<open>One step\<close>

definition step_request :: "host \<Rightarrow> exec_context \<Rightarrow> ident \<Rightarrow> string \<Rightarrow> plan_step \<Rightarrow> runtime_request" where
  "step_request H c rid goal st = \<lparr>rq_goal = goal, rq_capability = Some (ps_capability st), rq_arguments = ps_arguments st,
     rq_conversation = conversation_id c, rq_request_id = Some (stable_step_request_id H rid (ps_id st)),
     rq_approval_id = ps_approval st\<rparr>"

text \<open>
  Whether the execution rolled the session back: it did when it failed, and when it lost the race for
  the claim of the request and replayed the winner's response. (An exception that no handler of the
  kernel catches ends the pass.)
\<close>

definition rolled_back ::
  "host \<Rightarrow> exec_context \<Rightarrow> runtime_request \<Rightarrow> 'd world \<Rightarrow> runtime_response result \<times> 'd world \<Rightarrow> bool" where
  "rolled_back H c r w a = (case a of
       (Inl _, _) \<Rightarrow> True
     | (Inr _, w') \<Rightarrow> w_calls w' = w_calls w \<and> find_completed_request H (working (w_session w)) c r = Inr None)"

definition agent_kernel ::
  "host \<Rightarrow> 'x agent_env \<Rightarrow> agent_draws \<Rightarrow> exec_context \<Rightarrow> runtime_request \<Rightarrow> ('x, runtime_response) aact" where
  "agent_kernel H E D c r s =
     (case kernel_execute H (ae_kernel E) (dr_kernel D (ax_tick s)) c r (ax_world s) of
        (x, w) \<Rightarrow>
          let s' = s\<lparr>ax_world := w, ax_tick := Suc (ax_tick s)\<rparr> in
          (x, if rolled_back H c r (ax_world s) (x, w) then s'\<lparr>ax_seen := None, ax_expired := True\<rparr> else s'))"

text \<open>
  After an error past the reservation: the response of the claim if it completed, and whether the
  outcome is unknown. A claim that is still running means that the provider may have been reached.
\<close>

definition mutation_recovery_state ::
  "host \<Rightarrow> 'x agent_env \<Rightarrow> exec_context \<Rightarrow> runtime_request \<Rightarrow> plan_step \<Rightarrow> string \<Rightarrow>
   ('x, runtime_response option \<times> bool) aact" where
  "mutation_recovery_state H E c r st code s =
     (let unsure = (code = ''request_in_progress'') in
      case get_spec (en_registry (ae_kernel E)) (ps_capability st) of
        Inl e \<Rightarrow> (Inr (None, unsure), s)
      | Inr spec \<Rightarrow>
          if cs_risk spec = Read_Only then (Inr (None, False), s)
          else (case find_completed_request H (working (w_session (ax_world s))) c r of
              Inr replay \<Rightarrow> (Inr (replay, unsure), s)
            | Inl e \<Rightarrow> (case e of
                  IdempotencyInProgress _ \<Rightarrow> (Inr (None, True), s)
                | IdempotencyConflict _ \<Rightarrow> (Inr (None, unsure), s)
                | _ \<Rightarrow> (Inl e, s))))"

definition result_of ::
  "host \<Rightarrow> ident \<Rightarrow> plan_step \<Rightarrow> agent_step_status \<Rightarrow> ident option \<Rightarrow> ident option \<Rightarrow> string \<Rightarrow> string \<Rightarrow> step_result" where
  "result_of H rid st status krun approval code message = \<lparr>ss_step = ps_id st, ss_capability = ps_capability st,
     ss_request = stable_step_request_id H rid (ps_id st), ss_status = status, ss_kernel_run = krun, ss_result = None,
     ss_approval = approval, ss_code = Some code, ss_error = Some message\<rparr>"

definition completed_result :: "host \<Rightarrow> ident \<Rightarrow> plan_step \<Rightarrow> runtime_response \<Rightarrow> step_result" where
  "completed_result H rid st resp = \<lparr>ss_step = ps_id st, ss_capability = ps_capability st,
     ss_request = stable_step_request_id H rid (ps_id st), ss_status = Plan_Completed, ss_kernel_run = Some (rr_run_id resp),
     ss_result = Some (case rr_result resp of None \<Rightarrow> [] | Some v \<Rightarrow> v), ss_approval = None, ss_code = None, ss_error = None\<rparr>"

definition pre_reservation_codes :: "string set" where
  "pre_reservation_codes = {''approval_required'', ''approval_invalid'', ''idempotency_conflict'', ''invalid_request'', ''forbidden''}"

definition uncertain_message :: "string \<Rightarrow> string \<Rightarrow> string" where
  "uncertain_message code message =
     ''Mutating capability outcome is uncertain and must be reconciled before any fresh execution: '' @ code @ '': '' @ message"

definition failed_execution ::
  "host \<Rightarrow> 'x agent_env \<Rightarrow> exec_context \<Rightarrow> ident \<Rightarrow> runtime_request \<Rightarrow> plan_step \<Rightarrow> string \<Rightarrow> ident \<Rightarrow> string \<Rightarrow> ident option \<Rightarrow>
   ('x, step_result) aact" where
  "failed_execution H E c rid r st message krun code approval =
     (if code \<in> pre_reservation_codes then
        ret (result_of H rid st (if code = ''approval_required'' then Plan_Waiting_Approval else Plan_Failed)
          (Some krun) approval code message)
      else bind_act (mutation_recovery_state H E c r st code) (\<lambda>(replay, unsure).
        ret (case replay of
            Some resp \<Rightarrow> completed_result H rid st resp
          | None \<Rightarrow>
              if unsure then result_of H rid st Plan_Uncertain (Some krun) approval ''execution_outcome_uncertain''
                (uncertain_message code message)
              else result_of H rid st Plan_Failed (Some krun) approval code message)))"

definition execute_step ::
  "host \<Rightarrow> 'x agent_env \<Rightarrow> agent_draws \<Rightarrow> exec_context \<Rightarrow> ident \<Rightarrow> string \<Rightarrow> plan_step \<Rightarrow> ('x, step_result) aact" where
  "execute_step H E D c rid goal st =
     bind_act (require_enabled E) (\<lambda>_ s.
     let r = step_request H c rid goal st in
     case agent_kernel H E D c r s of
       (Inr resp, s') \<Rightarrow> (Inr (completed_result H rid st resp), s')
     | (Inl (RuntimeExecutionError message krun code status approval), s') \<Rightarrow>
         failed_execution H E c rid r st message krun code approval s'
     | (Inl e, s') \<Rightarrow> (Inl e, s'))"

subsection \<open>A plan in one go\<close>

definition cancelled_record :: "host \<Rightarrow> ident \<Rightarrow> plan_step \<Rightarrow> step_result" where
  "cancelled_record H rid st = result_of H rid st Plan_Cancelled None None ''cancelled''
     ''Agent run was cancelled before capability execution''"

definition stopped_at :: "ident \<Rightarrow> agent_run_status \<Rightarrow> step_result list \<Rightarrow> step_result \<Rightarrow> agent_result" where
  "stopped_at rid status records x = \<lparr>ar_run_id = rid, ar_outcome = status, ar_records = records, ar_next = Some (ss_step x),
     ar_needs = ss_approval x, ar_code = ss_code x, ar_error = ss_error x\<rparr>"

definition finished_result :: "ident \<Rightarrow> step_result list \<Rightarrow> agent_result" where
  "finished_result rid records = \<lparr>ar_run_id = rid, ar_outcome = Agent_Completed, ar_records = records, ar_next = None,
     ar_needs = None, ar_code = None, ar_error = None\<rparr>"

definition over_budget :: "ident \<Rightarrow> string \<Rightarrow> agent_result" where
  "over_budget rid message = \<lparr>ar_run_id = rid, ar_outcome = Agent_Budget_Exhausted, ar_records = [], ar_next = None,
     ar_needs = None, ar_code = Some ''budget_exhausted'', ar_error = Some message\<rparr>"

fun plan_stop :: "agent_step_status \<Rightarrow> agent_run_status option" where
  "plan_stop Plan_Uncertain = Some Agent_Uncertain"
| "plan_stop Plan_Waiting_Approval = Some Agent_Waiting_Approval"
| "plan_stop Plan_Failed = Some Agent_Failed"
| "plan_stop _ = None"

text \<open>The steps in order, until one is not completed or the token has been cancelled, as drawn before each.\<close>

fun execute_steps ::
  "host \<Rightarrow> 'x agent_env \<Rightarrow> agent_draws \<Rightarrow> exec_context \<Rightarrow> agent_plan \<Rightarrow> step_result list \<Rightarrow> plan_step list \<Rightarrow>
   ('x, agent_result) aact" where
  "execute_steps H E D c p records [] = ret (finished_result (pl_run p) records)"
| "execute_steps H E D c p records (st # sts) =
     bind_act (take_draw (dr_cancel D)) (\<lambda>cancelled.
     if cancelled then
       ret \<lparr>ar_run_id = pl_run p, ar_outcome = Agent_Cancelled, ar_records = records @ [cancelled_record H (pl_run p) st],
         ar_next = Some (ps_id st), ar_needs = None, ar_code = Some ''cancelled'', ar_error = Some ''Agent run was cancelled''\<rparr>
     else bind_act (execute_step H E D c (pl_run p) (pl_goal p) st) (\<lambda>x.
       case plan_stop (ss_status x) of
         Some status \<Rightarrow> ret (stopped_at (pl_run p) status (records @ [x]) x)
       | None \<Rightarrow> execute_steps H E D c p (records @ [x]) sts))"

definition execute_plan ::
  "host \<Rightarrow> 'x agent_env \<Rightarrow> agent_draws \<Rightarrow> exec_context \<Rightarrow> agent_plan \<Rightarrow> ('x, agent_result) aact" where
  "execute_plan H E D c p =
     bind_act (require_enabled E) (\<lambda>_.
     case preflight_plan E p of
       Some message \<Rightarrow> ret (over_budget (pl_run p) message)
     | None \<Rightarrow> execute_steps H E D c p [] (pl_steps p))"

end
