(* ===== verification/Agent_Orchestrator.thy ===== *)
theory Agent_Orchestrator
  imports Agent_Runtime
begin

text \<open>
  packages/agent_runtime/orchestrator.py: one pass of a worker over a durable run. The run is claimed
  under a lease; before each pending step the lease is renewed, the cancellation flag read and the
  authority resolved anew; the result of the step is recorded before the next one.

  A pass has a session of its own. Other sessions may commit to the row of the run and to the tables of
  people and workspaces at every statement; the steps of the run are written only by the pass.
\<close>

record orchestrator =
  or_lease :: int
  or_interval :: rat

definition make_orchestrator :: "int \<Rightarrow> rat option \<Rightarrow> orchestrator result" where
  "make_orchestrator lease given =
     (let interval = (case given of None \<Rightarrow> max 1 (min 30 (of_int lease / 3)) | Some v \<Rightarrow> v) in
      if \<not> (30 \<le> lease \<and> lease \<le> 900) then Inl (ValueError ''lease_seconds must be between 30 and 900'')
      else if \<not> (1 / 100 \<le> interval \<and> interval < of_int lease) then
        Inl (ValueError ''heartbeat_interval_seconds must be positive and below lease_seconds'')
      else Inr \<lparr>or_lease = lease, or_interval = interval\<rparr>)"

lemma default_interval: "30 \<le> lease \<Longrightarrow> lease \<le> 900 \<Longrightarrow> \<exists>L. make_orchestrator lease None = Inr L \<and> or_lease L = lease"
  by (auto simp: make_orchestrator_def Let_def max_def min_def)

subsection \<open>The heartbeat\<close>

text \<open>The renewal in the heartbeat's own session, committed at once; the answer is whether the lease is lost.\<close>

definition beat_renews :: "agent_draws \<Rightarrow> ident \<Rightarrow> string \<Rightarrow> int \<Rightarrow> ('x, bool) aact" where
  "beat_renews D rid token lease =
     bind_act (lift (lease_token_ok token lease)) (\<lambda>t.
     bind_act (take_draw (dr_now D)) (\<lambda>now.
     bind_act (others_write D rid) (\<lambda>_.
     bind_act (look (find_agent_run rid)) (\<lambda>found.
     if (case found of None \<Rightarrow> False | Some r \<Rightarrow> holds_lease t r)
     then bind_act (modify (on_both (set_agent_run rid (renewed_run now lease)))) (\<lambda>_. ret True)
     else ret False))))"

fun lease_heartbeat :: "agent_draws \<Rightarrow> ident \<Rightarrow> string \<Rightarrow> int \<Rightarrow> beat list \<Rightarrow> ('x, bool) aact" where
  "lease_heartbeat D rid token lease [] = ret False"
| "lease_heartbeat D rid token lease (Beat_Fails # bs) = ret True"
| "lease_heartbeat D rid token lease (Beat # bs) = (\<lambda>s. case beat_renews D rid token lease s of
       (Inl e, s') \<Rightarrow> (Inr True, s')
     | (Inr renewed, s') \<Rightarrow> if renewed then lease_heartbeat D rid token lease bs s' else (Inr True, s'))"

subsection \<open>The authority\<close>

definition context_of_row :: "host \<Rightarrow> authority_db \<Rightarrow> agent_run \<Rightarrow> exec_context result" where
  "context_of_row H db r =
     (let uid = py_strip (text_or_empty (ag_authority r)); surf = coerce_surface (ag_surface r) in
      if uid = [] then Inl (ExecutionContextError ''Agent authority user is unavailable'')
      else if ag_scope r = ''personal'' then
        if surf \<noteq> PersonalPrivate \<or> ag_workspace r \<noteq> None then
          Inl (ExecutionContextError ''Stored Personal agent provenance is invalid'')
        else resolve_personal_execution_context H db uid (ag_channel r) (Some (surface_value surf)) (ag_conversation r) [] None None
      else if ag_scope r = ''workspace'' then
        if \<not> present (ag_workspace r) \<or> surf \<notin> {WorkspacePrivate, WorkspaceShared} then
          Inl (ExecutionContextError ''Stored Workspace agent provenance is invalid'')
        else resolve_execution_context H db (the (ag_workspace r)) (Some uid) (ag_channel r) (Some (surface_value surf))
          (ag_conversation r) [] True
      else Inl (ExecutionContextError ''Stored agent scope is invalid''))"

definition resolved_context :: "host \<Rightarrow> authority_db \<Rightarrow> agent_run \<Rightarrow> exec_context result" where
  "resolved_context H db r =
     bind_result (context_of_row H db r) (\<lambda>c.
     if is_guest_workspace c then Inl (ExecutionContextError ''Guest Workspace authority cannot resume this agent run'')
     else if text_or_empty (principal_id c) \<noteq> ag_principal r then
       Inl (ExecutionContextError ''Agent principal changed during authority resolution'')
     else if surface_value (ctx_surface c) \<noteq> ag_surface r then
       Inl (ExecutionContextError ''Agent surface changed during authority resolution'')
     else Inr c)"

definition set_authority :: "(authority_db \<Rightarrow> authority_db) \<Rightarrow> 'x agent_tables \<Rightarrow> 'x agent_tables" where
  "set_authority f t = t\<lparr>at_authority := f (at_authority t)\<rparr>"

definition resolve_current_context :: "host \<Rightarrow> agent_draws \<Rightarrow> agent_run \<Rightarrow> ('x, exec_context result) aact" where
  "resolve_current_context H D r =
     bind_act (take_draw (dr_authority D)) (\<lambda>f.
     bind_act (modify (on_both (set_authority f))) (\<lambda>_.
     look (\<lambda>t. resolved_context H (at_authority t) r)))"

subsection \<open>Ends of a pass\<close>

definition end_run ::
  "agent_draws \<Rightarrow> ident \<Rightarrow> agent_run_status \<Rightarrow> string option \<Rightarrow> string option \<Rightarrow> string option \<Rightarrow>
   (string \<times> json) list option \<Rightarrow> agent_result \<Rightarrow> ('x, agent_result option) aact" where
  "end_run D rid target step code message result answer =
     bind_act (transition_run D rid target step code message result) (\<lambda>_.
     bind_act commit_agent (\<lambda>_. ret (Some answer)))"

definition ended :: "ident \<Rightarrow> agent_run_status \<Rightarrow> step_result list \<Rightarrow> string option \<Rightarrow> ident option \<Rightarrow> string option \<Rightarrow> string option \<Rightarrow> agent_result" where
  "ended rid status records next_step approval code message = \<lparr>ar_run_id = rid, ar_outcome = status, ar_records = records,
     ar_next = next_step, ar_needs = approval, ar_code = code, ar_error = message\<rparr>"

definition fail_agent_run ::
  "agent_draws \<Rightarrow> ident \<Rightarrow> string \<Rightarrow> string \<Rightarrow> string option \<Rightarrow> step_result list \<Rightarrow> ('x, agent_result option) aact" where
  "fail_agent_run D rid code message step records = end_run D rid Agent_Failed step (Some code) (Some message) None
     (ended rid Agent_Failed records step None (Some code) (Some message))"

definition cancel_agent_run ::
  "agent_draws \<Rightarrow> ident \<Rightarrow> string \<Rightarrow> string option \<Rightarrow> step_result list \<Rightarrow> ('x, agent_result option) aact" where
  "cancel_agent_run D rid message step records = end_run D rid Agent_Cancelled step (Some ''cancelled'') (Some message) None
     (ended rid Agent_Cancelled records step None (Some ''cancelled'') (Some ''Agent run was cancelled''))"

definition mark_execution_uncertain :: "agent_draws \<Rightarrow> ident \<Rightarrow> step_result \<Rightarrow> step_result list \<Rightarrow> ('x, agent_result option) aact" where
  "mark_execution_uncertain D rid x records =
     (let message = (if present (ss_error x) then the (ss_error x) else ''Mutating capability outcome is uncertain'') in
      end_run D rid Agent_Uncertain (Some (ss_step x)) (Some ''execution_outcome_uncertain'') (Some message) None
        (ended rid Agent_Uncertain records (Some (ss_step x)) (ss_approval x) (Some ''execution_outcome_uncertain'') (Some message)))"

definition stop_agent_run ::
  "agent_draws \<Rightarrow> ident \<Rightarrow> agent_run_status \<Rightarrow> step_result \<Rightarrow> step_result list \<Rightarrow> ('x, agent_result option) aact" where
  "stop_agent_run D rid status x records = end_run D rid status (Some (ss_step x)) (ss_code x) (ss_error x) None
     (ended rid status records (Some (ss_step x)) (ss_approval x) (ss_code x) (ss_error x))"

subsection \<open>One step of a pass\<close>

text \<open>What the row of a step says before anything is done for it; \<open>Check_Run\<close> means that it is to be executed.\<close>

datatype step_check = Check_Skip | Check_Wait | Check_Refuse string string | Check_Run plan_step

definition check_step :: "host \<Rightarrow> ident \<Rightarrow> agent_plan \<Rightarrow> agent_step \<Rightarrow> step_check" where
  "check_step H rid p d = (case find (\<lambda>st. ps_id st = as_step d) (pl_steps p) of
       None \<Rightarrow> Check_Refuse ''invalid_durable_plan'' ''Durable step is missing from the reconstructed plan''
     | Some st \<Rightarrow>
         if as_request d \<noteq> stable_step_request_id H rid (as_step d) then
           Check_Refuse ''invalid_step_identity'' ''Durable agent step request identity is corrupted''
         else if as_status d = Plan_Completed then Check_Skip
         else if as_status d = Plan_Waiting_Approval \<and> \<not> present (as_approval d) then Check_Wait
         else if as_status d \<notin> {Plan_Pending, Plan_Waiting_Approval} then
           Check_Refuse ''invalid_step_state'' (''Cannot execute durable step in state '' @ agent_step_text (as_status d))
         else Check_Run st)"

definition agent_lease_lost :: "string \<Rightarrow> ('x, 'a) aact" where
  "agent_lease_lost message = bind_act rollback_agent (\<lambda>_. raise (AgentLeaseLost message))"

text \<open>
  Up to the kernel: cancellation, the lease, cancellation again, and the current authority. The answer
  is the context to execute in, or how the pass ends.
\<close>

definition before_step ::
  "host \<Rightarrow> orchestrator \<Rightarrow> agent_draws \<Rightarrow> ident \<Rightarrow> string \<Rightarrow> string \<Rightarrow> step_result list \<Rightarrow>
   ('x, agent_result option + exec_context) aact" where
  "before_step H L D rid token sid records =
     (let cancel = bind_act (cancel_agent_run D rid ''Agent run was cancelled before the next capability'' (Some sid) records)
        (\<lambda>x. ret (Inl x)) in
      bind_act (cancellation_requested D rid) (\<lambda>c1. if c1 then cancel else
      bind_act (renew_run_lease D rid token (or_lease L)) (\<lambda>ok.
      if \<not> ok then agent_lease_lost ''Agent run lease was lost before capability execution'' else
      bind_act commit_agent (\<lambda>_.
      bind_act (cancellation_requested D rid) (\<lambda>c2. if c2 then cancel else
      bind_act (load_run rid) (\<lambda>found. case found of
        None \<Rightarrow> raise (AgentRunStateError ''Agent run disappeared during execution'')
      | Some r \<Rightarrow>
          bind_act (resolve_current_context H D r) (\<lambda>context. case context of
            Inr c \<Rightarrow> ret (Inr c)
          | Inl e \<Rightarrow> (case e of
                ExecutionContextError m \<Rightarrow>
                  bind_act (fail_agent_run D rid ''authority_unavailable'' m (Some sid) records) (\<lambda>x. ret (Inl x))
              | _ \<Rightarrow> raise e))))))))"

text \<open>The capability runs while the heartbeat renews the lease; its task ends before the result is looked at.\<close>

definition run_capability ::
  "host \<Rightarrow> 'x agent_env \<Rightarrow> orchestrator \<Rightarrow> agent_draws \<Rightarrow> exec_context \<Rightarrow> agent_plan \<Rightarrow> ident \<Rightarrow> string \<Rightarrow> plan_step \<Rightarrow>
   ('x, step_result) aact" where
  "run_capability H E L D c p rid token st s =
     (case execute_step H E D c rid (pl_goal p) st s of
        (r, s1) \<Rightarrow> (case bind_act (take_draw (dr_beats D)) (lease_heartbeat D rid token (or_lease L)) s1 of
            (Inl e, s2) \<Rightarrow> (Inl e, s2)
          | (Inr lost, s2) \<Rightarrow> (case r of
                Inl e \<Rightarrow> (Inl e, s2)
              | Inr x \<Rightarrow> if lost then agent_lease_lost ''Agent run lease heartbeat was lost during capability execution'' s2
                  else (Inr x, s2))))"

text \<open>After the kernel: the result is recorded, and the pass goes on when the step is completed.\<close>

definition after_step ::
  "orchestrator \<Rightarrow> agent_draws \<Rightarrow> ident \<Rightarrow> string \<Rightarrow> step_result \<Rightarrow> step_result list \<Rightarrow> ('x, agent_result option option) aact" where
  "after_step L D rid token x records =
     (let stop = (\<lambda>m. bind_act m (\<lambda>y. ret (Some y))) in
      bind_act (cancellation_requested D rid) (\<lambda>c1.
      bind_act (if c1 then ret True else renew_run_lease D rid token (or_lease L)) (\<lambda>ok.
      if \<not> ok then agent_lease_lost ''Agent run lease was lost during capability execution'' else
      bind_act (record_step_result D rid x) (\<lambda>_.
      if ss_status x = Plan_Uncertain then stop (mark_execution_uncertain D rid x records) else
      bind_act (if c1 then ret True else cancellation_requested D rid) (\<lambda>c2.
      if c2 then stop (cancel_agent_run D rid ''Agent run was cancelled after the current capability completed'' (Some (ss_step x)) records)
      else (case ss_status x of
          Plan_Waiting_Approval \<Rightarrow> stop (stop_agent_run D rid Agent_Waiting_Approval x records)
        | Plan_Failed \<Rightarrow> stop (stop_agent_run D rid Agent_Failed x records)
        | _ \<Rightarrow> bind_act commit_agent (\<lambda>_. ret None)))))))"

subsection \<open>A pass\<close>

text \<open>The first look at a step of the list: an expired one cannot be read.\<close>

definition read_step :: "('x, unit) aact" where
  "read_step s = ((if ax_expired s then Inl (OtherError ''MissingGreenlet'') else Inr ()), s)"

fun run_agent_steps ::
  "host \<Rightarrow> 'x agent_env \<Rightarrow> orchestrator \<Rightarrow> agent_draws \<Rightarrow> agent_plan \<Rightarrow> ident \<Rightarrow> string \<Rightarrow> nat \<Rightarrow> step_result list \<Rightarrow>
   agent_step list \<Rightarrow> ('x, agent_result option) aact" where
  "run_agent_steps H E L D p rid token n records [] =
     end_run D rid Agent_Completed None None None (Some [(''completed_steps'', JInt (int n))]) (finished_result rid records)"
| "run_agent_steps H E L D p rid token n records (d # ds) =
     bind_act read_step (\<lambda>_. case check_step H rid p d of
        Check_Refuse code message \<Rightarrow> fail_agent_run D rid code message (Some (as_step d)) records
      | Check_Skip \<Rightarrow> run_agent_steps H E L D p rid token n records ds
      | Check_Wait \<Rightarrow> end_run D rid Agent_Waiting_Approval (Some (as_step d)) (Some ''approval_required'')
          (Some ''Agent step is waiting for approval'') None (ended rid Agent_Waiting_Approval records (Some (as_step d)) None
            (Some ''approval_required'') (Some ''Agent step is waiting for approval''))
      | Check_Run st \<Rightarrow>
          bind_act (before_step H L D rid token (as_step d) records) (\<lambda>go. case go of
            Inl answer \<Rightarrow> ret answer
          | Inr c \<Rightarrow>
              bind_act (run_capability H E L D c p rid token st) (\<lambda>x.
              bind_act (after_step L D rid token x (records @ [x])) (\<lambda>stop. case stop of
                Some answer \<Rightarrow> ret answer
              | None \<Rightarrow> run_agent_steps H E L D p rid token n (records @ [x]) ds))))"

definition run_loaded_plan ::
  "host \<Rightarrow> 'x agent_env \<Rightarrow> orchestrator \<Rightarrow> agent_draws \<Rightarrow> ident \<Rightarrow> string \<Rightarrow> agent_plan \<Rightarrow> ('x, agent_result option) aact" where
  "run_loaded_plan H E L D rid token p = (case preflight_plan E p of
       Some message \<Rightarrow> end_run D rid Agent_Budget_Exhausted None (Some ''budget_exhausted'') (Some message) None
         (over_budget rid message)
     | None \<Rightarrow> bind_act (list_steps rid) (\<lambda>ds. run_agent_steps H E L D p rid token (length ds) [] ds))"

definition run_agent_once ::
  "host \<Rightarrow> 'x agent_env \<Rightarrow> orchestrator \<Rightarrow> agent_draws \<Rightarrow> ident \<Rightarrow> string \<Rightarrow> ('x, agent_result option) aact" where
  "run_agent_once H E L D rid token =
     bind_act (require_enabled E) (\<lambda>_.
     bind_act (claim_run D rid token (or_lease L)) (\<lambda>claimed. case claimed of
       None \<Rightarrow> bind_act rollback_agent (\<lambda>_. ret None)
     | Some _ \<Rightarrow>
         bind_act commit_agent (\<lambda>_.
         bind_act (cancellation_requested D rid) (\<lambda>c.
         if c then cancel_agent_run D rid ''Agent run was cancelled before capability execution'' None [] else
         (\<lambda>s. case load_plan rid s of
            (Inr p, s') \<Rightarrow> run_loaded_plan H E L D rid token p s'
          | (Inl (AgentRunStateError m), s') \<Rightarrow> fail_agent_run D rid ''invalid_durable_plan'' m None [] s'
          | (Inl e, s') \<Rightarrow> (Inl e, s'))))))"

end
