(* ===== verification/Agent_Laws.thy ===== *)
theory Agent_Laws
  imports Agent_Orchestrator
begin

text \<open>
  How a pass over an agent run ends: the row of the run is committed in the state that the answer
  names, without a lease, and the answer tells the truth about the results of the steps.
\<close>

subsection \<open>What is committed at the end\<close>

definition committed_runs :: "'x agent_state \<Rightarrow> agent_run list" where
  "committed_runs s = at_runs (kt_data (committed (w_session (ax_world s))))"

text \<open>The answer of a pass is what the row of the run says, and it tells the truth about the steps.\<close>

definition truthful :: "agent_result \<Rightarrow> bool" where
  "truthful a = (((\<exists>x \<in> set (ar_records a). ss_status x = Plan_Uncertain) \<longrightarrow> ar_outcome a = Agent_Uncertain)
     \<and> (ar_outcome a = Agent_Completed \<longrightarrow> (\<forall>x \<in> set (ar_records a). ss_status x = Plan_Completed)))"

definition recorded :: "ident \<Rightarrow> agent_result \<Rightarrow> 'x agent_state \<Rightarrow> bool" where
  "recorded rid a s = (ar_run_id a = rid \<and> (ar_outcome a = Agent_Waiting_Approval \<or> terminal_status (ar_outcome a))
     \<and> (\<forall>r \<in> set (committed_runs s). ag_id r = rid \<longrightarrow>
          ag_status r = ar_outcome a \<and> ag_token r = None \<and> ag_until r = None))"

lemma moved_run_simps [simp]:
  "ag_id (moved_run now target step code message result r) = ag_id r"
  "ag_status (moved_run now target step code message result r) = target"
  "target = Agent_Waiting_Approval \<or> terminal_status target \<Longrightarrow> ag_token (moved_run now target step code message result r) = None"
  "target = Agent_Waiting_Approval \<or> terminal_status target \<Longrightarrow> ag_until (moved_run now target step code message result r) = None"
  by (auto simp: moved_run_def without_lease_def Let_def)

lemma aact_Inr:
  "take_draw d s = (Inr x, s') \<longleftrightarrow> x = d (ax_tick s) \<and> s' = s\<lparr>ax_tick := Suc (ax_tick s)\<rparr>"
  "change f s = (Inr u, s') \<longleftrightarrow> s' = on_agent f s"
  "look g s = (Inr y, s') \<longleftrightarrow> y = g (agent_tables_of s) \<and> s' = s"
  "write_run i h s = (Inr u, s') \<longleftrightarrow> s' = (on_agent (set_agent_run i h) s)\<lparr>ax_seen := seen_too i h (ax_seen s)\<rparr>"
  "commit_agent s = (Inr u, s') \<longleftrightarrow> s' = s\<lparr>ax_world := (ax_world s)\<lparr>w_session := commit (w_session (ax_world s))\<rparr>\<rparr>"
  by (auto simp: take_draw_def change_def look_def write_run_def commit_agent_def modify_def)

lemma committed_runs_commit:
  "committed_runs (s\<lparr>ax_world := (ax_world s)\<lparr>w_session := commit (w_session (ax_world s))\<rparr>\<rparr>) = at_runs (agent_tables_of s)"
  by (simp add: committed_runs_def agent_tables_of_def session_simps)

lemma agent_tables_simps [simp]:
  "agent_tables_of (on_agent f s) = f (agent_tables_of s)" "agent_tables_of (s\<lparr>ax_seen := x\<rparr>) = agent_tables_of s"
  "agent_tables_of (s\<lparr>ax_tick := n\<rparr>) = agent_tables_of s"
  by (simp_all add: agent_tables_of_def on_agent_def on_agent_data_def session_simps)

lemma transition_run_Inr:
  assumes "transition_run D rid target step code message result s = (Inr x, s')"
  obtains s0 now where "s' = (on_agent (set_agent_run rid (moved_run now target step code message result)) s0)
       \<lparr>ax_seen := seen_too rid (moved_run now target step code message result) (ax_seen s0)\<rparr>"
proof -
  from assms obtain found s0 where
    k: "(case found of None \<Rightarrow> raise (AgentRunStateError ''Agent run does not exist'')
     | Some r \<Rightarrow>
         if \<not> allowed_transition (ag_status r) target then
           raise (AgentRunStateError (''Invalid agent run transition: '' @ agent_run_text (ag_status r) @ '' -> '' @ agent_run_text target))
         else bind_act (take_draw (dr_now D)) (\<lambda>now.
           bind_act (write_run rid (moved_run now target step code message result)) (\<lambda>_.
           ret (moved_run now target step code message result r)))) s0 = (Inr x, s')"
    unfolding transition_run_def bind_act_Inr_iff by blast
  show thesis
  proof (cases found)
    case None then show ?thesis using k by simp
  next
    case (Some r)
    then show ?thesis
      using k that [of "dr_now D (ax_tick s0)" "s0\<lparr>ax_tick := Suc (ax_tick s0)\<rparr>"]
      by (simp add: bind_act_Inr_iff aact_Inr split: if_splits)
  qed
qed

lemma end_run_recorded:
  assumes "end_run D rid target step code message result answer s = (Inr y, s')"
    and "ar_outcome answer = target" "ar_run_id answer = rid" "target = Agent_Waiting_Approval \<or> terminal_status target"
  shows "y = Some answer \<and> recorded rid answer s'"
proof -
  from assms(1) obtain r s1 where t: "transition_run D rid target step code message result s = (Inr r, s1)"
    and s': "s' = s1\<lparr>ax_world := (ax_world s1)\<lparr>w_session := commit (w_session (ax_world s1))\<rparr>\<rparr>" and y: "y = Some answer"
    by (auto simp: end_run_def bind_act_Inr_iff aact_Inr)
  obtain s0 now where s1: "s1 = (on_agent (set_agent_run rid (moved_run now target step code message result)) s0)
       \<lparr>ax_seen := seen_too rid (moved_run now target step code message result) (ax_seen s0)\<rparr>"
    by (rule transition_run_Inr [OF t])
  have "committed_runs s' = at_runs (set_agent_run rid (moved_run now target step code message result) (agent_tables_of s0))"
    unfolding s' committed_runs_commit s1 by simp
  then show ?thesis
    using assms(2-4) y by (auto simp: recorded_def set_agent_run_def update_where_def)
qed

definition told :: "ident \<Rightarrow> agent_result option \<Rightarrow> 'x agent_state \<Rightarrow> bool" where
  "told rid y s = (\<exists>a. y = Some a \<and> recorded rid a s \<and> truthful a)"

lemma ended_simps [simp]:
  "ar_outcome (ended rid st rs n ap c m) = st" "ar_run_id (ended rid st rs n ap c m) = rid" "ar_records (ended rid st rs n ap c m) = rs"
  by (simp_all add: ended_def)

lemma end_told:
  assumes "end_run D rid target step code message result answer s = (Inr y, s')"
    and "ar_outcome answer = target" "ar_run_id answer = rid" "target = Agent_Waiting_Approval \<or> terminal_status target"
    and "truthful answer"
  shows "told rid y s'"
  using end_run_recorded [OF assms(1-4)] assms(5) by (auto simp: told_def)

definition certain :: "step_result list \<Rightarrow> bool" where
  "certain xs = (\<forall>x \<in> set xs. ss_status x \<noteq> Plan_Uncertain)"

lemma ends_told:
  "fail_agent_run D rid code m step records s = (Inr y, s') \<Longrightarrow> certain records \<Longrightarrow> told rid y s'"
  "cancel_agent_run D rid m step records s = (Inr y, s') \<Longrightarrow> certain records \<Longrightarrow> told rid y s'"
  "mark_execution_uncertain D rid x records s = (Inr y, s') \<Longrightarrow> told rid y s'"
  "stop_agent_run D rid Agent_Waiting_Approval x records s = (Inr y, s') \<Longrightarrow> certain records \<Longrightarrow> told rid y s'"
  "stop_agent_run D rid Agent_Failed x records s = (Inr y, s') \<Longrightarrow> certain records \<Longrightarrow> told rid y s'"
  unfolding fail_agent_run_def cancel_agent_run_def mark_execution_uncertain_def stop_agent_run_def Let_def
  by (erule end_told; simp add: terminal_status_def truthful_def certain_def)+

subsection \<open>Facts about every answer of an action\<close>

definition post :: "('s, 'a) act \<Rightarrow> ('a \<Rightarrow> 's \<Rightarrow> bool) \<Rightarrow> bool" where
  "post m Q = (\<forall>s x s'. m s = (Inr x, s') \<longrightarrow> Q x s')"

lemma postD: "post m Q \<Longrightarrow> m s = (Inr x, s') \<Longrightarrow> Q x s'"
  by (auto simp: post_def)

lemma post_bind: "(\<And>x. post (f x) Q) \<Longrightarrow> post (bind_act m f) Q"
  by (auto simp: post_def bind_act_Inr_iff)

lemma post_map: "(\<And>s x s'. m s = (Inr x, s') \<Longrightarrow> Q (g x) s') \<Longrightarrow> post (bind_act m (\<lambda>x. ret (g x))) Q"
  by (auto simp: post_def bind_act_Inr_iff)

lemma post_raise [simp]: "post (raise e) Q"
  by (auto simp: post_def)

lemma post_lost [simp]: "post (agent_lease_lost m) Q"
  by (auto simp: post_def agent_lease_lost_def bind_act_Inr_iff)

lemma post_ret: "(\<And>s. Q x s) \<Longrightarrow> post (ret x) Q"
  by (auto simp: post_def)

lemma post_if: "(b \<Longrightarrow> post m Q) \<Longrightarrow> (\<not> b \<Longrightarrow> post n Q) \<Longrightarrow> post (if b then m else n) Q"
  by simp

lemma post_option: "(x = None \<Longrightarrow> post m Q) \<Longrightarrow> (\<And>y. x = Some y \<Longrightarrow> post (f y) Q) \<Longrightarrow> post (case x of None \<Rightarrow> m | Some y \<Rightarrow> f y) Q"
  by (cases x) auto

lemma post_Inl: "(\<And>s x s'. m s = (Inr x, s') \<Longrightarrow> told rid x s') \<Longrightarrow>
    post (bind_act m (\<lambda>x. ret (Inl x))) (\<lambda>go s. \<forall>y. go = Inl y \<longrightarrow> told rid y s)"
  by (rule post_map) simp

lemma post_Some: "(\<And>s x s'. m s = (Inr x, s') \<Longrightarrow> told rid x s') \<Longrightarrow>
    post (bind_act m (\<lambda>x. ret (Some x))) (\<lambda>go s. \<forall>y. go = Some y \<longrightarrow> told rid y s)"
  by (rule post_map) simp

lemma post_answer: "post (ret (Inr c)) (\<lambda>go s. \<forall>y. go = Inl y \<longrightarrow> told rid y s)"
  "post (ret None) (\<lambda>go s. \<forall>y. go = Some y \<longrightarrow> told rid y s)"
  by (auto intro: post_ret)

lemma post_context:
  assumes "\<And>m. post (f m) Q" and "\<And>c. post (g c) Q"
  shows "post (case v of Inr c \<Rightarrow> g c | Inl e \<Rightarrow> (case e of ExecutionContextError m \<Rightarrow> f m | _ \<Rightarrow> raise e)) Q"
  using assms by (cases v) (auto split: exn.split)

lemma before_step_told:
  assumes "certain records"
  shows "post (before_step H L D rid token sid records) (\<lambda>go s. \<forall>y. go = Inl y \<longrightarrow> told rid y s)"
  unfolding before_step_def Let_def
  by (intro post_Inl post_answer post_raise post_lost post_if post_option post_context post_bind; erule ends_told, rule assms)

lemma post_status:
  assumes "st = Plan_Waiting_Approval \<Longrightarrow> post m Q" "st = Plan_Failed \<Longrightarrow> post n Q" "post k Q"
  shows "post (case st of Plan_Waiting_Approval \<Rightarrow> m | Plan_Failed \<Rightarrow> n | _ \<Rightarrow> k) Q"
  using assms by (cases st) auto

lemma after_step_told:
  assumes "ss_status x \<noteq> Plan_Uncertain \<Longrightarrow> certain records"
  shows "post (after_step L D rid token x records) (\<lambda>stop s. \<forall>y. stop = Some y \<longrightarrow> told rid y s)"
  unfolding after_step_def Let_def
  by (intro post_Some post_answer post_raise post_lost post_if post_status post_bind; erule ends_told; rule assms; assumption)

lemma after_step_goes_on:
  "post (after_step L D rid token x records) (\<lambda>stop s. stop = None \<longrightarrow> ss_status x \<notin> {Plan_Uncertain, Plan_Waiting_Approval, Plan_Failed})"
  unfolding after_step_def Let_def
  by (auto simp: post_def agent_lease_lost_def bind_act_Inr_iff split: agent_step_status.splits if_splits)

lemma execute_step_cases:
  assumes "execute_step H E D c rid goal st s = (Inr x, s')"
  obtains (Answered) resp where "agent_kernel H E D c (step_request H c rid goal st) s = (Inr resp, s')" "x = completed_result H rid st resp"
  | (Refused) m krun code status approval s1 where
      "agent_kernel H E D c (step_request H c rid goal st) s = (Inl (RuntimeExecutionError m krun code status approval), s1)"
      "failed_execution H E c rid (step_request H c rid goal st) st m krun code approval s1 = (Inr x, s')"
proof -
  obtain y s1 where k: "agent_kernel H E D c (step_request H c rid goal st) s = (y, s1)" by force
  have d: "(case (y, s1) of
       (Inr resp, s') \<Rightarrow> (Inr (completed_result H rid st resp), s')
     | (Inl (RuntimeExecutionError message krun code status approval), s') \<Rightarrow>
         failed_execution H E c rid (step_request H c rid goal st) st message krun code approval s'
     | (Inl e, s') \<Rightarrow> (Inl e, s')) = (Inr x, s')"
    using assms unfolding execute_step_def Let_def k [symmetric]
    by (simp add: bind_act_Inr_iff require_enabled_def split: if_splits)
  show thesis
  proof (cases y)
    case (Inr resp) then show ?thesis using d k Answered by simp
  next
    case (Inl e) then show ?thesis using d k Refused by (cases e) simp_all
  qed
qed

lemma failed_execution_status:
  "failed_execution H E c rid r st m krun code approval s = (Inr x, s') \<Longrightarrow>
   ss_status x \<in> {Plan_Completed, Plan_Waiting_Approval, Plan_Failed, Plan_Uncertain} \<and> ss_step x = ps_id st"
  by (auto simp: failed_execution_def bind_act_Inr_iff completed_result_def result_of_def split: if_splits option.splits)

lemma execute_step_status:
  assumes "execute_step H E D c rid goal st s = (Inr x, s')"
  shows "ss_status x \<in> {Plan_Completed, Plan_Waiting_Approval, Plan_Failed, Plan_Uncertain} \<and> ss_step x = ps_id st"
  using assms by (cases rule: execute_step_cases) (simp add: completed_result_def, rule failed_execution_status)

lemma run_capability_status:
  assumes "run_capability H E L D c p rid token st s = (Inr x, s')"
  shows "ss_status x \<in> {Plan_Completed, Plan_Waiting_Approval, Plan_Failed, Plan_Uncertain}"
proof -
  from assms obtain s1 where "execute_step H E D c rid (pl_goal p) st s = (Inr x, s1)"
    by (auto simp: run_capability_def agent_lease_lost_def bind_act_Inr_iff split: prod.splits sum.splits if_splits)
  then show ?thesis using execute_step_status by blast
qed

lemma finished_told: "\<forall>x \<in> set records. ss_status x = Plan_Completed \<Longrightarrow> truthful (finished_result rid records)"
  by (auto simp: truthful_def finished_result_def)

lemma waiting_told: "certain records \<Longrightarrow> truthful (ended rid Agent_Waiting_Approval records n ap c m)"
  by (auto simp: truthful_def certain_def)

lemma completed_certain: "\<forall>x \<in> set records. ss_status x = Plan_Completed \<Longrightarrow> certain records"
  by (auto simp: certain_def)

lemma read_step_Inr: "bind_act read_step f s = (Inr y, t) \<longleftrightarrow> \<not> ax_expired s \<and> f () s = (Inr y, t)"
  by (simp add: read_step_def bind_act_def)

lemma run_agent_steps_told:
  "run_agent_steps H E L D p rid token n records ds s = (Inr y, s') \<Longrightarrow> \<forall>x \<in> set records. ss_status x = Plan_Completed \<Longrightarrow>
   told rid y s'"
proof (induction ds arbitrary: records s)
  case Nil
  show ?case
    by (rule end_told [OF Nil(1) [unfolded run_agent_steps.simps] _ _ _ finished_told [OF Nil(2)]])
      (simp_all add: finished_result_def terminal_status_def)
next
  case (Cons d ds)
  note certain = completed_certain [OF Cons.prems(2)]
  show ?case
  proof (cases "check_step H rid p d")
    case Check_Skip then show ?thesis using Cons by (auto simp: read_step_Inr)
  next
    case Check_Wait
    then have "end_run D rid Agent_Waiting_Approval (Some (as_step d)) (Some ''approval_required'')
          (Some ''Agent step is waiting for approval'') None (ended rid Agent_Waiting_Approval records (Some (as_step d)) None
            (Some ''approval_required'') (Some ''Agent step is waiting for approval'')) s = (Inr y, s')"
      using Cons.prems(1) by (simp add: read_step_Inr)
    then show ?thesis by (rule end_told) (simp_all add: waiting_told certain)
  next
    case (Check_Refuse code m)
    then show ?thesis using Cons.prems(1) ends_told(1) certain by (fastforce simp: read_step_Inr)
  next
    case (Check_Run st)
    then obtain go s0 s1 where b: "before_step H L D rid token (as_step d) records s0 = (Inr go, s1)"
      and rest: "(case go of Inl answer \<Rightarrow> ret answer
          | Inr c \<Rightarrow>
              bind_act (run_capability H E L D c p rid token st) (\<lambda>x.
              bind_act (after_step L D rid token x (records @ [x])) (\<lambda>stop. case stop of
                Some answer \<Rightarrow> ret answer
              | None \<Rightarrow> run_agent_steps H E L D p rid token n (records @ [x]) ds))) s1 = (Inr y, s')"
      using Cons.prems(1) by (auto simp: bind_act_Inr_iff)
    show ?thesis
    proof (cases go)
      case (Inl a)
      then show ?thesis using postD [OF before_step_told [OF certain] b] rest by auto
    next
      case (Inr c)
      then obtain x s2 stop s3 where x: "run_capability H E L D c p rid token st s1 = (Inr x, s2)"
        and a: "after_step L D rid token x (records @ [x]) s2 = (Inr stop, s3)"
        and r: "(case stop of Some answer \<Rightarrow> ret answer
          | None \<Rightarrow> run_agent_steps H E L D p rid token n (records @ [x]) ds) s3 = (Inr y, s')"
        using rest by (auto simp: bind_act_Inr_iff)
      have c: "certain (records @ [x])" if "ss_status x \<noteq> Plan_Uncertain"
        using that certain by (simp add: certain_def)
      show ?thesis
      proof (cases stop)
        case None
        then have "ss_status x = Plan_Completed"
          using postD [OF after_step_goes_on a] run_capability_status [OF x] by auto
        then show ?thesis using Cons.IH Cons.prems(2) r None by auto
      next
        case (Some answer)
        then show ?thesis using postD [OF after_step_told [OF c] a] r by auto
      qed
    qed
  qed
qed

lemma run_loaded_plan_told:
  assumes "run_loaded_plan H E L D rid token p s = (Inr y, s')"
  shows "told rid y s'"
proof (cases "preflight_plan E p")
  case None
  then obtain ds s1 where "run_agent_steps H E L D p rid token (length ds) [] ds s1 = (Inr y, s')"
    using assms by (auto simp: run_loaded_plan_def bind_act_Inr_iff)
  then show ?thesis by (rule run_agent_steps_told) simp
next
  case (Some message)
  then have "end_run D rid Agent_Budget_Exhausted None (Some ''budget_exhausted'') (Some message) None
         (over_budget rid message) s = (Inr y, s')"
    using assms by (simp add: run_loaded_plan_def)
  then show ?thesis by (rule end_told) (simp_all add: over_budget_def terminal_status_def truthful_def)
qed

lemma run_agent_once_told:
  assumes "run_agent_once H E L D rid token s = (Inr (Some a), s')"
  shows "told rid (Some a) s'"
proof -
  from assms obtain s1 c where "(if c then cancel_agent_run D rid ''Agent run was cancelled before capability execution'' None [] else
         (\<lambda>s. case load_plan rid s of
            (Inr p, s') \<Rightarrow> run_loaded_plan H E L D rid token p s'
          | (Inl (AgentRunStateError m), s') \<Rightarrow> fail_agent_run D rid ''invalid_durable_plan'' m None [] s'
          | (Inl e, s') \<Rightarrow> (Inl e, s'))) s1 = (Inr (Some a), s')"
    by (auto simp: run_agent_once_def bind_act_Inr_iff split: option.splits)
  then show ?thesis
    using ends_told(1,2) run_loaded_plan_told
    by (fastforce simp: certain_def split: if_splits prod.splits sum.splits exn.splits)
qed

subsection \<open>A pass over a sample run\<close>

definition sample_agent_draws :: agent_draws where
  "sample_agent_draws = \<lparr>dr_now = int, dr_id = (\<lambda>n. ''id''), dr_kernel = (\<lambda>n. sample_fresh), dr_outside = (\<lambda>n r. r),
     dr_authority = (\<lambda>n db. db), dr_beats = (\<lambda>n. []), dr_cancel = (\<lambda>n. False)\<rparr>"

definition sample_agent_env :: "nat agent_env" where
  "sample_agent_env = \<lparr>ae_kernel = \<lparr>en_registry = [sample_spec_read, sample_spec_write], en_index = sample_index,
     en_providers = (\<lambda>k. Some (\<lambda>c spec args minimum d.
       (Inr \<lparr>xr_value = [(''n'', JInt 1)], xr_resource_type = None, xr_resource_id = None, xr_event = []\<rparr>, d)))\<rparr>,
     ae_enabled = True\<rparr>"

definition sample_agent_run :: agent_run where
  "sample_agent_run = \<lparr>ag_id = ''r'', ag_scope = ''workspace'', ag_workspace = Some ''w'', ag_owner = None,
     ag_authority = Some ''u'', ag_principal = ''user:u'', ag_conversation = None, ag_channel = ''web'',
     ag_surface = ''workspace_private'', ag_goal = ''g'', ag_plan = JNull,
     ag_budget = Some (JObj [(''max_mutations'', JInt 1), (''max_steps'', JInt 2)]), ag_status = Agent_Queued, ag_step = None,
     ag_cancel = False, ag_token = None, ag_until = None, ag_code = None, ag_error = None, ag_result = [], ag_started = None,
     ag_finished = None\<rparr>"

definition sample_agent_people :: authority_db where
  "sample_agent_people = \<lparr>users = [\<lparr>u_id = ''u'', u_active = True\<rparr>],
     tenants = [\<lparr>t_id = ''w'', t_name = ''Acme'', t_slug = Some ''acme''\<rparr>],
     members = [\<lparr>m_id = ''m'', m_tenant = ''w'', m_user = ''u'', m_role = ''owner''\<rparr>],
     roles = [], role_permissions = [], installations = []\<rparr>"

definition sample_agent_step :: "string \<Rightarrow> nat \<Rightarrow> agent_step_status \<Rightarrow> agent_step" where
  "sample_agent_step i n st = \<lparr>as_id = i, as_run = ''r'', as_step = i, as_order = n, as_capability = ''tasks.add'',
     as_arguments = Some (JObj []), as_request = stable_step_request_id sample_host ''r'' i, as_status = st,
     as_attempts = 0, as_kernel_run = None, as_approval = None, as_result = [], as_code = None, as_error = None,
     as_started = None, as_finished = None\<rparr>"

definition sample_agent_state :: "agent_step list \<Rightarrow> nat agent_state" where
  "sample_agent_state steps = (let t = \<lparr>kt_workspaces = [\<lparr>ws_id = ''w'', ws_name = ''W'', ws_timezone = ''UTC''\<rparr>],
     kt_claims = [], kt_approvals = [], kt_runs = [], kt_steps = [], kt_events = [],
     kt_data = \<lparr>at_runs = [sample_agent_run], at_steps = steps, at_attempts = [], at_authority = sample_agent_people, at_data = 0\<rparr>\<rparr> in
     \<lparr>ax_world = \<lparr>w_session = \<lparr>committed = t, working = t\<rparr>, w_calls = []\<rparr>, ax_seen = None, ax_expired = False, ax_tick = 0\<rparr>)"

definition sample_orchestrator :: orchestrator where
  "sample_orchestrator = \<lparr>or_lease = 60, or_interval = 20\<rparr>"

lemma sample_pass:
  "case run_agent_once sample_host sample_agent_env sample_orchestrator sample_agent_draws ''r'' ''t''
      (sample_agent_state [sample_agent_step ''a'' 0 Plan_Completed]) of
     (Inr (Some a), s') \<Rightarrow> ar_outcome a = Agent_Completed
   | _ \<Rightarrow> False"
  by code_simp

text \<open>
  C32. A pass that answers has ended the run the way it says. The row of the run is committed with the
  status of the answer, which is a final one or waiting for an approval, and with no lease; an answer
  with a step whose outcome is uncertain is uncertain, and a completed one has no step that is not.
\<close>

theorem agent_pass_is_recorded:
  assumes "run_agent_once H E L D rid token s = (Inr (Some a), s')"
  shows "recorded rid a s' \<and> truthful a"
  using run_agent_once_told [OF assms] by (simp add: told_def)

theorem agent_pass_is_recorded_witness:
  "\<exists>a s'. run_agent_once sample_host sample_agent_env sample_orchestrator sample_agent_draws ''r'' ''t''
      (sample_agent_state [sample_agent_step ''a'' 0 Plan_Completed]) = (Inr (Some a), s')
     \<and> recorded ''r'' a s' \<and> ar_outcome a = Agent_Completed"
proof -
  obtain a s' where p: "run_agent_once sample_host sample_agent_env sample_orchestrator sample_agent_draws ''r'' ''t''
      (sample_agent_state [sample_agent_step ''a'' 0 Plan_Completed]) = (Inr (Some a), s')" and "ar_outcome a = Agent_Completed"
    using sample_pass by (auto split: prod.splits sum.splits option.splits)
  with agent_pass_is_recorded [OF p] show ?thesis by blast
qed

end
