(* ===== verification/Agent_Calls.thy ===== *)
theory Agent_Calls
  imports Agent_Laws Kernel_Frame "HOL-Library.Sublist"
begin

text \<open>
  Which calls a pass over an agent run makes: at most one for each step that is to be executed, in the
  order of the steps, each let through by the kernel for a context with the authority that the run was
  created with; and, through any passes, at most one for the mutation of a step.
\<close>

subsection \<open>Whose run it is\<close>

text \<open>The columns of a run that say with whose authority it runs; they are written when it is created.\<close>

definition same_origin :: "agent_run \<Rightarrow> agent_run \<Rightarrow> bool" where
  "same_origin r q = (ag_scope r = ag_scope q \<and> ag_workspace r = ag_workspace q \<and> ag_authority r = ag_authority q
     \<and> ag_principal r = ag_principal q \<and> ag_surface r = ag_surface q \<and> ag_channel r = ag_channel q
     \<and> ag_conversation r = ag_conversation q)"

lemma same_origin_simps [simp]:
  "same_origin r r"
  "same_origin (renewed_run now lease r) q = same_origin r q"
  "same_origin (claimed_run token now lease r) q = same_origin r q"
  "same_origin (moved_run now target step code message result r) q = same_origin r q"
  "same_origin (r\<lparr>ag_id := i\<rparr>) q = same_origin r q"
  by (simp_all add: same_origin_def renewed_run_def claimed_run_def moved_run_def without_lease_def Let_def)

lemma resolved_context_origin: "same_origin r q \<Longrightarrow> resolved_context H db r = resolved_context H db q"
  by (simp add: resolved_context_def context_of_row_def same_origin_def Let_def cong: if_cong)

definition run_is :: "agent_run \<Rightarrow> 'x agent_tables \<Rightarrow> bool" where
  "run_is q t = (\<forall>r \<in> set (at_runs t). ag_id r = ag_id q \<longrightarrow> same_origin r q)"

definition others_keep_origin :: "agent_draws \<Rightarrow> bool" where
  "others_keep_origin D = (\<forall>n r. same_origin (dr_outside D n r) r)"

text \<open>
  What holds of the state of a pass for the run with the columns of \<open>q\<close>: the kernel's invariant of its
  claims and calls, and the run in the tables and in the identity map is the run that was created.
\<close>

definition sound :: "agent_run \<Rightarrow> 'x agent_state \<Rightarrow> bool" where
  "sound q s = (once_ok (ax_world s) \<and> data_ok (run_is q) (w_session (ax_world s))
     \<and> (\<forall>r. ax_seen s = Some r \<longrightarrow> ag_id r = ag_id q \<longrightarrow> same_origin r q))"

abbreviation agent_calls :: "'x agent_state \<Rightarrow> call list" where
  "agent_calls s \<equiv> w_calls (ax_world s)"

definition calling :: "agent_run \<Rightarrow> call list set \<Rightarrow> ('x, 'a) aact \<Rightarrow> bool" where
  "calling q C m = (\<forall>s. sound q s \<longrightarrow> sound q (snd (m s)) \<and> (\<exists>xs \<in> C. agent_calls (snd (m s)) = agent_calls s @ xs))"

abbreviation quiet :: "agent_run \<Rightarrow> ('x, 'a) aact \<Rightarrow> bool" where
  "quiet q m \<equiv> calling q {[]} m"

lemma callingD: "calling q C m \<Longrightarrow> sound q s \<Longrightarrow> m s = (x, s') \<Longrightarrow>
    sound q s' \<and> (\<exists>xs \<in> C. agent_calls s' = agent_calls s @ xs)"
  unfolding calling_def by (metis snd_conv)

lemma quietI: "(\<And>s. sound q s \<Longrightarrow> sound q (snd (m s)) \<and> agent_calls (snd (m s)) = agent_calls s) \<Longrightarrow> quiet q m"
  by (simp add: calling_def)

lemma calling_mono: "calling q C m \<Longrightarrow> C \<subseteq> C' \<Longrightarrow> calling q C' m"
  unfolding calling_def by blast

lemma calling_after:
  assumes "quiet q m" "[] \<in> C" "\<And>s x s'. sound q s \<Longrightarrow> m s = (Inr x, s') \<Longrightarrow> calling q C (f x)"
  shows "calling q C (bind_act m f)"
  unfolding calling_def
proof (intro allI impI)
  fix s :: "'a agent_state" assume s: "sound q s"
  obtain x s' where m: "m s = (x, s')" by force
  note q = callingD [OF assms(1) s m]
  show "sound q (snd (bind_act m f s)) \<and> (\<exists>xs \<in> C. agent_calls (snd (bind_act m f s)) = agent_calls s @ xs)"
  proof (cases x)
    case (Inl e) then show ?thesis using q m assms(2) by (simp add: bind_act_def)
  next
    case (Inr a)
    then have "calling q C (f a)" using assms(3) s m by simp
    moreover have e: "sound q s'" "agent_calls s' = agent_calls s" using q by simp_all
    ultimately have "sound q (snd (f a s')) \<and> (\<exists>xs \<in> C. agent_calls (snd (f a s')) = agent_calls s' @ xs)"
      unfolding calling_def by blast
    then show ?thesis using Inr m e by (simp add: bind_act_def)
  qed
qed

lemma calling_before:
  assumes "calling q C m" "\<And>s x s'. sound q s \<Longrightarrow> m s = (Inr x, s') \<Longrightarrow> quiet q (f x)"
  shows "calling q C (bind_act m f)"
  unfolding calling_def
proof (intro allI impI)
  fix s :: "'a agent_state" assume s: "sound q s"
  obtain x s' where m: "m s = (x, s')" by force
  note q = callingD [OF assms(1) s m]
  show "sound q (snd (bind_act m f s)) \<and> (\<exists>xs \<in> C. agent_calls (snd (bind_act m f s)) = agent_calls s @ xs)"
  proof (cases x)
    case (Inl e) then show ?thesis using q m by (simp add: bind_act_def)
  next
    case (Inr a)
    then have "quiet q (f a)" using assms(2) s m by simp
    then show ?thesis using Inr q m by (simp add: bind_act_def calling_def)
  qed
qed

lemma quiet_bind: "quiet q m \<Longrightarrow> (\<And>x. quiet q (f x)) \<Longrightarrow> quiet q (bind_act m f)"
  by (rule calling_after) auto

lemma quiet_if: "(b \<Longrightarrow> quiet q m) \<Longrightarrow> (\<not> b \<Longrightarrow> quiet q n) \<Longrightarrow> quiet q (if b then m else n)"
  by simp

lemma quiet_option: "(x = None \<Longrightarrow> quiet q m) \<Longrightarrow> (\<And>y. x = Some y \<Longrightarrow> quiet q (f y)) \<Longrightarrow> quiet q (case x of None \<Rightarrow> m | Some y \<Rightarrow> f y)"
  by (cases x) auto

lemma sound_world:
  assumes "sound q s" "kt_claims (committed (w_session w)) = kt_claims (committed (w_session (ax_world s)))"
    "kt_claims (working (w_session w)) = kt_claims (working (w_session (ax_world s)))" "w_calls w = agent_calls s"
  shows "once_ok w"
  using assms all_taken_cong [OF assms(2,3)] by (simp add: sound_def once_ok_def)

lemma quiet_atoms:
  "quiet q (ret x)" "quiet q (raise e)" "quiet q (lift r)" "quiet q (take_draw d)" "quiet q (look g)"
  by (auto intro!: quietI simp: take_draw_def look_def sound_def)

lemma quiet_commit: "quiet q commit_agent"
  by (rule quietI) (auto simp: commit_agent_def modify_def sound_def data_ok_def session_simps once_ok_def all_taken_simps all_taken_def)

lemma quiet_rollback: "quiet q rollback_agent"
  by (rule quietI) (auto simp: rollback_agent_def modify_def sound_def data_ok_def session_simps once_ok_def all_taken_simps all_taken_def)

lemma quiet_change:
  assumes "\<And>t. run_is q t \<Longrightarrow> run_is q (f t)"
  shows "quiet q (change f)" "quiet q (modify (on_both f))"
proof -
  have "once_ok (ax_world (on_agent f s))" "once_ok (ax_world (on_both f s))" if "sound q s" for s :: "'a agent_state"
    by (rule sound_world [OF that]; simp add: on_agent_def on_both_def on_agent_data_def session_simps)+
  then show "quiet q (change f)" "quiet q (modify (on_both f))"
    using assms by (auto intro!: quietI simp: change_def modify_def sound_def data_ok_def on_agent_def on_both_def
        on_agent_data_def session_simps)
qed

lemma run_is_set_agent_run:
  assumes "\<And>r. ag_id (f r) = ag_id r" "\<And>r. same_origin r q \<Longrightarrow> same_origin (f r) q" "run_is q t"
  shows "run_is q (set_agent_run i f t)"
  using assms by (auto simp: run_is_def set_agent_run_def set_update_where split: if_splits)

lemma quiet_write_run:
  assumes "\<And>r. ag_id (f r) = ag_id r" "\<And>r. same_origin r q \<Longrightarrow> same_origin (f r) q"
  shows "quiet q (write_run i f)"
proof (rule quietI)
  fix s :: "'a agent_state" assume s: "sound q s"
  have "sound q (snd (change (set_agent_run i f) s)) \<and> agent_calls (snd (change (set_agent_run i f) s)) = agent_calls s"
    using callingD [OF quiet_change(1) s] run_is_set_agent_run [OF assms] by (metis append_Nil2 prod.collapse singletonD)
  then show "sound q (snd (write_run i f s)) \<and> agent_calls (snd (write_run i f s)) = agent_calls s"
    using s assms by (auto simp: sound_def write_run_def change_def modify_def seen_too_def split: if_splits)
qed

lemma quiet_load_run: "quiet q (load_run i)"
proof (rule quietI)
  fix s :: "'a agent_state" assume s: "sound q s"
  have "same_origin r q" if "find_agent_run i (agent_tables_of s) = Some r" "ag_id r = ag_id q" for r
    using s that find_SomeD [of _ "at_runs (agent_tables_of s)" r]
    by (auto simp: sound_def data_ok_def run_is_def find_agent_run_def agent_tables_of_def)
  then show "sound q (snd (load_run i s)) \<and> agent_calls (snd (load_run i s)) = agent_calls s"
    using s by (auto simp: load_run_def sound_def split: option.splits)
qed


lemma quiet_others:
  assumes "others_keep_origin D" shows "quiet q (others_write D i)"
proof -
  have "run_is q (set_agent_run i (keep_id (dr_outside D n)) t)" if "run_is q t" for n and t :: "'a agent_tables"
    using assms that
    by (intro run_is_set_agent_run) (auto simp: keep_id_def others_keep_origin_def same_origin_def)
  then show ?thesis
    by (auto intro!: calling_after quiet_atoms quiet_change simp: others_write_def take_draw_def)
qed

lemma quiet_set_authority: "quiet q (modify (on_both (set_authority f)))"
  by (rule quiet_change) (simp add: set_authority_def run_is_def)

lemmas quiet_basic = quiet_atoms quiet_commit quiet_rollback quiet_load_run quiet_others quiet_set_authority

lemma quiet_update_run:
  assumes "\<And>r. ag_id (f r) = ag_id r" "\<And>r. same_origin r q \<Longrightarrow> same_origin (f r) q"
  shows "quiet q (update_run i p f)"
  unfolding update_run_def by (intro quiet_bind quiet_if quiet_option quiet_basic quiet_write_run assms)

lemma quiet_claim: "others_keep_origin D \<Longrightarrow> quiet q (claim_run D i token lease)"
  unfolding claim_run_def
  by (intro quiet_bind quiet_if quiet_basic quiet_update_run) (simp_all add: claimed_run_def same_origin_def)

lemma quiet_renew: "others_keep_origin D \<Longrightarrow> quiet q (renew_run_lease D i token lease)"
  unfolding renew_run_lease_def
  by (intro quiet_bind quiet_basic quiet_update_run) (simp_all add: renewed_run_def same_origin_def)

lemma quiet_cancellation: "others_keep_origin D \<Longrightarrow> quiet q (cancellation_requested D i)"
  unfolding cancellation_requested_def by (intro quiet_bind quiet_option quiet_basic)

lemma quiet_transition: "others_keep_origin D \<Longrightarrow> quiet q (transition_run D i target step code message result)"
  unfolding transition_run_def lock_run_def
  by (intro quiet_bind quiet_option quiet_if quiet_basic quiet_write_run) (simp_all add: moved_run_simps(1))

lemma quiet_end: "others_keep_origin D \<Longrightarrow> quiet q (end_run D i target step code message result answer)"
  unfolding end_run_def by (intro quiet_bind quiet_basic quiet_transition)

lemma quiet_ends:
  assumes "others_keep_origin D"
  shows "quiet q (fail_agent_run D i code m step records)" "quiet q (cancel_agent_run D i m step records)"
    "quiet q (mark_execution_uncertain D i x records)" "quiet q (stop_agent_run D i st x records)"
  unfolding fail_agent_run_def cancel_agent_run_def mark_execution_uncertain_def stop_agent_run_def Let_def
  by (rule quiet_end [OF assms])+

lemma quiet_record: "quiet q (record_step_result D i x)"
proof -
  have "run_is q (set_agent_step j f t\<lparr>at_attempts := as\<rparr>) = run_is q t" for j f as and t :: "'a agent_tables"
    by (simp add: run_is_def set_agent_step_def)
  then show ?thesis
    unfolding record_step_result_def by (intro quiet_bind quiet_option quiet_if quiet_basic quiet_change) simp
qed

lemma quiet_lost: "quiet q (agent_lease_lost m)"
  unfolding agent_lease_lost_def by (intro quiet_bind quiet_basic)

lemma quiet_list_steps: "quiet q (list_steps i)"
proof -
  have "quiet q (modify (\<lambda>s. s\<lparr>ax_expired := False\<rparr>))"
    by (rule quietI) (simp add: modify_def sound_def)
  then show ?thesis unfolding list_steps_def by (intro quiet_bind quiet_basic)
qed

lemma quiet_load_plan: "quiet q (load_plan i)"
  unfolding load_plan_def by (intro quiet_bind quiet_option quiet_if quiet_basic quiet_list_steps)

lemma quiet_authority: "quiet q (resolve_current_context H D r)"
  unfolding resolve_current_context_def by (intro quiet_bind quiet_basic)

lemma quiet_beat: "others_keep_origin D \<Longrightarrow> quiet q (beat_renews D i token lease)"
  unfolding beat_renews_def
  by (intro quiet_bind quiet_if quiet_basic quiet_change run_is_set_agent_run) (simp_all add: renewed_run_def same_origin_def)

lemma quiet_heartbeat:
  assumes "others_keep_origin D" shows "quiet q (lease_heartbeat D i token lease bs)"
proof (rule quietI)
  fix s :: "'a agent_state"
  show "sound q s \<Longrightarrow> sound q (snd (lease_heartbeat D i token lease bs s)) \<and> agent_calls (snd (lease_heartbeat D i token lease bs s)) = agent_calls s"
  proof (induction bs arbitrary: s)
    case (Cons b bs)
    show ?case
    proof (cases b)
      case Beat
      obtain x s' where m: "beat_renews D i token lease s = (x, s')" by force
      have "sound q s' \<and> agent_calls s' = agent_calls s"
        using callingD [OF quiet_beat [OF assms] Cons.prems m] by simp
      then show ?thesis using Beat m Cons.IH [of s'] by (auto split: sum.split)
    qed (simp add: Cons.prems)
  qed simp
qed


subsection \<open>The calls of a step\<close>

text \<open>What the kernel has checked when it calls a provider for a request.\<close>

definition governed_call :: "host \<Rightarrow> 'd kernel_env \<Rightarrow> exec_context \<Rightarrow> runtime_request \<Rightarrow> call \<Rightarrow> bool" where
  "governed_call H E c r x = (resolve_capability E c r = Inr (ca_capability x) \<and> ca_arguments x = rq_arguments r
     \<and> fst (evaluate_policy c (ca_capability x)) \<noteq> Deny \<and> conforms H (JObj (rq_arguments r)) (cs_input (ca_capability x))
     \<and> (cs_risk (ca_capability x) \<noteq> Read_Only \<longrightarrow> (\<exists>k. ca_key x = Some k
          \<and> idempotency_key H c (py_strip (text_or_empty (rq_request_id r))) = Inr k)))"

definition one_call :: "host \<Rightarrow> 'd kernel_env \<Rightarrow> exec_context \<Rightarrow> runtime_request \<Rightarrow> call list set" where
  "one_call H E c r = insert [] {[x] | x. governed_call H E c r x}"

lemma kernel_execute_one_call:
  assumes "kernel_execute H E F c r w = (res, w')" "once_ok w"
  shows "\<exists>xs \<in> one_call H E c r. w_calls w' = w_calls w @ xs"
  using provider_call_governed [OF assms]
  by (elim disjE exE conjE) (fastforce simp: one_call_def governed_call_def)+

lemma calling_kernel:
  assumes "providers_keep (run_is q) (ae_kernel E)"
  shows "calling q (one_call H (ae_kernel E) c r) (agent_kernel H E D c r)"
  unfolding calling_def
proof (intro allI impI)
  fix s :: "'a agent_state" assume s: "sound q s"
  obtain x w where k: "kernel_execute H (ae_kernel E) (dr_kernel D (ax_tick s)) c r (ax_world s) = (x, w)" by force
  have once: "once_ok (ax_world s)" and data: "data_ok (run_is q) (w_session (ax_world s))" using s by (auto simp: sound_def)
  have "once_ok w" "data_ok (run_is q) (w_session w)"
    using kernel_execute_once [OF once] kernel_execute_ok [OF assms data] k by (metis snd_conv)+
  then show "sound q (snd (agent_kernel H E D c r s)) \<and> (\<exists>xs \<in> one_call H (ae_kernel E) c r.
      agent_calls (snd (agent_kernel H E D c r s)) = agent_calls s @ xs)"
    using kernel_execute_one_call [OF k once] s by (simp add: agent_kernel_def k sound_def Let_def)
qed

lemma recovery_state: "snd (mutation_recovery_state H E c r st code s) = s"
  by (simp add: mutation_recovery_state_def Let_def split: sum.split exn.split)

lemma failed_execution_state: "snd (failed_execution H E c i r st m krun code approval s) = s"
proof -
  obtain x where "mutation_recovery_state H E c r st code s = (x, s)"
    using recovery_state [of H E c r st code s] by (metis prod.collapse)
  then show ?thesis by (simp add: failed_execution_def bind_act_def split: sum.split prod.split)
qed

lemma calling_execute_step:
  assumes "providers_keep (run_is q) (ae_kernel E)"
  shows "calling q (one_call H (ae_kernel E) c (step_request H c i goal st)) (execute_step H E D c i goal st)"
proof -
  let ?C = "one_call H (ae_kernel E) c (step_request H c i goal st)"
  have k: "calling q ?C (\<lambda>s. case agent_kernel H E D c (step_request H c i goal st) s of
       (Inr resp, s') \<Rightarrow> (Inr (completed_result H i st resp), s')
     | (Inl (RuntimeExecutionError message krun code status approval), s') \<Rightarrow>
         failed_execution H E c i (step_request H c i goal st) st message krun code approval s'
     | (Inl e, s') \<Rightarrow> (Inl e, s'))" (is "calling q ?C ?m")
  proof -
    have "snd (?m s) = snd (agent_kernel H E D c (step_request H c i goal st) s)" for s
      using failed_execution_state by (auto split: prod.split sum.split exn.split)
    then show ?thesis using calling_kernel [OF assms] by (simp add: calling_def)
  qed
  then show ?thesis
    unfolding execute_step_def Let_def
    by (intro calling_after) (auto simp: require_enabled_def one_call_def intro: quiet_atoms)
qed

lemma calling_capability:
  assumes "providers_keep (run_is q) (ae_kernel E)" "others_keep_origin D"
  shows "calling q (one_call H (ae_kernel E) c (step_request H c i (pl_goal p) st)) (run_capability H E L D c p i token st)"
  unfolding calling_def
proof (intro allI impI)
  fix s :: "'a agent_state" assume s: "sound q s"
  let ?C = "one_call H (ae_kernel E) c (step_request H c i (pl_goal p) st)"
  let ?beat = "bind_act (take_draw (dr_beats D)) (lease_heartbeat D i token (or_lease L))"
  obtain r s1 where e: "execute_step H E D c i (pl_goal p) st s = (r, s1)" by force
  obtain b s2 where b: "?beat s1 = (b, s2)" by force
  note q1 = callingD [OF calling_execute_step [OF assms(1)] s e]
  have "quiet q ?beat" by (intro quiet_bind quiet_basic quiet_heartbeat assms)
  then have q2: "sound q s2 \<and> agent_calls s2 = agent_calls s1" using callingD [of q "{[]}" ?beat, OF _ conjunct1 [OF q1] b] by simp
  have q3: "sound q (snd (agent_lease_lost m s2 :: (exn + step_result) \<times> 'a agent_state))"
      "agent_calls (snd (agent_lease_lost m s2 :: (exn + step_result) \<times> 'a agent_state)) = agent_calls s1" for m
    using callingD [OF quiet_lost [of q m] conjunct1 [OF q2]] q2 by (metis append_Nil2 prod.collapse singletonD)+
  show "sound q (snd (run_capability H E L D c p i token st s)) \<and>
      (\<exists>xs \<in> ?C. agent_calls (snd (run_capability H E L D c p i token st s)) = agent_calls s @ xs)"
    using q1 q2 by (auto simp: run_capability_def e b q3 split: sum.split)
qed


subsection \<open>The calls of a pass\<close>

text \<open>The idempotency key under which the mutation of a step of the run is claimed.\<close>

definition run_key :: "agent_run \<Rightarrow> string \<Rightarrow> string" where
  "run_key q request_id = (if ag_scope q = ''personal'' then ''personal:'' @ py_strip (text_or_empty (ag_authority q))
     else ''workspace:'' @ the (ag_workspace q)) @ '':'' @ ag_principal q @ '':'' @ request_id"

lemma no_ingress: "metadata c = [] \<Longrightarrow> ingress_namespace H c = Inr []"
  by (simp add: ingress_namespace_def str_field_def str_or_def get_or_def py_strip_def py_lower_def)

lemma resolved_personal_key:
  assumes "resolve_personal_execution_context H db uid ch surf conv [] None None = Inr c" "uid \<noteq> []"
  shows "idempotency_key H c i = Inr (''personal:'' @ uid @ '':'' @ text_or_empty (principal_id c) @ '':'' @ i)"
proof -
  from assms(1) obtain u where "find_user db uid = Some u"
    by (auto simp: resolve_personal_execution_context_def split: option.splits)
  moreover from this have "u_id u = uid" unfolding find_user_def by (auto dest: find_SomeD)
  ultimately show ?thesis
    using assms by (auto simp: resolve_personal_execution_context_def idempotency_key_def scope_identity_def no_ingress
        present_def text_or_empty_def split: if_splits)
qed

lemma resolved_workspace_key:
  assumes "resolve_execution_context H db wid (Some uid) ch surf conv [] True = Inr c" "uid \<noteq> []" "wid \<noteq> []"
    and "\<not> is_guest_workspace c"
  shows "idempotency_key H c i = Inr (''workspace:'' @ wid @ '':'' @ text_or_empty (principal_id c) @ '':'' @ i)"
proof -
  from assms obtain m where "find_member db wid uid = Some m"
    by (auto simp: resolve_execution_context_def Let_def is_guest_workspace_def present_def split: if_splits option.splits)
  then show ?thesis
    using assms by (auto simp: resolve_execution_context_def Let_def idempotency_key_def scope_identity_def no_ingress
        present_def text_or_empty_def split: if_splits option.splits)
qed

lemma resolved_context_key:
  assumes "resolved_context H db q = Inr c"
  shows "idempotency_key H c i = Inr (run_key q i)"
proof -
  from assms have r: "context_of_row H db q = Inr c" "\<not> is_guest_workspace c" "text_or_empty (principal_id c) = ag_principal q"
    by (auto simp: resolved_context_def bind_result_Inr_iff split: if_splits)
  let ?uid = "py_strip (text_or_empty (ag_authority q))"
  show ?thesis
  proof (cases "ag_scope q = ''personal''")
    case True
    with r(1) have "resolve_personal_execution_context H db ?uid (ag_channel q) (Some (surface_value (coerce_surface (ag_surface q))))
        (ag_conversation q) [] None None = Inr c" "?uid \<noteq> []"
      by (auto simp: context_of_row_def Let_def split: if_splits)
    from resolved_personal_key [OF this] show ?thesis using True r(3) by (simp add: run_key_def)
  next
    case False
    with r(1) have w: "resolve_execution_context H db (the (ag_workspace q)) (Some ?uid) (ag_channel q)
        (Some (surface_value (coerce_surface (ag_surface q)))) (ag_conversation q) [] True = Inr c"
      "?uid \<noteq> []" "present (ag_workspace q)"
      by (auto simp: context_of_row_def Let_def split: if_splits)
    then have "the (ag_workspace q) \<noteq> []" by (cases "ag_workspace q") (auto simp: present_def text_or_empty_def)
    from resolved_workspace_key [OF w(1,2) this r(2)] show ?thesis using False r(3) by (simp add: run_key_def)
  qed
qed


lemma calling_seq:
  assumes "calling q C m" "[] \<in> C'" "\<And>x. calling q C' (f x)"
  shows "calling q {xs @ ys | xs ys. xs \<in> C \<and> ys \<in> C'} (bind_act m f)"
  unfolding calling_def
proof (intro allI impI)
  fix s :: "'a agent_state" assume s: "sound q s"
  obtain x s' where m: "m s = (x, s')" by force
  obtain xs where xs: "xs \<in> C" "agent_calls s' = agent_calls s @ xs" and s': "sound q s'"
    using callingD [OF assms(1) s m] by blast
  show "sound q (snd (bind_act m f s)) \<and> (\<exists>zs \<in> {xs @ ys | xs ys. xs \<in> C \<and> ys \<in> C'}.
      agent_calls (snd (bind_act m f s)) = agent_calls s @ zs)"
  proof (cases x)
    case (Inl e) then show ?thesis using s' xs m assms(2) by (auto simp: bind_act_def)
  next
    case (Inr a)
    have "sound q (snd (f a s')) \<and> (\<exists>ys \<in> C'. agent_calls (snd (f a s')) = agent_calls s' @ ys)"
      using assms(3) [of a] s' unfolding calling_def by blast
    then show ?thesis using Inr m xs by (auto simp: bind_act_def)
  qed
qed

lemma quiet_context:
  assumes "\<And>m. quiet q (f m)" and "\<And>c. quiet q (g c)"
  shows "quiet q (case v of Inr c \<Rightarrow> g c | Inl e \<Rightarrow> (case e of ExecutionContextError m \<Rightarrow> f m | _ \<Rightarrow> raise e))"
  using assms by (cases v) (auto intro: quiet_atoms split: exn.split)

lemma quiet_before_step:
  assumes "others_keep_origin D" shows "quiet q (before_step H L D i token sid records)"
  unfolding before_step_def Let_def
  by (intro quiet_bind quiet_if quiet_option quiet_context quiet_basic quiet_lost quiet_authority quiet_ends
      quiet_cancellation quiet_renew assms)

lemma quiet_status:
  assumes "quiet q m" "quiet q n" "quiet q k"
  shows "quiet q (case st of Plan_Waiting_Approval \<Rightarrow> m | Plan_Failed \<Rightarrow> n | _ \<Rightarrow> k)"
  using assms by (cases st) auto

lemma quiet_after_step:
  assumes "others_keep_origin D" shows "quiet q (after_step L D i token x records)"
  unfolding after_step_def Let_def
  by (intro quiet_bind quiet_if quiet_status quiet_basic quiet_lost quiet_ends quiet_record quiet_cancellation quiet_renew assms)

lemma load_run_origin:
  assumes "sound q s" "load_run (ag_id q) s = (Inr (Some r), s')" shows "same_origin r q"
proof -
  have "same_origin r q" if "find_agent_run (ag_id q) (agent_tables_of s) = Some r"
    using assms(1) find_SomeD [OF that [unfolded find_agent_run_def]]
    by (auto simp: sound_def data_ok_def run_is_def agent_tables_of_def)
  then show ?thesis
    using assms by (auto simp: load_run_def sound_def split: option.splits if_splits)
qed

lemma before_step_context:
  assumes "before_step H L D (ag_id q) token sid records s = (Inr (Inr c), s')" "sound q s" "others_keep_origin D"
  shows "\<exists>db. resolved_context H db q = Inr c"
proof -
  obtain c1 s1 ok s2 u s3 c2 s4 found s5 where st: "cancellation_requested D (ag_id q) s = (Inr c1, s1)"
      "renew_run_lease D (ag_id q) token (or_lease L) s1 = (Inr ok, s2)" "commit_agent s2 = (Inr u, s3)"
      "cancellation_requested D (ag_id q) s3 = (Inr c2, s4)" "load_run (ag_id q) s4 = (Inr found, s5)"
    and rest: "(case found of
        None \<Rightarrow> raise (AgentRunStateError ''Agent run disappeared during execution'')
      | Some r \<Rightarrow>
          bind_act (resolve_current_context H D r) (\<lambda>context. case context of
            Inr c \<Rightarrow> ret (Inr c)
          | Inl e \<Rightarrow> (case e of
                ExecutionContextError m \<Rightarrow>
                  bind_act (fail_agent_run D (ag_id q) ''authority_unavailable'' m (Some sid) records) (\<lambda>x. ret (Inl x))
              | _ \<Rightarrow> raise e))) s5 = (Inr (Inr c), s')"
    using assms(1) unfolding before_step_def Let_def
    by (auto simp: bind_act_Inr_iff agent_lease_lost_def split: if_splits)
  have "sound q s4"
    using callingD [OF quiet_cancellation [OF assms(3)] _ st(4)] callingD [OF quiet_commit _ st(3)]
      callingD [OF quiet_renew [OF assms(3)] _ st(2)] callingD [OF quiet_cancellation [OF assms(3)] assms(2) st(1)]
    by simp
  show ?thesis
  proof (cases found)
    case None then show ?thesis using rest by simp
  next
    case (Some r)
    then have "same_origin r q" using load_run_origin \<open>sound q s4\<close> st(5) by blast
    moreover obtain v s6 where v: "resolve_current_context H D r s5 = (Inr v, s6)"
      and w: "(case v of Inr c \<Rightarrow> ret (Inr c)
          | Inl e \<Rightarrow> (case e of
                ExecutionContextError m \<Rightarrow>
                  bind_act (fail_agent_run D (ag_id q) ''authority_unavailable'' m (Some sid) records) (\<lambda>x. ret (Inl x))
              | _ \<Rightarrow> raise e)) s6 = (Inr (Inr c), s')"
      using rest Some by (simp add: bind_act_Inr_iff) blast
    moreover have "v = Inr c"
    proof (cases v)
      case (Inl e) then show ?thesis using w by (cases e) (simp_all add: bind_act_Inr_iff)
    qed (use w in simp)
    moreover have "\<exists>db. v = resolved_context H db r"
      using v by (auto simp: resolve_current_context_def look_def bind_act_Inr_iff)
    ultimately show ?thesis using resolved_context_origin by metis
  qed
qed

definition step_call :: "host \<Rightarrow> 'x agent_env \<Rightarrow> agent_run \<Rightarrow> agent_step \<Rightarrow> call \<Rightarrow> bool" where
  "step_call H E q d x = (as_status d \<in> {Plan_Pending, Plan_Waiting_Approval}
     \<and> as_request d = stable_step_request_id H (ag_id q) (as_step d)
     \<and> (\<exists>c db goal st. resolved_context H db q = Inr c \<and> ps_id st = as_step d
          \<and> governed_call H (ae_kernel E) c (step_request H c (ag_id q) goal st) x)
     \<and> (cs_risk (ca_capability x) \<noteq> Read_Only \<longrightarrow> ca_key x = Some (run_key q (py_strip (as_request d)))))"

definition calls_of_steps :: "host \<Rightarrow> 'x agent_env \<Rightarrow> agent_run \<Rightarrow> agent_step list \<Rightarrow> call list set" where
  "calls_of_steps H E q ds = {xs. \<exists>ds'. subseq ds' ds \<and> list_all2 (step_call H E q) ds' xs}"

lemma calls_of_steps_simps:
  "[] \<in> calls_of_steps H E q ds" "calls_of_steps H E q ds \<subseteq> calls_of_steps H E q (d # ds)"
  "step_call H E q d x \<Longrightarrow> xs \<in> calls_of_steps H E q ds \<Longrightarrow> x # xs \<in> calls_of_steps H E q (d # ds)"
  unfolding calls_of_steps_def
  by (auto intro: exI [of _ "[]"])


lemma check_step_run:
  assumes "check_step H i p d = Check_Run st"
  shows "ps_id st = as_step d" "as_request d = stable_step_request_id H i (as_step d)"
    "as_status d \<in> {Plan_Pending, Plan_Waiting_Approval}"
  using assms find_SomeD [of "\<lambda>st. ps_id st = as_step d" "pl_steps p"]
  by (auto simp: check_step_def split: option.splits if_splits)

lemma step_callI:
  assumes "check_step H (ag_id q) p d = Check_Run st" "resolved_context H db q = Inr c"
    "governed_call H (ae_kernel E) c (step_request H c (ag_id q) goal st) x"
  shows "step_call H E q d x"
proof -
  note d = check_step_run [OF assms(1)]
  have "ca_key x = Some (run_key q (py_strip (as_request d)))" if "cs_risk (ca_capability x) \<noteq> Read_Only"
    using assms(3) that d resolved_context_key [OF assms(2)]
    by (auto simp: governed_call_def step_request_def text_or_empty_def)
  then show ?thesis using assms d unfolding step_call_def by blast
qed

lemma calling_steps:
  assumes "providers_keep (run_is q) (ae_kernel E)" "others_keep_origin D"
  shows "calling q (calls_of_steps H E q ds) (run_agent_steps H E L D p (ag_id q) token n records ds)"
proof (induction ds arbitrary: records)
  case Nil
  show ?case
    unfolding run_agent_steps.simps by (rule calling_mono [OF quiet_end [OF assms(2)]]) (simp add: calls_of_steps_simps)
next
  case (Cons d ds)
  let ?C = "calls_of_steps H E q (d # ds)"
  have q: "calling q ?C m" if "quiet q m" for m :: "('a, agent_result option) aact"
    by (rule calling_mono [OF that]) (simp add: calls_of_steps_simps)
  have more: "calling q (calls_of_steps H E q ds) (case stop of Some answer \<Rightarrow> ret answer
       | None \<Rightarrow> run_agent_steps H E L D p (ag_id q) token n rs ds)" for stop rs
    using Cons.IH by (cases stop) (auto simp: calls_of_steps_simps intro: calling_mono [OF quiet_atoms(1)])
  have step: "calling q ?C (case go of Inl answer \<Rightarrow> ret answer | Inr c \<Rightarrow>
      bind_act (run_capability H E L D c p (ag_id q) token st) (\<lambda>x.
      bind_act (after_step L D (ag_id q) token x (records @ [x])) (\<lambda>stop. case stop of
        Some answer \<Rightarrow> ret answer
      | None \<Rightarrow> run_agent_steps H E L D p (ag_id q) token n (records @ [x]) ds)))"
    if c: "check_step H (ag_id q) p d = Check_Run st" and go: "\<And>c. go = Inr c \<Longrightarrow> \<exists>db. resolved_context H db q = Inr c" for st go
  proof (cases go)
    case (Inl a) then show ?thesis by (auto intro: q quiet_atoms)
  next
    case (Inr c)
    then obtain db where db: "resolved_context H db q = Inr c" using go by blast
    let ?one = "one_call H (ae_kernel E) c (step_request H c (ag_id q) (pl_goal p) st)"
    have "{xs @ ys | xs ys. xs \<in> ?one \<and> ys \<in> calls_of_steps H E q ds} \<subseteq> ?C"
      using step_callI [OF c db, of E "pl_goal p"] calls_of_steps_simps(2,3) by (fastforce simp: one_call_def)
    moreover have "calling q (calls_of_steps H E q ds) (bind_act (after_step L D (ag_id q) token x (records @ [x])) (\<lambda>stop.
        case stop of Some answer \<Rightarrow> ret answer | None \<Rightarrow> run_agent_steps H E L D p (ag_id q) token n (records @ [x]) ds))" for x
      by (rule calling_after [OF quiet_after_step [OF assms(2)]]) (simp_all add: more calls_of_steps_simps)
    ultimately show ?thesis
      unfolding Inr sum.case
      by (intro calling_mono [OF calling_seq [OF calling_capability [OF assms]]]) (simp_all add: calls_of_steps_simps)
  qed
  have b: "calling q ?C (bind_act (before_step H L D (ag_id q) token (as_step d) records) (\<lambda>go. case go of
        Inl answer \<Rightarrow> ret answer
      | Inr c \<Rightarrow>
          bind_act (run_capability H E L D c p (ag_id q) token st) (\<lambda>x.
          bind_act (after_step L D (ag_id q) token x (records @ [x])) (\<lambda>stop. case stop of
            Some answer \<Rightarrow> ret answer
          | None \<Rightarrow> run_agent_steps H E L D p (ag_id q) token n (records @ [x]) ds))))"
    if c: "check_step H (ag_id q) p d = Check_Run st" for st
    by (rule calling_after [OF quiet_before_step [OF assms(2)]])
      (auto simp: calls_of_steps_simps intro!: step [OF c] before_step_context assms(2))
  have r: "quiet q read_step" by (rule quietI) (simp add: read_step_def)
  show ?case
    unfolding run_agent_steps.simps
  proof (rule calling_after [OF r])
    show "calling q ?C (case check_step H (ag_id q) p d of
        Check_Refuse code message \<Rightarrow> fail_agent_run D (ag_id q) code message (Some (as_step d)) records
      | Check_Skip \<Rightarrow> run_agent_steps H E L D p (ag_id q) token n records ds
      | Check_Wait \<Rightarrow> end_run D (ag_id q) Agent_Waiting_Approval (Some (as_step d)) (Some ''approval_required'')
          (Some ''Agent step is waiting for approval'') None (ended (ag_id q) Agent_Waiting_Approval records (Some (as_step d)) None
            (Some ''approval_required'') (Some ''Agent step is waiting for approval''))
      | Check_Run st \<Rightarrow>
          bind_act (before_step H L D (ag_id q) token (as_step d) records) (\<lambda>go. case go of
            Inl answer \<Rightarrow> ret answer
          | Inr c \<Rightarrow>
              bind_act (run_capability H E L D c p (ag_id q) token st) (\<lambda>x.
              bind_act (after_step L D (ag_id q) token x (records @ [x])) (\<lambda>stop. case stop of
                Some answer \<Rightarrow> ret answer
              | None \<Rightarrow> run_agent_steps H E L D p (ag_id q) token n (records @ [x]) ds))))" for s x s'
      by (cases "check_step H (ag_id q) p d")
        (auto intro: b calling_mono [OF Cons.IH calls_of_steps_simps(2)] q [OF quiet_end [OF assms(2)]]
          q [OF quiet_ends(1) [OF assms(2)]])
  qed (simp add: calls_of_steps_simps)
qed


text \<open>Before the steps are listed nothing touches them.\<close>

definition same_steps :: "'x agent_state \<Rightarrow> 'x agent_state \<Rightarrow> bool" where
  "same_steps s s' = (at_steps (agent_tables_of s') = at_steps (agent_tables_of s))"

lemma same_steps_laws: "reflp same_steps" "transp same_steps"
  by (auto simp: same_steps_def reflp_def transp_def)

lemma keeps_steps_atoms:
  "keeps same_steps (ret x)" "keeps same_steps (raise e)" "keeps same_steps (lift r)" "keeps same_steps (take_draw d)"
  "keeps same_steps (look g)" "keeps same_steps commit_agent" "keeps same_steps (load_run i)"
  "keeps same_steps (write_run i f)" "keeps same_steps (modify (on_both (set_agent_run i f)))" "keeps same_steps (list_steps i)"
  by (auto simp: keeps_def same_steps_def take_draw_def look_def commit_agent_def modify_def load_run_def write_run_def
      on_agent_def on_both_def on_agent_data_def agent_tables_of_def set_agent_run_def list_steps_def bind_act_def session_simps
      split: option.split)

lemmas keeps_steps_bind = keeps_bind [OF _ _ same_steps_laws(2)]

lemma keeps_steps_option: "keeps same_steps m \<Longrightarrow> (\<And>y. keeps same_steps (f y)) \<Longrightarrow> keeps same_steps (case x of None \<Rightarrow> m | Some y \<Rightarrow> f y)"
  by (cases x) auto

lemma keeps_steps_if: "keeps same_steps m \<Longrightarrow> keeps same_steps n \<Longrightarrow> keeps same_steps (if b then m else n)"
  by simp

lemma keeps_steps:
  "keeps same_steps (claim_run D i token lease)" "keeps same_steps (cancellation_requested D i)" "keeps same_steps (load_plan i)"
  unfolding claim_run_def cancellation_requested_def load_plan_def others_write_def update_run_def
  by (intro keeps_steps_bind keeps_steps_option keeps_steps_if keeps_steps_atoms)+

definition calls_from :: "host \<Rightarrow> 'x agent_env \<Rightarrow> agent_run \<Rightarrow> agent_step list \<Rightarrow> ('x, 'a) aact \<Rightarrow> bool" where
  "calls_from H E q ds m = (\<forall>s. sound q s \<and> steps_of_run (ag_id q) (agent_tables_of s) = ds \<longrightarrow>
     sound q (snd (m s)) \<and> (\<exists>xs \<in> calls_of_steps H E q ds. agent_calls (snd (m s)) = agent_calls s @ xs))"

lemma calls_from_calling: "calling q (calls_of_steps H E q ds) m \<Longrightarrow> calls_from H E q ds m"
  by (simp add: calling_def calls_from_def)

lemma calls_from_quiet: "quiet q m \<Longrightarrow> calls_from H E q ds m"
  by (rule calls_from_calling, rule calling_mono) (auto simp: calls_of_steps_simps)

lemma calls_from_bind:
  assumes "quiet q m" "keeps same_steps m" "\<And>x. calls_from H E q ds (f x)"
  shows "calls_from H E q ds (bind_act m f)"
  unfolding calls_from_def
proof (intro allI impI)
  fix s :: "'a agent_state" assume s: "sound q s \<and> steps_of_run (ag_id q) (agent_tables_of s) = ds"
  obtain x s' where m: "m s = (x, s')" by force
  have q: "sound q s'" "agent_calls s' = agent_calls s" using callingD [OF assms(1) _ m] s by simp_all
  have ds: "steps_of_run (ag_id q) (agent_tables_of s') = ds"
    using s assms(2) m unfolding keeps_def same_steps_def steps_of_run_def by (metis snd_conv)
  show "sound q (snd (bind_act m f s)) \<and> (\<exists>xs \<in> calls_of_steps H E q ds. agent_calls (snd (bind_act m f s)) = agent_calls s @ xs)"
  proof (cases x)
    case (Inl e) then show ?thesis using q m calls_of_steps_simps(1) by (fastforce simp: bind_act_def)
  next
    case (Inr a)
    have "sound q (snd (f a s')) \<and> (\<exists>xs \<in> calls_of_steps H E q ds. agent_calls (snd (f a s')) = agent_calls s' @ xs)"
      using assms(3) [of a] q ds unfolding calls_from_def by blast
    then show ?thesis using Inr m q by (simp add: bind_act_def)
  qed
qed

lemma calls_from_listed:
  assumes "\<And>ds. calls_from H E q ds (f ds)"
  shows "calls_from H E q ds (bind_act (list_steps (ag_id q)) f)"
  unfolding calls_from_def
proof (intro allI impI)
  fix s :: "'a agent_state" assume s: "sound q s \<and> steps_of_run (ag_id q) (agent_tables_of s) = ds"
  let ?s = "s\<lparr>ax_expired := False\<rparr>"
  have l: "list_steps (ag_id q) s = (Inr ds, ?s)"
    using s by (simp add: list_steps_def bind_act_def modify_def look_def agent_tables_of_def)
  have "sound q ?s \<and> steps_of_run (ag_id q) (agent_tables_of ?s) = ds" using s by (simp add: sound_def agent_tables_of_def)
  then show "sound q (snd (bind_act (list_steps (ag_id q)) f s)) \<and>
      (\<exists>xs \<in> calls_of_steps H E q ds. agent_calls (snd (bind_act (list_steps (ag_id q)) f s)) = agent_calls s @ xs)"
    using assms [of ds] unfolding calls_from_def by (fastforce simp: bind_act_def l)
qed

lemma calls_from_plan:
  assumes "providers_keep (run_is q) (ae_kernel E)" "others_keep_origin D"
  shows "calls_from H E q ds (run_loaded_plan H E L D (ag_id q) token p)"
  unfolding run_loaded_plan_def
  by (cases "preflight_plan E p")
    (auto intro: calls_from_quiet quiet_end assms calls_from_listed calls_from_calling calling_steps)

lemma calls_from_load:
  assumes "quiet q m" "keeps same_steps m" "\<And>x. calls_from H E q ds (f x)" "\<And>e. calls_from H E q ds (g e)"
  shows "calls_from H E q ds (\<lambda>s. case m s of (Inr p, s') \<Rightarrow> f p s' | (Inl e, s') \<Rightarrow> g e s')"
proof -
  have "calls_from H E q ds (bind_act (\<lambda>s. (Inr (fst (m s)), snd (m s))) (\<lambda>x. case x of Inr p \<Rightarrow> f p | Inl e \<Rightarrow> g e))"
    using assms by (intro calls_from_bind) (auto simp: calling_def keeps_def split: sum.split)
  moreover have "bind_act (\<lambda>s. (Inr (fst (m s)), snd (m s))) (\<lambda>x. case x of Inr p \<Rightarrow> f p | Inl e \<Rightarrow> g e)
      = (\<lambda>s. case m s of (Inr p, s') \<Rightarrow> f p s' | (Inl e, s') \<Rightarrow> g e s')"
    by (auto simp: fun_eq_iff bind_act_def split: prod.split sum.split)
  ultimately show ?thesis by simp
qed

lemma calls_from_pass:
  assumes "providers_keep (run_is q) (ae_kernel E)" "others_keep_origin D"
  shows "calls_from H E q ds (run_agent_once H E L D (ag_id q) token)"
proof -
  have e: "(\<lambda>s. case load_plan i s of
            (Inr p, s') \<Rightarrow> run_loaded_plan H E L D i token p s'
          | (Inl (AgentRunStateError m), s') \<Rightarrow> fail_agent_run D i ''invalid_durable_plan'' m None [] s'
          | (Inl e, s') \<Rightarrow> (Inl e, s')) =
       (\<lambda>s. case load_plan i s of (Inr p, s') \<Rightarrow> run_loaded_plan H E L D i token p s'
          | (Inl e, s') \<Rightarrow> (case e of AgentRunStateError m \<Rightarrow> fail_agent_run D i ''invalid_durable_plan'' m None [] | _ \<Rightarrow> raise e) s')" for i
    by (auto simp: fun_eq_iff split: prod.split sum.split exn.split)
  have f: "calls_from H E q ds (case e of AgentRunStateError m \<Rightarrow> fail_agent_run D (ag_id q) ''invalid_durable_plan'' m None [] | _ \<Rightarrow> raise e)" for e
    using calls_from_quiet [OF quiet_ends(1) [OF assms(2)]] calls_from_quiet [OF quiet_atoms(2)] by (cases e) auto
  have l: "calls_from H E q ds (\<lambda>s. case load_plan (ag_id q) s of (Inr p, s') \<Rightarrow> run_loaded_plan H E L D (ag_id q) token p s'
          | (Inl e, s') \<Rightarrow> (case e of AgentRunStateError m \<Rightarrow> fail_agent_run D (ag_id q) ''invalid_durable_plan'' m None [] | _ \<Rightarrow> raise e) s')"
    by (intro calls_from_load quiet_load_plan keeps_steps calls_from_plan assms f)
  have rb: "calls_from H E q ds (bind_act rollback_agent (\<lambda>_. ret None))"
    by (intro calls_from_quiet quiet_bind quiet_basic)
  have c: "calls_from H E q ds (case v of None \<Rightarrow> bind_act rollback_agent (\<lambda>_. ret None) | Some y \<Rightarrow> k)" if "calls_from H E q ds k" for v k
    using rb that by (cases v) auto
  have req: "quiet q (require_enabled E)" "keeps same_steps (require_enabled E)"
    by (simp_all add: require_enabled_def quiet_atoms keeps_steps_atoms)
  show ?thesis
    unfolding run_agent_once_def e
    by (intro calls_from_bind c req quiet_claim quiet_basic quiet_cancellation keeps_steps keeps_steps_atoms assms)
      (simp add: l calls_from_quiet [OF quiet_ends(2) [OF assms(2)]])
qed


lemma governed_pass:
  assumes "run_agent_once H E L D (ag_id q) token s = (res, s')" "sound q s"
    and "providers_keep (run_is q) (ae_kernel E)" "others_keep_origin D"
  shows "sound q s' \<and> (\<exists>xs ds. agent_calls s' = agent_calls s @ xs
    \<and> subseq ds (steps_of_run (ag_id q) (agent_tables_of s)) \<and> list_all2 (step_call H E q) ds xs)"
proof -
  have "calls_from H E q (steps_of_run (ag_id q) (agent_tables_of s)) (run_agent_once H E L D (ag_id q) token)"
    by (rule calls_from_pass [OF assms(3,4)])
  then show ?thesis
    using assms(1,2) unfolding calls_from_def calls_of_steps_def by (fastforce dest: spec [of _ s])
qed

text \<open>
  C30. The calls of a pass are calls for steps of the run that were pending or waiting, in their order
  and at most one for a step. Each is made for a context that was resolved for the run, with the
  authority its row was created with, in which the policy lets the capability through and the
  arguments conform; and a mutation is claimed under the one key of the step. The providers do not
  rewrite agent runs, and other sessions do not rewrite whose run it is.
\<close>

theorem agent_calls_are_governed:
  assumes "run_agent_once H E L D (ag_id q) token s = (res, s')" "sound q s"
    and "providers_keep (run_is q) (ae_kernel E)" "others_keep_origin D"
  shows "sound q s' \<and> (\<exists>xs ds. agent_calls s' = agent_calls s @ xs
    \<and> subseq ds (steps_of_run (ag_id q) (agent_tables_of s)) \<and> list_all2 (step_call H E q) ds xs)"
  using assms by (rule governed_pass)

lemma sample_agent_sound: "sound sample_agent_run (sample_agent_state steps)"
  by (auto simp: sound_def sample_agent_state_def Let_def once_ok_def call_keys_def List.map_filter_def all_taken_def
      data_ok_def run_is_def)

lemma sample_agent_keeps:
  "providers_keep P (ae_kernel sample_agent_env)" "others_keep_origin sample_agent_draws"
  by (auto simp: providers_keep_def sample_agent_env_def others_keep_origin_def sample_agent_draws_def)

theorem agent_calls_are_governed_witness:
  "\<exists>xs ds. agent_calls (snd (run_agent_once sample_host sample_agent_env sample_orchestrator sample_agent_draws ''r'' ''t''
      (sample_agent_state [sample_agent_step ''a'' 0 Plan_Pending]))) = xs
    \<and> subseq ds [sample_agent_step ''a'' 0 Plan_Pending] \<and> list_all2 (step_call sample_host sample_agent_env sample_agent_run) ds xs"
proof -
  let ?s = "sample_agent_state [sample_agent_step ''a'' 0 Plan_Pending]"
  obtain res s' where p: "run_agent_once sample_host sample_agent_env sample_orchestrator sample_agent_draws (ag_id sample_agent_run) ''t'' ?s
      = (res, s')" by force
  have "steps_of_run (ag_id sample_agent_run) (agent_tables_of ?s) = [sample_agent_step ''a'' 0 Plan_Pending]" "agent_calls ?s = []"
    by (simp_all add: sample_agent_state_def Let_def agent_tables_of_def steps_of_run_def sample_agent_run_def sample_agent_step_def)
  with agent_calls_are_governed [OF p sample_agent_sound sample_agent_keeps] p show ?thesis by (auto simp: sample_agent_run_def)
qed

subsection \<open>Any number of passes\<close>

text \<open>
  What can happen to a run: a pass by any worker, and between the passes anything that the kernel's
  own theory allows, in other requests, in this process or elsewhere.
\<close>

inductive agent_move :: "host \<Rightarrow> agent_run \<Rightarrow> 'x agent_state \<Rightarrow> 'x agent_state \<Rightarrow> bool" for H q where
  pass: "providers_keep (run_is q) (ae_kernel E) \<Longrightarrow> others_keep_origin D \<Longrightarrow>
    agent_move H q s (snd (run_agent_once H E L D (ag_id q) token s))"
| between: "kernel_step H (ax_world s) w \<Longrightarrow> data_ok (run_is q) (w_session w) \<Longrightarrow>
    agent_move H q s (s\<lparr>ax_world := w, ax_seen := None, ax_expired := True\<rparr>)"

lemma agent_move_sound: "agent_move H q s s' \<Longrightarrow> sound q s \<Longrightarrow> sound q s'"
proof (induction rule: agent_move.induct)
  case (pass E D s L token)
  then show ?case using calls_from_pass [OF pass(1,2)] unfolding calls_from_def by blast
next
  case (between s w)
  then show ?case using kernel_step_once [OF between(1)] by (simp add: sound_def)
qed

lemma agent_moves_sound: "(agent_move H q)\<^sup>*\<^sup>* s s' \<Longrightarrow> sound q s \<Longrightarrow> sound q s'"
  by (induction rule: rtranclp_induct) (auto intro: agent_move_sound)

lemma set_call_keys: "k \<in> set (call_keys xs) \<longleftrightarrow> (\<exists>x \<in> set xs. ca_key x = Some k)"
  by (induction xs) (auto simp: call_keys_def List.map_filter_def)

lemma at_most_one_key: "distinct (call_keys xs) \<Longrightarrow> length (filter (\<lambda>x. ca_key x = Some k) xs) \<le> 1"
proof (induction xs rule: rev_induct)
  case (snoc x xs)
  then show ?case using set_call_keys [of k xs] by (cases "ca_key x") (auto simp: filter_empty_conv)
qed simp

lemma key_once: "distinct (call_keys xs) \<Longrightarrow> x \<in> set xs \<Longrightarrow> ca_key x = Some k \<Longrightarrow> length (filter (\<lambda>x. ca_key x = Some k) xs) = 1"
  using at_most_one_key [of xs k] by (metis (mono_tags, lifting) One_nat_def empty_filter_conv le_SucE le_zero_eq length_0_conv)

text \<open>
  C31. However many passes are made over an agent run, by whatever workers, with crashes, lost leases,
  retries and other requests between them: the mutation of a step reaches its provider at most once.
  A call that a pass makes for the mutation of a step is, of all calls ever made, the only one under
  the key of the step, and this key depends on the run and the step alone.
\<close>

theorem agent_step_mutates_at_most_once:
  assumes "(agent_move H q)\<^sup>*\<^sup>* s s'" "sound q s" "run_agent_once H E L D (ag_id q) token s' = (res, s'')"
    and "providers_keep (run_is q) (ae_kernel E)" "others_keep_origin D"
  shows "\<exists>xs ds. agent_calls s'' = agent_calls s' @ xs \<and> list_all2 (step_call H E q) ds xs
    \<and> (\<forall>(d, x) \<in> set (zip ds xs). cs_risk (ca_capability x) \<noteq> Read_Only \<longrightarrow>
        length (filter (\<lambda>y. ca_key y = Some (run_key q (py_strip (stable_step_request_id H (ag_id q) (as_step d))))) (agent_calls s'')) = 1)"
proof -
  obtain xs ds where c: "sound q s''" "agent_calls s'' = agent_calls s' @ xs" "list_all2 (step_call H E q) ds xs"
    using governed_pass [OF assms(3) agent_moves_sound [OF assms(1,2)] assms(4,5)] by blast
  have "length (filter (\<lambda>y. ca_key y = Some (run_key q (py_strip (stable_step_request_id H (ag_id q) (as_step d))))) (agent_calls s'')) = 1"
    if "(d, x) \<in> set (zip ds xs)" "cs_risk (ca_capability x) \<noteq> Read_Only" for d x
  proof (rule key_once)
    have "step_call H E q d x" using c(3) that(1) by (auto simp: list_all2_iff)
    then show "ca_key x = Some (run_key q (py_strip (stable_step_request_id H (ag_id q) (as_step d))))"
      using that(2) by (simp add: step_call_def)
    show "x \<in> set (agent_calls s'')" using c(2) set_zip_rightD [OF that(1)] by simp
    show "distinct (call_keys (agent_calls s''))" using c(1) by (simp add: sound_def once_ok_def)
  qed
  with c(2,3) show ?thesis by blast
qed

theorem agent_step_mutates_at_most_once_witness:
  "\<exists>xs ds s''. run_agent_once sample_host sample_agent_env sample_orchestrator sample_agent_draws (ag_id sample_agent_run) ''t''
      (sample_agent_state [sample_agent_step ''a'' 0 Plan_Pending]) = s''
    \<and> agent_calls (snd s'') = agent_calls (sample_agent_state [sample_agent_step ''a'' 0 Plan_Pending]) @ xs
    \<and> list_all2 (step_call sample_host sample_agent_env sample_agent_run) ds xs"
proof -
  obtain res s'' where p: "run_agent_once sample_host sample_agent_env sample_orchestrator sample_agent_draws (ag_id sample_agent_run) ''t''
      (sample_agent_state [sample_agent_step ''a'' 0 Plan_Pending]) = (res, s'')" by force
  show ?thesis
    using agent_step_mutates_at_most_once [OF rtranclp.rtrancl_refl sample_agent_sound p sample_agent_keeps] p by fastforce
qed

end
