(* ===== verification/Kernel_Claims.thy ===== *)
theory Kernel_Claims
  imports Kernel_Runtime
begin

text \<open>
  What an execution leaves of the claim it took: when the provider of a mutation has been called, the
  claim of the request stands, for exactly this request, whatever became of the execution.
\<close>

subsection \<open>A claim for a request\<close>

definition bound :: "string \<Rightarrow> string \<Rightarrow> 'd kernel_tables \<Rightarrow> bool" where
  "bound k h t = (\<exists>cl. find_claim t k = Some cl \<and> cl_hash cl = h \<and> written cl)"

definition bound_world :: "string \<Rightarrow> string \<Rightarrow> 'd world \<Rightarrow> bool" where
  "bound_world k h w = (bound k h (committed (w_session w)) \<and> bound k h (working (w_session w)))"

lemma bound_cong: "kt_claims t' = kt_claims t \<Longrightarrow> bound k h t' = bound k h t"
  by (simp add: bound_def find_claim_def)

lemma bound_set_claim:
  assumes "bound k h t" "\<And>cl. cl_key (f cl) = cl_key cl" "\<And>cl. cl_hash (f cl) = cl_hash cl" "\<And>cl. written (f cl)"
  shows "bound k h (set_claim key f t)"
proof -
  obtain cl where cl: "find_claim t k = Some cl" "cl_hash cl = h" "written cl" using assms(1) by (auto simp: bound_def)
  let ?cl = "if cl_key cl = key then f cl else cl"
  have "find_claim (set_claim key f t) k = Some ?cl"
    using cl(1) assms(2) by (simp add: find_claim_def set_claim_def find_update_where)
  moreover have "cl_hash ?cl = h" "written ?cl" using cl assms by simp_all
  ultimately show ?thesis unfolding bound_def by blast
qed

lemma bound_complete: "bound k h t \<Longrightarrow> bound k h (complete_request cl resp t)"
  by (auto simp: complete_request_def written_def intro!: bound_set_claim split: option.splits)

subsection \<open>Taking\<close>

lemma insert_claim_bound:
  assumes "insert_claim H c r key rid run race s = (Inr (Reserved k), s')"
  shows "bound k (request_hash H r) (committed s') \<and> bound k (request_hash H r) (working s')"
proof -
  have k: "key \<notin> cl_key ` set (kt_claims (working (arrive race s)))" "k = key"
    "s' = commit (on_working (\<lambda>t. t\<lparr>kt_claims := kt_claims t @ [new_claim H c r key rid run]\<rparr>) (arrive race s))"
    using assms by (auto simp: insert_claim_def Let_def split: if_splits option.splits sum.splits)
  then have "find (\<lambda>cl. cl_key cl = key) (kt_claims (working (arrive race s))) = None"
    by (auto simp: find_None_iff_all)
  then have "bound key (request_hash H r) (working (arrive race s)\<lparr>kt_claims := kt_claims (working (arrive race s))
      @ [new_claim H c r key rid run]\<rparr>)"
    by (simp add: bound_def find_claim_def find_append new_claim_def written_def)
  then show ?thesis using k by (simp add: session_simps)
qed

lemma validate_existing_hash: "validate_existing H cl digest = Inr v \<Longrightarrow> cl_hash cl = digest"
  by (auto simp: validate_existing_def split: if_splits)

lemma reserve_request_bound:
  assumes "reserve_request H c r run race s = (Inr (Reserved k), s')"
  shows "bound k (request_hash H r) (committed s') \<and> bound k (request_hash H r) (working s')"
proof -
  let ?rid = "py_strip (text_or_empty (rq_request_id r))"
  obtain key where key: "idempotency_key H c ?rid = Inr key" "?rid \<noteq> []"
    using assms by (auto simp: reserve_request_def Let_def split: if_splits sum.splits)
  show ?thesis
  proof (cases "find_claim (working s) key")
    case None
    then have "bind_act (claim_request_approval H c r ?rid) (\<lambda>_. insert_claim H c r key ?rid run race) s = (Inr (Reserved k), s')"
      using assms key by (simp add: reserve_request_def Let_def)
    then show ?thesis by (auto simp: bind_act_Inr_iff dest: insert_claim_bound)
  next
    case (Some cl)
    let ?f = "\<lambda>cl :: request_claim. cl\<lparr>cl_status := Claim_Running, cl_run := Some run, cl_response := JObj []\<rparr>"
    have k: "k = key" "validate_existing H cl (request_hash H r) = Inr None" "s' = commit (on_working (set_claim key ?f) s)"
      using assms key Some by (auto simp: reserve_request_def Let_def split: sum.splits option.splits)
    have "bound key (request_hash H r) (set_claim key ?f (working s))"
      using Some validate_existing_hash [OF k(2)] find_SomeD [OF Some [unfolded find_claim_def]]
      by (auto simp: bound_def find_claim_def set_claim_def find_update_where written_def)
    then show ?thesis using k by (simp add: session_simps)
  qed
qed

lemma stage_reserve_bound:
  assumes "stage_reserve H F c spec r s = (Inr None, s')" "cs_risk spec \<noteq> Read_Only"
  shows "\<exists>k. idempotency_key H c (py_strip (text_or_empty (rq_request_id r))) = Inr k
    \<and> bound_world k (request_hash H r) (xs_world s')"
  using assms reserve_request_key reserve_request_bound
  by (fastforce simp: stage_reserve_def Let_def bound_world_def split: prod.splits sum.splits reservation.splits)

subsection \<open>Keeping\<close>

lemma stage_provider_bound:
  assumes "bound_world k h (xs_world s)" "stage_provider E c spec m args s = (res, s')"
  shows "bound_world k h (xs_world s')"
proof -
  have "kt_claims (committed (w_session (xs_world s'))) = kt_claims (committed (w_session (xs_world s)))"
    "kt_claims (working (w_session (xs_world s'))) = kt_claims (working (w_session (xs_world s)))"
    using assms(2) by (auto simp: stage_provider_def Let_def split: sum.splits prod.splits)
  then show ?thesis using assms(1) bound_cong unfolding bound_world_def by metis
qed

lemma put_tables_bound:
  "bound_world k h (xs_world s) \<Longrightarrow> (bound k h (tables_of s) \<Longrightarrow> bound k h t) \<Longrightarrow> bound_world k h (xs_world (put_tables t s))"
  by (auto simp: bound_world_def put_tables_def tables_of_def session_simps)

lemma commit_bound: "bound_world k h (xs_world s) \<Longrightarrow> bound_world k h (xs_world (commit_world s))"
  by (auto simp: bound_world_def commit_world_def session_simps)

lemma rollback_bound: "bound_world k h (xs_world s) \<Longrightarrow> bound_world k h (xs_world (rollback_world s))"
  by (auto simp: bound_world_def rollback_world_def session_simps)

lemma finish_tables_bound:
  assumes "bound k h (tables_of s)"
  shows "bound k h (snd (finish_tables F c spec r x resp s))"
  using assms
  by (auto simp: finish_tables_def Let_def split: prod.split sum.split intro!: bound_complete
      iffD2 [OF bound_cong [of _ "tables_of s"]])

lemma stage_finish_bound: "invar (bound_world k h) (stage_finish H F c spec r x)"
proof -
  have last: "invar (bound_world k h) (stage_store F c spec r x)"
    unfolding invar_def stage_store_def Let_def
    by (auto simp: split_beta intro!: commit_bound put_tables_bound finish_tables_bound split: sum.split)
  show ?thesis
    unfolding stage_finish_def
    by (intro invar_bind last; rule invar_same; (rule keeps_same_atoms | simp add: keeps_def same_world_def log_step_def))
qed

lemma persist_failure_bound:
  "bound_world k h (xs_world s) \<Longrightarrow> bound_world k h (xs_world (persist_failure F c r code msg s))"
  unfolding persist_failure_def Let_def
  by (intro commit_bound put_tables_bound) (auto simp: tables_of_def iffD2 [OF bound_cong])

lemma handle_exn_bound:
  assumes "bound_world k h (xs_world s)"
  shows "bound_world k h (xs_world (snd (handle_exn H F c r e s)))"
proof -
  have b: "bound_world k h (xs_world (rollback_world s))" using assms by (rule rollback_bound)
  then have "bound_world k h (xs_world (put_tables (tables_of (rollback_world s)\<lparr>kt_approvals := rows\<rparr>) (rollback_world s)))" for rows
    by (rule put_tables_bound) (simp add: iffD2 [OF bound_cong])
  then have r: "bound_world k h (xs_world (snd (handle_runtime_error H F c r m run code sc aid s)))" for m run code sc aid
    using b unfolding handle_runtime_error_def Let_def
    by (auto simp: split_beta intro!: persist_failure_bound split: sum.split)
  have "bound_world k h (xs_world (snd (handle_with F c r st code rec msg sc s)))" for st code rec msg sc
    using b unfolding handle_with_def Let_def by (simp add: persist_failure_bound)
  with r assms show ?thesis by (cases e) (simp_all add: handle_exn_def)
qed

subsection \<open>After a call\<close>

text \<open>
  Whatever becomes of an execution that has called the provider of a mutation, the claim of the
  request is there when it has ended: running or completed, for exactly this request.
\<close>

lemma mutation_leaves_its_claim:
  assumes "kernel_execute H E F c r w = (res, w')" "w_calls w' \<noteq> w_calls w"
    and "resolve_capability E c r = Inr spec" "cs_risk spec \<noteq> Read_Only"
  shows "\<exists>k. idempotency_key H c (py_strip (text_or_empty (rq_request_id r))) = Inr k
    \<and> bound k (request_hash H (execution_request r spec)) (working (w_session w'))"
proof -
  let ?s = "start_state F w"
  obtain rb sb where b: "kernel_body H E F c r ?s = (rb, sb)" by fastforce
  have w': "xs_world sb = w' \<or> (\<exists>e. w' = xs_world (snd (handle_exn H F c r e sb)))"
    using assms(1) b by (auto simp: kernel_execute_def split: prod.splits sum.splits) (metis snd_conv)
  then have calls: "w_calls (xs_world sb) \<noteq> w_calls w" using assms(2) handle_exn_calls [of H F c r _ sb] by metis
  obtain r1 s1 where p1: "stage_plan H E c r ?s = (r1, s1)" by fastforce
  note k1 = keeps_sameD [OF stage_plan_keeps p1]
  have "r1 \<noteq> Inl e" for e using p1 b calls k1 by (auto simp: kernel_body_def start_state_def)
  then obtain spec' m where r1: "r1 = Inr (spec', m)" by (cases r1) auto
  have spec: "spec' = spec" using stage_plan_Inr [OF p1 [unfolded r1]] assms(3) by simp
  let ?xr = "execution_request r spec"
  obtain r2 s2 where p2: "stage_replay H c spec ?xr s1 = (r2, s2)" by fastforce
  note k2 = keeps_sameD [OF stage_replay_keeps p2]
  obtain r3 s3 where p3: "stage_authorize H c spec ?xr s2 = (r3, s3)" by fastforce
  note k3 = keeps_sameD [OF stage_authorize_keeps p3]
  obtain r4 s4 where p4: "stage_reserve H F c spec ?xr s3 = (r4, s4)" by fastforce
  obtain r5 s5 where p5: "stage_provider E c spec m (rq_arguments r) s4 = (r5, s5)" by fastforce
  note body = kernel_body_stages [OF p1 [unfolded r1 spec] p2 p3 p4 p5]
  have "w_calls (xs_world s4) = w_calls w" using stage_reserve_calls [OF p4] k1 k2 k3 by (simp add: start_state_def)
  then have r4: "r4 = Inr None"
    using b calls body k1 k2 k3 by (auto simp: start_state_def split: sum.splits option.splits)
  obtain k where k: "idempotency_key H c (py_strip (text_or_empty (rq_request_id r))) = Inr k"
    and b4: "bound_world k (request_hash H ?xr) (xs_world s4)"
    using stage_reserve_bound [OF p4 [unfolded r4] assms(4)] by (auto simp: execution_request_def)
  have b5: "bound_world k (request_hash H ?xr) (xs_world s5)" by (rule stage_provider_bound [OF b4 p5])
  have "sb = s5 \<or> (\<exists>x. sb = snd (stage_finish H F c spec r x s5))"
    using b body r4 calls k1 k2 k3 by (auto simp: start_state_def split: sum.splits option.splits) (metis snd_conv)
  then have "bound_world k (request_hash H ?xr) (xs_world sb)"
    using b5 stage_finish_bound [of k "request_hash H ?xr" H F c spec r] unfolding invar_def by metis
  then have "bound_world k (request_hash H ?xr) w'" using w' handle_exn_bound by metis
  then show ?thesis using k unfolding bound_world_def by blast
qed

end
