(* ===== verification/Agent_Recovery.thy ===== *)
theory Agent_Recovery
  imports Agent_Calls Kernel_Claims
begin

text \<open>
  What the result of a step says about a mutation whose provider has been called: it is completed, or
  its outcome is uncertain; except where the error of the provider has one of the codes that are taken
  for errors before the reservation.
\<close>

subsection \<open>A reached mutation\<close>

lemma response_error:
  "response_from_json H v = Inl e \<Longrightarrow> \<not> (\<exists>m. e = IdempotencyConflict m \<or> e = IdempotencyInProgress m)"
proof -
  have s: "sequence_result f xs = Inl e \<Longrightarrow> (\<And>x e. f x = Inl e \<Longrightarrow> \<not> (\<exists>m. e = IdempotencyConflict m \<or> e = IdempotencyInProgress m)) \<Longrightarrow>
      \<not> (\<exists>m. e = IdempotencyConflict m \<or> e = IdempotencyInProgress m)" for f :: "json \<Rightarrow> json result" and xs
    by (induction xs) (auto simp: bind_result_def split: sum.splits)
  assume "response_from_json H v = Inl e"
  then show ?thesis
    by (auto simp: response_from_json_def need_dict_def need_key_def decision_of_text_def bind_result_def
        split: sum.splits json.splits option.splits if_splits dest!: s)
qed

lemma bound_recovery:
  assumes "bound k (request_hash H r) (working (w_session (ax_world s)))"
    and "idempotency_key H c (py_strip (text_or_empty (rq_request_id r))) = Inr k"
    and "py_strip (text_or_empty (rq_request_id r)) \<noteq> []"
    and "get_spec (en_registry (ae_kernel E)) (ps_capability st) = Inr spec" "cs_risk spec \<noteq> Read_Only"
    and "mutation_recovery_state H E c r st code s = (Inr (replay, unsure), s')"
  shows "replay \<noteq> None \<or> unsure"
proof -
  obtain cl where cl: "find_claim (working (w_session (ax_world s))) k = Some cl" "cl_hash cl = request_hash H r" "written cl"
    using assms(1) by (auto simp: bound_def)
  have f: "find_completed_request H (working (w_session (ax_world s))) c r = (case cl_status cl of
      Claim_Completed \<Rightarrow> bind_result (response_from_json H (cl_response cl)) (\<lambda>x. Inr (Some x))
    | _ \<Rightarrow> Inl (IdempotencyInProgress ''An identical request is already executing''))"
    using cl assms(2,3)
    by (auto simp: find_completed_request_def Let_def validate_existing_def written_def split: claim_status.split)
  show ?thesis
  proof (cases "response_from_json H (cl_response cl)")
    case (Inl e)
    then show ?thesis
      using assms(4-6) f cl(3) response_error [OF Inl]
      by (cases e) (auto simp: mutation_recovery_state_def Let_def written_def bind_result_def)
  next
    case (Inr x)
    then show ?thesis
      using assms(4-6) f cl(3) by (auto simp: mutation_recovery_state_def Let_def written_def bind_result_def)
  qed
qed

lemma step_request_key: "rq_request_id (step_request H c i goal st) = Some (stable_step_request_id H i (ps_id st))"
  "execution_request (step_request H c i goal st) spec = step_request H c i goal st \<longleftrightarrow> cs_id spec = ps_capability st"
  by (auto simp: step_request_def execution_request_def)

lemma stable_id_text: "py_strip (stable_step_request_id H i sid) \<noteq> []"
proof -
  have "py_strip u \<noteq> []" if "CHR ''a'' \<in> set u" for u
  proof -
    have "\<not> is_space CHR ''a''" by code_simp
    then have "CHR ''a'' \<in> set (dropWhile is_space u)" using that by (induction u) auto
    with \<open>\<not> is_space CHR ''a''\<close> show ?thesis by (auto simp: py_strip_def dropWhile_eq_Nil_conv)
  qed
  then show ?thesis by (simp add: stable_step_request_id_def)
qed

lemma reached_mutation:
  assumes "execute_step H E D c i goal st s = (Inr x, s')" "agent_calls s' \<noteq> agent_calls s"
    and "get_spec (en_registry (ae_kernel E)) (ps_capability st) = Inr spec" "cs_risk spec \<noteq> Read_Only"
    and "cs_id spec = ps_capability st" "ps_capability st \<noteq> []"
  shows "ss_status x \<in> {Plan_Completed, Plan_Uncertain} \<or> (\<exists>code \<in> pre_reservation_codes. ss_code x = Some code)"
  using assms(1)
proof (cases rule: execute_step_cases)
  case (Answered resp)
  then show ?thesis by (simp add: completed_result_def)
next
  case (Refused m krun code status approval s1)
  let ?r = "step_request H c i goal st"
  have s1: "s1 = s'" using Refused(2) failed_execution_state by (metis snd_conv)
  obtain w where k: "kernel_execute H (ae_kernel E) (dr_kernel D (ax_tick s)) c ?r (ax_world s)
      = (Inl (RuntimeExecutionError m krun code status approval), w)" and w: "ax_world s1 = w"
    using Refused(1) by (auto simp: agent_kernel_def Let_def split: prod.splits if_splits)
  have "resolve_capability (ae_kernel E) c ?r = Inr spec"
    using assms(3,6) by (simp add: resolve_capability_def step_request_def present_def text_or_empty_def)
  from mutation_leaves_its_claim [OF k _ this assms(4)] assms(2,5) s1 w
  obtain key where b: "bound key (request_hash H ?r) (working (w_session (ax_world s1)))"
    "idempotency_key H c (py_strip (text_or_empty (rq_request_id ?r))) = Inr key"
    by (auto simp: step_request_key iffD2 [OF step_request_key(2)])
  show ?thesis
  proof (cases "code \<in> pre_reservation_codes")
    case True
    then show ?thesis using Refused(2) by (auto simp: failed_execution_def result_of_def)
  next
    case False
    then obtain replay unsure s2 where m: "mutation_recovery_state H E c ?r st code s1 = (Inr (replay, unsure), s2)"
      and x: "x = (case replay of
            Some resp \<Rightarrow> completed_result H i st resp
          | None \<Rightarrow>
              if unsure then result_of H i st Plan_Uncertain (Some krun) approval ''execution_outcome_uncertain''
                (uncertain_message code m)
              else result_of H i st Plan_Failed (Some krun) approval code m)"
      using Refused(2) by (auto simp: failed_execution_def bind_act_Inr_iff)
    have "replay \<noteq> None \<or> unsure"
      by (rule bound_recovery [OF b _ assms(3,4) m])
        (simp add: step_request_key text_or_empty_def stable_id_text)
    then show ?thesis using x by (auto simp: completed_result_def result_of_def split: option.splits)
  qed
qed


subsection \<open>Providers that raise\<close>

lemma handle_with_simps:
  "fst (handle_with F c r st code rec msg sc s) = RuntimeExecutionError msg (ab_run (xs_audit s)) code sc None"
  "w_calls (xs_world (snd (handle_with F c r st code rec msg sc s))) = w_calls (xs_world s)"
  "kt_claims (working (w_session (xs_world (snd (handle_with F c r st code rec msg sc s)))))
     = kt_claims (committed (w_session (xs_world s)))"
  by (simp_all add: handle_with_def Let_def persist_failure_def commit_world_def put_tables_def rollback_world_def
      tables_of_def session_simps log_blocked_def)

text \<open>The result of a step whose execution ended in an exception that \<open>handle_with\<close> handles.\<close>

lemma execute_step_raised:
  assumes "kernel_body H (ae_kernel E) (dr_kernel D (ax_tick s)) c (step_request H c i goal st)
      (start_state (dr_kernel D (ax_tick s)) (ax_world s)) = (Inl e, t)" "ae_enabled E"
    and "handle_exn H (dr_kernel D (ax_tick s)) c (step_request H c i goal st) e t
      = handle_with (dr_kernel D (ax_tick s)) c (step_request H c i goal st) st' code rec msg sc t"
  shows "\<exists>s1. execute_step H E D c i goal st s
      = failed_execution H E c i (step_request H c i goal st) st msg (ab_run (xs_audit t)) code None s1
    \<and> agent_calls s1 = w_calls (xs_world t)
    \<and> kt_claims (working (w_session (ax_world s1))) = kt_claims (committed (w_session (xs_world t)))"
proof -
  let ?F = "dr_kernel D (ax_tick s)" and ?r = "step_request H c i goal st"
  let ?h = "handle_with ?F c ?r st' code rec msg sc t"
  have k: "kernel_execute H (ae_kernel E) ?F c ?r (ax_world s)
      = (Inl (RuntimeExecutionError msg (ab_run (xs_audit t)) code sc None), xs_world (snd ?h))"
    unfolding kernel_execute_def assms(1) by (simp add: assms(3) split_beta handle_with_simps(1))
  have "execute_step H E D c i goal st s
      = failed_execution H E c i ?r st msg (ab_run (xs_audit t)) code None (snd (agent_kernel H E D c ?r s))"
    using assms(2)
    by (simp add: execute_step_def require_enabled_def bind_act_def agent_kernel_def k Let_def rolled_back_def)
  moreover have "ax_world (snd (agent_kernel H E D c ?r s)) = xs_world (snd ?h)"
    by (simp add: agent_kernel_def k Let_def)
  ultimately show ?thesis using handle_with_simps(2,3) by metis
qed

definition broken_env :: "exn \<Rightarrow> nat agent_env" where
  "broken_env e = sample_agent_env\<lparr>ae_kernel := (ae_kernel sample_agent_env)\<lparr>en_providers :=
     (\<lambda>k. Some (\<lambda>c spec args minimum d. (Inl e, d)))\<rparr>\<rparr>"

definition sample_plan_step :: "string \<Rightarrow> plan_step" where
  "sample_plan_step cap = \<lparr>ps_id = ''a'', ps_capability = cap, ps_arguments = [], ps_approval = None\<rparr>"

lemma broken_runs:
  "case kernel_body sample_host (ae_kernel (broken_env (ValueError ''down''))) sample_fresh sample_member
      (step_request sample_host sample_member ''r'' ''g'' (sample_plan_step ''tasks.add''))
      (start_state sample_fresh (ax_world (sample_agent_state []))) of
    (Inl e, t) \<Rightarrow> e = ValueError ''down'' \<and> length (w_calls (xs_world t)) = 1 | _ \<Rightarrow> False"
  by code_simp

lemma broken_step:
  "\<exists>x s'. execute_step sample_host (broken_env (ValueError ''down'')) sample_agent_draws sample_member ''r'' ''g''
      (sample_plan_step ''tasks.add'') (sample_agent_state []) = (Inr x, s')
    \<and> length (agent_calls s') = 1 \<and> ss_status x = Plan_Failed \<and> ss_code x = Some ''invalid_request''"
proof -
  let ?s = "sample_agent_state []" and ?st = "sample_plan_step ''tasks.add''"
  obtain t where t: "kernel_body sample_host (ae_kernel (broken_env (ValueError ''down''))) sample_fresh sample_member
      (step_request sample_host sample_member ''r'' ''g'' ?st) (start_state sample_fresh (ax_world ?s)) = (Inl (ValueError ''down''), t)"
    and c: "length (w_calls (xs_world t)) = 1"
    using broken_runs by (auto split: prod.splits sum.splits)
  have d: "dr_kernel sample_agent_draws n = sample_fresh" for n by (simp add: sample_agent_draws_def)
  obtain s1 where e: "execute_step sample_host (broken_env (ValueError ''down'')) sample_agent_draws sample_member ''r'' ''g'' ?st ?s
      = failed_execution sample_host (broken_env (ValueError ''down'')) sample_member ''r'' (step_request sample_host sample_member ''r'' ''g'' ?st) ?st
          ''down'' (ab_run (xs_audit t)) ''invalid_request'' None s1" and s1: "agent_calls s1 = w_calls (xs_world t)"
    using execute_step_raised [of sample_host "broken_env (ValueError ''down'')" sample_agent_draws ?s sample_member "''r''" "''g''" ?st
        "ValueError ''down''" t "''failed''" "''invalid_request''" "''down''" "''down''" 422]
      t
    by (auto simp: d handle_exn_def broken_env_def sample_agent_env_def)
  then show ?thesis using c by (simp add: failed_execution_def pre_reservation_codes_def result_of_def)
qed


text \<open>
  So a mutation whose provider was called and then raised a \<open>ValueError\<close> is a failed step, although the
  error came after the reservation.
\<close>

lemma provider_value_error_is_failed:
  "\<exists>x s'. execute_step sample_host (broken_env (ValueError ''down'')) sample_agent_draws sample_member ''r'' ''g''
      (sample_plan_step ''tasks.add'') (sample_agent_state []) = (Inr x, s')
    \<and> length (agent_calls s') = 1 \<and> ss_status x = Plan_Failed"
  using broken_step by blast

text \<open>
  The kernel claims the request with the canonical id of the capability, and the look at the claim is
  made with the id as the plan spells it. When the spelling makes another hash, a mutation whose
  provider was called is a failed step whatever the error was.
\<close>

lemma other_spelling_is_failed:
  assumes "agent_kernel H E D c (step_request H c i goal st) s = (Inl (RuntimeExecutionError m krun code status approval), s')"
    and "agent_calls s' \<noteq> agent_calls s" "code \<noteq> ''request_in_progress''" "code \<noteq> ''approval_required''" "ae_enabled E"
    and "get_spec (en_registry (ae_kernel E)) (ps_capability st) = Inr spec" "cs_risk spec \<noteq> Read_Only" "ps_capability st \<noteq> []"
    and other: "request_hash H (step_request H c i goal st) \<noteq> request_hash H (execution_request (step_request H c i goal st) spec)"
  shows "execute_step H E D c i goal st s = (Inr (result_of H i st Plan_Failed (Some krun) approval code m), s')"
proof -
  let ?r = "step_request H c i goal st"
  obtain w where k: "kernel_execute H (ae_kernel E) (dr_kernel D (ax_tick s)) c ?r (ax_world s)
      = (Inl (RuntimeExecutionError m krun code status approval), w)" and w: "ax_world s' = w"
    using assms(1) by (auto simp: agent_kernel_def Let_def split: prod.splits if_splits)
  have "resolve_capability (ae_kernel E) c ?r = Inr spec"
    using assms(6,8) by (simp add: resolve_capability_def step_request_def present_def text_or_empty_def)
  from mutation_leaves_its_claim [OF k _ this assms(7)] assms(2) w
  obtain key cl where key: "idempotency_key H c (py_strip (text_or_empty (rq_request_id ?r))) = Inr key"
    and cl: "find_claim (working (w_session (ax_world s'))) key = Some cl" "cl_hash cl = request_hash H (execution_request ?r spec)"
    by (auto simp: bound_def)
  have "py_strip (text_or_empty (rq_request_id ?r)) \<noteq> []"
    by (simp add: step_request_key text_or_empty_def stable_id_text)
  then have "find_completed_request H (working (w_session (ax_world s'))) c ?r
      = Inl (IdempotencyConflict ''request_id was already used with a different goal, capability, or argument payload'')"
    using key cl other by (simp add: find_completed_request_def Let_def validate_existing_def)
  then have "mutation_recovery_state H E c ?r st code s' = (Inr (None, False), s')"
    using assms(3,6,7) by (simp add: mutation_recovery_state_def Let_def)
  then have "failed_execution H E c i ?r st m krun code approval s' = (Inr (result_of H i st Plan_Failed (Some krun) approval code m), s')"
    using assms(4) by (simp add: failed_execution_def bind_act_def)
  then show ?thesis
    using assms(1,5) by (simp add: execute_step_def require_enabled_def bind_act_def Let_def)
qed

end
