(* ===== verification/Agent_Runs.thy ===== *)
theory Agent_Runs
  imports Agent_Laws
begin

text \<open>
  The rows of agent runs: a plan that is created is the plan that is loaded, and every operation of the
  store, in a transaction of its own, moves a run along the allowed transitions and keeps its lease and
  its end time in step with its status.
\<close>

subsection \<open>A plan comes back as it was stored\<close>

text \<open>A plan that the constructors of the contracts have made.\<close>

definition proper_plan :: "agent_plan \<Rightarrow> bool" where
  "proper_plan p = ((\<exists>rid goal. make_plan rid goal (pl_steps p) (pl_budget p) = Inr p)
     \<and> (\<forall>st \<in> set (pl_steps p). \<exists>i c a ap. make_plan_step i c a ap = Inr st)
     \<and> (\<exists>n m. make_budget n m = Inr (pl_budget p)))"

text \<open>The stored arguments of a step are those the plan had, with the keys of their objects in order.\<close>

definition stored_step :: "plan_step \<Rightarrow> plan_step" where
  "stored_step st = st\<lparr>ps_arguments := kept (ps_arguments st)\<rparr>"

lemma json_text_kept: "json_text kvs = JObj (kept kvs)"
  by (simp add: kept_def json_text_def)

lemma strip_or_none_idem [simp]: "strip_or_none (strip_or_none v) = strip_or_none v"
  by (auto simp: strip_or_none_def Let_def text_or_empty_def)

lemma strip_or_none_None [simp]: "strip_or_none None = None"
  by (simp add: strip_or_none_def text_or_empty_def)

lemma make_plan_step_again:
  "make_plan_step i c a ap = Inr st \<Longrightarrow> make_plan_step (ps_id st) (ps_capability st) args (ps_approval st) = Inr (st\<lparr>ps_arguments := args\<rparr>)"
  by (auto simp: make_plan_step_def Let_def split: if_splits)

lemma make_plan_again:
  assumes "make_plan rid goal (pl_steps p) (pl_budget p) = Inr p" "map ps_id sts = map ps_id (pl_steps p)"
  shows "make_plan (pl_run p) (pl_goal p) sts (pl_budget p) = Inr (p\<lparr>pl_steps := sts\<rparr>)"
proof -
  have "p = \<lparr>pl_run = py_strip rid, pl_goal = py_strip goal, pl_steps = pl_steps p, pl_budget = pl_budget p\<rparr>"
    and c: "py_strip rid \<noteq> []" "length (py_strip rid) \<le> 120" "py_strip goal \<noteq> []" "length (py_strip goal) \<le> 12000"
      "pl_steps p \<noteq> []" "distinct (map ps_id (pl_steps p))"
    using assms(1) by (auto simp: make_plan_def Let_def split: if_splits)
  then have p: "pl_run p = py_strip rid" "pl_goal p = py_strip goal" by (metis agent_plan.select_convs(1), metis agent_plan.select_convs(2))
  have "sts \<noteq> []" using c(5) assms(2) by auto
  then show ?thesis using c assms(2) by (simp add: make_plan_def Let_def p)
qed

lemma make_budget_again: "make_budget n m = Inr b \<Longrightarrow> make_budget (bu_steps b) (bu_mutations b) = Inr b"
  by (auto simp: make_budget_def split: if_splits)

text \<open>The rows that are added are the steps in their order.\<close>

definition row_of_step :: "agent_plan \<Rightarrow> plan_step \<Rightarrow> agent_step \<Rightarrow> bool" where
  "row_of_step p st r = (as_run r = pl_run p \<and> as_step r = ps_id st \<and> as_capability r = ps_capability st
     \<and> as_arguments r = Some (json_text (ps_arguments st)) \<and> as_approval r = ps_approval st)"

lemma add_steps_rows:
  "\<exists>rows s'. add_steps H D p n sts s = (Inr (), s') \<and> at_steps (agent_tables_of s') = at_steps (agent_tables_of s) @ rows
    \<and> ax_seen s' = ax_seen s \<and> list_all2 (row_of_step p) sts rows \<and> map as_order rows = [n..<n + length sts]"
proof (induction sts arbitrary: n s)
  case Nil
  then show ?case by simp
next
  case (Cons st sts)
  let ?row = "new_step H p (dr_id D (ax_tick s)) n st"
  let ?s = "on_agent (\<lambda>t. t\<lparr>at_steps := at_steps t @ [?row]\<rparr>) (s\<lparr>ax_tick := Suc (ax_tick s)\<rparr>)"
  obtain rows s' where r: "add_steps H D p (Suc n) sts ?s = (Inr (), s')"
    "at_steps (agent_tables_of s') = at_steps (agent_tables_of ?s) @ rows" "ax_seen s' = ax_seen ?s"
    "list_all2 (row_of_step p) sts rows" "map as_order rows = [Suc n..<Suc n + length sts]"
    using Cons.IH [of "Suc n" ?s] by blast
  have "add_steps H D p n (st # sts) s = (Inr (), s')"
    using r(1) by (simp add: bind_act_def take_draw_def change_def modify_def)
  moreover have "at_steps (agent_tables_of s') = at_steps (agent_tables_of s) @ (?row # rows)"
    using r(2) by (simp add: agent_tables_of_def on_agent_def on_agent_data_def session_simps)
  moreover have "ax_seen s' = ax_seen s" using r(3) by (simp add: on_agent_def)
  moreover have "list_all2 (row_of_step p) (st # sts) (?row # rows)"
    using r(4) by (simp add: row_of_step_def new_step_def)
  moreover have "map as_order (?row # rows) = [n..<n + length (st # sts)]"
    using r(5) by (simp add: new_step_def upt_conv_Cons del: upt_Suc)
  ultimately show ?case by blast
qed

lemma load_step_row:
  assumes "row_of_step p st r" "make_plan_step i c a ap = Inr st"
  shows "load_step r = Inr (stored_step st)"
  using assms(1) make_plan_step_again [OF assms(2)]
  by (simp add: load_step_def row_of_step_def object_json_def json_text_kept stored_step_def)

lemma load_steps_rows:
  assumes "list_all2 (row_of_step p) sts rows" "\<forall>st \<in> set sts. \<exists>i c a ap. make_plan_step i c a ap = Inr st"
  shows "sequence_result load_step rows = Inr (map stored_step sts)"
  using assms by (induction rule: list_all2_induct) (auto simp: load_step_row)

lemma steps_of_new_run:
  assumes "at_steps t = old @ rows" "\<forall>r \<in> set old. as_run r \<noteq> i" "\<forall>r \<in> set rows. as_run r = i" "map as_order rows = [n..<m]"
  shows "steps_of_run i t = rows"
proof -
  have "sorted (map as_order rows)" by (simp add: assms(4))
  moreover have "filter (\<lambda>r. as_run r = i) (at_steps t) = rows"
    using assms(1-3) by (simp add: filter_empty_conv)
  ultimately show ?thesis by (simp add: steps_of_run_def sort_key_id_if_sorted)
qed

lemma stored_budget:
  "\<exists>kvs. budget_json p = JObj kvs \<and> obj_get ''max_steps'' kvs = Some (JInt (bu_steps (pl_budget p)))
    \<and> obj_get ''max_mutations'' kvs = Some (JInt (bu_mutations (pl_budget p)))"
  by (simp add: budget_json_def json_text_def)


lemma created_plan_loads:
  assumes "create_run H D c p s = (Inr row, s')" "proper_plan p"
    and "\<forall>r \<in> set (at_steps (agent_tables_of s)). as_run r \<noteq> pl_run p"
  shows "\<exists>s''. load_plan (pl_run p) s' = (Inr (p\<lparr>pl_steps := map stored_step (pl_steps p)\<rparr>), s'')"
proof -
  obtain s1 scope where l: "load_run (pl_run p) s = (Inr None, s1)" and row: "row = new_run c p scope"
    and a: "add_steps H D p 0 (pl_steps p) ((on_agent (\<lambda>t. t\<lparr>at_runs := at_runs t @ [row]\<rparr>) s1)\<lparr>ax_seen := Some row\<rparr>) = (Inr (), s')"
    using assms(1) by (auto simp: create_run_def bind_act_Inr_iff Let_def change_def modify_def split: if_splits)
  obtain rows where r: "at_steps (agent_tables_of s') = at_steps (agent_tables_of s) @ rows" "ax_seen s' = Some row"
    "list_all2 (row_of_step p) (pl_steps p) rows" "map as_order rows = [0..<length (pl_steps p)]"
  proof -
    have "at_steps (agent_tables_of ((on_agent (\<lambda>t. t\<lparr>at_runs := at_runs t @ [row]\<rparr>) s1)\<lparr>ax_seen := Some row\<rparr>))
        = at_steps (agent_tables_of s)"
      using l by (auto simp: load_run_def on_agent_def on_agent_data_def agent_tables_of_def session_simps split: option.splits if_splits)
    then show thesis
      using add_steps_rows [of H D p 0 "pl_steps p" "(on_agent (\<lambda>t. t\<lparr>at_runs := at_runs t @ [row]\<rparr>) s1)\<lparr>ax_seen := Some row\<rparr>"] a that
      by auto
  qed
  have steps: "steps_of_run (pl_run p) (agent_tables_of s') = rows"
    by (rule steps_of_new_run [OF r(1) assms(3) _ r(4)]) (use r(3) in \<open>auto simp: row_of_step_def list_all2_conv_all_nth in_set_conv_nth\<close>)
  obtain rid goal n m where p: "make_plan rid goal (pl_steps p) (pl_budget p) = Inr p" "make_budget n m = Inr (pl_budget p)"
    and st: "\<forall>st \<in> set (pl_steps p). \<exists>i c a ap. make_plan_step i c a ap = Inr st"
    using assms(2) by (auto simp: proper_plan_def)
  obtain kvs where kvs: "budget_json p = JObj kvs" "obj_get ''max_steps'' kvs = Some (JInt (bu_steps (pl_budget p)))"
    "obj_get ''max_mutations'' kvs = Some (JInt (bu_mutations (pl_budget p)))"
    using stored_budget by blast
  have "map ps_id (map stored_step (pl_steps p)) = map ps_id (pl_steps p)" by (simp add: stored_step_def)
  from make_plan_again [OF p(1) this]
  have "rebuild_plan row kvs rows = Inr (p\<lparr>pl_steps := map stored_step (pl_steps p)\<rparr>)"
    using kvs load_steps_rows [OF r(3) st] make_budget_again [OF p(2)]
    by (simp add: rebuild_plan_def py_int_def row new_run_def)
  moreover have "rows \<noteq> []" using r(3) p(1) by (auto simp: make_plan_def Let_def split: if_splits)
  moreover have "ag_id row = pl_run p" "ag_budget row = Some (JObj kvs)" by (simp_all add: row new_run_def kvs)
  ultimately show ?thesis
    using steps r(2)
    by (simp add: load_plan_def bind_act_def load_run_def object_json_def list_steps_def modify_def look_def agent_tables_of_def)
qed


text \<open>
  C34. A plan that the constructors accept comes back from the store as it was created: the same run,
  goal, budget and steps in their order, with their capabilities, approvals and arguments, the keys of
  the arguments in order. The run id is new, so no step row has it.
\<close>

theorem created_plan_is_loaded:
  assumes "create_run H D c p s = (Inr row, s')" "proper_plan p"
    and "\<forall>r \<in> set (at_steps (agent_tables_of s)). as_run r \<noteq> pl_run p"
  shows "\<exists>s''. load_plan (pl_run p) s' = (Inr (p\<lparr>pl_steps := map stored_step (pl_steps p)\<rparr>), s'')"
  using assms by (rule created_plan_loads)

definition sample_agent_plan :: agent_plan where
  "sample_agent_plan = \<lparr>pl_run = ''n'', pl_goal = ''g'', pl_steps =
     [\<lparr>ps_id = ''b'', ps_capability = ''tasks.add'', ps_arguments = [(''y'', JInt 1), (''x'', JNull)], ps_approval = None\<rparr>,
      \<lparr>ps_id = ''a'', ps_capability = ''tasks.list'', ps_arguments = [], ps_approval = Some ''ap''\<rparr>],
     pl_budget = \<lparr>bu_steps = 2, bu_mutations = 1\<rparr>\<rparr>"

lemma sample_plan_created:
  "case create_run sample_host sample_agent_draws sample_member sample_agent_plan (sample_agent_state []) of
     (Inr row, s') \<Rightarrow> True | _ \<Rightarrow> False"
  by code_simp

lemma sample_plan_proper: "proper_plan sample_agent_plan"
proof -
  have "make_plan ''n'' ''g'' (pl_steps sample_agent_plan) (pl_budget sample_agent_plan) = Inr sample_agent_plan"
    "make_budget 2 1 = Inr (pl_budget sample_agent_plan)"
    "make_plan_step ''b'' ''tasks.add'' [(''y'', JInt 1), (''x'', JNull)] None = Inr (pl_steps sample_agent_plan ! 0)"
    "make_plan_step ''a'' ''tasks.list'' [] (Some ''ap'') = Inr (pl_steps sample_agent_plan ! 1)"
    by code_simp+
  then show ?thesis unfolding proper_plan_def
    by (auto simp: sample_agent_plan_def)
qed

theorem created_plan_is_loaded_witness:
  "\<exists>row s' s''. create_run sample_host sample_agent_draws sample_member sample_agent_plan (sample_agent_state []) = (Inr row, s')
    \<and> load_plan ''n'' s' = (Inr (sample_agent_plan\<lparr>pl_steps := map stored_step (pl_steps sample_agent_plan)\<rparr>), s'')"
proof -
  obtain row s' where c: "create_run sample_host sample_agent_draws sample_member sample_agent_plan (sample_agent_state []) = (Inr row, s')"
    using sample_plan_created by (auto split: prod.splits sum.splits)
  have "\<forall>r \<in> set (at_steps (agent_tables_of (sample_agent_state []))). as_run r \<noteq> pl_run sample_agent_plan"
    by (simp add: sample_agent_state_def Let_def agent_tables_of_def)
  from created_plan_is_loaded [OF c sample_plan_proper this] c show ?thesis by (auto simp: sample_agent_plan_def)
qed

subsection \<open>The store, one transaction after the other\<close>

text \<open>
  Every operation of the store is a transaction of a session of its own. The row it reads to decide is
  locked, or the decision is the condition of the update itself, so that nobody writes in between.
\<close>

definition alone :: "agent_draws \<Rightarrow> bool" where
  "alone D = (\<forall>n r. dr_outside D n r = r)"

definition own_session :: "('x, 'a) aact \<Rightarrow> 'x agent_state \<Rightarrow> 'x agent_state" where
  "own_session m s = (case m (snd (rollback_agent s)) of
       (Inr _, s') \<Rightarrow> snd (commit_agent s')
     | (Inl _, _) \<Rightarrow> snd (rollback_agent s))"

inductive store_op :: "host \<Rightarrow> 'x agent_state \<Rightarrow> 'x agent_state \<Rightarrow> bool" for H where
  create: "store_op H s (own_session (create_run H D c p) s)"
| cancel: "alone D \<Longrightarrow> store_op H s (own_session (request_cancellation D c i) s)"
| claim: "alone D \<Longrightarrow> store_op H s (own_session (claim_run D i token lease) s)"
| renew: "alone D \<Longrightarrow> store_op H s (own_session (renew_run_lease D i token lease) s)"
| release: "alone D \<Longrightarrow> store_op H s (own_session (release_run_lease D i token) s)"
| transition: "alone D \<Longrightarrow> store_op H s (own_session (transition_run D i target step code message result) s)"
| queue: "alone D \<Longrightarrow> store_op H s (own_session (queue_after_approval D c i approval) s)"
| record_result: "store_op H s (own_session (record_step_result D i x) s)"

text \<open>A lease belongs to a running run, and a run has finished when its status is final.\<close>

definition row_ok :: "agent_run \<Rightarrow> bool" where
  "row_ok r = ((ag_token r \<noteq> None \<or> ag_until r \<noteq> None \<longrightarrow> ag_status r = Agent_Running)
     \<and> (ag_finished r \<noteq> None \<longleftrightarrow> terminal_status (ag_status r)))"

definition runs_ok :: "agent_run list \<Rightarrow> bool" where
  "runs_ok rs = (distinct (map ag_id rs) \<and> (\<forall>r \<in> set rs. row_ok r))"

definition moved_ok :: "(agent_run \<Rightarrow> agent_run) \<Rightarrow> agent_run \<Rightarrow> bool" where
  "moved_ok f r = (ag_id (f r) = ag_id r \<and> (ag_status (f r) = ag_status r \<or> allowed_transition (ag_status r) (ag_status (f r)))
     \<and> (row_ok r \<longrightarrow> row_ok (f r)))"

definition runs_change :: "agent_run list \<Rightarrow> agent_run list \<Rightarrow> bool" where
  "runs_change rs rs' = (rs' = rs \<or> (\<exists>row. rs' = rs @ [row] \<and> ag_id row \<notin> ag_id ` set rs \<and> row_ok row)
     \<or> (\<exists>i f r. find (\<lambda>r. ag_id r = i) rs = Some r \<and> rs' = update_where (\<lambda>r. ag_id r = i) f rs \<and> moved_ok f r))"

abbreviation runs_of :: "'x agent_state \<Rightarrow> agent_run list" where
  "runs_of s \<equiv> at_runs (agent_tables_of s)"

definition changing :: "('x, 'a) aact \<Rightarrow> bool" where
  "changing m = (\<forall>s x s'. ax_seen s = None \<longrightarrow> m s = (Inr x, s') \<longrightarrow> runs_change (runs_of s) (runs_of s'))"

lemma update_where_id: "update_where P (\<lambda>r. r) xs = xs"
  by (induction xs) auto

lemma others_alone: "alone D \<Longrightarrow> others_write D i s = (Inr (), s\<lparr>ax_tick := Suc (ax_tick s)\<rparr>)"
proof -
  assume "alone D"
  then have k: "keep_id (dr_outside D n) = (\<lambda>r. r)" for n by (simp add: fun_eq_iff keep_id_def alone_def)
  have "set_agent_run i (\<lambda>r. r) t = t" for t :: "'a agent_tables" by (simp add: set_agent_run_def update_where_id)
  then show ?thesis by (simp add: others_write_def bind_act_def take_draw_def modify_def k on_both_def on_agent_data_def)
qed

lemma runs_of_simps [simp]:
  "runs_of (s\<lparr>ax_tick := n\<rparr>) = runs_of s" "runs_of (s\<lparr>ax_seen := r\<rparr>) = runs_of s" "runs_of (s\<lparr>ax_expired := b\<rparr>) = runs_of s"
  "agent_tables_of (on_agent h s) = h (agent_tables_of s)" "at_runs (set_agent_run i f t) = update_where (\<lambda>r. ag_id r = i) f (at_runs t)"
  "at_runs (set_agent_step i g t) = at_runs t" "ax_seen (on_agent h s) = ax_seen s"
  by (simp_all add: agent_tables_of_def on_agent_def on_agent_data_def session_simps set_agent_run_def set_agent_step_def)

lemma runs_change_refl [simp]: "runs_change rs rs"
  by (simp add: runs_change_def)

lemma runs_change_update: "find (\<lambda>r. ag_id r = i) rs = Some r \<Longrightarrow> moved_ok f r \<Longrightarrow> runs_change rs (update_where (\<lambda>r. ag_id r = i) f rs)"
  unfolding runs_change_def by blast

lemma update_run_change:
  assumes "update_run i p f s = (Inr ok, s')" "\<And>r. p r \<Longrightarrow> moved_ok f r"
  shows "runs_change (runs_of s) (runs_of s')"
  using assms
  by (auto simp: update_run_def bind_act_def look_def write_run_def modify_def find_agent_run_def
      intro!: runs_change_update split: option.splits if_splits)

lemma moved_ok_updates:
  "holds_lease t r \<Longrightarrow> moved_ok (renewed_run now lease) r"
  "claimable_run t now r \<Longrightarrow> moved_ok (claimed_run t now lease) r"
  "moved_ok without_lease r"
  "allowed_transition (ag_status r) target \<Longrightarrow> moved_ok (moved_run now target step code message result) r"
  "\<not> terminal_status (ag_status r) \<Longrightarrow> moved_ok (request_cancel now r) r"
  "ag_status r = Agent_Waiting_Approval \<Longrightarrow> moved_ok queued_again r"
  unfolding moved_ok_def row_ok_def
  by (cases "ag_status r"; cases target;
      auto simp: holds_lease_def renewed_run_def claimable_run_def claimed_run_def without_lease_def moved_run_def Let_def
        terminal_status_def request_cancel_def queued_again_def)+

lemma lock_alone:
  assumes "alone D" "ax_seen s = None" "lock_run D i s = (Inr found, s')"
  shows "found = find (\<lambda>r. ag_id r = i) (runs_of s)" "runs_of s' = runs_of s"
  using assms(2,3) by (auto simp: lock_run_def bind_act_def others_alone [OF assms(1)] load_run_def find_agent_run_def)

lemma write_run_change:
  "write_run i f s = (Inr u, s') \<Longrightarrow> find (\<lambda>r. ag_id r = i) rs = Some r \<Longrightarrow> runs_of s = rs \<Longrightarrow> moved_ok f r \<Longrightarrow>
   runs_change rs (runs_of s')"
  by (auto simp: write_run_def modify_def intro: runs_change_update)

lemma changing_updates:
  assumes "alone D"
  shows "changing (claim_run D i token lease)" "changing (renew_run_lease D i token lease)" "changing (release_run_lease D i token)"
  unfolding changing_def
  by (auto simp: claim_run_def renew_run_lease_def release_run_lease_def bind_act_Inr_iff take_draw_def others_alone [OF assms]
      load_run_def split: if_splits option.splits dest!: update_run_change intro!: moved_ok_updates)


lemma changing_locked:
  assumes "alone D"
    and "\<And>r s x s'. k (Some r) s = (Inr x, s') \<Longrightarrow> find (\<lambda>r. ag_id r = i) (runs_of s) = Some r \<Longrightarrow> runs_change (runs_of s) (runs_of s')"
    and "\<And>s x s'. k None s \<noteq> (Inr x, s')"
  shows "changing (bind_act (lock_run D i) k)"
  unfolding changing_def
proof (intro allI impI)
  fix s :: "'a agent_state" and x s' assume "ax_seen s = None" "bind_act (lock_run D i) k s = (Inr x, s')"
  then obtain found s1 where l: "lock_run D i s = (Inr found, s1)" and k: "k found s1 = (Inr x, s')"
    by (auto simp: bind_act_Inr_iff)
  note f = lock_alone [OF assms(1) \<open>ax_seen s = None\<close> l]
  obtain r where "found = Some r" using assms(3) k by (cases found) auto
  then show "runs_change (runs_of s) (runs_of s')" using assms(2) k f by metis
qed

lemma changing_transition:
  assumes "alone D" shows "changing (transition_run D i target step code message result)"
  unfolding transition_run_def
  by (rule changing_locked [OF assms])
    (auto simp: bind_act_Inr_iff take_draw_def split: if_splits intro: write_run_change moved_ok_updates(4))

lemma changing_cancel:
  assumes "alone D" shows "changing (request_cancellation D c i)"
  unfolding request_cancellation_def
  by (rule changing_locked [OF assms])
    (auto simp: bind_act_Inr_iff take_draw_def split: if_splits intro: write_run_change moved_ok_updates(5))

lemma changing_queue:
  assumes "alone D" shows "changing (queue_after_approval D c i approval)"
proof (cases "py_strip approval = [] \<or> 36 < length (py_strip approval)")
  case True
  then show ?thesis by (simp add: queue_after_approval_def Let_def changing_def)
next
  case False
  then show ?thesis
    unfolding queue_after_approval_def Let_def if_not_P [OF False]
    by (intro changing_locked [OF assms])
      (auto simp: bind_act_Inr_iff look_def change_def modify_def split: if_splits option.splits
        intro: write_run_change moved_ok_updates(6))
qed

lemma add_steps_runs: "add_steps H D p n sts s = (Inr u, s') \<Longrightarrow> runs_of s' = runs_of s"
  by (induction sts arbitrary: n s) (auto simp: bind_act_Inr_iff take_draw_def change_def modify_def)

lemma new_run_ok: "ag_id (new_run c p scope) = pl_run p" "row_ok (new_run c p scope)"
  by (simp_all add: new_run_def row_ok_def terminal_status_def)

lemma runs_change_new: "\<forall>r \<in> set rs. ag_id r \<noteq> ag_id row \<Longrightarrow> row_ok row \<Longrightarrow> runs_change rs (rs @ [row])"
  unfolding runs_change_def by auto

lemma changing_create: "changing (create_run H D c p)"
  unfolding changing_def create_run_def
  by (auto simp: bind_act_Inr_iff load_run_def Let_def change_def modify_def find_agent_run_def find_None_iff_all new_run_ok
      split: if_splits dest!: add_steps_runs intro!: runs_change_new)

lemma changing_record: "changing (record_step_result D i x)"
  unfolding changing_def record_step_result_def
  by (auto simp: bind_act_Inr_iff look_def change_def modify_def take_draw_def split: option.splits if_splits)

definition stored_runs :: "'x agent_state \<Rightarrow> agent_run list" where
  "stored_runs s = at_runs (kt_data (committed (w_session (ax_world s))))"

lemma own_session_change:
  assumes "changing m" shows "runs_change (stored_runs s) (stored_runs (own_session m s))"
proof -
  let ?s = "snd (rollback_agent s)"
  have s: "ax_seen ?s = None" "runs_of ?s = stored_runs s"
    by (simp_all add: rollback_agent_def modify_def agent_tables_of_def stored_runs_def session_simps)
  have k: "stored_runs (snd (commit_agent s')) = runs_of s'" for s' :: "'a agent_state"
    by (simp add: commit_agent_def modify_def agent_tables_of_def stored_runs_def session_simps)
  obtain x s' where m: "m ?s = (x, s')" by force
  show ?thesis
  proof (cases x)
    case (Inr a)
    have "runs_change (runs_of ?s) (runs_of s')" using assms s(1) m Inr unfolding changing_def by blast
    then show ?thesis using s k m Inr by (simp add: own_session_def)
  next
    case (Inl e)
    have "stored_runs ?s = stored_runs s"
      by (simp add: rollback_agent_def modify_def stored_runs_def session_simps)
    then show ?thesis using Inl m by (simp add: own_session_def)
  qed
qed

lemma store_op_change: "store_op H s s' \<Longrightarrow> runs_change (stored_runs s) (stored_runs s')"
  by (induction rule: store_op.induct)
    (auto intro: own_session_change changing_create changing_cancel changing_updates changing_transition changing_queue changing_record)

lemma runs_change_ok: "runs_change rs rs' \<Longrightarrow> runs_ok rs \<Longrightarrow> runs_ok rs'"
proof -
  assume c: "runs_change rs rs'" and ok: "runs_ok rs"
  consider "rs' = rs" | row where "rs' = rs @ [row]" "ag_id row \<notin> ag_id ` set rs" "row_ok row"
    | i f r where "find (\<lambda>r. ag_id r = i) rs = Some r" "rs' = update_where (\<lambda>r. ag_id r = i) f rs" "moved_ok f r"
    using c unfolding runs_change_def by blast
  then show ?thesis
  proof cases
    case 3
    have u: "q = r" if "q \<in> set rs" "ag_id q = i" for q
      using find_SomeD [OF 3(1)] that ok by (auto simp: runs_ok_def distinct_map inj_on_def)
    have "ag_id (if ag_id q = i then f q else q) = ag_id q" if "q \<in> set rs" for q
      using that u 3(3) by (auto simp: moved_ok_def)
    then have "map ag_id rs' = map ag_id rs"
      by (simp add: 3(2) update_where_def cong: map_cong)
    moreover have "row_ok q" if "q \<in> set rs'" for q
      using that u 3(2,3) ok by (auto simp: set_update_where moved_ok_def runs_ok_def split: if_splits)
    ultimately show ?thesis using ok by (simp add: runs_ok_def)
  qed (use ok in \<open>auto simp: runs_ok_def\<close>)
qed

definition run_status_in :: "'x agent_state \<Rightarrow> ident \<Rightarrow> agent_run_status option" where
  "run_status_in s i = map_option ag_status (find (\<lambda>r. ag_id r = i) (stored_runs s))"

lemma find_update_other: "(\<And>r. P r \<Longrightarrow> \<not> Q r) \<Longrightarrow> (\<And>r. P r \<Longrightarrow> \<not> Q (f r)) \<Longrightarrow> find Q (update_where P f rs) = find Q rs"
  by (induction rs) auto

lemma runs_change_moves:
  assumes "runs_change rs rs'" "runs_ok rs" "find (\<lambda>r. ag_id r = j) rs = Some q"
  shows "\<exists>q'. find (\<lambda>r. ag_id r = j) rs' = Some q' \<and> (ag_status q' = ag_status q \<or> allowed_transition (ag_status q) (ag_status q'))"
proof -
  consider "rs' = rs" | row where "rs' = rs @ [row]"
    | i f r where "find (\<lambda>r. ag_id r = i) rs = Some r" "rs' = update_where (\<lambda>r. ag_id r = i) f rs" "moved_ok f r"
    using assms(1) unfolding runs_change_def by blast
  then show ?thesis
  proof cases
    case 3
    have u: "p = r" if "p \<in> set rs" "ag_id p = i" for p
      using find_SomeD [OF 3(1)] that assms(2) by (auto simp: runs_ok_def distinct_map inj_on_def)
    define g where "g p = (if ag_id p = i then (f r)\<lparr>ag_id := ag_id p\<rparr> else p)" for p
    have fr: "ag_id (f r) = ag_id r" "ag_id r = i" using 3(3) find_SomeD [OF 3(1)] by (simp_all add: moved_ok_def)
    have "(if ag_id p = i then f p else p) = (if ag_id p = i then g p else p)" if "p \<in> set rs" for p
    proof (cases "ag_id p = i")
      case True
      then have "p = r" using u that by blast
      then show ?thesis using fr by (simp add: g_def)
    qed simp
    then have "rs' = update_where (\<lambda>r. ag_id r = i) g rs"
      by (simp add: 3(2) update_where_def cong: map_cong)
    moreover have "ag_id (g p) = ag_id p" for p by (simp add: g_def)
    ultimately have "find (\<lambda>r. ag_id r = j) rs' = Some (if ag_id q = i then g q else q)"
      using find_update_where [of ag_id g j "\<lambda>r. ag_id r = i" rs] assms(3) by simp
    moreover have "q = r" if "ag_id q = i" using u find_SomeD [OF assms(3)] that by blast
    ultimately show ?thesis using 3(3) by (auto simp: g_def moved_ok_def)
  qed (use assms(3) in \<open>auto simp: find_append\<close>)
qed

lemma store_ops_ok: "(store_op H)\<^sup>*\<^sup>* s s' \<Longrightarrow> runs_ok (stored_runs s) \<Longrightarrow> runs_ok (stored_runs s')"
  by (induction rule: rtranclp_induct) (auto intro: runs_change_ok store_op_change)

interpretation agent_life: lifecycle "\<lambda>s s'. store_op H s s' \<and> runs_ok (stored_runs s)" run_status_in allowed_transition for H
proof
  fix s s' :: "'a agent_state" and i a
  assume "store_op H s s' \<and> runs_ok (stored_runs s)" "run_status_in s i = Some a"
  then show "\<exists>b. run_status_in s' i = Some b \<and> (b = a \<or> allowed_transition a b)"
    using runs_change_moves [OF store_op_change] unfolding run_status_in_def by fastforce
qed

lemma store_ops_guarded:
  "(store_op H)\<^sup>*\<^sup>* s s' \<Longrightarrow> runs_ok (stored_runs s) \<Longrightarrow> (\<lambda>s s'. store_op H s s' \<and> runs_ok (stored_runs s))\<^sup>*\<^sup>* s s'"
  by (induction rule: rtranclp_induct) (auto intro: rtranclp.rtrancl_into_rtrancl store_ops_ok)




text \<open>
  The check of a transition is made on the object that the session has loaded before, also under the
  lock: a status that another session has committed since is not seen, and is overwritten.
\<close>

lemma stale_transition_overwrites:
  assumes "alone D" "ax_seen s = Some r" "ag_id r = i" "allowed_transition (ag_status r) target"
    and "find_agent_run i (agent_tables_of s) = Some q"
  shows "\<exists>x s' q'. transition_run D i target step code message result s = (Inr x, s')
    \<and> find_agent_run i (agent_tables_of s') = Some q' \<and> ag_status q' = target"
proof -
  let ?f = "moved_run (dr_now D (Suc (ax_tick s))) target step code message result"
  have "find (\<lambda>r. ag_id r = i) (update_where (\<lambda>r. ag_id r = i) ?f (runs_of s)) = Some (?f q)"
    using assms(5) find_SomeD [OF assms(5) [unfolded find_agent_run_def]]
    by (simp add: find_agent_run_def find_update_where)
  then show ?thesis
    using assms(2-4)
    by (simp add: transition_run_def lock_run_def bind_act_def others_alone [OF assms(1)] load_run_def take_draw_def write_run_def
        modify_def find_agent_run_def)
qed

end
