(* ===== verification/Plugin_Tables.thy ===== *)
theory Plugin_Tables
  imports Wf_Triggers
begin

text \<open>
  packages/database/digital_job_models.py, digital_event_models.py, digital_usage_models.py and
  plugin_platform_models.py: the rows of the plugin platform's job queue, event outbox,
  subscriptions, deliveries and usage budgets. The tables live in the same database as the workflow
  tables, in their data part, and the actions are the workflow code's.
\<close>

datatype job_state = Job_Queued | Job_Running | Job_Retry | Job_Completed | Job_Failed

record platform_job =
  pj_id :: ident
  pj_tenant :: "ident option"
  pj_scope :: string
  pj_type :: string
  pj_subject_kind :: string
  pj_subject :: string
  pj_state :: job_state
  pj_priority :: int
  pj_payload :: "(string \<times> json) list"
  pj_result :: "(string \<times> json) list"
  pj_attempt :: int
  pj_max :: int
  pj_key :: string
  pj_available :: time
  pj_worker :: "string option"
  pj_until :: "time option"
  pj_heartbeat :: "time option"
  pj_error :: "string option"
  pj_created_by :: "ident option"
  pj_created :: time
  pj_started :: "time option"
  pj_completed :: "time option"

datatype event_status = Event_Pending | Event_Leased | Event_Retry | Event_Delivered | Event_Dead

record outbox_event =
  oe_id :: ident
  oe_tenant :: ident
  oe_type :: string
  oe_source_kind :: string
  oe_source :: "string option"
  oe_subject_type :: "string option"
  oe_subject :: "string option"
  oe_payload :: "(string \<times> json) list"
  oe_status :: event_status
  oe_attempts :: int
  oe_available :: time
  oe_worker :: "string option"
  oe_until :: "time option"
  oe_error :: "string option"
  oe_created :: time
  oe_delivered :: "time option"

record subscription =
  es_id :: ident
  es_tenant :: ident
  es_pattern :: string
  es_target_kind :: string
  es_target :: string
  es_secret :: "ident option"
  es_enabled :: bool
  es_policy :: "json option"

datatype delivery_status =
  Delivery_Pending | Delivery_Running | Delivery_Retry | Delivery_Delivered | Delivery_Dead

record delivery =
  dl_id :: ident
  dl_tenant :: ident
  dl_event :: ident
  dl_subscription :: ident
  dl_status :: delivery_status
  dl_attempts :: int
  dl_available :: time
  dl_worker :: "string option"
  dl_until :: "time option"
  dl_response :: "int option"
  dl_digest :: "string option"
  dl_error :: "string option"
  dl_created :: time
  dl_delivered :: "time option"

text \<open>What usage is counted for: the workspace, the subject and the metric.\<close>

record usage_key =
  uk_tenant :: ident
  uk_kind :: string
  uk_subject :: string
  uk_metric :: string

record budget =
  bg_key :: usage_key
  bg_window :: int
  bg_hard :: int
  bg_soft :: "int option"
  bg_enabled :: bool

record bucket =
  bk_key :: usage_key
  bk_start :: int
  bk_window :: int
  bk_quantity :: int

record ledger_entry =
  lg_key :: usage_key
  lg_quantity :: int
  lg_reference_kind :: "string option"
  lg_reference :: "string option"
  lg_recorded :: time

record 'x platform =
  pf_jobs :: "platform_job list"
  pf_events :: "outbox_event list"
  pf_subscriptions :: "subscription list"
  pf_deliveries :: "delivery list"
  pf_budgets :: "budget list"
  pf_buckets :: "bucket list"
  pf_ledger :: "ledger_entry list"
  pf_data :: 'x

type_synonym ('x, 'a) pact = "('x platform, 'a) wact"

definition on_platform :: "('x platform \<Rightarrow> 'x platform) \<Rightarrow> 'x platform wf_tables \<Rightarrow> 'x platform wf_tables" where
  "on_platform f t = t\<lparr>wf_data := f (wf_data t)\<rparr>"

definition platform_of :: "'x platform wf_state \<Rightarrow> 'x platform" where
  "platform_of s = wf_data (tables s)"

definition committed_platform :: "'x platform wf_state \<Rightarrow> 'x platform" where
  "committed_platform s = wf_data (committed_tables s)"

definition pget :: "('x platform \<Rightarrow> 'a) \<Rightarrow> ('x, 'a) pact" where
  "pget g = reads (\<lambda>t. g (wf_data t))"

definition pput :: "('x platform \<Rightarrow> 'x platform) \<Rightarrow> ('x, unit) pact" where
  "pput f = put (on_platform f)"

definition set_job :: "ident \<Rightarrow> (platform_job \<Rightarrow> platform_job) \<Rightarrow> 'x platform \<Rightarrow> 'x platform" where
  "set_job i f p = p\<lparr>pf_jobs := update_where (\<lambda>r. pj_id r = i) f (pf_jobs p)\<rparr>"

definition set_event :: "ident \<Rightarrow> (outbox_event \<Rightarrow> outbox_event) \<Rightarrow> 'x platform \<Rightarrow> 'x platform" where
  "set_event i f p = p\<lparr>pf_events := update_where (\<lambda>r. oe_id r = i) f (pf_events p)\<rparr>"

definition set_delivery :: "ident \<Rightarrow> (delivery \<Rightarrow> delivery) \<Rightarrow> 'x platform \<Rightarrow> 'x platform" where
  "set_delivery i f p = p\<lparr>pf_deliveries := update_where (\<lambda>r. dl_id r = i) f (pf_deliveries p)\<rparr>"

definition find_job :: "ident \<Rightarrow> 'x platform \<Rightarrow> platform_job option" where
  "find_job i p = find (\<lambda>r. pj_id r = i) (pf_jobs p)"

definition find_event :: "ident \<Rightarrow> 'x platform \<Rightarrow> outbox_event option" where
  "find_event i p = find (\<lambda>r. oe_id r = i) (pf_events p)"

definition find_delivery :: "ident \<Rightarrow> 'x platform \<Rightarrow> delivery option" where
  "find_delivery i p = find (\<lambda>r. dl_id r = i) (pf_deliveries p)"

definition find_subscription :: "ident \<Rightarrow> 'x platform \<Rightarrow> subscription option" where
  "find_subscription i p = find (\<lambda>r. es_id r = i) (pf_subscriptions p)"

text \<open>What other transactions commit to the platform's tables at some point of an action.\<close>

definition others_commit :: "(nat \<Rightarrow> 'x platform \<Rightarrow> 'x platform) \<Rightarrow> ('x, unit) pact" where
  "others_commit others = bind_act (draw others) (\<lambda>f. modify (\<lambda>s. s\<lparr>wf_world := (wf_world s)\<lparr>w_session :=
     (let d = w_session (wf_world s); g = (\<lambda>t. t\<lparr>kt_data := on_platform f (kt_data t)\<rparr>)
      in d\<lparr>committed := g (committed d), working := g (working d)\<rparr>)\<rparr>\<rparr>))"

end
