(* ===== verification/Plugin_Jobs.thy ===== *)
theory Plugin_Jobs
  imports Plugin_Tables
begin

text \<open>
  packages/plugins/jobs.py: the durable queue of infrastructure jobs. \<open>db.get\<close> gives the row that
  the session has already loaded, without reading it again; the operations on one job therefore
  take the row \<open>seen\<close> that \<open>db.get\<close> returns, which may be older than the table they write.
\<close>

record job_request =
  jq_type :: string
  jq_subject_kind :: string
  jq_subject :: string
  jq_key :: string
  jq_tenant :: "ident option"
  jq_payload :: "(string \<times> json) list"
  jq_priority :: int
  jq_max :: int
  jq_available :: "time option"
  jq_created_by :: "ident option"

definition job_scope :: "ident option \<Rightarrow> string" where
  "job_scope tenant = (if present tenant then ''workspace:'' @ the tenant else ''platform'')"

definition new_job :: "job_request \<Rightarrow> string \<Rightarrow> ident \<Rightarrow> time \<Rightarrow> time \<Rightarrow> platform_job" where
  "new_job q key jid available created =
     \<lparr>pj_id = jid, pj_tenant = jq_tenant q, pj_scope = job_scope (jq_tenant q),
      pj_type = take 100 (py_strip (jq_type q)), pj_subject_kind = take 60 (py_strip (jq_subject_kind q)),
      pj_subject = take 160 (py_strip (jq_subject q)), pj_state = Job_Queued,
      pj_priority = clamp 0 1000 (jq_priority q), pj_payload = stored (jq_payload q), pj_result = [],
      pj_attempt = 0, pj_max = clamp 1 20 (jq_max q), pj_key = take 200 key, pj_available = available,
      pj_worker = None, pj_until = None, pj_heartbeat = None, pj_error = None,
      pj_created_by = jq_created_by q, pj_created = created, pj_started = None, pj_completed = None\<rparr>"

text \<open>The table has a unique constraint on scope and key.\<close>

definition enqueue_job :: "draws \<Rightarrow> job_request \<Rightarrow> ('x, platform_job) pact" where
  "enqueue_job D q =
     (let key = py_strip (jq_key q); scope = job_scope (jq_tenant q) in
      if key = [] then raise (ValueError ''Platform job idempotency_key is required'') else
      bind_act (pget (\<lambda>p. find (\<lambda>r. pj_scope r = scope \<and> pj_key r = key) (pf_jobs p))) (\<lambda>existing.
      case existing of
        Some row \<Rightarrow> ret row
      | None \<Rightarrow>
          bind_act (draw (now_at D)) (\<lambda>now.
          bind_act (draw (id_at D)) (\<lambda>jid.
          bind_act (draw (now_at D)) (\<lambda>created.
          let row = new_job q key jid (case jq_available q of None \<Rightarrow> now | Some a \<Rightarrow> a) created in
          if pj_type row = [] \<or> pj_subject_kind row = [] \<or> pj_subject row = [] then
            raise (ValueError ''Platform job type and subject are required'')
          else
            bind_act (pget (\<lambda>p. list_ex (\<lambda>r. pj_scope r = pj_scope row \<and> pj_key r = pj_key row) (pf_jobs p))) (\<lambda>taken.
            if taken then raise (OtherError ''UNIQUE constraint failed: uq_digital_platform_job_idempotency'') else
            bind_act (pput (\<lambda>p. p\<lparr>pf_jobs := pf_jobs p @ [row]\<rparr>)) (\<lambda>_. ret row)))))))"

definition expired :: "time \<Rightarrow> time option \<Rightarrow> bool" where
  "expired now until = (case until of None \<Rightarrow> False | Some u \<Rightarrow> u < now)"

definition leasable_job :: "time \<Rightarrow> platform_job \<Rightarrow> bool" where
  "leasable_job now r = (pj_available r \<le> now
     \<and> (pj_state r \<in> {Job_Queued, Job_Retry} \<or> pj_state r = Job_Running \<and> expired now (pj_until r)))"

definition next_jobs :: "(ident \<Rightarrow> bool) \<Rightarrow> time \<Rightarrow> nat \<Rightarrow> 'x platform \<Rightarrow> platform_job list" where
  "next_jobs free now n p =
     take n (sort_key pj_priority (sort_key pj_available (sort_key pj_created
       (filter (\<lambda>r. leasable_job now r \<and> free (pj_id r)) (pf_jobs p)))))"

definition leased_job :: "time \<Rightarrow> string \<Rightarrow> int \<Rightarrow> platform_job \<Rightarrow> platform_job" where
  "leased_job now worker lease r = r\<lparr>pj_state := Job_Running, pj_worker := Some worker,
     pj_until := Some (now + seconds lease), pj_heartbeat := Some now,
     pj_started := (case pj_started r of None \<Rightarrow> Some now | Some t \<Rightarrow> Some t), pj_attempt := pj_attempt r + 1\<rparr>"

definition lease_jobs :: "draws \<Rightarrow> (nat \<Rightarrow> ident \<Rightarrow> bool) \<Rightarrow> string \<Rightarrow> int \<Rightarrow> int \<Rightarrow> ('x, ident list) pact" where
  "lease_jobs D free worker limit lease =
     bind_act (draw (now_at D)) (\<lambda>now.
     bind_act (draw free) (\<lambda>unlocked.
     bind_act (pget (next_jobs unlocked now (nat (clamp 1 100 limit)))) (\<lambda>rows.
     bind_act (for_each (\<lambda>r. pput (set_job (pj_id r) (leased_job now worker (clamp 30 900 lease)))) rows) (\<lambda>_.
     ret (map pj_id rows)))))"

text \<open>Whether the row that \<open>db.get\<close> returns is leased by the worker.\<close>

definition owns_job :: "string \<Rightarrow> platform_job option \<Rightarrow> bool" where
  "owns_job worker seen = (case seen of
       None \<Rightarrow> False
     | Some r \<Rightarrow> pj_state r = Job_Running \<and> pj_worker r = Some worker)"

definition lease_lost :: exn where
  "lease_lost = PermissionError ''Platform job lease is not owned by this worker''"

definition heartbeat_job :: "draws \<Rightarrow> platform_job option \<Rightarrow> ident \<Rightarrow> string \<Rightarrow> int \<Rightarrow> ('x, unit) pact" where
  "heartbeat_job D seen jid worker lease =
     (if \<not> owns_job worker seen then raise lease_lost else
      bind_act (draw (now_at D)) (\<lambda>now.
      pput (set_job jid (\<lambda>r. r\<lparr>pj_heartbeat := Some now, pj_until := Some (now + seconds (clamp 30 900 lease))\<rparr>))))"

definition completed_job :: "time \<Rightarrow> (string \<times> json) list \<Rightarrow> platform_job \<Rightarrow> platform_job" where
  "completed_job now res r = r\<lparr>pj_state := Job_Completed, pj_result := stored res, pj_completed := Some now,
     pj_worker := None, pj_until := None, pj_error := None\<rparr>"

definition complete_job ::
  "draws \<Rightarrow> platform_job option \<Rightarrow> ident \<Rightarrow> string \<Rightarrow> (string \<times> json) list \<Rightarrow> ('x, unit) pact" where
  "complete_job D seen jid worker res =
     (if \<not> owns_job worker seen then raise lease_lost else
      bind_act (draw (now_at D)) (\<lambda>now. pput (set_job jid (completed_job now res))))"

definition failed_job :: "time \<Rightarrow> string \<Rightarrow> int \<Rightarrow> bool \<Rightarrow> platform_job \<Rightarrow> platform_job" where
  "failed_job now err retry ended r =
     (let r' = r\<lparr>pj_error := Some (take 8000 err), pj_worker := None, pj_until := None\<rparr> in
      if ended then r'\<lparr>pj_state := Job_Failed, pj_completed := Some now\<rparr>
      else r'\<lparr>pj_state := Job_Retry, pj_available := now + seconds (clamp 1 86400 retry)\<rparr>)"

definition fail_job ::
  "draws \<Rightarrow> platform_job option \<Rightarrow> ident \<Rightarrow> string \<Rightarrow> string \<Rightarrow> int \<Rightarrow> bool \<Rightarrow> ('x, unit) pact" where
  "fail_job D seen jid worker err retry permanent = (case seen of
       None \<Rightarrow> raise lease_lost
     | Some row \<Rightarrow>
         if \<not> owns_job worker seen then raise lease_lost else
         bind_act (draw (now_at D)) (\<lambda>now.
         pput (set_job jid (failed_job now err retry (permanent \<or> pj_max row \<le> pj_attempt row)))))"

end
