(* ===== verification/Plugin_Events.thy ===== *)
theory Plugin_Events
  imports Plugin_Jobs
begin

text \<open>
  packages/plugins/events.py and packages/plugins/deliveries.py: the event outbox, whose events are
  also written as kernel events in the same transaction, and the deliveries of an event to the
  subscriptions it matches. As for the jobs, \<open>seen\<close> is the row that \<open>db.get\<close> returns.
\<close>

subsection \<open>Emitting\<close>

record emission =
  em_tenant :: ident
  em_type :: string
  em_source_kind :: string
  em_source :: "string option"
  em_subject_type :: "string option"
  em_subject :: "string option"
  em_payload :: "(string \<times> json) list"
  em_trigger :: "(string \<times> json) list"
  em_available :: "time option"
  em_bridge :: bool

definition new_event :: "emission \<Rightarrow> string \<Rightarrow> ident \<Rightarrow> time \<Rightarrow> time \<Rightarrow> outbox_event" where
  "new_event m kind eid available created =
     \<lparr>oe_id = eid, oe_tenant = em_tenant m, oe_type = kind, oe_source_kind = em_source_kind m,
      oe_source = em_source m, oe_subject_type = em_subject_type m, oe_subject = em_subject m,
      oe_payload = stored (em_payload m), oe_status = Event_Pending, oe_attempts = 0,
      oe_available = available, oe_worker = None, oe_until = None, oe_error = None,
      oe_created = created, oe_delivered = None\<rparr>"

text \<open>\<open>str(x)[:n] if x else None\<close>.\<close>

definition cut_json :: "nat \<Rightarrow> string option \<Rightarrow> json" where
  "cut_json n x = (if present x then JStr (take n (the x)) else JNull)"

definition bridge_envelope :: "emission \<Rightarrow> ident \<Rightarrow> (string \<times> json) list" where
  "bridge_envelope m eid =
     [(''digital_event_id'', JStr eid), (''digital_source_kind'', JStr (take 80 (em_source_kind m))),
      (''digital_source_id'', cut_json 160 (em_source m)),
      (''digital_subject_type'', cut_json 100 (em_subject_type m)),
      (''digital_subject_id'', cut_json 160 (em_subject m)), (''trigger'', JObj (em_trigger m))]"

definition external_source :: "string \<Rightarrow> bool" where
  "external_source kind = (py_lower kind \<in> {''webhook'', ''plugin'', ''plugin_runtime'', ''external''})"

definition bridge_event :: "emission \<Rightarrow> string \<Rightarrow> ident \<Rightarrow> ident \<Rightarrow> time \<Rightarrow> kernel_event" where
  "bridge_event m kind eid kid now =
     \<lparr>ke_id = kid, ke_created = now, ke_type = kind, ke_scope = Workspace, ke_workspace = Some (em_tenant m),
      ke_owner = None,
      ke_principal = Some (''digital:'' @ take 120 (if em_source_kind m = [] then ''system'' else em_source_kind m)),
      ke_actor_type = (if external_source (em_source_kind m) then ''external'' else ''system''),
      ke_actor = (if present (em_source m) then Some (take 160 (the (em_source m))) else None),
      ke_initiator = None, ke_executor = ''operly:digital-event-bridge'', ke_capability = None,
      ke_resource_type = Some ''digital_event'', ke_resource = Some eid,
      ke_payload = JObj (stored (bridge_envelope m eid))\<rparr>"

text \<open>The length in UTF-8 of a text of \<open>json.dumps\<close>, which is ASCII.\<close>

definition emit :: "host \<Rightarrow> draws \<Rightarrow> emission \<Rightarrow> ('x, outbox_event) pact" where
  "emit H D m =
     (let kind = py_lower (py_strip (em_type m)) in
      if kind = [] \<or> 160 < length kind then
        raise (ValueError ''event_type is invalid; canonical semantic events are at most 160 characters'')
      else
        bind_act (draw (now_at D)) (\<lambda>now.
        bind_act (draw (id_at D)) (\<lambda>eid.
        bind_act (draw (now_at D)) (\<lambda>created.
        let row = new_event m kind eid (case em_available m of None \<Rightarrow> now | Some a \<Rightarrow> a) created in
        bind_act (pput (\<lambda>p. p\<lparr>pf_events := pf_events p @ [row]\<rparr>)) (\<lambda>_.
        if \<not> em_bridge m then ret row
        else if 8192 < length (dumps_sorted H (JObj (em_trigger m))) then
          raise (ValueError ''trigger_payload exceeds the 8 KiB semantic-event projection limit'')
        else
          bind_act (draw (id_at D)) (\<lambda>kid.
          bind_act (draw (now_at D)) (\<lambda>stamp.
          bind_act (modify (on_kernel (\<lambda>t. t\<lparr>kt_events := kt_events t @ [bridge_event m kind eid kid stamp]\<rparr>))) (\<lambda>_.
          ret row))))))))"

subsection \<open>The outbox\<close>

definition leasable_event :: "time \<Rightarrow> outbox_event \<Rightarrow> bool" where
  "leasable_event now r = (oe_available r \<le> now
     \<and> (oe_status r \<in> {Event_Pending, Event_Retry} \<or> oe_status r = Event_Leased \<and> expired now (oe_until r)))"

definition next_events :: "(ident \<Rightarrow> bool) \<Rightarrow> time \<Rightarrow> nat \<Rightarrow> 'x platform \<Rightarrow> outbox_event list" where
  "next_events free now n p =
     take n (sort_key oe_available (sort_key oe_created
       (filter (\<lambda>r. leasable_event now r \<and> free (oe_id r)) (pf_events p))))"

definition leased_event :: "time \<Rightarrow> string \<Rightarrow> int \<Rightarrow> outbox_event \<Rightarrow> outbox_event" where
  "leased_event now worker lease r = r\<lparr>oe_status := Event_Leased, oe_worker := Some worker,
     oe_until := Some (now + seconds lease), oe_attempts := oe_attempts r + 1\<rparr>"

definition lease_events :: "draws \<Rightarrow> (nat \<Rightarrow> ident \<Rightarrow> bool) \<Rightarrow> string \<Rightarrow> int \<Rightarrow> int \<Rightarrow> ('x, ident list) pact" where
  "lease_events D free worker limit lease =
     bind_act (draw (now_at D)) (\<lambda>now.
     bind_act (draw free) (\<lambda>unlocked.
     bind_act (pget (next_events unlocked now (nat (clamp 1 200 limit)))) (\<lambda>rows.
     bind_act (for_each (\<lambda>r. pput (set_event (oe_id r) (leased_event now worker (clamp 15 600 lease)))) rows) (\<lambda>_.
     ret (map oe_id rows)))))"

definition owned_event :: "string \<Rightarrow> outbox_event option \<Rightarrow> outbox_event result" where
  "owned_event worker seen = (case seen of
       None \<Rightarrow> Inl (LookupError ''Digital event not found'')
     | Some r \<Rightarrow>
         if oe_worker r \<noteq> Some worker \<or> oe_status r \<noteq> Event_Leased then
           Inl (PermissionError ''Digital event lease is not owned by this worker'')
         else Inr r)"

definition complete_event :: "draws \<Rightarrow> outbox_event option \<Rightarrow> ident \<Rightarrow> string \<Rightarrow> ('x, unit) pact" where
  "complete_event D seen eid worker =
     bind_act (lift (owned_event worker seen)) (\<lambda>_.
     bind_act (draw (now_at D)) (\<lambda>now.
     pput (set_event eid (\<lambda>r. r\<lparr>oe_status := Event_Delivered, oe_delivered := Some now, oe_worker := None,
       oe_until := None, oe_error := None\<rparr>))))"

definition failed_event :: "time \<Rightarrow> string \<Rightarrow> int \<Rightarrow> bool \<Rightarrow> outbox_event \<Rightarrow> outbox_event" where
  "failed_event now err retry ended r =
     (let r' = r\<lparr>oe_error := Some (take 4000 err), oe_worker := None, oe_until := None\<rparr> in
      if ended then r'\<lparr>oe_status := Event_Dead\<rparr>
      else r'\<lparr>oe_status := Event_Retry, oe_available := now + seconds (clamp 1 86400 retry)\<rparr>)"

definition fail_event ::
  "draws \<Rightarrow> outbox_event option \<Rightarrow> ident \<Rightarrow> string \<Rightarrow> string \<Rightarrow> int \<Rightarrow> int \<Rightarrow> ('x, unit) pact" where
  "fail_event D seen eid worker err retry max_attempts =
     bind_act (lift (owned_event worker seen)) (\<lambda>row.
     bind_act (draw (now_at D)) (\<lambda>now.
     pput (set_event eid (failed_event now err retry (max 1 max_attempts \<le> oe_attempts row)))))"

subsection \<open>Deliveries\<close>

definition leasable_delivery :: "time \<Rightarrow> delivery \<Rightarrow> bool" where
  "leasable_delivery now r = (dl_available r \<le> now
     \<and> (dl_status r \<in> {Delivery_Pending, Delivery_Retry} \<or> dl_status r = Delivery_Running \<and> expired now (dl_until r)))"

definition next_deliveries :: "(ident \<Rightarrow> bool) \<Rightarrow> time \<Rightarrow> nat \<Rightarrow> 'x platform \<Rightarrow> delivery list" where
  "next_deliveries free now n p =
     take n (sort_key dl_available (sort_key dl_created
       (filter (\<lambda>r. leasable_delivery now r \<and> free (dl_id r)) (pf_deliveries p))))"

definition leased_delivery :: "time \<Rightarrow> string \<Rightarrow> int \<Rightarrow> delivery \<Rightarrow> delivery" where
  "leased_delivery now worker lease r = r\<lparr>dl_status := Delivery_Running, dl_worker := Some worker,
     dl_until := Some (now + seconds lease), dl_attempts := dl_attempts r + 1\<rparr>"

definition lease_deliveries :: "draws \<Rightarrow> (nat \<Rightarrow> ident \<Rightarrow> bool) \<Rightarrow> string \<Rightarrow> int \<Rightarrow> int \<Rightarrow> ('x, ident list) pact" where
  "lease_deliveries D free worker limit lease =
     bind_act (draw (now_at D)) (\<lambda>now.
     bind_act (draw free) (\<lambda>unlocked.
     bind_act (pget (next_deliveries unlocked now (nat (clamp 1 200 limit)))) (\<lambda>rows.
     bind_act (for_each (\<lambda>r. pput (set_delivery (dl_id r) (leased_delivery now worker (clamp 30 900 lease)))) rows) (\<lambda>_.
     ret (map dl_id rows)))))"

record evidence =
  ev_status :: int
  ev_digest :: string
  ev_bytes :: int
  ev_kind :: string

definition owned_delivery :: "string \<Rightarrow> delivery option \<Rightarrow> delivery result" where
  "owned_delivery worker seen = (case seen of
       Some r \<Rightarrow>
         if dl_status r \<noteq> Delivery_Running \<or> dl_worker r \<noteq> Some worker then
           Inl (PermissionError ''Event delivery lease is not owned by this worker'')
         else Inr r
     | None \<Rightarrow> Inl (PermissionError ''Event delivery lease is not owned by this worker''))"

definition complete_delivery :: "draws \<Rightarrow> delivery option \<Rightarrow> ident \<Rightarrow> string \<Rightarrow> evidence \<Rightarrow> ('x, unit) pact" where
  "complete_delivery D seen did worker e =
     bind_act (lift (owned_delivery worker seen)) (\<lambda>_.
     bind_act (draw (now_at D)) (\<lambda>now.
     pput (set_delivery did (\<lambda>r. r\<lparr>dl_status := Delivery_Delivered, dl_response := Some (ev_status e),
       dl_digest := Some (ev_digest e), dl_error := None, dl_worker := None, dl_until := None,
       dl_delivered := Some now\<rparr>))))"

definition failed_delivery :: "time \<Rightarrow> string \<Rightarrow> int option \<Rightarrow> int \<Rightarrow> bool \<Rightarrow> delivery \<Rightarrow> delivery" where
  "failed_delivery now err response retry ended r =
     (let r' = r\<lparr>dl_error := Some (take 4000 err), dl_response := response, dl_worker := None, dl_until := None\<rparr> in
      if ended then r'\<lparr>dl_status := Delivery_Dead\<rparr>
      else r'\<lparr>dl_status := Delivery_Retry, dl_available := now + seconds (clamp 1 86400 retry)\<rparr>)"

definition fail_delivery ::
  "draws \<Rightarrow> delivery option \<Rightarrow> ident \<Rightarrow> string \<Rightarrow> string \<Rightarrow> int \<Rightarrow> int \<Rightarrow> bool \<Rightarrow> int option \<Rightarrow> ('x, unit) pact" where
  "fail_delivery D seen did worker err retry max_attempts permanent response =
     bind_act (lift (owned_delivery worker seen)) (\<lambda>row.
     bind_act (draw (now_at D)) (\<lambda>now.
     pput (set_delivery did (failed_delivery now err response retry
       (permanent \<or> clamp 1 50 max_attempts \<le> dl_attempts row)))))"

end
