(* ===== verification/Plugin_Delivery.thy ===== *)
theory Plugin_Delivery
  imports Plugin_Events
begin

text \<open>
  \<open>deliver\<close> of packages/plugins/deliveries.py and packages/security/pinned_https.py: sending an event
  to a subscriber's webhook. The request is planned from the rows, with every check that the code
  makes before it opens a connection, and then sent.
\<close>

text \<open>
  What is outside: \<open>urllib\<close>'s reading of a URL, the name service, \<open>ipaddress\<close>'s classification of an
  address and its text, the stored secrets, the signature, and the HTTP client.
\<close>

record url_parts =
  up_scheme :: string
  up_user :: "string option"
  up_password :: "string option"
  up_fragment :: string
  up_host :: "string option"
  up_port :: "int option result"
  up_path :: string
  up_query :: string

record http_request =
  hr_address :: string
  hr_port :: int
  hr_path :: string
  hr_query :: string
  hr_sni :: string
  hr_headers :: "(string \<times> string) list"
  hr_body :: string
  hr_timeout :: rat

datatype http_answer = Timed_Out | Network_Error | Answer int "int list" string

record net =
  nt_split :: "string \<Rightarrow> url_parts result"
  nt_resolve :: "string \<Rightarrow> int \<Rightarrow> string list option"
  nt_public :: "string \<Rightarrow> bool"
  nt_float :: "string \<Rightarrow> rat option"
  nt_secret :: "ident \<Rightarrow> ident \<Rightarrow> (string \<times> json) list result"
  nt_sign :: "string \<Rightarrow> string \<Rightarrow> string"
  nt_send :: "http_request \<Rightarrow> http_answer"

definition refuse :: "string \<Rightarrow> 'a result" where
  "refuse m = Inl (EventDeliveryError m True)"

definition check :: "bool \<Rightarrow> string \<Rightarrow> unit result" where
  "check ok m = (if ok then Inr () else refuse m)"

definition strip_dots :: "string \<Rightarrow> string" where
  "strip_dots s = rev (dropWhile (\<lambda>c. c = CHR ''.'') (rev s))"

definition clean_host :: "string \<Rightarrow> string" where
  "clean_host s = strip_dots (py_lower (py_strip s))"

definition local_name :: "string \<Rightarrow> bool" where
  "local_name h = (h \<in> {''localhost'', ''localhost.localdomain''}
     \<or> list_ex (\<lambda>e. ends_with e h) [''.localhost'', ''.local'', ''.internal'', ''.home.arpa''])"

definition target_port :: "url_parts \<Rightarrow> int result" where
  "target_port u = (case up_port u of
       Inl e \<Rightarrow> if is_value_error e then refuse ''Webhook target port is invalid'' else Inl e
     | Inr p \<Rightarrow>
         let port = (case p of None \<Rightarrow> 443 | Some n \<Rightarrow> if n = 0 then 443 else n) in
         bind_result (check (1 \<le> port \<and> port \<le> 65535) ''Webhook target port is invalid'') (\<lambda>_. Inr port))"

text \<open>The checked URL: its parts, the host and the port.\<close>

definition safe_target_url :: "net \<Rightarrow> string \<Rightarrow> (url_parts \<times> string \<times> int) result" where
  "safe_target_url N value =
     (let raw = py_strip value in
      bind_result (check (length raw \<le> 2048) ''Webhook target URL is too long'') (\<lambda>_.
      bind_result (nt_split N raw) (\<lambda>u.
      bind_result (check (py_lower (up_scheme u) = ''https'') ''Webhook event targets must use HTTPS'') (\<lambda>_.
      bind_result (check (\<not> present (up_user u) \<and> \<not> present (up_password u))
        ''Webhook target credentials may not appear in the URL'') (\<lambda>_.
      bind_result (check (up_fragment u = []) ''Webhook target URL may not contain a fragment'') (\<lambda>_.
      let host = clean_host (case up_host u of None \<Rightarrow> [] | Some h \<Rightarrow> h) in
      bind_result (check (host \<noteq> []) ''Webhook target hostname is required'') (\<lambda>_.
      bind_result (check (\<not> local_name host) ''Webhook target may not use a local hostname'') (\<lambda>_.
      bind_result (target_port u) (\<lambda>port. Inr (u, host, port))))))))))"

definition resolve_public_addresses :: "net \<Rightarrow> string \<Rightarrow> int \<Rightarrow> string list result" where
  "resolve_public_addresses N host port =
     (let h = clean_host host in
      if h = [] \<or> local_name h then Inl (PermissionError ''Target host is local or invalid'')
      else (case nt_resolve N h port of
          None \<Rightarrow> Inl (RuntimeError ''Target host DNS could not be resolved'')
        | Some rows \<Rightarrow>
            let addresses = sort (remdups rows) in
            if addresses = [] then Inl (RuntimeError ''Target host DNS returned no addresses'')
            else if list_ex (\<lambda>a. \<not> nt_public N a) addresses then
              Inl (PermissionError ''Target host resolves to a private, local, or reserved address'')
            else Inr addresses))"

definition reraise :: "(exn \<Rightarrow> exn) \<Rightarrow> 'a result \<Rightarrow> 'a result" where
  "reraise f r = (case r of Inl e \<Rightarrow> Inl (f e) | Inr x \<Rightarrow> Inr x)"

definition host_error :: "exn \<Rightarrow> exn" where
  "host_error e = (case e of
       PermissionError m \<Rightarrow> EventDeliveryError m True
     | RuntimeError m \<Rightarrow> EventDeliveryError m False
     | _ \<Rightarrow> e)"

definition host_header :: "string \<Rightarrow> int \<Rightarrow> string" where
  "host_header host port =
     (if port = 443 then clean_host host else clean_host host @ '':'' @ int_str port)"

definition policy_object :: "json option \<Rightarrow> (string \<times> json) list" where
  "policy_object v = (case v of Some (JObj kvs) \<Rightarrow> kvs | _ \<Rightarrow> [])"

definition py_float :: "net \<Rightarrow> json \<Rightarrow> rat result" where
  "py_float N v = (case number_of v of
       Some q \<Rightarrow> Inr q
     | None \<Rightarrow> (case v of
           JStr s \<Rightarrow> (case nt_float N s of Some q \<Rightarrow> Inr q | None \<Rightarrow> Inl (ValueError ''could not convert string to float''))
         | _ \<Rightarrow> Inl (TypeError ''float() argument must be a string or a real number'')))"

definition get_default :: "string \<Rightarrow> json \<Rightarrow> (string \<times> json) list \<Rightarrow> json" where
  "get_default k d kvs = (case obj_get k kvs of None \<Rightarrow> d | Some v \<Rightarrow> v)"

definition delivery_body :: "host \<Rightarrow> outbox_event \<Rightarrow> string" where
  "delivery_body H e = dumps_sorted H (JObj [(''id'', JStr (oe_id e)), (''type'', JStr (oe_type e)),
     (''source'', JObj [(''kind'', JStr (oe_source_kind e)), (''id'', opt_json (oe_source e))]),
     (''subject'', JObj [(''type'', opt_json (oe_subject_type e)), (''id'', opt_json (oe_subject e))]),
     (''created_at'', JStr (iso_format H (oe_created e))), (''payload'', JObj (oe_payload e))])"

definition signing_secret :: "host \<Rightarrow> (string \<times> json) list \<Rightarrow> string" where
  "signing_secret H kvs =
     (let s = get_or_null ''webhook_secret'' kvs in
      if truthy s \<and> py_str H s \<noteq> [] then py_str H s
      else (case get_or_null ''value'' kvs of
          JObj nested \<Rightarrow>
            (let v = get_or ''webhook_secret'' (get_or ''secret'' (JStr []) nested) nested in py_str H v)
        | _ \<Rightarrow> []))"

definition signature_header ::
  "host \<Rightarrow> net \<Rightarrow> delivery \<Rightarrow> subscription \<Rightarrow> string \<Rightarrow> (string \<times> string) list result" where
  "signature_header H N d sub text =
     (if \<not> present (es_secret sub) then Inr []
      else bind_result (nt_secret N (dl_tenant d) (the (es_secret sub))) (\<lambda>kvs.
        let secret = signing_secret H kvs in
        if secret = [] then refuse ''Event delivery signing secret is unavailable''
        else Inr [(''X-Operly-Signature'', ''sha256='' @ nt_sign N secret text)]))"

definition url_path :: "string \<Rightarrow> string" where
  "url_path path = (if starts_with ''/'' path then path else ''/'' @ path)"

text \<open>The request and the limit on the size of its response.\<close>

definition plan_delivery ::
  "host \<Rightarrow> net \<Rightarrow> delivery \<Rightarrow> subscription option \<Rightarrow> outbox_event option \<Rightarrow> (http_request \<times> int) result" where
  "plan_delivery H N d found_sub found_event = (case (found_sub, found_event) of
       (Some sub, Some e) \<Rightarrow>
         bind_result (check (es_tenant sub = dl_tenant d \<and> oe_tenant e = dl_tenant d) ''Event delivery scope mismatch'') (\<lambda>_.
         bind_result (check (es_enabled sub) ''Event subscription is disabled'') (\<lambda>_.
         bind_result (check (es_target_kind sub = ''webhook'')
           (''Unsupported event delivery target kind: '' @ es_target_kind sub)) (\<lambda>_.
         bind_result (safe_target_url N (es_target sub)) (\<lambda>(u, host, port).
         bind_result (reraise host_error (resolve_public_addresses N host port)) (\<lambda>addresses.
         let policy = policy_object (es_policy sub); text = delivery_body H e in
         bind_result (py_float N (get_default ''timeout_seconds'' (JInt 20) policy)) (\<lambda>timeout.
         bind_result (py_int (get_default ''max_response_bytes'' (JInt (64 * 1024)) policy)) (\<lambda>bytes.
         bind_result (check (length text \<le> 1024 * 1024) ''Event delivery payload exceeds 1 MiB'') (\<lambda>_.
         bind_result (signature_header H N d sub text) (\<lambda>signature.
         Inr (\<lparr>hr_address = hd addresses, hr_port = port, hr_path = url_path (up_path u),
               hr_query = up_query u, hr_sni = clean_host host,
               hr_headers = [(''Content-Type'', ''application/json''), (''User-Agent'', ''Operly-Event-Delivery/1''),
                 (''X-Operly-Event-ID'', oe_id e), (''X-Operly-Event-Type'', oe_type e),
                 (''Host'', host_header host port)] @ signature,
               hr_body = text, hr_timeout = max 1 (min timeout 60)\<rparr>,
              clamp 1024 (1024 * 1024) bytes))))))))))
     | _ \<Rightarrow> refuse ''Event delivery source no longer exists'')"

definition judge_answer :: "http_answer \<Rightarrow> int \<Rightarrow> evidence result" where
  "judge_answer answer limit = (case answer of
       Timed_Out \<Rightarrow> Inl (EventDeliveryError ''Webhook delivery timed out'' False)
     | Network_Error \<Rightarrow> Inl (EventDeliveryError ''Webhook delivery network request failed'' False)
     | Answer status chunks digest \<Rightarrow>
         if limit < sum_list chunks then refuse ''Webhook response exceeds configured evidence limit''
         else if 200 \<le> status \<and> status < 300 then
           Inr \<lparr>ev_status = status, ev_digest = digest, ev_bytes = sum_list chunks, ev_kind = ''webhook''\<rparr>
         else if status \<in> {408, 425, 429} \<or> 500 \<le> status \<and> status < 600 then
           Inl (EventDeliveryError (''Webhook target returned retryable HTTP '' @ int_str status) False)
         else refuse (''Webhook target rejected delivery with HTTP '' @ int_str status))"

definition deliver :: "host \<Rightarrow> net \<Rightarrow> delivery \<Rightarrow> ('x, evidence) pact" where
  "deliver H N d =
     bind_act (pget (find_subscription (dl_subscription d))) (\<lambda>sub.
     bind_act (pget (find_event (dl_event d))) (\<lambda>e.
     bind_act (lift (plan_delivery H N d sub e)) (\<lambda>(request, limit).
     lift (judge_answer (nt_send N request) limit))))"

end
