(* ===== verification/Plugin_Worker.thy ===== *)
theory Plugin_Worker
  imports Plugin_Delivery
begin

text \<open>
  packages/plugins/worker.py: the platform worker, which leases jobs, outbox events and deliveries
  and processes each in a session of its own. A job's handler may take long: what other workers
  commit to the tables in the meantime arrives after the job's row was loaded.
\<close>

type_synonym 'x handler = "platform_job \<Rightarrow> ('x, (string \<times> json) list) pact"

record 'x platform_worker =
  wk_name :: string
  wk_lease :: int
  wk_batch :: int
  wk_free :: "nat \<Rightarrow> ident \<Rightarrow> bool"
  wk_handlers :: "string \<Rightarrow> 'x handler option"
  wk_meanwhile :: "nat \<Rightarrow> 'x platform \<Rightarrow> 'x platform"
  wk_net :: net

text \<open>\<open>SessionFactory()\<close>: what is not committed when the session is left is dropped.\<close>

definition db_session :: "('x, 'a) wact \<Rightarrow> ('x, 'a) wact" where
  "db_session m s = (case bind_act rollback_all (\<lambda>_. m) s of (r, s') \<Rightarrow> (r, snd (rollback_all s')))"

text \<open>\<open>try\<close> with an \<open>except\<close> clause for every exception.\<close>

definition on_error :: "('s, 'a) act \<Rightarrow> (exn \<Rightarrow> ('s, 'a) act) \<Rightarrow> ('s, 'a) act" where
  "on_error m h s = (case m s of (Inr x, s') \<Rightarrow> (Inr x, s') | (Inl e, s') \<Rightarrow> h e s')"

definition backoff :: "int \<Rightarrow> int" where
  "backoff attempts = min (30 * 2 ^ nat (max 0 (attempts - 1))) 3600"

subsection \<open>Jobs\<close>

definition worker_lease_jobs :: "draws \<Rightarrow> 'x platform_worker \<Rightarrow> ('x, ident list) pact" where
  "worker_lease_jobs D W = db_session (
     bind_act (lease_jobs D (wk_free W) (wk_name W) (wk_batch W) (wk_lease W)) (\<lambda>ids.
     bind_act commit_all (\<lambda>_. ret ids)))"

text \<open>A failure of the handler, after which the session is rolled back and the row is read again.\<close>

definition retry_job :: "draws \<Rightarrow> 'x platform_worker \<Rightarrow> ident \<Rightarrow> exn \<Rightarrow> ('x, unit) pact" where
  "retry_job D W jid e =
     bind_act rollback_all (\<lambda>_.
     bind_act (pget (find_job jid)) (\<lambda>seen. case seen of
       None \<Rightarrow> ret ()
     | Some job \<Rightarrow>
         if \<not> owns_job (wk_name W) seen then ret ()
         else bind_act (fail_job D seen jid (wk_name W) (exn_class e @ '': '' @ take 4000 (exn_message e))
             (backoff (pj_attempt job)) False) (\<lambda>_. commit_all)))"

definition process_job :: "draws \<Rightarrow> 'x platform_worker \<Rightarrow> ident \<Rightarrow> ('x, unit) pact" where
  "process_job D W jid = db_session (
     bind_act (pget (find_job jid)) (\<lambda>seen. case seen of
       None \<Rightarrow> ret ()
     | Some job \<Rightarrow>
         if \<not> owns_job (wk_name W) seen then ret ()
         else (case wk_handlers W (pj_type job) of
             None \<Rightarrow> bind_act (fail_job D seen jid (wk_name W)
                 (''No trusted platform handler registered for '' @ pj_type job) 60 True) (\<lambda>_. commit_all)
           | Some handle \<Rightarrow> on_error
               (bind_act (others_commit (wk_meanwhile W)) (\<lambda>_.
                bind_act (handle job) (\<lambda>res.
                bind_act (complete_job D seen jid (wk_name W) res) (\<lambda>_. commit_all))))
               (\<lambda>e. case e of
                   PermanentPlatformJobError m \<Rightarrow> bind_act (fail_job D seen jid (wk_name W) m 60 True) (\<lambda>_. commit_all)
                 | _ \<Rightarrow> retry_job D W jid e))))"

subsection \<open>Events\<close>

definition event_matches :: "string \<Rightarrow> string \<Rightarrow> bool" where
  "event_matches pattern kind =
     (let clean = py_strip pattern in
      if clean = ''*'' then True
      else if ends_with ''.*'' clean then starts_with (take (length clean - 1) clean) kind
      else clean = kind)"

definition matched_subscriptions :: "outbox_event \<Rightarrow> 'x platform \<Rightarrow> subscription list" where
  "matched_subscriptions e p = filter (\<lambda>s. es_tenant s = oe_tenant e \<and> es_enabled s
     \<and> event_matches (es_pattern s) (oe_type e)) (pf_subscriptions p)"

definition new_delivery :: "outbox_event \<Rightarrow> subscription \<Rightarrow> ident \<Rightarrow> time \<Rightarrow> time \<Rightarrow> delivery" where
  "new_delivery e s did available created = \<lparr>dl_id = did, dl_tenant = oe_tenant e, dl_event = oe_id e,
     dl_subscription = es_id s, dl_status = Delivery_Pending, dl_attempts = 0, dl_available = available,
     dl_worker = None, dl_until = None, dl_response = None, dl_digest = None, dl_error = None,
     dl_created = created, dl_delivered = None\<rparr>"

definition delivery_exists :: "outbox_event \<Rightarrow> subscription \<Rightarrow> 'x platform \<Rightarrow> bool" where
  "delivery_exists e s p = list_ex (\<lambda>d. dl_event d = oe_id e \<and> dl_subscription d = es_id s) (pf_deliveries p)"

definition add_delivery :: "draws \<Rightarrow> outbox_event \<Rightarrow> subscription \<Rightarrow> ('x, unit) pact" where
  "add_delivery D e s =
     bind_act (pget (delivery_exists e s)) (\<lambda>there.
     if there then ret () else
     bind_act (draw (id_at D)) (\<lambda>did.
     bind_act (draw (now_at D)) (\<lambda>available.
     bind_act (draw (now_at D)) (\<lambda>created.
     pput (\<lambda>p. p\<lparr>pf_deliveries := pf_deliveries p @ [new_delivery e s did available created]\<rparr>)))))"

definition worker_lease_events :: "draws \<Rightarrow> 'x platform_worker \<Rightarrow> ('x, ident list) pact" where
  "worker_lease_events D W = db_session (
     bind_act (lease_events D (wk_free W) (wk_name W) (wk_batch W * 2) (wk_lease W)) (\<lambda>ids.
     bind_act commit_all (\<lambda>_. ret ids)))"

definition retry_event :: "draws \<Rightarrow> 'x platform_worker \<Rightarrow> ident \<Rightarrow> exn \<Rightarrow> ('x, unit) pact" where
  "retry_event D W eid err =
     bind_act rollback_all (\<lambda>_.
     bind_act (pget (find_event eid)) (\<lambda>seen. case owned_event (wk_name W) seen of
       Inl _ \<Rightarrow> ret ()
     | Inr _ \<Rightarrow> bind_act (fail_event D seen eid (wk_name W) (exn_class err @ '': '' @ take 2000 (exn_message err)) 60 10)
         (\<lambda>_. commit_all)))"

definition fanout_event :: "draws \<Rightarrow> 'x platform_worker \<Rightarrow> ident \<Rightarrow> ('x, unit) pact" where
  "fanout_event D W eid = db_session (
     bind_act (pget (find_event eid)) (\<lambda>seen. case owned_event (wk_name W) seen of
       Inl _ \<Rightarrow> ret ()
     | Inr e \<Rightarrow> on_error
           (bind_act (pget (matched_subscriptions e)) (\<lambda>subs.
            bind_act (for_each (add_delivery D e) subs) (\<lambda>_.
            bind_act (complete_event D seen eid (wk_name W)) (\<lambda>_. commit_all))))
           (retry_event D W eid)))"

subsection \<open>Deliveries\<close>

definition worker_lease_deliveries :: "draws \<Rightarrow> 'x platform_worker \<Rightarrow> ('x, ident list) pact" where
  "worker_lease_deliveries D W = db_session (
     bind_act (lease_deliveries D (wk_free W) (wk_name W) (wk_batch W * 2) (wk_lease W)) (\<lambda>ids.
     bind_act commit_all (\<lambda>_. ret ids)))"

definition retry_delivery :: "draws \<Rightarrow> 'x platform_worker \<Rightarrow> ident \<Rightarrow> int \<Rightarrow> exn \<Rightarrow> ('x, unit) pact" where
  "retry_delivery D W did limit err =
     bind_act rollback_all (\<lambda>_.
     bind_act (pget (find_delivery did)) (\<lambda>seen. case owned_delivery (wk_name W) seen of
       Inl _ \<Rightarrow> ret ()
     | Inr d \<Rightarrow> bind_act (fail_delivery D seen did (wk_name W) (exn_class err @ '': '' @ take 2000 (exn_message err))
           (backoff (dl_attempts d)) limit False None) (\<lambda>_. commit_all)))"

definition process_delivery :: "host \<Rightarrow> draws \<Rightarrow> 'x platform_worker \<Rightarrow> ident \<Rightarrow> ('x, unit) pact" where
  "process_delivery H D W did = db_session (
     bind_act (pget (find_delivery did)) (\<lambda>seen. case owned_delivery (wk_name W) seen of
       Inl _ \<Rightarrow> ret ()
     | Inr d \<Rightarrow>
         bind_act (pget (find_subscription (dl_subscription d))) (\<lambda>sub.
         let policy = (case sub of None \<Rightarrow> [] | Some s \<Rightarrow> policy_object (es_policy s)) in
         bind_act (lift (py_int (get_default ''max_attempts'' (JInt 8) policy))) (\<lambda>n.
         on_error
           (bind_act (deliver H (wk_net W) d) (\<lambda>e.
            bind_act (complete_delivery D seen did (wk_name W) e) (\<lambda>_. commit_all)))
           (\<lambda>err. case err of
               EventDeliveryError m permanent \<Rightarrow>
                 bind_act (fail_delivery D seen did (wk_name W) m (backoff (dl_attempts d)) (clamp 1 50 n) permanent None)
                   (\<lambda>_. commit_all)
             | _ \<Rightarrow> retry_delivery D W did (clamp 1 50 n) err)))))"

subsection \<open>A round of the worker\<close>

definition run_once :: "host \<Rightarrow> draws \<Rightarrow> 'x platform_worker \<Rightarrow> ('x, nat) pact" where
  "run_once H D W =
     bind_act (worker_lease_jobs D W) (\<lambda>jobs.
     bind_act (for_each (process_job D W) jobs) (\<lambda>_.
     bind_act (worker_lease_events D W) (\<lambda>events.
     bind_act (for_each (fanout_event D W) events) (\<lambda>_.
     bind_act (worker_lease_deliveries D W) (\<lambda>deliveries.
     bind_act (for_each (process_delivery H D W) deliveries) (\<lambda>_.
     ret (length jobs + length events + length deliveries)))))))"

end
