(* ===== verification/Plugin_Budgets.thy ===== *)
theory Plugin_Budgets
  imports Plugin_Tables
begin

text \<open>
  packages/plugins/budgets.py: quotas over several time windows. Each enabled budget of a key has a
  bucket per window that counts what was used in it; every use is also an entry of the ledger.
\<close>

text \<open>
  Windows are aligned to the epoch; \<open>timestamp()\<close> reads the naive UTC time as one of the server's
  zone \<open>z\<close>.
\<close>

definition window_start :: "host \<Rightarrow> string \<Rightarrow> time \<Rightarrow> int \<Rightarrow> time" where
  "window_start H z now window =
     (let epoch = wall_to_utc H z now div 1000000 in seconds (epoch - epoch mod window))"

definition is_budget :: "usage_key \<Rightarrow> int \<Rightarrow> budget \<Rightarrow> bool" where
  "is_budget k window b = (bg_key b = k \<and> bg_window b = window)"

definition configure_budget :: "usage_key \<Rightarrow> int \<Rightarrow> int \<Rightarrow> int option \<Rightarrow> ('x, budget) pact" where
  "configure_budget k window hard soft =
     (let window = clamp 60 (31 * 24 * 60 * 60) window; row = \<lparr>bg_key = k, bg_window = window, bg_hard = hard,
        bg_soft = soft, bg_enabled = True\<rparr> in
      if hard < 0 then raise (ValueError ''hard_limit cannot be negative'')
      else if (case soft of None \<Rightarrow> False | Some n \<Rightarrow> n < 0 \<or> hard < n) then
        raise (ValueError ''soft_limit must be between zero and hard_limit'')
      else
        bind_act (pget (\<lambda>p. list_ex (is_budget k window) (pf_budgets p))) (\<lambda>there.
        bind_act (pput (\<lambda>p. p\<lparr>pf_budgets :=
          (if there then update_where (is_budget k window) (\<lambda>b. b\<lparr>bg_hard := hard, bg_soft := soft, bg_enabled := True\<rparr>) (pf_budgets p)
           else pf_budgets p @ [row])\<rparr>)) (\<lambda>_. ret row)))"

definition is_bucket :: "usage_key \<Rightarrow> time \<Rightarrow> int \<Rightarrow> bucket \<Rightarrow> bool" where
  "is_bucket k start window b = (bk_key b = k \<and> bk_start b = start \<and> bk_window b = window)"

definition find_bucket :: "usage_key \<Rightarrow> time \<Rightarrow> int \<Rightarrow> 'x platform \<Rightarrow> bucket option" where
  "find_bucket k start window p = find (is_bucket k start window) (pf_buckets p)"

text \<open>
  The bucket, locked. Between the two statements another transaction may have created it: then the
  insertion fails in its savepoint and the other's bucket is taken.
\<close>

definition locked_bucket ::
  "(nat \<Rightarrow> 'x platform \<Rightarrow> 'x platform) \<Rightarrow> usage_key \<Rightarrow> time \<Rightarrow> int \<Rightarrow> ('x, bucket) pact" where
  "locked_bucket others k start window =
     bind_act (pget (find_bucket k start window)) (\<lambda>found. case found of
       Some b \<Rightarrow> ret b
     | None \<Rightarrow>
         bind_act (others_commit others) (\<lambda>_.
         bind_act (pget (find_bucket k start window)) (\<lambda>collision. case collision of
           Some b \<Rightarrow> ret b
         | None \<Rightarrow>
             let candidate = \<lparr>bk_key = k, bk_start = start, bk_window = window, bk_quantity = 0\<rparr> in
             bind_act (pput (\<lambda>p. p\<lparr>pf_buckets := pf_buckets p @ [candidate]\<rparr>)) (\<lambda>_. ret candidate))))"

definition enabled_budgets :: "usage_key \<Rightarrow> 'x platform \<Rightarrow> budget list" where
  "enabled_budgets k p = sort_key bg_window (filter (\<lambda>b. bg_key b = k \<and> bg_enabled b) (pf_budgets p))"

definition budget_windows :: "budget list \<Rightarrow> (budget option \<times> int) list" where
  "budget_windows bs = (if bs = [] then [(None, 3600)] else map (\<lambda>b. (Some b, bg_window b)) bs)"

definition exceeded :: "usage_key \<Rightarrow> int \<Rightarrow> budget \<Rightarrow> exn" where
  "exceeded k projected b = ResourceBudgetExceeded (uk_metric k @ '' budget exceeded for '' @ uk_kind k @ '':'' @ uk_subject k
     @ ''; '' @ int_str projected @ ''>'' @ int_str (bg_hard b) @ '' in '' @ int_str (bg_window b) @ ''s'')"

record resolved_window =
  rw_budget :: "budget option"
  rw_start :: time
  rw_window :: int
  rw_projected :: int

fun resolve_windows ::
  "host \<Rightarrow> string \<Rightarrow> (nat \<Rightarrow> 'x platform \<Rightarrow> 'x platform) \<Rightarrow> usage_key \<Rightarrow> int \<Rightarrow> time \<Rightarrow>
   (budget option \<times> int) list \<Rightarrow> ('x, resolved_window list) pact" where
  "resolve_windows H z others k quantity now [] = ret []"
| "resolve_windows H z others k quantity now ((b, window) # rest) =
     (let start = window_start H z now window in
      bind_act (locked_bucket others k start window) (\<lambda>bucket.
      let projected = bk_quantity bucket + quantity in
      case b of
        Some x \<Rightarrow>
          if bg_hard x < projected then raise (exceeded k projected x)
          else bind_act (resolve_windows H z others k quantity now rest) (\<lambda>rs.
            ret (\<lparr>rw_budget = b, rw_start = start, rw_window = window, rw_projected = projected\<rparr> # rs))
      | None \<Rightarrow> bind_act (resolve_windows H z others k quantity now rest) (\<lambda>rs.
            ret (\<lparr>rw_budget = b, rw_start = start, rw_window = window, rw_projected = projected\<rparr> # rs))))"

definition set_bucket :: "usage_key \<Rightarrow> resolved_window \<Rightarrow> 'x platform \<Rightarrow> 'x platform" where
  "set_bucket k r p = p\<lparr>pf_buckets := update_where (is_bucket k (rw_start r) (rw_window r))
     (\<lambda>b. b\<lparr>bk_quantity := rw_projected r\<rparr>) (pf_buckets p)\<rparr>"

record consumption =
  cs_quantity :: int
  cs_used :: int
  cs_hard :: "int option"
  cs_soft :: "int option"
  cs_start :: time
  cs_window :: int
  cs_over_soft :: bool

definition consumption_of :: "int \<Rightarrow> resolved_window \<Rightarrow> consumption" where
  "consumption_of quantity r =
     (let soft = Option.bind (rw_budget r) bg_soft in
      \<lparr>cs_quantity = quantity, cs_used = rw_projected r, cs_hard = map_option bg_hard (rw_budget r),
       cs_soft = soft, cs_start = rw_start r, cs_window = rw_window r,
       cs_over_soft = (case soft of None \<Rightarrow> False | Some n \<Rightarrow> n < rw_projected r)\<rparr>)"

definition consume ::
  "host \<Rightarrow> string \<Rightarrow> draws \<Rightarrow> (nat \<Rightarrow> 'x platform \<Rightarrow> 'x platform) \<Rightarrow> usage_key \<Rightarrow> int \<Rightarrow>
   string option \<Rightarrow> string option \<Rightarrow> ('x, consumption) pact" where
  "consume H z D others k quantity reference_kind reference =
     (if quantity \<le> 0 then raise (ValueError ''usage quantity must be positive'') else
      bind_act (draw (now_at D)) (\<lambda>now.
      bind_act (pget (enabled_budgets k)) (\<lambda>budgets.
      bind_act (resolve_windows H z others k quantity now (budget_windows budgets)) (\<lambda>resolved.
      bind_act (for_each (\<lambda>r. pput (set_bucket k r)) resolved) (\<lambda>_.
      bind_act (pput (\<lambda>p. p\<lparr>pf_ledger := pf_ledger p @ [\<lparr>lg_key = k, lg_quantity = quantity,
        lg_reference_kind = reference_kind, lg_reference = reference, lg_recorded = now\<rparr>]\<rparr>)) (\<lambda>_.
      ret (consumption_of quantity (hd resolved))))))))"

end
