(* ===== verification/Plugin_State.thy ===== *)
theory Plugin_State
  imports Plugin_Worker Plugin_Budgets Wf_Samples Wf_Claims
begin

text \<open>How the elementary actions act on the platform's tables, and a state for the witnesses.\<close>

lemma platform_simps:
  "platform_of (on_tables (on_platform f) s) = f (platform_of s)"
  "platform_of (s\<lparr>wf_tick := n\<rparr>) = platform_of s"
  by (simp_all add: platform_of_def on_platform_def state_of_simps)

lemma pput_run: "pput f s = (Inr (), on_tables (on_platform f) s)"
  by (simp add: pput_def put_def)

lemma pget_run: "pget g s = (Inr (g (platform_of s)), s)"
  by (simp add: pget_def reads_def platform_of_def)

lemma draw_run: "draw f s = (Inr (f (wf_tick s)), s\<lparr>wf_tick := Suc (wf_tick s)\<rparr>)"
  by (simp add: draw_def)

lemma others_run:
  "\<exists>s'. others_commit others s = (Inr (), s') \<and> platform_of s' = others (wf_tick s) (platform_of s)"
  by (simp add: others_commit_def bind_act_def draw_run platform_of_def on_platform_def state_of_simps Let_def)

subsection \<open>A sample state\<close>

definition empty_platform :: "unit platform" where
  "empty_platform = \<lparr>pf_jobs = [], pf_events = [], pf_subscriptions = [], pf_deliveries = [], pf_budgets = [],
     pf_buckets = [], pf_ledger = [], pf_data = ()\<rparr>"

definition platform_state :: "unit platform \<Rightarrow> unit platform wf_state" where
  "platform_state p =
     (let t = \<lparr>kt_workspaces = [], kt_claims = [], kt_approvals = [], kt_runs = [], kt_steps = [], kt_events = [],
        kt_data = \<lparr>wf_definitions = [], wf_versions = [], wf_schedules = [], wf_triggers = [], wf_cursors = [],
          wf_runs = [], wf_steps = [], wf_attempts = [], wf_traces = [], wf_authority = empty_authority, wf_data = p\<rparr>\<rparr>
      in \<lparr>wf_world = \<lparr>w_session = \<lparr>committed = t, working = t\<rparr>, w_calls = []\<rparr>, wf_tick = 0\<rparr>)"

lemma platform_state_simps [simp]:
  "platform_of (platform_state p) = p" "committed_platform (platform_state p) = p" "wf_tick (platform_state p) = 0"
  by (simp_all add: platform_state_def platform_of_def committed_platform_def state_of_simps Let_def)

end
