(* ===== verification/Plugin_Leases.thy ===== *)
theory Plugin_Leases
  imports Plugin_State Wf_Lifecycle
begin

text \<open>
  Leased work: the contract of a fact that the work on jobs, events and deliveries keeps, the rounds
  of a worker under that contract, and what follows for rows whose work has ended.
\<close>

subsection \<open>Invariants of the platform's work\<close>

lemma yields_on_error [act_rules]:
  "yields I T m \<Longrightarrow> (\<And>e. yields I T (h e)) \<Longrightarrow> yields I T (on_error m h)"
  unfolding yields_def on_error_def by (fastforce split: prod.splits sum.splits)

lemma yields_db_session [act_rules]:
  assumes "yields (on_data P) T m"
  shows "yields (on_data P) T (db_session m)"
proof -
  have "yields (on_data P) T (bind_act rollback_all (\<lambda>_. m))" by (intro act_rules assms)
  then show ?thesis
    using yieldsD [OF data_rollback] unfolding yields_def db_session_def by (fastforce split: prod.splits)
qed

lemma yields_pget: "(\<And>t. P t \<Longrightarrow> T (h (wf_data t))) \<Longrightarrow> yields (on_data P) T (pget h)"
  unfolding pget_def by (rule yields_reads_from)

lemma yields_pput: "(\<And>t. P t \<Longrightarrow> P (on_platform f t)) \<Longrightarrow> yields (on_data P) (\<lambda>_. True) (pput f)"
  unfolding pput_def by (rule data_put)

lemma yields_exn [act_rules]:
  "(\<And>m. e = PermanentPlatformJobError m \<Longrightarrow> yields I T (a m)) \<Longrightarrow> yields I T b \<Longrightarrow>
   yields I T (case e of PermanentPlatformJobError m \<Rightarrow> a m | _ \<Rightarrow> b)"
  "(\<And>m p. e = EventDeliveryError m p \<Longrightarrow> yields I T (c m p)) \<Longrightarrow> yields I T b \<Longrightarrow>
   yields I T (case e of EventDeliveryError m p \<Rightarrow> c m p | _ \<Rightarrow> b)"
  by (cases e; simp)+

lemma yields_sum [act_rules]:
  "(\<And>e. r = Inl e \<Longrightarrow> yields I T (f e)) \<Longrightarrow> (\<And>x. r = Inr x \<Longrightarrow> yields I T (g x)) \<Longrightarrow>
   yields I T (case r of Inl e \<Rightarrow> f e | Inr x \<Rightarrow> g x)"
  by (cases r) simp_all

definition ended_job :: "platform_job \<Rightarrow> bool" where
  "ended_job r = (pj_state r \<in> {Job_Completed, Job_Failed})"

definition ended_event :: "outbox_event \<Rightarrow> bool" where
  "ended_event r = (oe_status r \<in> {Event_Delivered, Event_Dead})"

definition ended_delivery :: "delivery \<Rightarrow> bool" where
  "ended_delivery r = (dl_status r \<in> {Delivery_Delivered, Delivery_Dead})"

text \<open>
  The contract of a fact about the tables: it survives the updates of rows that are not ended, which
  are all the work is done on, and new rows with fresh ids. Every round of a worker then keeps it,
  provided its handlers and the other transactions do.
\<close>

locale platform_frame =
  fixes P :: "'x platform wf_tables \<Rightarrow> bool"
    and job event delivery fresh :: "ident \<Rightarrow> bool"
  assumes set_job: "job i \<Longrightarrow> (\<And>r. pj_id (f r) = pj_id r) \<Longrightarrow> P t \<Longrightarrow> P (on_platform (set_job i f) t)"
    and set_event: "event i \<Longrightarrow> (\<And>r. oe_id (g r) = oe_id r) \<Longrightarrow> P t \<Longrightarrow> P (on_platform (set_event i g) t)"
    and set_delivery: "delivery i \<Longrightarrow> (\<And>r. dl_id (h r) = dl_id r) \<Longrightarrow> P t \<Longrightarrow> P (on_platform (set_delivery i h) t)"
    and open_job: "P t \<Longrightarrow> r \<in> set (pf_jobs (wf_data t)) \<Longrightarrow> \<not> ended_job r \<Longrightarrow> job (pj_id r)"
    and open_event: "P t \<Longrightarrow> e \<in> set (pf_events (wf_data t)) \<Longrightarrow> \<not> ended_event e \<Longrightarrow> event (oe_id e)"
    and open_delivery: "P t \<Longrightarrow> d \<in> set (pf_deliveries (wf_data t)) \<Longrightarrow> \<not> ended_delivery d \<Longrightarrow> delivery (dl_id d)"
    and add_job: "fresh (pj_id r) \<Longrightarrow> P t \<Longrightarrow> P (on_platform (\<lambda>p. p\<lparr>pf_jobs := pf_jobs p @ [r]\<rparr>) t)"
    and add_event: "fresh (oe_id e) \<Longrightarrow> P t \<Longrightarrow> P (on_platform (\<lambda>p. p\<lparr>pf_events := pf_events p @ [e]\<rparr>) t)"
    and add_delivery: "fresh (dl_id d) \<Longrightarrow> P t \<Longrightarrow> P (on_platform (\<lambda>p. p\<lparr>pf_deliveries := pf_deliveries p @ [d]\<rparr>) t)"
begin

lemma pput_rules:
  "job i \<Longrightarrow> (\<And>r. pj_id (f r) = pj_id r) \<Longrightarrow> yields (on_data P) (\<lambda>_. True) (pput (Plugin_Tables.set_job i f))"
  "event i \<Longrightarrow> (\<And>r. oe_id (g r) = oe_id r) \<Longrightarrow> yields (on_data P) (\<lambda>_. True) (pput (Plugin_Tables.set_event i g))"
  "delivery i \<Longrightarrow> (\<And>r. dl_id (h r) = dl_id r) \<Longrightarrow> yields (on_data P) (\<lambda>_. True) (pput (Plugin_Tables.set_delivery i h))"
  "fresh (pj_id a) \<Longrightarrow> yields (on_data P) (\<lambda>_. True) (pput (\<lambda>p. p\<lparr>pf_jobs := pf_jobs p @ [a]\<rparr>))"
  "fresh (oe_id e) \<Longrightarrow> yields (on_data P) (\<lambda>_. True) (pput (\<lambda>p. p\<lparr>pf_events := pf_events p @ [e]\<rparr>))"
  "fresh (dl_id d) \<Longrightarrow> yields (on_data P) (\<lambda>_. True) (pput (\<lambda>p. p\<lparr>pf_deliveries := pf_deliveries p @ [d]\<rparr>))"
  by (auto intro!: yields_pput set_job set_event set_delivery add_job add_event add_delivery)

subsection \<open>Jobs\<close>

lemma lease_jobs_frame: "yields (on_data P) (\<lambda>_. True) (lease_jobs D free worker limit lease)"
proof -
  have "yields (on_data P) (\<lambda>rs. \<forall>r \<in> set rs. job (pj_id r)) (pget (next_jobs unlocked now n))" for unlocked now n
    by (rule yields_pget) (auto simp: next_jobs_def leasable_job_def dest!: in_set_takeD intro!: open_job, auto simp: ended_job_def)
  then show ?thesis
    unfolding lease_jobs_def
    by (intro yields_bind_any [OF data_draw] TrueI yields_bind [where T = "\<lambda>rs. \<forall>r \<in> set rs. job (pj_id r)"]
        yields_bind_any [OF yields_for_each] act_rules pput_rules) (auto simp: leased_job_def)
qed

lemma owned_job_open: "P t \<Longrightarrow> owns_job w (find_job i (wf_data t)) \<Longrightarrow> job i"
  using open_job by (fastforce simp: owns_job_def find_job_def ended_job_def split: option.splits dest!: find_SomeD)

lemma job_ops_frame:
  assumes "owns_job w seen \<Longrightarrow> job i"
  shows "yields (on_data P) (\<lambda>_. True) (heartbeat_job D seen i w lease)"
    "yields (on_data P) (\<lambda>_. True) (complete_job D seen i w res)"
    "yields (on_data P) (\<lambda>_. True) (fail_job D seen i w err retry permanent)"
  unfolding heartbeat_job_def complete_job_def fail_job_def
  using assms by (auto intro!: act_rules pput_rules simp: completed_job_def failed_job_def Let_def split: option.split)

lemma enqueue_frame:
  assumes "\<And>n. fresh (id_at D n)"
  shows "yields (on_data P) (\<lambda>_. True) (enqueue_job D q)"
  unfolding enqueue_job_def Let_def
  by (intro act_rules TrueI yields_bind [OF data_draw [where T = fresh]] assms yields_pget pput_rules)
    (auto simp: new_job_def intro!: act_rules yields_bind [OF data_draw [where T = fresh]] yields_pget yields_bind_any [OF pput_rules(4)] assms split: option.split)

subsection \<open>Events and deliveries\<close>

lemma lease_events_frame: "yields (on_data P) (\<lambda>_. True) (lease_events D free worker limit lease)"
proof -
  have "yields (on_data P) (\<lambda>rs. \<forall>r \<in> set rs. event (oe_id r)) (pget (next_events unlocked now n))" for unlocked now n
    by (rule yields_pget) (auto simp: next_events_def leasable_event_def dest!: in_set_takeD intro!: open_event, auto simp: ended_event_def)
  then show ?thesis
    unfolding lease_events_def
    by (intro yields_bind_any [OF data_draw] TrueI yields_bind [where T = "\<lambda>rs. \<forall>r \<in> set rs. event (oe_id r)"]
        yields_bind_any [OF yields_for_each] act_rules pput_rules) (auto simp: leased_event_def)
qed

lemma lease_deliveries_frame: "yields (on_data P) (\<lambda>_. True) (lease_deliveries D free worker limit lease)"
proof -
  have "yields (on_data P) (\<lambda>rs. \<forall>r \<in> set rs. delivery (dl_id r)) (pget (next_deliveries unlocked now n))" for unlocked now n
    by (rule yields_pget)
      (auto simp: next_deliveries_def leasable_delivery_def dest!: in_set_takeD intro!: open_delivery, auto simp: ended_delivery_def)
  then show ?thesis
    unfolding lease_deliveries_def
    by (intro yields_bind_any [OF data_draw] TrueI yields_bind [where T = "\<lambda>rs. \<forall>r \<in> set rs. delivery (dl_id r)"]
        yields_bind_any [OF yields_for_each] act_rules pput_rules) (auto simp: leased_delivery_def)
qed

lemma owned_event_open: "P t \<Longrightarrow> owned_event w (find_event i (wf_data t)) = Inr e \<Longrightarrow> event i \<and> oe_id e = i"
  using open_event by (fastforce simp: owned_event_def find_event_def ended_event_def split: option.splits if_splits dest!: find_SomeD)

lemma owned_delivery_open: "P t \<Longrightarrow> owned_delivery w (find_delivery i (wf_data t)) = Inr d \<Longrightarrow> delivery i"
  using open_delivery
  by (fastforce simp: owned_delivery_def find_delivery_def ended_delivery_def split: option.splits if_splits dest!: find_SomeD)

lemma event_ops_frame:
  assumes "\<And>e. owned_event w seen = Inr e \<Longrightarrow> event i"
  shows "yields (on_data P) (\<lambda>_. True) (complete_event D seen i w)"
    "yields (on_data P) (\<lambda>_. True) (fail_event D seen i w err retry limit)"
  unfolding complete_event_def fail_event_def
  by (rule yields_bind [where T = "\<lambda>_. event i"], rule yields_atoms, erule assms,
      intro act_rules TrueI pput_rules; simp add: failed_event_def Let_def)+

lemma delivery_ops_frame:
  assumes "\<And>e. owned_delivery w seen = Inr e \<Longrightarrow> delivery i"
  shows "yields (on_data P) (\<lambda>_. True) (complete_delivery D seen i w x)"
    "yields (on_data P) (\<lambda>_. True) (fail_delivery D seen i w err retry limit permanent response)"
  unfolding complete_delivery_def fail_delivery_def
  by (rule yields_bind [where T = "\<lambda>_. delivery i"], rule yields_atoms, erule assms,
      intro act_rules TrueI pput_rules; simp add: failed_delivery_def Let_def)+

lemma add_delivery_frame:
  assumes "\<And>n. fresh (id_at D n)"
  shows "yields (on_data P) (\<lambda>_. True) (add_delivery D e sub)"
  unfolding add_delivery_def
  by (intro yields_bind_any [OF yields_pget] TrueI yields_if yields_atoms yields_bind [OF data_draw [where T = fresh]] assms
      yields_bind_any [OF data_draw] pput_rules) (simp add: new_delivery_def)

lemma emit_frame:
  assumes "\<And>n. fresh (id_at D n)"
  shows "yields (on_data P) (\<lambda>_. True) (emit H D m)"
proof -
  have k: "yields (on_data P) (\<lambda>_. True) (modify (on_kernel (\<lambda>t. t\<lparr>kt_events := kt_events t @ [x]\<rparr>)))" for x
    by (simp add: yields_def on_kernel_def on_data_def data_ok_def session_simps)
  show ?thesis
    unfolding emit_def Let_def
    by (rule yields_if, rule yields_atoms, rule yields_bind_any [OF data_draw], rule TrueI,
        rule yields_bind [OF data_draw [where T = fresh]], rule assms, rule yields_bind_any [OF data_draw], rule TrueI,
        rule yields_bind_any [OF pput_rules(5)])
      (auto simp: new_event_def intro!: act_rules k)
qed

end

subsection \<open>The worker\<close>

text \<open>A worker whose handlers keep a fact, and among other transactions that keep it.\<close>

definition worker_keeps :: "('x platform wf_tables \<Rightarrow> bool) \<Rightarrow> 'x platform_worker \<Rightarrow> bool" where
  "worker_keeps P W = ((\<forall>k h j. wk_handlers W k = Some h \<longrightarrow> yields (on_data P) (\<lambda>_. True) (h j))
     \<and> (\<forall>n t. P t \<longrightarrow> P (on_platform (wk_meanwhile W n) t)))"

lemma others_commit_keeps:
  assumes "\<And>n t. P t \<Longrightarrow> P (on_platform (f n) t)"
  shows "yields (on_data P) (\<lambda>_. True) (others_commit f)"
  using assms by (auto simp: yields_def others_commit_def bind_act_def draw_def on_data_def data_ok_def Let_def)

context platform_frame
begin

lemma process_job_frame:
  assumes "worker_keeps P W"
  shows "yields (on_data P) (\<lambda>_. True) (process_job D W jid)"
proof -
  have look: "yields (on_data P) (\<lambda>seen. owns_job (wk_name W) seen \<longrightarrow> job jid) (pget (find_job jid))"
    by (rule yields_pget) (use owned_job_open in blast)
  have others: "yields (on_data P) (\<lambda>_. True) (others_commit (wk_meanwhile W))"
    by (rule others_commit_keeps) (use assms in \<open>simp add: worker_keeps_def\<close>)
  have handle: "yields (on_data P) (\<lambda>_. True) (h j)" if "wk_handlers W k = Some h" for k h j
    using assms that by (simp add: worker_keeps_def)
  have retry: "yields (on_data P) (\<lambda>_. True) (retry_job D W jid e)" for e
    unfolding retry_job_def
    by (intro yields_bind_any [OF data_rollback] yields_bind [OF look] act_rules job_ops_frame TrueI) auto
  show ?thesis
    unfolding process_job_def
    by (intro yields_db_session yields_bind [OF look] yields_cases yields_if yields_on_error yields_exn yields_bind_any [OF others]
        yields_bind_any [OF handle] yields_bind_any [OF job_ops_frame(2)] yields_bind_any [OF job_ops_frame(3)]
        yields_atoms data_commit retry TrueI) auto
qed

lemma fanout_frame:
  assumes "\<And>n. fresh (id_at D n)"
  shows "yields (on_data P) (\<lambda>_. True) (fanout_event D W i)"
proof -
  have look: "yields (on_data P) (\<lambda>seen. \<forall>e. owned_event (wk_name W) seen = Inr e \<longrightarrow> event i) (pget (find_event i))"
    by (rule yields_pget) (use owned_event_open in blast)
  have retry: "yields (on_data P) (\<lambda>_. True) (retry_event D W i e)" for e
    unfolding retry_event_def
    by (intro yields_bind_any [OF data_rollback] yields_bind [OF look] act_rules event_ops_frame TrueI) auto
  show ?thesis
    unfolding fanout_event_def
    by (intro yields_db_session yields_bind [OF look] yields_sum yields_on_error yields_bind_any [OF yields_pget]
        yields_bind_any [OF yields_for_each] add_delivery_frame assms yields_bind_any [OF event_ops_frame(1)]
        yields_atoms data_commit retry TrueI) auto
qed

lemma deliver_frame: "yields (on_data P) (\<lambda>_. True) (deliver H N d)"
  unfolding deliver_def by (intro act_rules yields_pget TrueI)

lemma process_delivery_frame: "yields (on_data P) (\<lambda>_. True) (process_delivery H D W i)"
proof -
  have look: "yields (on_data P) (\<lambda>seen. \<forall>e. owned_delivery (wk_name W) seen = Inr e \<longrightarrow> delivery i) (pget (find_delivery i))"
    by (rule yields_pget) (use owned_delivery_open in blast)
  have retry: "yields (on_data P) (\<lambda>_. True) (retry_delivery D W i n e)" for n e
    unfolding retry_delivery_def
    by (intro yields_bind_any [OF data_rollback] yields_bind [OF look] act_rules delivery_ops_frame TrueI) auto
  show ?thesis
    unfolding process_delivery_def Let_def
    by (intro yields_db_session yields_bind [OF look] yields_sum yields_on_error yields_exn yields_bind_any [OF yields_pget]
        yields_bind_any [OF deliver_frame] yields_bind_any [OF delivery_ops_frame(1)] yields_bind_any [OF delivery_ops_frame(2)]
        yields_bind_any [OF yields_atoms(3)] yields_atoms data_commit retry TrueI) auto
qed

lemma round_frame:
  assumes "worker_keeps P W" "\<And>n. fresh (id_at D n)"
  shows "yields (on_data P) (\<lambda>_. True) (run_once H D W)"
  unfolding run_once_def worker_lease_jobs_def worker_lease_events_def worker_lease_deliveries_def
  by (intro yields_bind_any yields_db_session lease_jobs_frame lease_events_frame lease_deliveries_frame data_commit
      yields_for_each process_job_frame fanout_frame process_delivery_frame assms yields_atoms TrueI)

end

subsection \<open>Settled work\<close>

text \<open>The rows are ended, and no other row has their id.\<close>

definition settled :: "platform_job set \<Rightarrow> outbox_event set \<Rightarrow> delivery set \<Rightarrow> 'x platform \<Rightarrow> bool" where
  "settled J E L p =
     ((\<forall>r \<in> J. ended_job r \<and> r \<in> set (pf_jobs p) \<and> (\<forall>x \<in> set (pf_jobs p). pj_id x = pj_id r \<longrightarrow> x = r))
    \<and> (\<forall>e \<in> E. ended_event e \<and> e \<in> set (pf_events p) \<and> (\<forall>x \<in> set (pf_events p). oe_id x = oe_id e \<longrightarrow> x = e))
    \<and> (\<forall>d \<in> L. ended_delivery d \<and> d \<in> set (pf_deliveries p) \<and> (\<forall>x \<in> set (pf_deliveries p). dl_id x = dl_id d \<longrightarrow> x = d)))"

definition settled_ids :: "platform_job set \<Rightarrow> outbox_event set \<Rightarrow> delivery set \<Rightarrow> ident set" where
  "settled_ids J E L = pj_id ` J \<union> oe_id ` E \<union> dl_id ` L"

lemma update_others:
  assumes "i \<notin> k ` S" "\<And>r. k (f r) = k r"
    and "\<forall>r \<in> S. Q r \<and> r \<in> set xs \<and> (\<forall>x \<in> set xs. k x = k r \<longrightarrow> x = r)"
  shows "\<forall>r \<in> S. Q r \<and> r \<in> set (update_where (\<lambda>r. k r = i) f xs)
    \<and> (\<forall>x \<in> set (update_where (\<lambda>r. k r = i) f xs). k x = k r \<longrightarrow> x = r)"
  using assms by (force simp: set_update_where)

interpretation settled: platform_frame "\<lambda>t. settled J E L (wf_data t)" "\<lambda>i. i \<notin> pj_id ` J" "\<lambda>i. i \<notin> oe_id ` E"
  "\<lambda>i. i \<notin> dl_id ` L" "\<lambda>i. i \<notin> settled_ids J E L" for J E L
proof
  fix i and f :: "platform_job \<Rightarrow> platform_job" and t :: "'a platform wf_tables"
  assume "i \<notin> pj_id ` J" "\<And>r :: platform_job. pj_id (f r) = pj_id r" "settled J E L (wf_data t)"
  then show "settled J E L (wf_data (on_platform (set_job i f) t))"
    using update_others [of i pj_id J f ended_job "pf_jobs (wf_data t)"] by (simp add: settled_def on_platform_def set_job_def)
next
  fix i and g :: "outbox_event \<Rightarrow> outbox_event" and t :: "'a platform wf_tables"
  assume "i \<notin> oe_id ` E" "\<And>r :: outbox_event. oe_id (g r) = oe_id r" "settled J E L (wf_data t)"
  then show "settled J E L (wf_data (on_platform (set_event i g) t))"
    using update_others [of i oe_id E g ended_event "pf_events (wf_data t)"] by (simp add: settled_def on_platform_def set_event_def)
next
  fix i and h :: "delivery \<Rightarrow> delivery" and t :: "'a platform wf_tables"
  assume "i \<notin> dl_id ` L" "\<And>r :: delivery. dl_id (h r) = dl_id r" "settled J E L (wf_data t)"
  then show "settled J E L (wf_data (on_platform (set_delivery i h) t))"
    using update_others [of i dl_id L h ended_delivery "pf_deliveries (wf_data t)"]
    by (simp add: settled_def on_platform_def set_delivery_def)
qed (auto simp: settled_def on_platform_def settled_ids_def)

text \<open>What happens on the platform, with ids that are not those of the rows.\<close>

inductive platform_step :: "host \<Rightarrow> platform_job set \<Rightarrow> outbox_event set \<Rightarrow> delivery set \<Rightarrow>
    'x platform wf_state \<Rightarrow> 'x platform wf_state \<Rightarrow> bool" for H J E L where
  enqueue: "\<forall>n. id_at D n \<notin> settled_ids J E L \<Longrightarrow> platform_step H J E L s (snd (transaction (enqueue_job D q) s))"
| emit: "\<forall>n. id_at D n \<notin> settled_ids J E L \<Longrightarrow> platform_step H J E L s (snd (transaction (emit H D m) s))"
| round: "\<forall>n. id_at D n \<notin> settled_ids J E L \<Longrightarrow> worker_keeps (\<lambda>t. settled J E L (wf_data t)) W \<Longrightarrow>
    platform_step H J E L s (snd (run_once H D W s))"
| heartbeat: "platform_step H J E L s (snd (transaction
    (bind_act (pget (find_job i)) (\<lambda>seen. heartbeat_job D seen i w lease)) s))"

lemma platform_step_settled:
  assumes "platform_step H J E L s s'" "on_data (\<lambda>t. settled J E L (wf_data t)) s"
  shows "on_data (\<lambda>t. settled J E L (wf_data t)) s'"
  using assms(1)
proof cases
  case (enqueue D q)
  with assms(2) show ?thesis by (auto intro!: yieldsD [OF yields_transaction [OF settled.enqueue_frame]])
next
  case (emit D m)
  with assms(2) show ?thesis by (auto intro!: yieldsD [OF yields_transaction [OF settled.emit_frame]])
next
  case (round D W)
  with assms(2) show ?thesis by (auto intro!: yieldsD [OF settled.round_frame])
next
  case (heartbeat i D w lease)
  have "yields (on_data (\<lambda>t. settled J E L (wf_data t))) (\<lambda>_. True)
      (transaction (bind_act (pget (find_job i)) (\<lambda>seen. heartbeat_job D seen i w lease)))"
    by (intro yields_transaction yields_bind [where T = "\<lambda>seen. owns_job w seen \<longrightarrow> i \<notin> pj_id ` J"] yields_pget
        settled.job_ops_frame) (use settled.owned_job_open in blast)+
  from yieldsD [OF this assms(2)] heartbeat show ?thesis by simp
qed

text \<open>
  C37. Ended work is final: a job that is completed or failed, an event that is delivered or given
  up, and a delivery that is delivered or given up keep every column of their rows, whatever jobs are
  enqueued, events emitted and rounds of workers follow.
\<close>

theorem ended_work_is_final:
  assumes "(platform_step H J E L)\<^sup>*\<^sup>* s s'" "settled J E L (committed_platform s)" "settled J E L (platform_of s)"
  shows "J \<subseteq> set (pf_jobs (committed_platform s')) \<and> E \<subseteq> set (pf_events (committed_platform s'))
    \<and> L \<subseteq> set (pf_deliveries (committed_platform s'))"
proof -
  from assms(1) have "on_data (\<lambda>t. settled J E L (wf_data t)) s'"
  proof induction
    case base
    show ?case using assms(2,3) by (simp add: on_data_iff committed_platform_def platform_of_def)
  next
    case (step s' s'')
    then show ?case by (blast intro: platform_step_settled)
  qed
  then show ?thesis by (auto simp: on_data_iff settled_def committed_platform_def)
qed

end
