(* ===== verification/Plugin_Services.thy ===== *)
theory Plugin_Services
  imports Plugin_Leases Wf_Fanout
begin

text \<open>
  What the services of the plugin platform promise: the fan-out of an event, the idempotency of the
  job queue, the requests of a delivery, and the way from an emitted event to a workflow run.
\<close>

subsection \<open>Fan-out\<close>

lemma committed_run:
  "committed_platform (on_tables f s) = committed_platform s" "committed_platform (s\<lparr>wf_tick := n\<rparr>) = committed_platform s"
  by (simp_all add: committed_platform_def state_of_simps)

definition delivery_pair :: "delivery \<Rightarrow> ident \<times> ident" where
  "delivery_pair d = (dl_event d, dl_subscription d)"

text \<open>Deliveries of the event to the subscriptions are added, and nothing else is changed.\<close>

definition delivers :: "outbox_event \<Rightarrow> subscription list \<Rightarrow> 'x platform \<Rightarrow> 'x platform \<Rightarrow> bool" where
  "delivers e subs p p' = ((\<exists>new. p' = p\<lparr>pf_deliveries := pf_deliveries p @ new\<rparr>
       \<and> (\<forall>d \<in> set new. dl_status d = Delivery_Pending \<and> dl_tenant d = oe_tenant e
            \<and> dl_event d = oe_id e \<and> dl_subscription d \<in> es_id ` set subs))
     \<and> (distinct (map delivery_pair (pf_deliveries p)) \<longrightarrow> distinct (map delivery_pair (pf_deliveries p'))))"

lemma delivers_refl: "delivers e subs p p" by (auto simp: delivers_def intro: exI [of _ "[]"])

lemma delivers_trans: "delivers e subs p q \<Longrightarrow> delivers e subs q r \<Longrightarrow> delivers e subs p r"
proof -
  assume a: "delivers e subs p q" and b: "delivers e subs q r"
  let ?ok = "\<lambda>d. dl_status d = Delivery_Pending \<and> dl_tenant d = oe_tenant e \<and> dl_event d = oe_id e \<and> dl_subscription d \<in> es_id ` set subs"
  from a obtain m where "q = p\<lparr>pf_deliveries := pf_deliveries p @ m\<rparr>" "\<forall>d \<in> set m. ?ok d" by (auto simp: delivers_def)
  moreover from b obtain n where "r = q\<lparr>pf_deliveries := pf_deliveries q @ n\<rparr>" "\<forall>d \<in> set n. ?ok d" by (auto simp: delivers_def)
  ultimately have "r = p\<lparr>pf_deliveries := pf_deliveries p @ (m @ n)\<rparr> \<and> (\<forall>d \<in> set (m @ n). ?ok d)" by auto
  then show ?thesis using a b unfolding delivers_def by blast
qed

lemma delivery_exists_mono: "delivers e subs p q \<Longrightarrow> delivery_exists x sub p \<Longrightarrow> delivery_exists x sub q"
  by (auto simp: delivers_def delivery_exists_def)

lemma add_delivery_run:
  assumes "sub \<in> set subs"
  shows "\<exists>s'. add_delivery D e sub s = (Inr (), s') \<and> committed_platform s' = committed_platform s
    \<and> delivers e subs (platform_of s) (platform_of s') \<and> delivery_exists e sub (platform_of s')"
proof (cases "delivery_exists e sub (platform_of s)")
  case True
  then show ?thesis by (simp add: add_delivery_def bind_act_def pget_run delivers_refl)
next
  case False
  let ?n = "wf_tick s"
  define d where "d = new_delivery e sub (id_at D ?n) (now_at D (Suc ?n)) (now_at D (Suc (Suc ?n)))"
  define s1 where "s1 = on_tables (on_platform (\<lambda>p. p\<lparr>pf_deliveries := pf_deliveries p @ [d]\<rparr>)) (s\<lparr>wf_tick := Suc (Suc (Suc ?n))\<rparr>)"
  have "add_delivery D e sub s = (Inr (), s1)"
    using False by (simp add: add_delivery_def bind_act_def pget_run draw_run pput_run s1_def d_def)
  moreover have "platform_of s1 = (platform_of s)\<lparr>pf_deliveries := pf_deliveries (platform_of s) @ [d]\<rparr>"
    "committed_platform s1 = committed_platform s"
    by (simp_all add: s1_def platform_simps committed_run)
  moreover have "dl_event d = oe_id e \<and> dl_subscription d = es_id sub \<and> dl_status d = Delivery_Pending \<and> dl_tenant d = oe_tenant e"
    by (simp add: d_def new_delivery_def)
  ultimately show ?thesis
    using False assms by (auto simp: delivers_def delivery_exists_def delivery_pair_def list_ex_iff intro!: exI [of _ "[d]"])
qed

lemma add_deliveries_run:
  assumes "set xs \<subseteq> set subs"
  shows "\<exists>s'. for_each (add_delivery D e) xs s = (Inr (), s') \<and> committed_platform s' = committed_platform s
    \<and> delivers e subs (platform_of s) (platform_of s') \<and> (\<forall>sub \<in> set xs. delivery_exists e sub (platform_of s'))"
  using assms
proof (induction xs arbitrary: s)
  case (Cons x xs)
  obtain s1 where s1: "add_delivery D e x s = (Inr (), s1)" "committed_platform s1 = committed_platform s"
    "delivers e subs (platform_of s) (platform_of s1)" "delivery_exists e x (platform_of s1)"
    using add_delivery_run [of x subs D e s] Cons.prems by auto
  obtain s2 where s2: "for_each (add_delivery D e) xs s1 = (Inr (), s2)" "committed_platform s2 = committed_platform s1"
    "delivers e subs (platform_of s1) (platform_of s2)" "\<forall>sub \<in> set xs. delivery_exists e sub (platform_of s2)"
    using Cons.IH [of s1] Cons.prems by auto
  from s1 s2 show ?case
    by (auto simp: bind_act_def intro: delivers_trans delivery_exists_mono)
qed (simp add: delivers_refl)

lemma one_of_distinct:
  assumes "distinct (map k xs)" "x \<in> set xs" "k x = y"
  shows "length (filter (\<lambda>z. k z = y) xs) = 1"
  using assms by (induction xs) (auto simp: filter_empty_conv image_iff)

text \<open>
  C38. Fan-out is complete and exact: processing an event that the worker has leased succeeds and
  marks it delivered; every enabled subscription of the event's workspace whose pattern matches then
  has exactly one delivery of it, and the deliveries added are pending ones of such subscriptions.
\<close>

theorem fanout_reaches_every_subscription:
  assumes "find_event i (committed_platform s) = Some e" "oe_status e = Event_Leased" "oe_worker e = Some (wk_name W)"
    and "distinct (map delivery_pair (pf_deliveries (committed_platform s)))"
  shows "\<exists>s' e' new. fanout_event D W i s = (Inr (), s')
    \<and> find_event i (committed_platform s') = Some e' \<and> oe_status e' = Event_Delivered
    \<and> pf_deliveries (committed_platform s') = pf_deliveries (committed_platform s) @ new
    \<and> (\<forall>d \<in> set new. dl_status d = Delivery_Pending \<and> dl_event d = i
         \<and> dl_subscription d \<in> es_id ` set (matched_subscriptions e (committed_platform s)))
    \<and> (\<forall>sub \<in> set (matched_subscriptions e (committed_platform s)).
         length (filter (\<lambda>d. delivery_pair d = (i, es_id sub)) (pf_deliveries (committed_platform s'))) = 1)"
proof -
  let ?p = "committed_platform s"
  let ?subs = "matched_subscriptions e ?p"
  have eid: "oe_id e = i" using assms(1) by (auto simp: find_event_def dest: find_SomeD)
  define s0 where "s0 = snd (rollback_all s)"
  have s0: "platform_of s0 = ?p" by (simp add: s0_def rollback_all_def platform_of_def committed_platform_def state_of_simps)
  have rb: "rollback_all s = (Inr (), s0)" by (simp add: s0_def rollback_all_def)
  obtain s1 where s1: "for_each (add_delivery D e) ?subs s0 = (Inr (), s1)"
    "delivers e ?subs ?p (platform_of s1)" "\<forall>sub \<in> set ?subs. delivery_exists e sub (platform_of s1)"
    using add_deliveries_run [of ?subs ?subs D e s0] s0 by auto
  from s1(2) obtain new where new: "platform_of s1 = ?p\<lparr>pf_deliveries := pf_deliveries ?p @ new\<rparr>"
    "\<forall>d \<in> set new. dl_status d = Delivery_Pending \<and> dl_event d = i \<and> dl_subscription d \<in> es_id ` set ?subs"
    by (auto simp: delivers_def eid)
  let ?u = "\<lambda>r. r\<lparr>oe_status := Event_Delivered, oe_delivered := Some (now_at D (wf_tick s1)), oe_worker := None,
       oe_until := None, oe_error := None\<rparr>"
  define s2 where "s2 = on_tables (on_platform (set_event i ?u)) (s1\<lparr>wf_tick := Suc (wf_tick s1)\<rparr>)"
  define s3 where "s3 = snd (rollback_all (snd (commit_all s2)))"
  have f: "fanout_event D W i s = (Inr (), s3)"
    using assms(1-3) s1(1)
    by (simp add: fanout_event_def db_session_def on_error_def bind_act_def rb pget_run s0 owned_event_def complete_event_def
        draw_run pput_run commit_all_def s2_def s3_def)
  have p3: "committed_platform s3 = set_event i ?u (platform_of s1)"
    by (simp add: s3_def s2_def commit_all_def rollback_all_def committed_platform_def platform_of_def on_platform_def state_of_simps)
  have "find_event i (committed_platform s3) = Some (?u e)"
    using assms(1) eid unfolding p3 new(1) find_event_def set_event_def by (simp add: find_update_where [of oe_id])
  moreover have ds: "pf_deliveries (committed_platform s3) = pf_deliveries ?p @ new"
    by (simp add: p3 set_event_def new(1))
  moreover have "length (filter (\<lambda>d. delivery_pair d = (i, es_id sub)) (pf_deliveries (committed_platform s3))) = 1"
    if "sub \<in> set ?subs" for sub
  proof -
    from s1(3) that obtain d where "d \<in> set (pf_deliveries (platform_of s1))" "delivery_pair d = (i, es_id sub)"
      by (auto simp: delivery_exists_def list_ex_iff delivery_pair_def eid)
    moreover have "distinct (map delivery_pair (pf_deliveries (platform_of s1)))"
      using s1(2) assms(4) by (simp add: delivers_def)
    ultimately have "length (filter (\<lambda>d. delivery_pair d = (i, es_id sub)) (pf_deliveries (platform_of s1))) = 1"
      using one_of_distinct by metis
    moreover have "pf_deliveries (platform_of s1) = pf_deliveries ?p @ new" by (simp add: new(1))
    ultimately show ?thesis unfolding ds by (simp only:)
  qed
  ultimately show ?thesis using f new(2) by (intro exI [of _ s3] exI [of _ "?u e"] exI [of _ new]) simp
qed

subsection \<open>Enqueueing\<close>

lemma enqueue_adds:
  assumes "enqueue_job D q s = (Inr r, s')" "\<not> (\<exists>x \<in> set (pf_jobs (platform_of s)). pj_scope x = job_scope (jq_tenant q) \<and> pj_key x = py_strip (jq_key q))"
  shows "platform_of s' = (platform_of s)\<lparr>pf_jobs := pf_jobs (platform_of s) @ [r]\<rparr> \<and> pj_scope r = job_scope (jq_tenant q)
    \<and> pj_key r = take 200 (py_strip (jq_key q)) \<and> pj_state r = Job_Queued
    \<and> (\<forall>x \<in> set (pf_jobs (platform_of s)). pj_scope x = pj_scope r \<longrightarrow> pj_key x \<noteq> pj_key r) \<and> py_strip (jq_key q) \<noteq> []"
proof -
  have n: "find (\<lambda>r. pj_scope r = job_scope (jq_tenant q) \<and> pj_key r = py_strip (jq_key q)) (pf_jobs (platform_of s)) = None"
    using assms(2) by (auto simp: find_None_iff_all)
  from assms(1) show ?thesis
    by (auto simp: enqueue_job_def Let_def bind_act_def pget_run draw_run pput_run n platform_simps list_ex_iff new_job_def
        split: if_splits)
qed

text \<open>
  Enqueueing is idempotent for keys of up to 200 characters: after a job was enqueued, enqueueing
  with the same key and workspace gives the same job, whatever else the request says, and changes
  nothing.
\<close>

lemma enqueue_is_idempotent:
  assumes "enqueue_job D q s = (Inr r, s')" "distinct (map (\<lambda>x. (pj_scope x, pj_key x)) (pf_jobs (platform_of s)))"
    and "length (py_strip (jq_key q)) \<le> 200" "py_strip (jq_key q') = py_strip (jq_key q)"
    and "job_scope (jq_tenant q') = job_scope (jq_tenant q)"
  shows "enqueue_job D' q' s' = (Inr r, s') \<and> r \<in> set (pf_jobs (platform_of s'))
    \<and> distinct (map (\<lambda>x. (pj_scope x, pj_key x)) (pf_jobs (platform_of s')))"
proof (cases "\<exists>x \<in> set (pf_jobs (platform_of s)). pj_scope x = job_scope (jq_tenant q) \<and> pj_key x = py_strip (jq_key q)")
  case True
  let ?f = "find (\<lambda>r. pj_scope r = job_scope (jq_tenant q) \<and> pj_key r = py_strip (jq_key q)) (pf_jobs (platform_of s))"
  have k: "py_strip (jq_key q) \<noteq> []" using assms(1) by (auto simp: enqueue_job_def Let_def split: if_splits)
  from True obtain x where x: "?f = Some x" by (metis (mono_tags, lifting) find_None_iff_all option.exhaust)
  with assms(1) k have "s' = s" "x = r" by (auto simp: enqueue_job_def Let_def bind_act_def pget_run)
  with x k assms(2,4,5) show ?thesis by (auto simp: enqueue_job_def Let_def bind_act_def pget_run dest: find_SomeD)
next
  case False
  from enqueue_adds [OF assms(1) False] have p: "platform_of s' = (platform_of s)\<lparr>pf_jobs := pf_jobs (platform_of s) @ [r]\<rparr>"
    and r: "pj_scope r = job_scope (jq_tenant q)" "pj_key r = py_strip (jq_key q)" "py_strip (jq_key q) \<noteq> []"
    and u: "\<forall>x \<in> set (pf_jobs (platform_of s)). pj_scope x = pj_scope r \<longrightarrow> pj_key x \<noteq> pj_key r"
    using assms(3) by auto
  have "find (\<lambda>r. pj_scope r = job_scope (jq_tenant q) \<and> pj_key r = py_strip (jq_key q)) (pf_jobs (platform_of s')) = Some r"
    using False r by (auto simp: p find_append find_None_iff_all split: option.split dest: find_SomeD)
  with r assms(2,4,5) u show ?thesis by (auto simp: enqueue_job_def Let_def bind_act_def pget_run p)
qed

text \<open>
  A longer key is stored cut and looked up whole, so enqueueing it a second time violates the table's
  constraint instead of giving the job.
\<close>

lemma long_key_is_not_idempotent:
  assumes "enqueue_job D q s = (Inr r, s')" "200 < length (py_strip (jq_key q))"
    and "\<not> (\<exists>x \<in> set (pf_jobs (platform_of s)). pj_scope x = job_scope (jq_tenant q) \<and> pj_key x = py_strip (jq_key q))"
  shows "fst (enqueue_job D' q s') = Inl (OtherError ''UNIQUE constraint failed: uq_digital_platform_job_idempotency'')"
proof -
  from enqueue_adds [OF assms(1,3)] have p: "platform_of s' = (platform_of s)\<lparr>pf_jobs := pf_jobs (platform_of s) @ [r]\<rparr>"
    and r: "pj_scope r = job_scope (jq_tenant q)" "pj_key r = take 200 (py_strip (jq_key q))" "py_strip (jq_key q) \<noteq> []"
    by auto
  have "pj_key r \<noteq> py_strip (jq_key q)"
  proof
    assume "pj_key r = py_strip (jq_key q)"
    then have "length (take 200 (py_strip (jq_key q))) = length (py_strip (jq_key q))" using r(2) by simp
    with assms(2) show False by simp
  qed
  then have n: "find (\<lambda>r. pj_scope r = job_scope (jq_tenant q) \<and> pj_key r = py_strip (jq_key q)) (pf_jobs (platform_of s')) = None"
    using assms(3) by (auto simp: p find_None_iff_all)
  have "take 100 (py_strip (jq_type q)) \<noteq> [] \<and> take 60 (py_strip (jq_subject_kind q)) \<noteq> [] \<and> take 160 (py_strip (jq_subject q)) \<noteq> []"
    using assms(1,3) by (auto simp: enqueue_job_def Let_def bind_act_def pget_run draw_run new_job_def
        split: if_splits option.splits dest: find_SomeD)
  moreover have "list_ex (\<lambda>x. pj_scope x = job_scope (jq_tenant q) \<and> pj_key x = take 200 (py_strip (jq_key q))) (pf_jobs (platform_of s'))"
    using r by (simp add: p)
  ultimately show ?thesis
    using r(3) n by (simp add: enqueue_job_def Let_def bind_act_def pget_run draw_run new_job_def platform_simps)
qed

subsection \<open>Lost leases\<close>

text \<open>
  The owner that is checked when a job completes is the one that was loaded before its handler ran,
  so a worker whose lease was taken over meanwhile completes the job under its new owner.
\<close>

lemma lost_lease_completes:
  assumes "find_job i (committed_platform s) = Some j" "owns_job (wk_name W) (Some j)" "wk_handlers W (pj_type j) = Some h"
    and "\<And>s. h j s = (Inr res, s)" "find_job i (wk_meanwhile W (wf_tick s) (committed_platform s)) = Some j'"
  shows "\<exists>s' r. process_job D W i s = (Inr (), s') \<and> find_job i (committed_platform s') = Some r
    \<and> pj_state r = Job_Completed \<and> pj_worker r = None \<and> pj_attempt r = pj_attempt j'"
proof -
  define s0 where "s0 = snd (rollback_all s)"
  have s0: "platform_of s0 = committed_platform s" "wf_tick s0 = wf_tick s"
    by (simp_all add: s0_def rollback_all_def platform_of_def committed_platform_def state_of_simps)
  obtain s1 where s1: "others_commit (wk_meanwhile W) s0 = (Inr (), s1)"
    "platform_of s1 = wk_meanwhile W (wf_tick s) (committed_platform s)" using others_run s0 by metis
  let ?u = "completed_job (now_at D (wf_tick s1)) res"
  define s2 where "s2 = on_tables (on_platform (set_job i ?u)) (s1\<lparr>wf_tick := Suc (wf_tick s1)\<rparr>)"
  define s3 where "s3 = snd (rollback_all (snd (commit_all s2)))"
  have run: "process_job D W i s = (Inr (), s3)"
    using assms(1-4) s1(1)
    by (simp add: process_job_def db_session_def on_error_def bind_act_def rollback_all_def s0_def [unfolded rollback_all_def, simplified, symmetric]
        pget_run s0 complete_job_def draw_run pput_run commit_all_def s2_def s3_def)
  have "committed_platform s3 = set_job i ?u (platform_of s1)"
    by (simp add: s3_def s2_def commit_all_def rollback_all_def committed_platform_def platform_of_def on_platform_def state_of_simps)
  then have "find_job i (committed_platform s3) = Some (?u j')"
    using assms(5) unfolding find_job_def set_job_def s1(2) by (auto simp: find_update_where [of pj_id] completed_job_def dest: find_SomeD)
  with run show ?thesis by (auto simp: completed_job_def)
qed

text \<open>A job whose worker stops is leased again however often it was tried.\<close>

lemma crashed_job_is_leased_again:
  assumes "pj_state r = Job_Running" "expired now (pj_until r)" "pj_available r \<le> now"
  shows "leasable_job now r \<and> pj_attempt (leased_job now w n r) = pj_attempt r + 1"
  using assms by (simp add: leasable_job_def leased_job_def)

subsection \<open>Deliveries\<close>

lemma resolve_public_addresses_Inr:
  "resolve_public_addresses N host port = Inr as \<Longrightarrow> \<exists>rows. nt_resolve N (clean_host host) port = Some rows \<and> as \<noteq> []
     \<and> set as = set rows \<and> (\<forall>a \<in> set rows. nt_public N a) \<and> clean_host host \<noteq> [] \<and> \<not> local_name (clean_host host)"
  by (auto simp: resolve_public_addresses_def Let_def list_ex_iff split: if_splits option.splits)

lemma check_Inr [simp]: "check b m = Inr x \<longleftrightarrow> b"
  by (auto simp: check_def refuse_def)

lemma target_port_Inr: "target_port u = Inr port \<Longrightarrow> 1 \<le> port \<and> port \<le> 65535"
  by (auto simp: target_port_def Let_def bind_result_Inr_iff refuse_def split: sum.splits if_splits)

lemma reraise_Inr [simp]: "reraise f r = Inr x \<longleftrightarrow> r = Inr x"
  by (cases r) (simp_all add: reraise_def)

lemma safe_target_url_Inr:
  "safe_target_url N v = Inr (u, host, port) \<Longrightarrow> nt_split N (py_strip v) = Inr u \<and> py_lower (up_scheme u) = ''https''
     \<and> \<not> present (up_user u) \<and> \<not> present (up_password u) \<and> 1 \<le> port \<and> port \<le> 65535"
  by (auto simp: safe_target_url_def Let_def bind_result_Inr_iff dest: target_port_Inr)


subsection \<open>Samples\<close>

definition sample_net :: net where
  "sample_net = \<lparr>nt_split = (\<lambda>s. Inr \<lparr>up_scheme = ''https'', up_user = None, up_password = None, up_fragment = [],
       up_host = Some ''hooks.example.com'', up_port = Inr None, up_path = ''/in'', up_query = []\<rparr>),
     nt_resolve = (\<lambda>h p. Some [''93.184.216.34'']), nt_public = (\<lambda>a. a = ''93.184.216.34''), nt_float = (\<lambda>s. None),
     nt_secret = (\<lambda>t i. Inr []), nt_sign = (\<lambda>k b. []), nt_send = (\<lambda>r. Answer 200 [2] ''d'')\<rparr>"

definition sample_worker :: "unit platform_worker" where
  "sample_worker = \<lparr>wk_name = ''me'', wk_lease = 180, wk_batch = 10, wk_free = (\<lambda>n i. True),
     wk_handlers = (\<lambda>k. if k = ''noop'' then Some (\<lambda>j. ret []) else None), wk_meanwhile = (\<lambda>n p. p), wk_net = sample_net\<rparr>"

definition sample_outbox :: outbox_event where
  "sample_outbox = \<lparr>oe_id = ''e'', oe_tenant = ''t'', oe_type = ''task.done'', oe_source_kind = ''plugin'', oe_source = None,
     oe_subject_type = None, oe_subject = None, oe_payload = [], oe_status = Event_Leased, oe_attempts = 1, oe_available = 0,
     oe_worker = Some ''me'', oe_until = Some 9, oe_error = None, oe_created = 0, oe_delivered = None\<rparr>"

definition sample_subscription :: subscription where
  "sample_subscription = \<lparr>es_id = ''u'', es_tenant = ''t'', es_pattern = ''task.*'', es_target_kind = ''webhook'',
     es_target = ''https://hooks.example.com/in'', es_secret = None, es_enabled = True, es_policy = None\<rparr>"

definition sample_delivery :: delivery where
  "sample_delivery = \<lparr>dl_id = ''d'', dl_tenant = ''t'', dl_event = ''e'', dl_subscription = ''u'', dl_status = Delivery_Running,
     dl_attempts = 1, dl_available = 0, dl_worker = Some ''me'', dl_until = Some 9, dl_response = None, dl_digest = None,
     dl_error = None, dl_created = 0, dl_delivered = None\<rparr>"

definition sample_request :: job_request where
  "sample_request = \<lparr>jq_type = ''noop'', jq_subject_kind = ''plugin'', jq_subject = ''p'', jq_key = '' k '', jq_tenant = Some ''t'',
     jq_payload = [], jq_priority = 5, jq_max = 3, jq_available = None, jq_created_by = None\<rparr>"

definition sample_done :: platform_job where
  "sample_done = (new_job sample_request ''k'' ''j'' 0 0)\<lparr>pj_state := Job_Completed\<rparr>"

lemma sample_worker_keeps: "(\<And>t. P t \<Longrightarrow> P t) \<Longrightarrow> worker_keeps P sample_worker"
  by (auto simp: worker_keeps_def sample_worker_def on_platform_def intro: act_rules split: if_splits)

lemma sample_id: "replicate n (CHR ''x'') \<noteq> ''j''"
  by (cases n) simp_all

theorem ended_work_is_final_witness:
  "sample_done \<in> set (pf_jobs (committed_platform
     (snd (run_once sample_host sample_draws sample_worker (platform_state (empty_platform\<lparr>pf_jobs := [sample_done]\<rparr>))))))"
proof -
  let ?s = "platform_state (empty_platform\<lparr>pf_jobs := [sample_done]\<rparr>)"
  have "\<forall>n. id_at sample_draws n \<notin> settled_ids {sample_done} {} {}"
    using sample_id by (simp add: settled_ids_def sample_draws_def sample_done_def new_job_def)
  then have "platform_step sample_host {sample_done} {} {} ?s (snd (run_once sample_host sample_draws sample_worker ?s))"
    by (rule platform_step.round) (rule sample_worker_keeps)
  moreover have "settled {sample_done} {} {} (committed_platform ?s)" "settled {sample_done} {} {} (platform_of ?s)"
    by (simp_all add: settled_def ended_job_def sample_done_def)
  ultimately show ?thesis using ended_work_is_final [OF r_into_rtranclp] by blast
qed

theorem fanout_reaches_every_subscription_witness:
  "\<exists>s'. fanout_event sample_draws sample_worker ''e''
       (platform_state (empty_platform\<lparr>pf_events := [sample_outbox], pf_subscriptions := [sample_subscription]\<rparr>)) = (Inr (), s')
     \<and> length (filter (\<lambda>d. delivery_pair d = (''e'', ''u'')) (pf_deliveries (committed_platform s'))) = 1"
proof -
  let ?p = "empty_platform\<lparr>pf_events := [sample_outbox], pf_subscriptions := [sample_subscription]\<rparr>"
  have f: "find_event ''e'' (committed_platform (platform_state ?p)) = Some sample_outbox"
    by (simp add: find_event_def sample_outbox_def)
  have "matched_subscriptions sample_outbox ?p = [sample_subscription]" by code_simp
  then show ?thesis
    using fanout_reaches_every_subscription [OF f, of sample_worker sample_draws]
    by (auto simp: sample_outbox_def sample_worker_def empty_platform_def sample_subscription_def)
qed

lemma sample_enqueue:
  "fst (enqueue_job sample_draws sample_request (platform_state empty_platform)) = Inr (new_job sample_request ''k'' ''x'' 1000 1000)"
  by code_simp

lemma enqueue_is_idempotent_witness:
  "\<exists>r s'. enqueue_job sample_draws sample_request (platform_state empty_platform) = (Inr r, s')
     \<and> enqueue_job sample_draws (sample_request\<lparr>jq_key := ''k'', jq_type := ''other''\<rparr>) s' = (Inr r, s')"
proof -
  obtain s' where s': "enqueue_job sample_draws sample_request (platform_state empty_platform)
      = (Inr (new_job sample_request ''k'' ''x'' 1000 1000), s')"
    using sample_enqueue by (metis prod.collapse)
  have k: "py_strip (jq_key sample_request) = ''k''" "py_strip ''k'' = ''k''" by code_simp+
  from enqueue_is_idempotent [OF s', of "sample_request\<lparr>jq_key := ''k'', jq_type := ''other''\<rparr>" sample_draws] s' k
  show ?thesis by (auto simp: empty_platform_def)
qed


subsection \<open>From an emitted event to a workflow\<close>

lemma stored_no_key: "k \<notin> fst ` set kvs \<Longrightarrow> obj_get k (stored kvs) = None"
  by (force simp: stored_def obj_get_def map_of_eq_None_iff)

lemma bridge_depth: "event_depth (bridge_event m kind eid kid now) = Inr 0"
proof -
  have "event_payload (bridge_event m kind eid kid now) = stored (bridge_envelope m eid)"
    by (simp add: event_payload_def bridge_event_def)
  moreover have "obj_get ''workflow_depth'' (stored (bridge_envelope m eid)) = None"
    by (rule stored_no_key) (simp add: bridge_envelope_def)
  ultimately show ?thesis by (simp add: event_depth_def get_or_def get_or_null_def py_int_def)
qed

lemma in_batch_fires:
  assumes "event_tick H E D s = (Inr n, s')" "kernel_cursor (committed_tables s) = Some c" "cu_created c = Some created"
    and "ed_free E (wf_tick s)" "e \<in> set (pending_batch E created c s)"
  shows "event_keys H E (committed_tables s) e \<subseteq> run_keys (committed_tables s')"
proof -
  have "pending_batch E created c s \<noteq> []" using assms(5) by auto
  from event_tick_fanned [OF assms(1-4) this] assms(5) show ?thesis by (auto simp: fanned_def)
qed

lemma emit_bridges:
  assumes "emit H D m s0 = (Inr row, s1)" "em_bridge m"
  shows "\<exists>kid now. kt_events (kernel_tables_of s1) = kt_events (kernel_tables_of s0)
      @ [bridge_event m (py_lower (py_strip (em_type m))) (oe_id row) kid now]
    \<and> pf_events (platform_of s1) = pf_events (platform_of s0) @ [row] \<and> oe_status row = Event_Pending"
  using assms
  by (auto simp: emit_def Let_def bind_act_def draw_run pput_run on_kernel_def kernel_tables_of_def on_tables_def session_simps
      platform_of_def tables_def on_platform_def new_event_def split: if_splits intro!: exI)


definition sample_emission :: emission where
  "sample_emission = \<lparr>em_tenant = ''t'', em_type = '' Task.Done '', em_source_kind = ''plugin'', em_source = None,
     em_subject_type = None, em_subject = None, em_payload = [], em_trigger = [], em_available = None, em_bridge = True\<rparr>"

lemma sample_emit:
  "case emit sample_host sample_draws sample_emission (platform_state empty_platform) of
     (Inr row, s1) \<Rightarrow> oe_id row = ''x'' \<and> kt_events (kernel_tables_of s1) = [bridge_event sample_emission ''task.done'' ''x'' ''xxx'' 1000]
   | _ \<Rightarrow> False"
  by code_simp

definition emitted :: kernel_event where
  "emitted = bridge_event sample_emission ''task.done'' ''x'' ''xxx'' 1000"

lemma sample_emitted_tick:
  "case event_tick sample_host sample_dispatcher sample_draws (event_state [emitted]) of (Inr n, s') \<Rightarrow> n = 1 | _ \<Rightarrow> False"
  "trigger_matches sample_host emitted sample_trigger" "\<not> starts_with ''workflow.'' (ke_type emitted)"
  by code_simp+


end
