(* ===== verification/Plugin_Quota.thy ===== *)
theory Plugin_Quota
  imports Plugin_State
begin

text \<open>
  Consumption as a quota on a ledger: the buckets are an optimisation of adding up the ledger's
  entries of a window, and \<open>consume\<close> refines the quota that does so.
\<close>

subsection \<open>What is counted and what was used\<close>

definition used :: "host \<Rightarrow> string \<Rightarrow> time \<Rightarrow> int \<Rightarrow> ledger_entry list \<Rightarrow> int" where
  "used H z start window l = sum_list (map lg_quantity (filter (\<lambda>e. window_start H z (lg_recorded e) window = start) l))"

definition entries :: "usage_key \<Rightarrow> 'x platform \<Rightarrow> ledger_entry list" where
  "entries k p = filter (\<lambda>e. lg_key e = k) (pf_ledger p)"

definition counted :: "usage_key \<Rightarrow> time \<Rightarrow> int \<Rightarrow> 'x platform \<Rightarrow> int" where
  "counted k start window p = (case find_bucket k start window p of None \<Rightarrow> 0 | Some b \<Rightarrow> bk_quantity b)"

text \<open>The buckets of a window size agree with the ledger.\<close>

definition metered :: "host \<Rightarrow> string \<Rightarrow> usage_key \<Rightarrow> 'x platform \<Rightarrow> int \<Rightarrow> bool" where
  "metered H z k p window = (\<forall>start. counted k start window p = used H z start window (entries k p))"

text \<open>Others leave the rows of the key alone, whose budgets are locked.\<close>

definition quiet :: "(nat \<Rightarrow> 'x platform \<Rightarrow> 'x platform) \<Rightarrow> usage_key \<Rightarrow> bool" where
  "quiet others k = (\<forall>n p. entries k (others n p) = entries k p
     \<and> (\<forall>start window. find_bucket k start window (others n p) = find_bucket k start window p))"

text \<open>The rows of the key count the same, and no bucket is lost.\<close>

definition same_usage :: "usage_key \<Rightarrow> 'x platform \<Rightarrow> 'x platform \<Rightarrow> bool" where
  "same_usage k p p' = (entries k p' = entries k p \<and> (\<forall>start window. counted k start window p' = counted k start window p
     \<and> (find_bucket k start window p \<noteq> None \<longrightarrow> find_bucket k start window p' \<noteq> None)))"

lemma same_usage_refl: "same_usage k p p" by (simp add: same_usage_def)

lemma same_usage_trans: "same_usage k p q \<Longrightarrow> same_usage k q r \<Longrightarrow> same_usage k p r"
  by (auto simp: same_usage_def)

lemma find_bucket_append:
  "find_bucket k start window (p\<lparr>pf_buckets := pf_buckets p @ [b]\<rparr>) = (case find_bucket k start window p of
     Some x \<Rightarrow> Some x | None \<Rightarrow> if is_bucket k start window b then Some b else None)"
  by (simp add: find_bucket_def find_append split: option.split)

lemma locked_bucket_run:
  assumes "quiet others k"
  shows "\<exists>b s'. locked_bucket others k start window s = (Inr b, s') \<and> bk_quantity b = counted k start window (platform_of s)
    \<and> same_usage k (platform_of s) (platform_of s') \<and> find_bucket k start window (platform_of s') \<noteq> None"
proof (cases "find_bucket k start window (platform_of s)")
  case None
  obtain s1 where s1: "others_commit others s = (Inr (), s1)" "platform_of s1 = others (wf_tick s) (platform_of s)"
    using others_run by blast
  have q: "find_bucket k st w (platform_of s1) = find_bucket k st w (platform_of s)" "entries k (platform_of s1) = entries k (platform_of s)" for st w
    using assms by (simp_all add: quiet_def s1(2))
  let ?c = "\<lparr>bk_key = k, bk_start = start, bk_window = window, bk_quantity = 0\<rparr>"
  let ?s = "on_tables (on_platform (\<lambda>p. p\<lparr>pf_buckets := pf_buckets p @ [?c]\<rparr>)) s1"
  have "locked_bucket others k start window s = (Inr ?c, ?s)"
    using None q(1) [of start window] s1(1) by (simp add: locked_bucket_def bind_act_def pget_run pput_run Let_def)
  then show ?thesis
    using None by (intro exI [of _ ?c] exI [of _ ?s])
      (auto simp: same_usage_def platform_simps counted_def entries_def q(2) [unfolded entries_def] find_bucket_append q(1) is_bucket_def
        split: option.split)
next
  case (Some b)
  then show ?thesis
    by (intro exI [of _ b] exI [of _ s]) (simp add: locked_bucket_def bind_act_def pget_run counted_def same_usage_refl)
qed

subsection \<open>Resolving the windows\<close>

definition fits :: "host \<Rightarrow> string \<Rightarrow> usage_key \<Rightarrow> int \<Rightarrow> time \<Rightarrow> 'x platform \<Rightarrow> budget option \<times> int \<Rightarrow> bool" where
  "fits H z k q now p bw = (case fst bw of None \<Rightarrow> True
     | Some b \<Rightarrow> counted k (window_start H z now (snd bw)) (snd bw) p + q \<le> bg_hard b)"

definition resolution :: "host \<Rightarrow> string \<Rightarrow> usage_key \<Rightarrow> int \<Rightarrow> time \<Rightarrow> 'x platform \<Rightarrow> budget option \<times> int \<Rightarrow> resolved_window" where
  "resolution H z k q now p bw = \<lparr>rw_budget = fst bw, rw_start = window_start H z now (snd bw), rw_window = snd bw,
     rw_projected = counted k (window_start H z now (snd bw)) (snd bw) p + q\<rparr>"

lemma fits_cong: "same_usage k p p' \<Longrightarrow> fits H z k q now p' = fits H z k q now p"
  by (simp add: fits_def same_usage_def fun_eq_iff split: option.split)

lemma resolution_cong: "same_usage k p p' \<Longrightarrow> resolution H z k q now p' = resolution H z k q now p"
  by (simp add: resolution_def same_usage_def fun_eq_iff)

lemma resolve_windows_run:
  assumes "quiet others k"
  shows "\<exists>r s'. resolve_windows H z others k q now ws s = (r, s') \<and> same_usage k (platform_of s) (platform_of s')
    \<and> (if list_all (fits H z k q now (platform_of s)) ws
       then r = Inr (map (resolution H z k q now (platform_of s)) ws)
         \<and> (\<forall>bw \<in> set ws. find_bucket k (window_start H z now (snd bw)) (snd bw) (platform_of s') \<noteq> None)
       else \<exists>m. r = Inl (ResourceBudgetExceeded m))"
proof (induction ws arbitrary: s)
  case Nil
  then show ?case by (simp add: same_usage_refl)
next
  case (Cons bw ws)
  obtain b w where bw: "bw = (b, w)" by fastforce
  let ?st = "window_start H z now w"
  obtain x s1 where l: "locked_bucket others k ?st w s = (Inr x, s1)" "bk_quantity x = counted k ?st w (platform_of s)"
    "same_usage k (platform_of s) (platform_of s1)" "find_bucket k ?st w (platform_of s1) \<noteq> None"
    using locked_bucket_run [OF assms] by blast
  show ?case
  proof (cases "fits H z k q now (platform_of s) bw")
    case False
    then obtain y where y: "b = Some y" "bg_hard y < bk_quantity x + q" by (auto simp: fits_def bw l(2) split: option.splits)
    then have "resolve_windows H z others k q now (bw # ws) s = (Inl (exceeded k (bk_quantity x + q) y), s1)"
      using l(1) by (simp add: bw bind_act_def Let_def)
    then show ?thesis using l(3) False by (auto simp: exceeded_def)
  next
    case True
    obtain r s2 where r: "resolve_windows H z others k q now ws s1 = (r, s2)" "same_usage k (platform_of s1) (platform_of s2)"
      "if list_all (fits H z k q now (platform_of s1)) ws
       then r = Inr (map (resolution H z k q now (platform_of s1)) ws)
         \<and> (\<forall>bw \<in> set ws. find_bucket k (window_start H z now (snd bw)) (snd bw) (platform_of s2) \<noteq> None)
       else \<exists>m. r = Inl (ResourceBudgetExceeded m)"
      using Cons.IH [of s1] by blast
    have st: "same_usage k (platform_of s) (platform_of s2)" using same_usage_trans [OF l(3) r(2)] .
    have "\<not> (case b of None \<Rightarrow> False | Some y \<Rightarrow> bg_hard y < bk_quantity x + q)"
      using True by (auto simp: fits_def bw l(2) split: option.splits)
    then have e: "resolve_windows H z others k q now (bw # ws) s
        = bind_act (resolve_windows H z others k q now ws) (\<lambda>rs. ret (resolution H z k q now (platform_of s) bw # rs)) s1"
      using l(1) by (auto simp: bw Let_def resolution_def l(2) split: option.split)
    have f: "find_bucket k ?st w (platform_of s2) \<noteq> None" using r(2) l(4) by (simp add: same_usage_def)
    show ?thesis
      unfolding e using r st f True fits_cong [OF l(3)] resolution_cong [OF l(3)]
      by (cases r) (auto simp: bind_act_def bw split: if_splits)
  qed
qed

subsection \<open>Charging the buckets\<close>

lemma find_bucket_set:
  "find_bucket k start window (set_bucket k r p) = map_option (\<lambda>b. if start = rw_start r \<and> window = rw_window r
     then b\<lparr>bk_quantity := rw_projected r\<rparr> else b) (find_bucket k start window p)"
proof -
  have "find (is_bucket k start window) (update_where (is_bucket k (rw_start r) (rw_window r)) f xs)
    = map_option (\<lambda>b. if start = rw_start r \<and> window = rw_window r then f b else b) (find (is_bucket k start window) xs)"
    if "\<And>b. bk_key (f b) = bk_key b \<and> bk_start (f b) = bk_start b \<and> bk_window (f b) = bk_window b" for f xs
    by (induction xs) (auto simp: is_bucket_def that)
  then show ?thesis by (simp add: find_bucket_def set_bucket_def)
qed

lemma entries_set [simp]: "entries k (set_bucket j r p) = entries k p"
  by (simp add: entries_def set_bucket_def)

lemma set_buckets_run:
  "\<exists>s'. for_each (\<lambda>r. pput (set_bucket k r)) rs s = (Inr (), s') \<and> platform_of s' = fold (set_bucket k) rs (platform_of s)"
proof (induction rs arbitrary: s)
  case (Cons r rs)
  from Cons.IH [of "on_tables (on_platform (set_bucket k r)) s"] show ?case
    by (simp add: bind_act_def pput_run platform_simps)
qed simp

lemma fold_set_buckets:
  assumes "distinct (map rw_window rs)" "\<forall>r \<in> set rs. find_bucket k (rw_start r) (rw_window r) p \<noteq> None"
  shows "entries k (fold (set_bucket k) rs p) = entries k p
    \<and> (\<forall>r \<in> set rs. counted k (rw_start r) (rw_window r) (fold (set_bucket k) rs p) = rw_projected r)
    \<and> (\<forall>start window. (\<forall>r \<in> set rs. rw_start r = start \<longrightarrow> rw_window r \<noteq> window)
         \<longrightarrow> counted k start window (fold (set_bucket k) rs p) = counted k start window p)"
  using assms
proof (induction rs arbitrary: p)
  case (Cons r rs)
  let ?p = "set_bucket k r p"
  have "\<forall>q \<in> set rs. find_bucket k (rw_start q) (rw_window q) ?p \<noteq> None" using Cons.prems(2) by (simp add: find_bucket_set)
  note IH = Cons.IH [OF _ this]
  have "counted k (rw_start r) (rw_window r) ?p = rw_projected r"
    using Cons.prems(2) by (auto simp: counted_def find_bucket_set)
  moreover have "counted k start window ?p = counted k start window p" if "rw_start r = start \<longrightarrow> rw_window r \<noteq> window" for start window
    using that by (auto simp: counted_def find_bucket_set split: option.split)
  moreover have "counted k (rw_start r) (rw_window r) (fold (set_bucket k) rs ?p) = counted k (rw_start r) (rw_window r) ?p"
    using IH Cons.prems(1) by (metis (no_types, lifting) distinct.simps(2) imageI list.set_map list.simps(9))
  ultimately show ?case using IH Cons.prems(1) by (auto simp: image_iff)
qed simp

lemma entries_append:
  "entries k (p\<lparr>pf_ledger := pf_ledger p @ [e]\<rparr>) = entries k p @ (if lg_key e = k then [e] else [])"
  by (simp add: entries_def)

lemma counted_ledger [simp]: "counted k start window (p\<lparr>pf_ledger := l\<rparr>) = counted k start window p"
  by (simp add: counted_def find_bucket_def)

subsection \<open>Refinement\<close>

text \<open>
  The abstract quota keeps the ledger of a key only: a use is entered when no enabled budget would be
  exceeded by what the ledger records in its window.
\<close>

definition quota :: "host \<Rightarrow> string \<Rightarrow> budget list \<Rightarrow> ledger_entry \<Rightarrow> ledger_entry list \<Rightarrow> ledger_entry list option" where
  "quota H z bs e l =
     (if list_all (\<lambda>b. used H z (window_start H z (lg_recorded e) (bg_window b)) (bg_window b) (l @ [e]) \<le> bg_hard b) bs
      then Some (l @ [e]) else None)"

lemma used_append:
  "used H z start window (l @ [e]) = used H z start window l
     + (if window_start H z (lg_recorded e) window = start then lg_quantity e else 0)"
  by (simp add: used_def)

text \<open>What consuming does, with the windows of the enabled budgets resolved and charged.\<close>

definition charged :: "host \<Rightarrow> string \<Rightarrow> usage_key \<Rightarrow> int \<Rightarrow> time \<Rightarrow> (budget option \<times> int) list \<Rightarrow> 'x platform \<Rightarrow> 'x platform \<Rightarrow> bool" where
  "charged H z k q now ws p p' = (\<forall>start window. counted k start window p' = counted k start window p
     + (if window \<in> snd ` set ws \<and> window_start H z now window = start then q else 0))"

lemma charge_windows:
  assumes "distinct (map snd ws)" "same_usage k p p1"
    and "\<forall>bw \<in> set ws. find_bucket k (window_start H z now (snd bw)) (snd bw) p1 \<noteq> None"
  shows "entries k (fold (set_bucket k) (map (resolution H z k q now p) ws) p1) = entries k p
    \<and> charged H z k q now ws p (fold (set_bucket k) (map (resolution H z k q now p) ws) p1)"
proof -
  let ?rs = "map (resolution H z k q now p) ws"
  let ?p = "fold (set_bucket k) ?rs p1"
  have "distinct (map rw_window ?rs)" using assms(1) by (simp add: resolution_def o_def)
  moreover have "\<forall>r \<in> set ?rs. find_bucket k (rw_start r) (rw_window r) p1 \<noteq> None"
    using assms(3) by (simp add: resolution_def)
  ultimately have f: "entries k ?p = entries k p1"
    "\<And>bw. bw \<in> set ws \<Longrightarrow> counted k (window_start H z now (snd bw)) (snd bw) ?p = counted k (window_start H z now (snd bw)) (snd bw) p + q"
    "\<And>start window. (\<forall>bw \<in> set ws. window_start H z now (snd bw) = start \<longrightarrow> snd bw \<noteq> window) \<Longrightarrow> counted k start window ?p = counted k start window p1"
    using fold_set_buckets [of ?rs k p1] by (simp_all add: resolution_def)
  have "counted k start window ?p = counted k start window p + (if window \<in> snd ` set ws \<and> window_start H z now window = start then q else 0)"
    for start window
  proof (cases "window \<in> snd ` set ws \<and> window_start H z now window = start")
    case True
    with f(2) show ?thesis by auto
  next
    case False
    then have "counted k start window ?p = counted k start window p1" by (intro f(3)) force
    with False assms(2) show ?thesis unfolding same_usage_def by auto
  qed
  with f(1) assms(2) show ?thesis by (simp add: charged_def same_usage_def)
qed

lemma consume_run:
  fixes s :: "'x platform wf_state" and D :: draws and k :: usage_key
  defines "p \<equiv> platform_of s" and "now \<equiv> now_at D (wf_tick s)"
  defines "ws \<equiv> budget_windows (enabled_budgets k p)"
  assumes "quiet others k" "0 < q" "distinct (map snd ws)"
  shows "\<exists>r s'. consume H z D others k q kind ref s = (r, s')
    \<and> (if list_all (fits H z k q now p) ws
       then (\<exists>c. r = Inr c) \<and> entries k (platform_of s') = entries k p @ [\<lparr>lg_key = k, lg_quantity = q, lg_reference_kind = kind,
            lg_reference = ref, lg_recorded = now\<rparr>] \<and> charged H z k q now ws p (platform_of s')
       else (\<exists>m. r = Inl (ResourceBudgetExceeded m)) \<and> same_usage k p (platform_of s'))"
proof -
  define e where "e = \<lparr>lg_key = k, lg_quantity = q, lg_reference_kind = kind, lg_reference = ref, lg_recorded = now\<rparr>"
  define s0 where "s0 = s\<lparr>wf_tick := Suc (wf_tick s)\<rparr>"
  have p0: "platform_of s0 = p" by (simp add: s0_def p_def platform_simps)
  obtain r s1 where r: "resolve_windows H z others k q now ws s0 = (r, s1)" "same_usage k p (platform_of s1)"
    "if list_all (fits H z k q now p) ws
     then r = Inr (map (resolution H z k q now p) ws)
       \<and> (\<forall>bw \<in> set ws. find_bucket k (window_start H z now (snd bw)) (snd bw) (platform_of s1) \<noteq> None)
     else \<exists>m. r = Inl (ResourceBudgetExceeded m)"
    using resolve_windows_run [OF assms(4), of H z q now ws s0] p0 by metis
  have run: "consume H z D others k q kind ref s = bind_act (resolve_windows H z others k q now ws) (\<lambda>resolved.
      bind_act (for_each (\<lambda>r. pput (set_bucket k r)) resolved) (\<lambda>_.
      bind_act (pput (\<lambda>p. p\<lparr>pf_ledger := pf_ledger p @ [e]\<rparr>)) (\<lambda>_. ret (consumption_of q (hd resolved))))) s0"
    using assms(5) by (simp add: consume_def bind_act_def draw_run pget_run now_def ws_def p_def p0 [unfolded p_def] e_def flip: s0_def)
  show ?thesis
  proof (cases "list_all (fits H z k q now p) ws")
    case False
    with r show ?thesis unfolding run by (auto simp: bind_act_def)
  next
    case True
    let ?rs = "map (resolution H z k q now p) ws"
    have w: "r = Inr ?rs" "\<forall>bw \<in> set ws. find_bucket k (window_start H z now (snd bw)) (snd bw) (platform_of s1) \<noteq> None"
      using r(3) True by simp_all
    obtain s2 where s2: "for_each (\<lambda>r. pput (set_bucket k r)) ?rs s1 = (Inr (), s2)"
      "platform_of s2 = fold (set_bucket k) ?rs (platform_of s1)" using set_buckets_run by blast
    let ?s = "on_tables (on_platform (\<lambda>p. p\<lparr>pf_ledger := pf_ledger p @ [e]\<rparr>)) s2"
    have "consume H z D others k q kind ref s = (Inr (consumption_of q (hd ?rs)), ?s)"
      unfolding run using r(1) w(1) s2(1) by (simp add: bind_act_def pput_run)
    with True charge_windows [OF assms(6) r(2) w(2)] show ?thesis
      by (auto simp: platform_simps s2(2) entries_append charged_def e_def)
  qed
qed

lemma charged_metered:
  assumes "charged H z k q now ws p p'" "metered H z k p window" "window \<in> snd ` set ws"
    and "entries k p' = entries k p @ [e]" "lg_quantity e = q" "lg_recorded e = now"
  shows "metered H z k p' window"
  using assms by (auto simp: charged_def metered_def used_append)


subsection \<open>A sample budget\<close>

definition sample_key :: usage_key where
  "sample_key = \<lparr>uk_tenant = ''t'', uk_kind = ''plugin'', uk_subject = ''p'', uk_metric = ''egress''\<rparr>"

definition sample_budget_state :: "unit platform wf_state" where
  "sample_budget_state = platform_state (empty_platform\<lparr>pf_budgets := [\<lparr>bg_key = sample_key, bg_window = 3600,
     bg_hard = 5, bg_soft = None, bg_enabled = True\<rparr>]\<rparr>)"

lemma sample_budget_facts:
  "platform_of sample_budget_state = empty_platform\<lparr>pf_budgets := [\<lparr>bg_key = sample_key, bg_window = 3600,
     bg_hard = 5, bg_soft = None, bg_enabled = True\<rparr>]\<rparr>"
  "enabled_budgets sample_key (platform_of sample_budget_state) = [\<lparr>bg_key = sample_key, bg_window = 3600,
     bg_hard = 5, bg_soft = None, bg_enabled = True\<rparr>]"
  "entries sample_key (platform_of sample_budget_state) = []"
  "metered H z sample_key (platform_of sample_budget_state) w"
  by (simp_all add: sample_budget_state_def enabled_budgets_def entries_def metered_def counted_def find_bucket_def
      used_def empty_platform_def)


end
