(* ===== verification/Spec2Isabelle.thy ===== *)
theory Spec2Isabelle
  imports Wf_Schedule Personal_Authority Wf_Completion Wf_Firing Wf_Contract Agent_Recovery Agent_Runs Plugin_Services Plugin_Quota
begin
text \<open>Header to come.\<close>
end
